(* ===== verification/Prelude.thy ===== *)
theory Prelude
  imports Main "HOL-Library.Word" "HOL-Library.State_Monad" "HOL-Library.Signed_Division" "HOL-Library.Multiset"
begin

text \<open>
  Shared vocabulary of the development: the fixed-width integers of the C++ sources, bit-field
  access (the \<^verbatim>\<open>struct bits\<close> views of the unions in \<^verbatim>\<open>riscv-isa.h\<close>), the three state
  operations the models are written with, and the generic lemmas on words that every
  component uses.
\<close>

unbundle bit_operations_syntax

type_synonym u8 = "8 word"
type_synonym u16 = "16 word"
type_synonym u32 = "32 word"
type_synonym u64 = "64 word"

named_theorems fields \<open>selectors of the instruction formats\<close>
named_theorems cpu_ops \<open>what the primitive operations of the CPU do to its state\<close>
named_theorems exec_defs \<open>unfolding of the instruction classes\<close>

section \<open>State operations\<close>

definition gets :: "('s \<Rightarrow> 'a) \<Rightarrow> ('s, 'a) state" where
  "gets f = State (\<lambda>s. (f s, s))"

definition modify :: "('s \<Rightarrow> 's) \<Rightarrow> ('s, unit) state" where
  "modify f = State (\<lambda>s. ((), f s))"

definition whenM :: "bool \<Rightarrow> ('s, unit) state \<Rightarrow> ('s, unit) state" where
  "whenM b m = (if b then m else State_Monad.return ())"

abbreviation returnM :: "'a \<Rightarrow> ('s, 'a) state" where
  "returnM \<equiv> State_Monad.return"

lemma run_gets [simp]: "run_state (gets f) s = (f s, s)"
  by (simp add: gets_def)

lemma run_modify [simp]: "run_state (modify f) s = ((), f s)"
  by (simp add: modify_def)

lemma run_whenM [simp]: "run_state (whenM b m) s = (if b then run_state m s else ((), s))"
  by (simp add: whenM_def)

lemma run_if [simp]:
  "run_state (if b then m else n) s = (if b then run_state m s else run_state n s)"
  by simp

lemma run_let [simp]: "run_state (Let x f) s = run_state (f x) s"
  by simp

lemma run_case_prod [simp]:
  "run_state (case p of (a, b) \<Rightarrow> f a b) s = (case p of (a, b) \<Rightarrow> run_state (f a b) s)"
  by (cases p) simp

text \<open>
  A predicate on states that a computation keeps. The rules below take a computation apart
  the way the code composes it, so an invariant is proved once per primitive operation.
\<close>

definition keeps :: "('s \<Rightarrow> bool) \<Rightarrow> ('s, 'a) state \<Rightarrow> bool" where
  "keeps P m \<longleftrightarrow> (\<forall>s. P s \<longrightarrow> P (snd (run_state m s)))"

named_theorems keeps_intros \<open>which operations keep which invariant\<close>

lemma keepsI: "(\<And>s. P s \<Longrightarrow> P (snd (run_state m s))) \<Longrightarrow> keeps P m"
  by (simp add: keeps_def)

lemma keepsD: "keeps P m \<Longrightarrow> P s \<Longrightarrow> P (snd (run_state m s))"
  by (simp add: keeps_def)

lemma keeps_return [keeps_intros, intro]: "keeps P (returnM x)"
  by (simp add: keeps_def)

lemma keeps_gets [keeps_intros, intro]: "keeps P (gets f)"
  by (simp add: keeps_def)

lemma keeps_bind [keeps_intros]:
  "keeps P m \<Longrightarrow> (\<And>a. keeps P (f a)) \<Longrightarrow> keeps P (State_Monad.bind m f)"
  by (auto simp: keeps_def split: prod.split)

lemma keeps_if [keeps_intros]:
  "(b \<Longrightarrow> keeps P m) \<Longrightarrow> (\<not> b \<Longrightarrow> keeps P n) \<Longrightarrow> keeps P (if b then m else n)"
  by simp

lemma keeps_whenM [keeps_intros]: "(b \<Longrightarrow> keeps P m) \<Longrightarrow> keeps P (whenM b m)"
  by (simp add: whenM_def keeps_return)

lemma keeps_modify: "(\<And>s. P s \<Longrightarrow> P (f s)) \<Longrightarrow> keeps P (modify f)"
  by (simp add: keeps_def)

lemma keeps_let [keeps_intros]: "keeps P (f x) \<Longrightarrow> keeps P (let y = x in f y)"
  by (simp add: Let_def)

lemma keeps_case_prod [keeps_intros]:
  "(\<And>a b. keeps P (f a b)) \<Longrightarrow> keeps P (case x of (a, b) \<Rightarrow> f a b)"
  by (cases x) simp

section \<open>Bit-fields\<close>

definition bitfield :: "nat \<Rightarrow> nat \<Rightarrow> 'a::len word \<Rightarrow> 'a word" where
  "bitfield lo n w = take_bit n (drop_bit lo w)"

definition set_bitfield :: "nat \<Rightarrow> nat \<Rightarrow> 'a::len word \<Rightarrow> 'a word \<Rightarrow> 'a word" where
  "set_bitfield lo n v w = (w AND NOT (push_bit lo (mask n))) OR push_bit lo (take_bit n v)"

lemma bit_bitfield [bit_simps]:
  "bit (bitfield lo n w) i \<longleftrightarrow> i < n \<and> bit w (lo + i)"
  by (auto simp: bitfield_def bit_simps ac_simps)

lemma bit_set_bitfield [bit_simps]:
  "bit (set_bitfield lo n v (w :: 'a::len word)) i \<longleftrightarrow>
     i < LENGTH('a) \<and> (if lo \<le> i \<and> i < lo + n then bit v (i - lo) else bit w i)"
  by (auto simp: set_bitfield_def bit_simps)

lemma bitfield_lt: "n < LENGTH('a) \<Longrightarrow> unat (bitfield lo n (w :: 'a::len word)) < 2 ^ n"
  by (simp add: bitfield_def unsigned_take_bit_eq)

lemma bitfield_1: "bitfield lo 1 w = (if bit w lo then 1 else 0)"
  by (rule bit_word_eqI) (auto simp: bit_bitfield bit_1_iff)

lemma bitfield_bit [simp]:
  "bitfield lo (Suc 0) w = 0 \<longleftrightarrow> \<not> bit w lo" "bitfield lo (Suc 0) w = 1 \<longleftrightarrow> bit w lo"
  using bitfield_1 [of lo w] by simp_all

lemma bitfield_eq_0_iff: "bitfield lo 1 w = 0 \<longleftrightarrow> \<not> bit w lo"
  by simp

lemma bitfield_set_same:
  "lo + n \<le> LENGTH('a) \<Longrightarrow> bitfield lo n (set_bitfield lo n v (w :: 'a::len word)) = take_bit n v"
  by (rule bit_word_eqI) (auto simp: bit_simps)

lemma bitfield_set_other:
  "lo + n \<le> lo' \<or> lo' + n' \<le> lo \<Longrightarrow>
     bitfield lo n (set_bitfield lo' n' v (w :: 'a::len word)) = bitfield lo n w"
  by (rule bit_word_eqI) (auto simp: bit_simps dest: bit_imp_le_length)

section \<open>Unordered removal\<close>

text \<open>The removal used by the clock queue and by \<^verbatim>\<open>AttributeType::remove_from_list\<close>, of entry \<open>i\<close>: the last entry replaces it, unless it is the last itself.\<close>

definition swap_remove :: "nat \<Rightarrow> 'a list \<Rightarrow> 'a list" where
  "swap_remove i xs =
     butlast (if i < length xs - 1 then xs[i := last xs] else xs)"

lemma swap_remove_last: "swap_remove (length xs) (xs @ [y]) = xs"
  by (simp add: swap_remove_def)

lemma swap_remove_inner: "i < length xs \<Longrightarrow> swap_remove i (xs @ [y]) = xs[i := y]"
  by (simp add: swap_remove_def list_update_append butlast_append)

lemma swap_remove_cases:
  assumes "i < length xs"
  obtains ys y where "xs = ys @ [y]" and "i = length ys" and "swap_remove i xs = ys"
  | ys y where "xs = ys @ [y]" and "i < length ys" and "swap_remove i xs = ys[i := y]"
proof -
  from assms obtain ys y where xs: "xs = ys @ [y]" by (cases xs rule: rev_cases) auto
  show thesis
  proof (cases "i < length ys")
    case True
    then show ?thesis using that(2) [OF xs] xs by (simp add: swap_remove_inner)
  next
    case False
    with assms xs have "i = length ys" by simp
    then show ?thesis using that(1) [OF xs] xs by (simp add: swap_remove_last)
  qed
qed

lemma mset_swap_remove:
  assumes "i < length xs"
  shows "mset xs = add_mset (xs ! i) (mset (swap_remove i xs))"
  using assms
proof (cases rule: swap_remove_cases)
  case (2 ys y)
  then show ?thesis
    by (simp add: nth_append mset_update)
qed (simp add: nth_append)

lemma length_swap_remove: "i < length xs \<Longrightarrow> length (swap_remove i xs) = length xs - 1"
  by (simp add: swap_remove_def)

lemma take_swap_remove:
  assumes "i < length xs"
  shows "take i (swap_remove i xs) = take i xs"
  using assms by (cases rule: swap_remove_cases) auto

end
