(* ===== verification/Riscv_ISA.thy ===== *)
theory Riscv_ISA
  imports Prelude
begin

text \<open>
  The data formats shared by the functional RISC-V model: the instruction-format unions and the
  CSR unions of \<^verbatim>\<open>src/debugger/src/common/riscv-isa.h\<close>, the sign-extension constants of
  \<^verbatim>\<open>api_types.h\<close>, and the register, exception and CSR numbers of
  \<^verbatim>\<open>coreservices/icpuriscv.h\<close>. A field of a union is a function of the raw value; a field used
  as an array index is a \<^typ>\<open>nat\<close>, a field used in arithmetic keeps the 64 bits it is widened to.
\<close>

section \<open>Constants\<close>

abbreviation (input) EXT_SIGN_6 :: u64 where "EXT_SIGN_6 \<equiv> 0xFFFFFFFFFFFFFFE0"
abbreviation (input) EXT_SIGN_8 :: u64 where "EXT_SIGN_8 \<equiv> 0xFFFFFFFFFFFFFF80"
abbreviation (input) EXT_SIGN_9 :: u64 where "EXT_SIGN_9 \<equiv> 0xFFFFFFFFFFFFFF00"
abbreviation (input) EXT_SIGN_11 :: u64 where "EXT_SIGN_11 \<equiv> 0xFFFFFFFFFFFFF800"
abbreviation (input) EXT_SIGN_12 :: u64 where "EXT_SIGN_12 \<equiv> 0xFFFFFFFFFFFFF000"
abbreviation (input) EXT_SIGN_16 :: u64 where "EXT_SIGN_16 \<equiv> 0xFFFFFFFFFFFF0000"
abbreviation (input) EXT_SIGN_32 :: u64 where "EXT_SIGN_32 \<equiv> 0xFFFFFFFF00000000"

abbreviation (input) Reg_ra :: nat where "Reg_ra \<equiv> 1"
abbreviation (input) Reg_sp :: nat where "Reg_sp \<equiv> 2"

abbreviation (input) PRV_U :: u64 where "PRV_U \<equiv> 0"
abbreviation (input) PRV_S :: u64 where "PRV_S \<equiv> 1"
abbreviation (input) PRV_M :: u64 where "PRV_M \<equiv> 3"

text \<open>The exception numbers (\<^verbatim>\<open>enum EExceptions\<close>).\<close>

abbreviation (input) EXCEPTION_InstrFault :: nat where "EXCEPTION_InstrFault \<equiv> 1"
abbreviation (input) EXCEPTION_InstrIllegal :: nat where "EXCEPTION_InstrIllegal \<equiv> 2"
abbreviation (input) EXCEPTION_Breakpoint :: nat where "EXCEPTION_Breakpoint \<equiv> 3"
abbreviation (input) EXCEPTION_LoadMisalign :: nat where "EXCEPTION_LoadMisalign \<equiv> 4"
abbreviation (input) EXCEPTION_LoadFault :: nat where "EXCEPTION_LoadFault \<equiv> 5"
abbreviation (input) EXCEPTION_StoreMisalign :: nat where "EXCEPTION_StoreMisalign \<equiv> 6"
abbreviation (input) EXCEPTION_StoreFault :: nat where "EXCEPTION_StoreFault \<equiv> 7"
abbreviation (input) EXCEPTION_CallFromUmode :: nat where "EXCEPTION_CallFromUmode \<equiv> 8"
abbreviation (input) EXCEPTION_CallFromMmode :: nat where "EXCEPTION_CallFromMmode \<equiv> 11"
abbreviation (input) EXCEPTION_StackOverflow :: nat where "EXCEPTION_StackOverflow \<equiv> 16"
abbreviation (input) EXCEPTION_StackUnderflow :: nat where "EXCEPTION_StackUnderflow \<equiv> 17"

text \<open>The CSR numbers the functional model names.\<close>

abbreviation (input) CSR_uepc :: nat where "CSR_uepc \<equiv> 0x041"
abbreviation (input) CSR_sepc :: nat where "CSR_sepc \<equiv> 0x141"
abbreviation (input) CSR_satp :: nat where "CSR_satp \<equiv> 0x180"
abbreviation (input) CSR_mstatus :: nat where "CSR_mstatus \<equiv> 0x300"
abbreviation (input) CSR_misa :: nat where "CSR_misa \<equiv> 0x301"
abbreviation (input) CSR_mie :: nat where "CSR_mie \<equiv> 0x304"
abbreviation (input) CSR_mtvec :: nat where "CSR_mtvec \<equiv> 0x305"
abbreviation (input) CSR_mepc :: nat where "CSR_mepc \<equiv> 0x341"
abbreviation (input) CSR_mcause :: nat where "CSR_mcause \<equiv> 0x342"
abbreviation (input) CSR_mtval :: nat where "CSR_mtval \<equiv> 0x343"
abbreviation (input) CSR_mip :: nat where "CSR_mip \<equiv> 0x344"
abbreviation (input) CSR_pmpcfg0 :: nat where "CSR_pmpcfg0 \<equiv> 0x3A0"
abbreviation (input) CSR_pmpcfg15 :: nat where "CSR_pmpcfg15 \<equiv> 0x3AF"
abbreviation (input) CSR_pmpaddr0 :: nat where "CSR_pmpaddr0 \<equiv> 0x3B0"
abbreviation (input) CSR_tselect :: nat where "CSR_tselect \<equiv> 0x7A0"
abbreviation (input) CSR_tdata1 :: nat where "CSR_tdata1 \<equiv> 0x7A1"
abbreviation (input) CSR_tdata2 :: nat where "CSR_tdata2 \<equiv> 0x7A2"
abbreviation (input) CSR_textra :: nat where "CSR_textra \<equiv> 0x7A3"
abbreviation (input) CSR_tinfo :: nat where "CSR_tinfo \<equiv> 0x7A4"
abbreviation (input) CSR_dcsr :: nat where "CSR_dcsr \<equiv> 0x7B0"
abbreviation (input) CSR_dpc :: nat where "CSR_dpc \<equiv> 0x7B1"
abbreviation (input) CSR_flushi :: nat where "CSR_flushi \<equiv> 0x800"
abbreviation (input) CSR_mcycle :: nat where "CSR_mcycle \<equiv> 0xB00"
abbreviation (input) CSR_minsret :: nat where "CSR_minsret \<equiv> 0xB02"
abbreviation (input) CSR_mstackovr :: nat where "CSR_mstackovr \<equiv> 0xBC0"
abbreviation (input) CSR_mstackund :: nat where "CSR_mstackund \<equiv> 0xBC1"
abbreviation (input) CSR_cycle :: nat where "CSR_cycle \<equiv> 0xC00"
abbreviation (input) CSR_time :: nat where "CSR_time \<equiv> 0xC01"
abbreviation (input) CSR_insret :: nat where "CSR_insret \<equiv> 0xC02"
abbreviation (input) CSR_mvendorid :: nat where "CSR_mvendorid \<equiv> 0xF11"
abbreviation (input) CSR_marchid :: nat where "CSR_marchid \<equiv> 0xF12"
abbreviation (input) CSR_mimplementationid :: nat where "CSR_mimplementationid \<equiv> 0xF13"
abbreviation (input) CSR_mhartid :: nat where "CSR_mhartid \<equiv> 0xF14"

section \<open>32-bit instruction formats\<close>

definition ISA_rd :: "u32 \<Rightarrow> nat" where "ISA_rd u = unat (bitfield 7 5 u)"
definition ISA_rs1 :: "u32 \<Rightarrow> nat" where "ISA_rs1 u = unat (bitfield 15 5 u)"
definition ISA_rs2 :: "u32 \<Rightarrow> nat" where "ISA_rs2 u = unat (bitfield 20 5 u)"

text \<open>\<open>ISA_I_type.imm\<close> and the offset the sources form from it: 12 bits, sign-extended.\<close>

definition ISA_I_imm :: "u32 \<Rightarrow> u64" where "ISA_I_imm u = ucast (bitfield 20 12 u)"

definition sext_imm12 :: "u64 \<Rightarrow> u64" where
  "sext_imm12 imm = (if imm AND 0x800 \<noteq> 0 then imm OR EXT_SIGN_12 else imm)"

definition ISA_S_off :: "u32 \<Rightarrow> u64" where
  "ISA_S_off u = (push_bit 5 (ucast (bitfield 25 7 u))) OR ucast (bitfield 7 5 u)"

definition ISA_SB_off :: "u32 \<Rightarrow> u64" where
  "ISA_SB_off u =
    (let imm12 = bitfield 31 1 u; imm11 = bitfield 7 1 u;
         imm10_5 = bitfield 25 6 u; imm4_1 = bitfield 8 4 u;
         imm = ucast (push_bit 12 imm12 OR push_bit 11 imm11 OR push_bit 5 imm10_5
                      OR push_bit 1 imm4_1)
     in if imm12 \<noteq> 0 then imm OR EXT_SIGN_12 else imm)"

text \<open>
  The 20-bit field is promoted to \<^verbatim>\<open>int\<close> before the shift, so the shifted value is a signed
  32-bit number when it is widened.
\<close>

definition ISA_U_off :: "u32 \<Rightarrow> u64" where
  "ISA_U_off u =
    (let off = scast (push_bit 12 (bitfield 12 20 u)) :: u64
     in if off AND 0x80000000 \<noteq> 0 then off OR EXT_SIGN_32 else off)"

definition ISA_UJ_off :: "u32 \<Rightarrow> u64" where
  "ISA_UJ_off u =
    (let off = (if bitfield 31 1 u \<noteq> 0 then 0xfffffffffff00000 else 0) :: u64
     in off OR ucast (push_bit 12 (bitfield 12 8 u)) OR ucast (push_bit 11 (bitfield 20 1 u))
            OR ucast (push_bit 1 (bitfield 21 10 u)))"

text \<open>Narrowing to 32 bits and sign-extending, the way the \<open>W\<close> instructions do it.\<close>

definition sext32 :: "u64 \<Rightarrow> u64" where
  "sext32 v = (let res = v AND 0xFFFFFFFF
               in if res AND 0x80000000 \<noteq> 0 then res OR EXT_SIGN_32 else res)"

section \<open>16-bit instruction formats\<close>

definition CR_rs2 :: "u16 \<Rightarrow> nat" where "CR_rs2 u = unat (bitfield 2 5 u)"
definition CR_rdrs1 :: "u16 \<Rightarrow> nat" where "CR_rdrs1 u = unat (bitfield 7 5 u)"

text \<open>\<open>ISA_CL_type\<close>, \<open>ISA_CS_type\<close> and \<open>ISA_CB_type\<close>: three-bit register numbers.\<close>

definition C_lo :: "u16 \<Rightarrow> nat" where "C_lo u = unat (bitfield 2 3 u)"
definition C_hi :: "u16 \<Rightarrow> nat" where "C_hi u = unat (bitfield 7 3 u)"

text \<open>\<open>ISA_CI_type\<close>: the six-bit immediate; \<open>imm6\<close> is its sign.\<close>

definition CI_imm :: "u16 \<Rightarrow> u64" where
  "CI_imm u = (let imm = ucast (bitfield 2 5 u)
               in if bitfield 12 1 u \<noteq> 0 then imm OR EXT_SIGN_6 else imm)"

definition CI_sp_imm :: "u16 \<Rightarrow> u64" where
  "CI_sp_imm u =
    (let imm = ucast (push_bit 3 (bitfield 3 2 u) OR push_bit 2 (bitfield 5 1 u)
                      OR push_bit 1 (bitfield 2 1 u) OR bitfield 6 1 u) :: u64;
         imm = (if bitfield 12 1 u \<noteq> 0 then imm OR EXT_SIGN_6 else imm)
     in push_bit 4 imm)"

definition CI_ldsp_off :: "u16 \<Rightarrow> u64" where
  "CI_ldsp_off u =
     push_bit 3 (ucast (push_bit 3 (bitfield 2 3 u) OR push_bit 2 (bitfield 12 1 u)
                        OR bitfield 5 2 u))"

definition CI_lwsp_off :: "u16 \<Rightarrow> u64" where
  "CI_lwsp_off u =
     push_bit 2 (ucast (push_bit 4 (bitfield 2 2 u) OR push_bit 3 (bitfield 12 1 u)
                        OR bitfield 4 3 u))"

definition CSS_d_off :: "u16 \<Rightarrow> u64" where
  "CSS_d_off u = push_bit 3 (ucast (push_bit 3 (bitfield 7 3 u) OR bitfield 10 3 u))"

definition CSS_w_off :: "u16 \<Rightarrow> u64" where
  "CSS_w_off u = push_bit 2 (ucast (push_bit 4 (bitfield 7 2 u) OR bitfield 9 4 u))"

definition CIW_imm :: "u16 \<Rightarrow> u64" where
  "CIW_imm u =
     push_bit 2 (ucast (push_bit 4 (bitfield 7 4 u) OR push_bit 2 (bitfield 11 2 u)
                        OR push_bit 1 (bitfield 5 1 u) OR bitfield 6 1 u))"

definition CL_d_off :: "u16 \<Rightarrow> u64" where
  "CL_d_off u =
     push_bit 3 (ucast (push_bit 4 (bitfield 6 1 u) OR push_bit 3 (bitfield 5 1 u)
                        OR bitfield 10 3 u))"

definition CL_w_off :: "u16 \<Rightarrow> u64" where
  "CL_w_off u =
     push_bit 2 (ucast (push_bit 4 (bitfield 5 1 u) OR push_bit 1 (bitfield 10 3 u)
                        OR bitfield 6 1 u))"

definition CB_off :: "u16 \<Rightarrow> u64" where
  "CB_off u =
    (let imm = push_bit 1 (ucast (push_bit 5 (bitfield 5 2 u) OR push_bit 4 (bitfield 2 1 u)
                        OR push_bit 2 (bitfield 10 2 u) OR bitfield 3 2 u))
     in if bitfield 12 1 u \<noteq> 0 then imm OR EXT_SIGN_9 else imm)"

definition CB_shamt :: "u16 \<Rightarrow> nat" where
  "CB_shamt u = unat (push_bit 5 (bitfield 12 1 u) OR bitfield 2 5 u)"

definition CJ_off :: "u16 \<Rightarrow> u64" where
  "CJ_off u =
    (let off = push_bit 1 (ucast (push_bit 9 (bitfield 8 1 u) OR push_bit 7 (bitfield 9 2 u)
                        OR push_bit 6 (bitfield 6 1 u) OR push_bit 5 (bitfield 7 1 u)
                        OR push_bit 4 (bitfield 2 1 u) OR push_bit 3 (bitfield 11 1 u)
                        OR bitfield 3 3 u))
     in if bitfield 12 1 u \<noteq> 0 then off OR EXT_SIGN_11 else off)"

lemmas [fields] = ISA_rd_def ISA_rs1_def ISA_rs2_def ISA_I_imm_def ISA_S_off_def ISA_SB_off_def
  ISA_U_off_def ISA_UJ_off_def CR_rs2_def CR_rdrs1_def C_lo_def C_hi_def CI_imm_def CI_sp_imm_def
  CI_ldsp_off_def CI_lwsp_off_def CSS_d_off_def CSS_w_off_def CIW_imm_def CL_d_off_def
  CL_w_off_def CB_off_def CB_shamt_def CJ_off_def

section \<open>What the immediates denote\<close>

lemma ext_sign_masks:
  "EXT_SIGN_6 = NOT (mask 5)" "EXT_SIGN_8 = NOT (mask 7)" "EXT_SIGN_9 = NOT (mask 8)"
  "EXT_SIGN_11 = NOT (mask 11)" "EXT_SIGN_12 = NOT (mask 12)" "EXT_SIGN_16 = NOT (mask 16)"
  "EXT_SIGN_32 = NOT (mask 32)"
  by (simp_all add: mask_numeral)

lemma and_bit_tests:
  "(w :: u64) AND 0x800 = 0 \<longleftrightarrow> \<not> bit w 11"
  "w AND 0x80000000 = 0 \<longleftrightarrow> \<not> bit w 31"
  "w AND 0x8000 = 0 \<longleftrightarrow> \<not> bit w 15"
  "w AND 0x80 = 0 \<longleftrightarrow> \<not> bit w 7"
  using and_exp_eq_0_iff_not_bit [of w 11] and_exp_eq_0_iff_not_bit [of w 31]
    and_exp_eq_0_iff_not_bit [of w 15] and_exp_eq_0_iff_not_bit [of w 7] by simp_all

lemma and_mask32: "(w :: u64) AND 0xFFFFFFFF = take_bit 32 w"
  by (simp add: take_bit_eq_mask mask_numeral)

lemma bit_min_cases:
  "bit (w :: 'a::len word) (min (LENGTH('a) - Suc 0) n) \<longleftrightarrow>
     (if n < LENGTH('a) then bit w n else bit w (LENGTH('a) - Suc 0))"
  by (auto simp: min_def dest: bit_imp_le_length intro: arg_cong [THEN iffD1, of _ _ "bit w"])
    (metis Suc_pred le_antisym len_gt_0 not_less_eq_eq not_less)+

lemma sext_imm12_scast: "sext_imm12 (ucast w) = scast (w :: 12 word)"
proof (rule bit_word_eqI)
  fix n assume "n < LENGTH(64)"
  then show "bit (sext_imm12 (ucast w)) n = bit (scast w :: u64) n"
    unfolding sext_imm12_def and_bit_tests ext_sign_masks using bit_min_cases [of w n]
    by (auto simp: bit_simps dest: bit_imp_le_length)
qed

lemma sext32_scast: "sext32 v = scast (ucast v :: u32)"
proof (rule bit_word_eqI)
  fix n assume "n < LENGTH(64)"
  then show "bit (sext32 v) n = bit (scast (ucast v :: u32) :: u64) n"
    unfolding sext32_def Let_def and_bit_tests and_mask32 ext_sign_masks
    using bit_min_cases [of "ucast v :: u32" n] by (auto simp: bit_simps)
qed

section \<open>Encoders\<close>

text \<open>
  The inverse of the field selectors: an instruction word with the given register numbers and
  immediate. The opcode bits are left zero, the selectors do not read them.
\<close>

definition enc_R :: "nat \<Rightarrow> nat \<Rightarrow> nat \<Rightarrow> u32" where
  "enc_R rd rs1 rs2 = push_bit 7 (of_nat rd) OR push_bit 15 (of_nat rs1) OR push_bit 20 (of_nat rs2)"

definition enc_I :: "nat \<Rightarrow> nat \<Rightarrow> u64 \<Rightarrow> u32" where
  "enc_I rd rs1 imm = push_bit 7 (of_nat rd) OR push_bit 15 (of_nat rs1) OR push_bit 20 (ucast imm)"

definition enc_S :: "nat \<Rightarrow> nat \<Rightarrow> u64 \<Rightarrow> u32" where
  "enc_S rs1 rs2 off =
     push_bit 7 (ucast (bitfield 0 5 off)) OR push_bit 15 (of_nat rs1) OR push_bit 20 (of_nat rs2)
       OR push_bit 25 (ucast (bitfield 5 7 off))"

definition enc_SB :: "nat \<Rightarrow> nat \<Rightarrow> u64 \<Rightarrow> u32" where
  "enc_SB rs1 rs2 off =
     push_bit 7 (ucast (bitfield 11 1 off)) OR push_bit 8 (ucast (bitfield 1 4 off))
       OR push_bit 15 (of_nat rs1) OR push_bit 20 (of_nat rs2)
       OR push_bit 25 (ucast (bitfield 5 6 off)) OR push_bit 31 (ucast (bitfield 12 1 off))"

definition enc_UJ :: "nat \<Rightarrow> u64 \<Rightarrow> u32" where
  "enc_UJ rd off =
     push_bit 7 (of_nat rd) OR push_bit 12 (ucast (bitfield 12 8 off)) OR push_bit 20 (ucast (bitfield 11 1 off))
       OR push_bit 21 (ucast (bitfield 1 10 off)) OR push_bit 31 (ucast (bitfield 20 1 off))"

text \<open>\<open>fits n w\<close>: the word is a sign-extended number of \<open>n + 1\<close> bits.\<close>

definition fits :: "nat \<Rightarrow> u64 \<Rightarrow> bool" where
  "fits n w \<longleftrightarrow> signed_take_bit n w = w"

lemma fits_bit: "fits n w \<Longrightarrow> n \<le> i \<Longrightarrow> i < 64 \<Longrightarrow> bit w i = bit w n"
proof -
  assume "fits n w" "n \<le> i" "i < 64"
  then have "bit (signed_take_bit n w) i = bit w n" by (simp add: bit_signed_take_bit_iff min_absorb1)
  with \<open>fits n w\<close> show ?thesis by (simp add: fits_def)
qed

lemma reg_bit: "r < 32 \<Longrightarrow> bit r i \<Longrightarrow> i < 5" for r i :: nat
proof (rule ccontr)
  assume "r < 32" "bit r i" "\<not> i < 5"
  then have "(2 :: nat) ^ 5 \<le> 2 ^ i" by (intro power_increasing) auto
  with \<open>r < 32\<close> have "r < 2 ^ i" by simp
  then have "\<not> bit r i" by (simp add: bit_iff_odd)
  with \<open>bit r i\<close> show False by simp
qed

lemma bitfield_reg:
  assumes "r < 32" and "\<And>i. i < 5 \<Longrightarrow> bit (w :: u32) (lo + i) = bit r i"
  shows "unat (bitfield lo 5 w) = r"
proof -
  have "bitfield lo 5 w = of_nat r"
    by (rule bit_word_eqI) (use assms reg_bit [OF assms(1)] in \<open>auto simp: bit_simps\<close>)
  then show ?thesis using assms(1) by (simp add: unat_of_nat)
qed

lemma enc_R_fields [simp]:
  assumes "rd < 32" "rs1 < 32" "rs2 < 32"
  shows "ISA_rd (enc_R rd rs1 rs2) = rd" "ISA_rs1 (enc_R rd rs1 rs2) = rs1" "ISA_rs2 (enc_R rd rs1 rs2) = rs2"
  unfolding ISA_rd_def ISA_rs1_def ISA_rs2_def
  by ((rule bitfield_reg; use assms in \<open>auto simp: enc_R_def bit_simps dest: reg_bit\<close>)+)

lemma enc_I_fields [simp]:
  assumes "rd < 32" "rs1 < 32"
  shows "ISA_rd (enc_I rd rs1 imm) = rd" "ISA_rs1 (enc_I rd rs1 imm) = rs1"
  unfolding ISA_rd_def ISA_rs1_def
  by ((rule bitfield_reg; use assms in \<open>auto simp: enc_I_def bit_simps dest: reg_bit\<close>)+)

lemma enc_S_fields [simp]:
  assumes "rs1 < 32" "rs2 < 32"
  shows "ISA_rs1 (enc_S rs1 rs2 off) = rs1" "ISA_rs2 (enc_S rs1 rs2 off) = rs2"
  unfolding ISA_rs1_def ISA_rs2_def
  by ((rule bitfield_reg; use assms in \<open>auto simp: enc_S_def bit_simps dest: reg_bit\<close>)+)

lemma enc_SB_fields [simp]:
  assumes "rs1 < 32" "rs2 < 32"
  shows "ISA_rs1 (enc_SB rs1 rs2 off) = rs1" "ISA_rs2 (enc_SB rs1 rs2 off) = rs2"
  unfolding ISA_rs1_def ISA_rs2_def
  by ((rule bitfield_reg; use assms in \<open>auto simp: enc_SB_def bit_simps dest: reg_bit\<close>)+)

lemma enc_UJ_fields [simp]: "rd < 32 \<Longrightarrow> ISA_rd (enc_UJ rd off) = rd"
  unfolding ISA_rd_def by (rule bitfield_reg) (auto simp: enc_UJ_def bit_simps dest: reg_bit)

lemma bit_sext_imm12:
  "(\<And>i. 12 \<le> i \<Longrightarrow> \<not> bit w i) \<Longrightarrow>
   bit (sext_imm12 w) i \<longleftrightarrow> (if i < 12 then bit w i else i < 64 \<and> bit w 11)"
  unfolding sext_imm12_def and_bit_tests ext_sign_masks by (auto simp: bit_simps)

lemma enc_I_imm:
  assumes "rd < 32" "rs1 < 32" "fits 11 imm"
  shows "sext_imm12 (ISA_I_imm (enc_I rd rs1 imm)) = imm"
proof (rule bit_word_eqI)
  fix i assume i: "i < LENGTH(64)"
  have b: "bit (ISA_I_imm (enc_I rd rs1 imm)) k \<longleftrightarrow> k < 12 \<and> bit imm k" for k
    using assms by (auto simp: ISA_I_imm_def enc_I_def bit_simps dest: reg_bit)
  show "bit (sext_imm12 (ISA_I_imm (enc_I rd rs1 imm))) i = bit imm i"
    using i fits_bit [OF assms(3), of i] by (simp add: bit_sext_imm12 b)
qed

lemma bit_ISA_S_off: "bit (ISA_S_off u) k \<longleftrightarrow> (if k < 5 then bit u (7 + k) else k < 12 \<and> bit u (20 + k))"
  by (auto simp: ISA_S_off_def bit_simps)

lemma enc_S_bits:
  assumes "rs1 < 32" "rs2 < 32"
  shows "k < 5 \<Longrightarrow> bit (enc_S rs1 rs2 off) (7 + k) = bit off k"
    "5 \<le> k \<Longrightarrow> k < 12 \<Longrightarrow> bit (enc_S rs1 rs2 off) (20 + k) = bit off k"
  using assms by (auto simp: enc_S_def bit_simps dest: reg_bit)

lemma enc_S_off:
  assumes "rs1 < 32" "rs2 < 32" "fits 11 off"
  shows "sext_imm12 (ISA_S_off (enc_S rs1 rs2 off)) = off"
proof (rule bit_word_eqI)
  fix i assume i: "i < LENGTH(64)"
  have b: "bit (ISA_S_off (enc_S rs1 rs2 off)) k \<longleftrightarrow> k < 12 \<and> bit off k" for k
    using enc_S_bits [OF assms(1,2), of k off] by (auto simp: bit_ISA_S_off)
  show "bit (sext_imm12 (ISA_S_off (enc_S rs1 rs2 off))) i = bit off i"
    using i fits_bit [OF assms(3), of i] by (simp add: bit_sext_imm12 b)
qed

lemma bit_ISA_SB_off:
  "bit (ISA_SB_off u) k \<longleftrightarrow> k < 64 \<and>
     (if k = 0 then False else if k < 5 then bit u (7 + k) else if k < 11 then bit u (20 + k)
      else if k = 11 then bit u 7 else bit u 31)"
proof -
  have "bit (ucast (push_bit 12 (bitfield 31 1 u) OR push_bit 11 (bitfield 7 1 u) OR push_bit 5 (bitfield 25 6 u)
            OR push_bit 1 (bitfield 8 4 u)) :: u64) k \<longleftrightarrow>
     (if k = 0 then False else if k < 5 then bit u (7 + k) else if k < 11 then bit u (20 + k)
      else if k = 11 then bit u 7 else k = 12 \<and> bit u 31)"
    by (simp only: bit_ucast_iff bit_or_iff bit_push_bit_iff bit_bitfield possible_bit_word) (cases "k = 12"; auto)
  then show ?thesis
    unfolding ISA_SB_off_def Let_def ext_sign_masks
    by (auto simp: bit_or_iff bit_not_iff bit_mask_iff)
qed

lemma enc_SB_bits:
  assumes "rs1 < 32" "rs2 < 32"
  shows "0 < k \<Longrightarrow> k < 5 \<Longrightarrow> bit (enc_SB rs1 rs2 off) (7 + k) = bit off k"
    "5 \<le> k \<Longrightarrow> k < 11 \<Longrightarrow> bit (enc_SB rs1 rs2 off) (20 + k) = bit off k"
    "bit (enc_SB rs1 rs2 off) 7 = bit off 11" "bit (enc_SB rs1 rs2 off) 31 = bit off 12"
  using assms by (auto simp: enc_SB_def bit_simps dest: reg_bit)

lemma enc_SB_off:
  assumes "rs1 < 32" "rs2 < 32" "fits 12 off" "\<not> bit off 0"
  shows "ISA_SB_off (enc_SB rs1 rs2 off) = off"
proof (rule bit_word_eqI)
  fix i assume i: "i < LENGTH(64)"
  show "bit (ISA_SB_off (enc_SB rs1 rs2 off)) i = bit off i"
    using i enc_SB_bits(1,2) [OF assms(1,2), of i off] enc_SB_bits(3,4) [OF assms(1,2), of off] fits_bit [OF assms(3), of i] assms(4)
    by (auto simp: bit_ISA_SB_off not_less)
qed

lemma bit_ISA_UJ_off:
  "bit (ISA_UJ_off u) k \<longleftrightarrow> k < 64 \<and>
     (if k = 0 then False else if k < 11 then bit u (20 + k) else if k = 11 then bit u 20
      else if k < 20 then bit u k else bit u 31)"
proof -
  have m: "(0xfffffffffff00000 :: u64) = NOT (mask 20)" by (simp add: mask_numeral)
  show ?thesis
    unfolding ISA_UJ_off_def Let_def m
    by (simp only: bit_ucast_iff bit_or_iff bit_push_bit_iff bit_bitfield possible_bit_word)
      (auto simp: bit_not_iff bit_mask_iff)
qed

lemma enc_UJ_bits:
  assumes "rd < 32"
  shows "0 < k \<Longrightarrow> k < 11 \<Longrightarrow> bit (enc_UJ rd off) (20 + k) = bit off k"
    "bit (enc_UJ rd off) 20 = bit off 11" "bit (enc_UJ rd off) 31 = bit off 20"
    "12 \<le> k \<Longrightarrow> k < 20 \<Longrightarrow> bit (enc_UJ rd off) k = bit off k"
  using assms by (auto simp: enc_UJ_def bit_simps dest: reg_bit)

lemma enc_UJ_off:
  assumes "rd < 32" "fits 20 off" "\<not> bit off 0"
  shows "ISA_UJ_off (enc_UJ rd off) = off"
proof (rule bit_word_eqI)
  fix i assume i: "i < LENGTH(64)"
  show "bit (ISA_UJ_off (enc_UJ rd off)) i = bit off i"
    using i enc_UJ_bits(1,4) [OF assms(1), of i off] enc_UJ_bits(2,3) [OF assms(1), of off] fits_bit [OF assms(2), of i] assms(3)
    by (auto simp: bit_ISA_UJ_off not_less)
qed

text \<open>Every register number and every immediate that the format can hold is read back from an
  encoded word: 12-bit signed offsets of the I and S formats, even 13-bit branch offsets and even
  21-bit jump offsets.\<close>

lemma immediates_roundtrip:
  assumes "rd < 32" "rs1 < 32" "rs2 < 32" and "fits 11 imm"
    and "fits 12 boff" "\<not> bit boff 0" and "fits 20 joff" "\<not> bit joff 0"
  shows "sext_imm12 (ISA_I_imm (enc_I rd rs1 imm)) = imm \<and> sext_imm12 (ISA_S_off (enc_S rs1 rs2 imm)) = imm \<and>
    ISA_SB_off (enc_SB rs1 rs2 boff) = boff \<and> ISA_UJ_off (enc_UJ rd joff) = joff"
  using assms by (simp_all add: enc_I_imm enc_S_off enc_SB_off enc_UJ_off)

lemma immediates_roundtrip_witness:
  "sext_imm12 (ISA_I_imm (enc_I 31 2 (- 2048))) = - 2048 \<and> sext_imm12 (ISA_S_off (enc_S 2 9 (- 2048))) = - 2048 \<and>
   ISA_SB_off (enc_SB 2 9 (- 4096)) = - 4096 \<and> ISA_UJ_off (enc_UJ 31 (- 1048576)) = - 1048576"
  using immediates_roundtrip [of 31 2 9 "- 2048" "- 4096" "- 1048576"] by (simp add: fits_def)

end
