(* ===== verification/Axi4.thy ===== *)
theory Axi4
  imports Riscv_ISA
begin

text \<open>
  The transaction type of the system bus (\<^verbatim>\<open>coreservices/imemop.h\<close>), byte access to its payload
  unions and the copy loops between a payload and a byte array.
\<close>

section \<open>Transactions\<close>

datatype EAxi4Action = MemAction_Read | MemAction_Write
datatype EAxi4Response = MemResp_Valid | MemResp_Accepted | MemResp_Error
datatype ETransStatus = TRANS_OK | TRANS_ERROR

record axi4 =
  action :: EAxi4Action
  response :: EAxi4Response
  xsize :: nat
  wstrb :: u32
  addr :: u64
  rpayload :: u64
  wpayload :: u64
  source_idx :: int

definition b8 :: "nat \<Rightarrow> u64 \<Rightarrow> u8" where
  "b8 i w = ucast (drop_bit (8 * i) w)"

definition set_b8 :: "nat \<Rightarrow> u8 \<Rightarrow> u64 \<Rightarrow> u64" where
  "set_b8 i b w = set_bitfield (8 * i) 8 (ucast b) w"

definition b16_0 :: "u64 \<Rightarrow> u64" where "b16_0 w = ucast (ucast w :: u16)"
definition b32_0 :: "u64 \<Rightarrow> u64" where "b32_0 w = ucast (ucast w :: u32)"

text \<open>\<open>load_bytes m off n w\<close> is \<^verbatim>\<open>memcpy(payload.b8, &mem[off], n)\<close> over the old payload \<open>w\<close>;
  \<open>store_bytes off n w m\<close> is \<^verbatim>\<open>memcpy(&mem[off], payload.b8, n)\<close>.\<close>

fun load_bytes :: "(nat \<Rightarrow> u8) \<Rightarrow> nat \<Rightarrow> nat \<Rightarrow> u64 \<Rightarrow> u64" where
  "load_bytes m off 0 w = w"
| "load_bytes m off (Suc n) w = set_b8 n (m (off + n)) (load_bytes m off n w)"

fun store_bytes :: "nat \<Rightarrow> nat \<Rightarrow> u64 \<Rightarrow> (nat \<Rightarrow> u8) \<Rightarrow> nat \<Rightarrow> u8" where
  "store_bytes off 0 w m = m"
| "store_bytes off (Suc n) w m = (store_bytes off n w m)(off + n := b8 n w)"

text \<open>The byte-strobe loop of \<^verbatim>\<open>MemoryGeneric::b_transport\<close>.\<close>

fun store_strobed :: "nat \<Rightarrow> nat \<Rightarrow> u32 \<Rightarrow> u64 \<Rightarrow> (nat \<Rightarrow> u8) \<Rightarrow> nat \<Rightarrow> u8" where
  "store_strobed off 0 strb w m = m"
| "store_strobed off (Suc n) strb w m =
     (let m' = store_strobed off n strb w m
      in if drop_bit n strb AND 1 = 0 then m' else m'(off + n := b8 n w))"

subsection \<open>Byte lemmas\<close>

lemma bit_b8: "i < 8 \<Longrightarrow> bit (b8 i w) n \<longleftrightarrow> n < 8 \<and> bit w (8 * i + n)"
  by (auto simp: b8_def bit_simps)

lemma bit_b8_eq: "n < 64 \<Longrightarrow> bit w n \<longleftrightarrow> bit (b8 (n div 8) w) (n mod 8)"
  by (simp add: bit_b8)

lemma bytes_eqI: "(\<And>i. i < 8 \<Longrightarrow> b8 i v = b8 i w) \<Longrightarrow> v = w"
  by (rule bit_word_eqI) (simp add: bit_b8_eq)

lemma b8_set_b8: "i < 8 \<Longrightarrow> j < 8 \<Longrightarrow> b8 i (set_b8 j b w) = (if i = j then b else b8 i w)"
  by (rule bit_word_eqI) (auto simp: bit_b8 set_b8_def bit_simps)

lemma b8_load_bytes:
  "n \<le> 8 \<Longrightarrow> i < 8 \<Longrightarrow> b8 i (load_bytes m off n w) = (if i < n then m (off + i) else b8 i w)"
  by (induction n) (auto simp: b8_set_b8 less_Suc_eq)

lemma store_bytes_apply:
  "store_bytes off n w m a = (if off \<le> a \<and> a < off + n then b8 (a - off) w else m a)"
  by (induction n) auto

lemma b8_take_bit: "i < 8 \<Longrightarrow> b8 i (take_bit (8 * n) w) = (if i < n then b8 i w else 0)"
  by (rule bit_word_eqI) (auto simp: bit_b8 bit_simps)

lemma load_store_same:
  "n \<le> 8 \<Longrightarrow> load_bytes (store_bytes off n w m) off n 0 = take_bit (8 * n) w"
  by (rule bytes_eqI) (simp add: b8_load_bytes store_bytes_apply b8_take_bit, simp add: b8_def)

lemma load_store_disjoint:
  "off + n \<le> off' \<or> off' + n' \<le> off \<Longrightarrow>
     load_bytes (store_bytes off' n' w m) off n v = load_bytes m off n v"
  by (induction n) (auto simp: store_bytes_apply)

lemma strobe_all:
  "(\<And>i. i < n \<Longrightarrow> bit strb i) \<Longrightarrow> store_strobed off n strb w m = store_bytes off n w m"
proof (induction n)
  case (Suc n)
  then have "drop_bit n strb AND 1 \<noteq> 0"
    by (simp add: bit_iff_odd_drop_bit and_one_eq odd_iff_mod_2_eq_one)
  with Suc show ?case by (simp add: Let_def)
qed simp

end
