(* ===== verification/Clock_Queue.thy ===== *)
theory Clock_Queue
  imports Prelude
begin

text \<open>
  The clock callback queue of the functional CPU (\<^verbatim>\<open>ClockAsyncTQueueType\<close> in
  \<^verbatim>\<open>src/debugger/src/common/async_tqueue.cpp\<close>). Listeners register a callback with a time; the CPU
  thread moves the registrations to its own array and pops every entry that is due. Removal
  swaps the last entry into the hole, so the array is not ordered and the correctness argument is
  about multisets: an iteration delivers exactly the due entries, each once, and keeps the rest.
  The allocated size of the array (\<^verbatim>\<open>size_\<close>, doubled when it is full) has no effect on its content
  and is not part of the state; the first \<^verbatim>\<open>item_total_\<close> entries are the list.
\<close>

section \<open>The queue\<close>

record 'i clock_queue =
  q_items :: "(u64 \<times> 'i) list"       \<comment> \<open>\<^verbatim>\<open>queue_[0 .. item_total_)\<close>\<close>
  q_cnt :: nat                        \<comment> \<open>\<^verbatim>\<open>item_cnt_\<close>\<close>
  q_pre :: "(u64 \<times> 'i) list"         \<comment> \<open>\<^verbatim>\<open>prequeue_[0 .. precnt_)\<close>\<close>

definition q_hardReset :: "'i clock_queue" where
  "q_hardReset = \<lparr>q_items = [], q_cnt = 0, q_pre = []\<rparr>"

definition q_put :: "u64 \<Rightarrow> 'i \<Rightarrow> 'i clock_queue \<Rightarrow> 'i clock_queue" where
  "q_put t cb q = (if 1024 \<le> length (q_pre q) then q else q\<lparr>q_pre := q_pre q @ [(t, cb)]\<rparr>)"

definition q_pushPreQueued :: "'i clock_queue \<Rightarrow> 'i clock_queue" where
  "q_pushPreQueued q = (if q_pre q = [] then q else q\<lparr>q_items := q_items q @ q_pre q, q_pre := []\<rparr>)"

definition q_initProc :: "'i clock_queue \<Rightarrow> 'i clock_queue" where
  "q_initProc q = q\<lparr>q_cnt := 0\<rparr>"

text \<open>\<open>retime cb t xs\<close> changes the time of the first entry for \<open>cb\<close>.\<close>

fun retime :: "'i \<Rightarrow> u64 \<Rightarrow> (u64 \<times> 'i) list \<Rightarrow> (u64 \<times> 'i) list option" where
  "retime cb t [] = None"
| "retime cb t ((t0, c) # xs) =
     (if c = cb then Some ((t, c) # xs) else map_option ((#) (t0, c)) (retime cb t xs))"

definition q_move :: "'i \<Rightarrow> u64 \<Rightarrow> 'i clock_queue \<Rightarrow> bool \<times> 'i clock_queue" where
  "q_move cb t q =
    (case retime cb t (q_pre q) of
       Some xs \<Rightarrow> (True, q\<lparr>q_pre := xs\<rparr>)
     | None \<Rightarrow> (case retime cb t (q_items q) of
         Some xs \<Rightarrow> (True, q\<lparr>q_items := xs\<rparr>)
       | None \<Rightarrow> (False, q)))"

text \<open>
  The requests of a clock listener. \<open>RegisterStep\<close> is \<^verbatim>\<open>CpuGeneric::registerStepCallback\<close> while the
  CPU thread runs (it puts the callback into the pre-queue), \<open>MoveStep\<close> is
  \<^verbatim>\<open>CpuGeneric::moveStepCallback\<close>: it re-times a queued callback, or registers it.
\<close>

datatype 'i clk_req = RegisterStep 'i u64 | MoveStep 'i u64

fun clk_request :: "'i clk_req \<Rightarrow> 'i clock_queue \<Rightarrow> 'i clock_queue" where
  "clk_request (RegisterStep cb t) q = q_put t cb q"
| "clk_request (MoveStep cb t) q = (case q_move cb t q of (moved, q') \<Rightarrow> if moved then q' else q_put t cb q')"

abbreviation clk_requests :: "'i clk_req list \<Rightarrow> 'i clock_queue \<Rightarrow> 'i clock_queue" where
  "clk_requests rqs q \<equiv> fold clk_request rqs q"

lemma retime_length: "retime cb t xs = Some ys \<Longrightarrow> length ys = length xs"
  by (induction xs arbitrary: ys) (auto split: if_splits)

lemma clk_requests_length [simp]:
  "length (q_items (clk_requests rqs q)) = length (q_items q)"
proof (induction rqs arbitrary: q)
  case (Cons r rqs)
  have "length (q_items (clk_request r q)) = length (q_items q)"
    by (cases r) (auto simp: q_put_def q_move_def dest: retime_length split: option.splits)
  with Cons show ?case by simp
qed simp

function q_getNext :: "u64 \<Rightarrow> 'i clock_queue \<Rightarrow> 'i option \<times> 'i clock_queue" where
  "q_getNext step q =
    (if length (q_items q) \<le> q_cnt q then (None, q)
     else if step < fst (q_items q ! q_cnt q) then q_getNext step (q\<lparr>q_cnt := q_cnt q + 1\<rparr>)
     else (Some (snd (q_items q ! q_cnt q)), q\<lparr>q_items := swap_remove (q_cnt q) (q_items q)\<rparr>))"
  by pat_completeness auto
termination
  by (relation "measure (\<lambda>(_, q). length (q_items q) - q_cnt q)") auto

declare q_getNext.simps [simp del]

lemma q_getNext_shrinks:
  "q_getNext step q = (Some cb, q') \<Longrightarrow> length (q_items q') < length (q_items q)"
proof (induction step q rule: q_getNext.induct)
  case (1 step q)
  then show ?case
    by (auto simp: q_getNext.simps [of step q] swap_remove_def split: if_splits)
qed

text \<open>
  The drain loop of \<^verbatim>\<open>CpuGeneric::updateQueue\<close> on the queue alone: the callbacks it returns, in
  order, when no callback moves a queued entry: \<^verbatim>\<open>put\<close> touches the pre-queue and not the array
  being drained.
\<close>

function q_drain :: "u64 \<Rightarrow> 'i clock_queue \<Rightarrow> 'i list \<times> 'i clock_queue" where
  "q_drain step q =
    (case q_getNext step q of
       (None, q') \<Rightarrow> ([], q')
     | (Some cb, q') \<Rightarrow> (let (cbs, q'') = q_drain step q' in (cb # cbs, q'')))"
  by pat_completeness auto
termination
  by (relation "measure (\<lambda>(_, q). length (q_items q))") (auto dest: q_getNext_shrinks [OF sym])

declare q_drain.simps [simp del]

definition q_update :: "u64 \<Rightarrow> 'i clock_queue \<Rightarrow> 'i list \<times> 'i clock_queue" where
  "q_update step q = q_drain step (q_pushPreQueued (q_initProc q))"

section \<open>Correctness\<close>

text \<open>
  The loop invariant: every entry before \<^verbatim>\<open>item_cnt_\<close> has been inspected and is not due.
\<close>

abbreviation due :: "u64 \<Rightarrow> (u64 \<times> 'i) \<Rightarrow> bool" where
  "due step x \<equiv> fst x \<le> step"

definition q_scanned :: "u64 \<Rightarrow> 'i clock_queue \<Rightarrow> bool" where
  "q_scanned step q \<longleftrightarrow>
     q_cnt q \<le> length (q_items q) \<and> (\<forall>x \<in> set (take (q_cnt q) (q_items q)). \<not> due step x)"

lemma q_scanned_next:
  assumes "q_scanned step q" "q_cnt q < length (q_items q)" "\<not> due step (q_items q ! q_cnt q)"
  shows "q_scanned step (q\<lparr>q_cnt := q_cnt q + 1\<rparr>)"
  using assms by (auto simp: q_scanned_def take_Suc_conv_app_nth)

lemma q_scanned_swap:
  assumes "q_scanned step q" "q_cnt q < length (q_items q)"
  shows "q_scanned step (q\<lparr>q_items := swap_remove (q_cnt q) (q_items q)\<rparr>)"
  using assms by (auto simp: q_scanned_def take_swap_remove length_swap_remove)

lemma q_getNext_None:
  "q_scanned step q \<Longrightarrow> q_getNext step q = (None, q') \<Longrightarrow>
     q_items q' = q_items q \<and> q_pre q' = q_pre q \<and> (\<forall>x \<in> set (q_items q). \<not> due step x)"
proof (induction step q rule: q_getNext.induct)
  case (1 step q)
  show ?case
  proof (cases "length (q_items q) \<le> q_cnt q")
    case True
    with "1.prems" show ?thesis by (auto simp: q_getNext.simps [of step q] q_scanned_def)
  next
    case False
    with "1.prems" have "\<not> due step (q_items q ! q_cnt q)"
      by (simp add: q_getNext.simps [of step q] not_le split: if_splits)
    with False "1.prems" "1.IH" q_scanned_next [of step q] show ?thesis
      by (simp add: q_getNext.simps [of step q] not_le)
  qed
qed

lemma q_getNext_Some:
  "q_scanned step q \<Longrightarrow> q_getNext step q = (Some cb, q') \<Longrightarrow>
     q_scanned step q' \<and> q_pre q' = q_pre q \<and>
     (\<exists>t. t \<le> step \<and> mset (q_items q) = add_mset (t, cb) (mset (q_items q')))"
proof (induction step q rule: q_getNext.induct)
  case (1 step q)
  from "1.prems" have len: "q_cnt q < length (q_items q)"
    by (simp add: q_getNext.simps [of step q] split: if_splits)
  show ?case
  proof (cases "due step (q_items q ! q_cnt q)")
    case True
    with len "1.prems" have "cb = snd (q_items q ! q_cnt q)"
      and "q' = q\<lparr>q_items := swap_remove (q_cnt q) (q_items q)\<rparr>"
      by (auto simp: q_getNext.simps [of step q] not_less [symmetric])
    with len True "1.prems" show ?thesis
      by (auto simp: q_scanned_swap mset_swap_remove [of "q_cnt q" "q_items q"]
          intro!: exI [of _ "fst (q_items q ! q_cnt q)"])
  next
    case False
    with len "1.prems" "1.IH" q_scanned_next [of step q] show ?thesis
      by (simp add: q_getNext.simps [of step q] not_le)
  qed
qed

lemma filter_mset_id: "(\<And>x. x \<in># M \<Longrightarrow> P x) \<Longrightarrow> filter_mset P M = M"
  by (induction M) auto

lemma q_drain_spec:
  "q_scanned step q \<Longrightarrow> q_drain step q = (cbs, q') \<Longrightarrow>
     mset cbs = image_mset snd (filter_mset (due step) (mset (q_items q))) \<and>
     mset (q_items q') = filter_mset (\<lambda>x. \<not> due step x) (mset (q_items q)) \<and>
     q_pre q' = q_pre q"
proof (induction step q arbitrary: cbs q' rule: q_drain.induct)
  case (1 step q)
  obtain r q1 where g: "q_getNext step q = (r, q1)" by fastforce
  show ?case
  proof (cases r)
    case None
    with g "1.prems" q_getNext_None [of step q q1] have
      *: "cbs = []" "q_items q' = q_items q" "q_pre q' = q_pre q"
         "\<And>x. x \<in># mset (q_items q) \<Longrightarrow> \<not> due step x"
      by (auto simp: q_drain.simps [of step q])
    from filter_mset_id [OF *(4), of "mset (q_items q)"] * show ?thesis
      by simp
  next
    case (Some cb)
    with g "1.prems" q_getNext_Some [of step q cb q1] obtain t where
      *: "q_scanned step q1" "q_pre q1 = q_pre q" "t \<le> step"
         "mset (q_items q) = add_mset (t, cb) (mset (q_items q1))" by auto
    obtain cbs1 q2 where d: "q_drain step q1 = (cbs1, q2)" by fastforce
    with g Some "1.prems" have "cbs = cb # cbs1" "q' = q2"
      by (simp_all add: q_drain.simps [of step q])
    with "1.IH" [OF g [symmetric] Some *(1) d] * show ?thesis by simp
  qed
qed

text \<open>Requests that only register callbacks touch the pre-queue and nothing else.\<close>

fun is_register :: "'i clk_req \<Rightarrow> bool" where
  "is_register (RegisterStep cb t) = True"
| "is_register (MoveStep cb t) = False"

lemma clk_requests_register:
  "list_all is_register rqs \<Longrightarrow>
     q_items (clk_requests rqs q) = q_items q \<and> q_cnt (clk_requests rqs q) = q_cnt q"
proof (induction rqs arbitrary: q)
  case (Cons r rqs)
  then show ?case by (cases r) (simp_all add: q_put_def)
qed simp


text \<open>C33. An iteration of the clock queue (take over the pre-queue, then drain) delivers exactly the callbacks whose
  time has come, each as often as it was registered, and keeps exactly the others.\<close>

theorem queue_update_delivers:
  "mset (fst (q_update step q)) = image_mset snd (filter_mset (due step) (mset (q_items q @ q_pre q))) \<and>
   mset (q_items (snd (q_update step q))) = filter_mset (\<lambda>x. \<not> due step x) (mset (q_items q @ q_pre q)) \<and>
   q_pre (snd (q_update step q)) = []"
proof -
  let ?q = "q_pushPreQueued (q_initProc q)"
  have q: "q_items ?q = q_items q @ q_pre q" "q_pre ?q = []" "q_scanned step ?q"
    by (simp_all add: q_pushPreQueued_def q_initProc_def q_scanned_def)
  then show ?thesis
    using q_drain_spec [OF q(3) prod.collapse [symmetric]] by (simp add: q_update_def)
qed

end
