(* ===== verification/Cpu_State.thy ===== *)
theory Cpu_State
  imports Axi4 Clock_Queue
begin

text \<open>
  The state of the functional RISC-V CPU (\<^verbatim>\<open>CpuGeneric\<close> in \<^verbatim>\<open>common/generic/cpu_generic.h\<close> and
  \<^verbatim>\<open>CpuRiver_Functional\<close> in \<^verbatim>\<open>cpu_fnc_plugin/cpu_riscv_func.h\<close>) and the operations the instruction
  classes are written with: registers, CSRs, the PMP table, memory access, exceptions, the
  stack-trace buffer and the LR/SC reservation.

  What the CPU reaches through interface pointers is a parameter: \<open>isysbus\<close>, \<open>iirqloc\<close>,
  \<open>iirqext\<close> and the clock listeners act on a device state \<open>'b\<close>; they are given the CPU's step
  counter because the devices read the time through the CPU's \<^verbatim>\<open>IClock\<close> interface, and they
  return the callbacks they register or move through it. The
  configuration attributes that no code changes are in the same record. \<open>uninit\<close> is the
  content of an uninitialised payload on the stack.

  The flag \<open>ub\<close> records that an array of the C++ program was accessed out of range (or a shift
  exceeded the width): from there on the program's behaviour is undefined, and the model goes on with
  an unchanged state. The log output, the trace file, the code-coverage tracker and the write-only
  instruction cache (\<^verbatim>\<open>icache_\<close>) have no influence on the state below and are left out.
\<close>

section \<open>State and configuration\<close>

datatype ECoreState = CORE_OFF | CORE_Halted | CORE_Normal | CORE_ProgbufExec
datatype EContext = Ctx_Normal | Ctx_ProgbufExec

record trigger =
  data1 :: u64
  data2 :: u64
  extra :: u64

record pmp_table =
  pmp_ena :: u64
  pmp_startadr :: "nat \<Rightarrow> u64"
  pmp_endadr :: "nat \<Rightarrow> u64"
  pmp_R :: u64
  pmp_W :: u64
  pmp_X :: u64
  pmp_L :: u64

record 'b cpu =
  regs :: "nat \<Rightarrow> u64"
  csr :: "nat \<Rightarrow> u64"
  ctx_pc :: "EContext \<Rightarrow> u64"
  ctx_npc :: "EContext \<Rightarrow> u64"
  cur_ctx :: EContext
  estate :: ECoreState
  step_cnt :: u64
  pc_z :: u64
  branch :: bool
  oplen :: nat
  exceptions :: u64
  do_not_cache :: bool
  haltreq :: bool
  resumereq :: bool
  resumeack :: bool
  procbufexecreq :: bool
  progbuf :: "nat \<Rightarrow> u8"
  trans_fetch :: axi4
  cacheline :: u64
  cur_prv_level :: u64
  stackTraceCnt :: u64
  stackTraceBuf :: "nat \<Rightarrow> u64"
  ptriggers :: "nat \<Rightarrow> trigger"
  mmuReservatedAddr :: u64
  mmuReservedAddrWatchdog :: nat
  pmpTable :: pmp_table
  resetHalted :: bool
  queue :: "nat clock_queue"
  devs :: 'b
  ub :: bool

record 'b cpu_cfg =
  isysbus :: "u64 \<Rightarrow> axi4 \<Rightarrow> 'b \<Rightarrow> (ETransStatus \<times> axi4) \<times> 'b \<times> nat clk_req list"
  iirqloc :: "u64 \<Rightarrow> nat \<Rightarrow> 'b \<Rightarrow> u32 \<times> 'b"
  iirqext :: "u64 \<Rightarrow> nat \<Rightarrow> 'b \<Rightarrow> u32 \<times> 'b"
  stepCallback :: "nat \<Rightarrow> u64 \<Rightarrow> 'b \<Rightarrow> 'b \<times> nat clk_req list"
  vendorid :: u64
  implementationid :: u64
  hartid :: nat
  sysBusWidthBytes :: nat
  sysBusMasterID :: int
  resetVector :: u64
  pmpTotal :: nat
  triggersTotal :: nat
  mcontrolMaskmax :: nat
  stackTraceSize :: nat
  listExtISA :: string
  uninit :: u64

type_synonym ('b, 'a) cpuM = "('b cpu, 'a) state"

definition undefined_behaviour :: "('b, unit) cpuM" where
  "undefined_behaviour = modify (\<lambda>s. s\<lparr>ub := True\<rparr>)"

section \<open>Program counters and registers\<close>

definition getPC :: "('b, u64) cpuM" where
  "getPC = gets (\<lambda>s. ctx_pc s (cur_ctx s))"

definition getNPC :: "('b, u64) cpuM" where
  "getNPC = gets (\<lambda>s. ctx_npc s (cur_ctx s))"

definition setPC :: "u64 \<Rightarrow> ('b, unit) cpuM" where
  "setPC v = modify (\<lambda>s. s\<lparr>ctx_pc := (ctx_pc s)(cur_ctx s := v)\<rparr>)"

definition setNPC :: "u64 \<Rightarrow> ('b, unit) cpuM" where
  "setNPC v = modify (\<lambda>s. s\<lparr>ctx_npc := (ctx_npc s)(cur_ctx s := v)\<rparr>)"

definition getR :: "nat \<Rightarrow> ('b, u64) cpuM" where
  "getR i = gets (\<lambda>s. regs s i)"

text \<open>\<^verbatim>\<open>CpuRiver_Functional::setReg\<close> drops a write to register 0; \<^verbatim>\<open>writeGPR\<close> (the debug port's
  access) does not.\<close>

definition setReg :: "nat \<Rightarrow> u64 \<Rightarrow> ('b, unit) cpuM" where
  "setReg idx val = whenM (idx \<noteq> 0) (modify (\<lambda>s. s\<lparr>regs := (regs s)(idx := val)\<rparr>))"

definition readGPR :: "nat \<Rightarrow> ('b, u64) cpuM" where
  "readGPR regno = gets (\<lambda>s. regs s regno)"

definition writeGPR :: "nat \<Rightarrow> u64 \<Rightarrow> ('b, unit) cpuM" where
  "writeGPR regno val = modify (\<lambda>s. s\<lparr>regs := (regs s)(regno := val)\<rparr>)"

definition setBranch :: "u64 \<Rightarrow> ('b, unit) cpuM" where
  "setBranch npc = do { modify (\<lambda>s. s\<lparr>branch := True\<rparr>); setNPC npc }"

definition getPrvLevel :: "('b, u64) cpuM" where
  "getPrvLevel = gets cur_prv_level"

definition setPrvLevel :: "u64 \<Rightarrow> ('b, unit) cpuM" where
  "setPrvLevel lvl = modify (\<lambda>s. s\<lparr>cur_prv_level := lvl\<rparr>)"

definition doNotCache :: "('b, unit) cpuM" where
  "doNotCache = modify (\<lambda>s. s\<lparr>do_not_cache := True\<rparr>)"

definition isHalted :: "'b cpu \<Rightarrow> bool" where
  "isHalted s \<longleftrightarrow> estate s = CORE_OFF \<or> estate s = CORE_Halted"

definition pushStackTrace :: "'b cpu_cfg \<Rightarrow> ('b, unit) cpuM" where
  "pushStackTrace c = do {
     cnt \<leftarrow> gets (\<lambda>s. unat (stackTraceCnt s));
     pc \<leftarrow> getPC;
     npc \<leftarrow> getNPC;
     whenM (cnt < stackTraceSize c)
       (modify (\<lambda>s. s\<lparr>stackTraceBuf := (stackTraceBuf s)(2 * cnt := pc, 2 * cnt + 1 := npc),
                      stackTraceCnt := stackTraceCnt s + 1\<rparr>)) }"

definition popStackTrace :: "('b, unit) cpuM" where
  "popStackTrace =
     modify (\<lambda>s. if stackTraceCnt s \<noteq> 0 then s\<lparr>stackTraceCnt := stackTraceCnt s - 1\<rparr> else s)"

section \<open>LR/SC reservation\<close>

definition mmuAddrReserve :: "u64 \<Rightarrow> ('b, unit) cpuM" where
  "mmuAddrReserve adr =
     modify (\<lambda>s. s\<lparr>mmuReservatedAddr := adr, mmuReservedAddrWatchdog := 64\<rparr>)"

definition mmuAddrRelease :: "u64 \<Rightarrow> ('b, bool) cpuM" where
  "mmuAddrRelease adr = do {
     success \<leftarrow> gets (\<lambda>s. mmuReservedAddrWatchdog s \<noteq> 0 \<and> mmuReservatedAddr s = adr);
     whenM success (modify (\<lambda>s. s\<lparr>mmuReservedAddrWatchdog := 0\<rparr>));
     returnM success }"

section \<open>Physical memory protection\<close>

definition disablePmp :: "nat \<Rightarrow> ('b, unit) cpuM" where
  "disablePmp pmpidx =
    (if pmpidx < 64
     then modify (\<lambda>s. s\<lparr>pmpTable := (pmpTable s)\<lparr>pmp_ena := unset_bit pmpidx (pmp_ena (pmpTable s))\<rparr>\<rparr>)
     else undefined_behaviour)"

definition pmp_flag :: "nat \<Rightarrow> bool \<Rightarrow> u64 \<Rightarrow> u64" where
  "pmp_flag i b w = (if b then set_bit i (unset_bit i w) else unset_bit i w)"

definition enablePmp :: "nat \<Rightarrow> u64 \<Rightarrow> u64 \<Rightarrow> u64 \<Rightarrow> bool \<Rightarrow> ('b, unit) cpuM" where
  "enablePmp pmpidx startadr endadr rwx lock =
    (if pmpidx < 64
     then modify (\<lambda>s. s\<lparr>pmpTable :=
       (let t = pmpTable s in t\<lparr>
          pmp_ena := set_bit pmpidx (pmp_ena t),
          pmp_startadr := (pmp_startadr t)(pmpidx := startadr),
          pmp_endadr := (pmp_endadr t)(pmpidx := endadr),
          pmp_R := pmp_flag pmpidx (rwx AND 1 \<noteq> 0) (pmp_R t),
          pmp_W := pmp_flag pmpidx (rwx AND 2 \<noteq> 0) (pmp_W t),
          pmp_X := pmp_flag pmpidx (rwx AND 4 \<noteq> 0) (pmp_X t),
          pmp_L := pmp_flag pmpidx lock (pmp_L t)\<rparr>)\<rparr>)
     else undefined_behaviour)"

abbreviation (input) mask54 :: u64 where "mask54 \<equiv> 0x3FFFFFFFFFFFFF"

text \<open>The NAPOT loop: strips the trailing ones of the address.\<close>

function napot_loop :: "u64 \<Rightarrow> u64 \<Rightarrow> u64 \<times> u64" where
  "napot_loop startaddr bitidx =
    (if startaddr AND bitidx \<noteq> 0 \<and> bitidx \<noteq> 0
     then napot_loop (startaddr AND NOT bitidx) (push_bit 1 bitidx)
     else (startaddr, bitidx))"
  by pat_completeness auto
termination
proof (relation "measure (\<lambda>(a, _). unat a)")
  fix a b :: u64
  assume "a AND b \<noteq> 0 \<and> b \<noteq> 0"
  then have "a AND NOT b \<noteq> a"
    by (metis and.assoc and.right_neutral bit.conj_cancel_left and_zero_eq)
  moreover have "a AND NOT b \<le> a" by (rule word_and_le2)
  ultimately have "a AND NOT b < a" by simp
  then show "((a AND NOT b, push_bit 1 b), (a, b)) \<in> measure (\<lambda>(a, _). unat a)"
    by (simp add: word_less_nat_alt)
qed simp

declare napot_loop.simps [simp del]

definition pmpcfg_entry :: "u64 \<Rightarrow> nat \<Rightarrow> nat \<Rightarrow> ('b, unit) cpuM" where
  "pmpcfg_entry val pmpidx i = do {
     let pmpcfg = drop_bit (8 * i) val AND 0xFF;
     let RWX = pmpcfg AND 0x7;
     let A = drop_bit 3 pmpcfg AND 0x3;
     let L = drop_bit 7 pmpcfg AND 0x1;
     pmpaddr \<leftarrow> gets (\<lambda>s. csr s (CSR_pmpaddr0 + pmpidx + i) AND mask54);
     prev \<leftarrow> gets (\<lambda>s. csr s (CSR_pmpaddr0 + pmpidx + i - 1) AND mask54);
     if A = 0 then disablePmp (pmpidx + i)
     else if A = 1 then
       enablePmp (pmpidx + i) (if pmpidx \<noteq> 0 then prev else 0) (pmpaddr - 1) RWX (L \<noteq> 0)
     else if A = 2 then
       enablePmp (pmpidx + i) (push_bit 2 pmpaddr) (push_bit 2 pmpaddr + 3) RWX (L \<noteq> 0)
     else
       (if pmpaddr = mask54 then enablePmp (pmpidx + i) 0 (- 1) RWX (L \<noteq> 0)
        else let (startaddr, bitidx) = napot_loop pmpaddr 1;
                 startaddr = push_bit 2 startaddr
             in enablePmp (pmpidx + i) startaddr (startaddr + 8 * bitidx - 1) RWX (L \<noteq> 0)) }"

fun pmpcfg_loop :: "u64 \<Rightarrow> nat \<Rightarrow> nat \<Rightarrow> ('b, unit) cpuM" where
  "pmpcfg_loop val pmpidx 0 = returnM ()"
| "pmpcfg_loop val pmpidx (Suc n) = do { pmpcfg_loop val pmpidx n; pmpcfg_entry val pmpidx n }"

section \<open>Control and status registers\<close>

definition getPendingLoc :: "'b cpu_cfg \<Rightarrow> nat \<Rightarrow> ('b, u32) cpuM" where
  "getPendingLoc c ctxid = do {
     (r, b) \<leftarrow> gets (\<lambda>s. iirqloc c (step_cnt s) ctxid (devs s));
     modify (\<lambda>s. s\<lparr>devs := b\<rparr>);
     returnM r }"

definition getPendingExt :: "'b cpu_cfg \<Rightarrow> nat \<Rightarrow> ('b, u32) cpuM" where
  "getPendingExt c ctxid = do {
     (r, b) \<leftarrow> gets (\<lambda>s. iirqext c (step_cnt s) ctxid (devs s));
     modify (\<lambda>s. s\<lparr>devs := b\<rparr>);
     returnM r }"

definition trigger_read :: "'b cpu_cfg \<Rightarrow> (trigger \<Rightarrow> u64) \<Rightarrow> ('b, u64) cpuM" where
  "trigger_read c sel = do {
     trigidx \<leftarrow> gets (\<lambda>s. unat (csr s CSR_tselect));
     if trigidx < triggersTotal c then gets (\<lambda>s. sel (ptriggers s trigidx))
     else do { undefined_behaviour; returnM 0 } }"

definition trigger_write :: "'b cpu_cfg \<Rightarrow> (trigger \<Rightarrow> trigger) \<Rightarrow> ('b, unit) cpuM" where
  "trigger_write c upd = do {
     trigidx \<leftarrow> gets (\<lambda>s. unat (csr s CSR_tselect));
     if trigidx < triggersTotal c
     then modify (\<lambda>s. s\<lparr>ptriggers := (ptriggers s)(trigidx := upd (ptriggers s trigidx))\<rparr>)
     else undefined_behaviour }"

definition readCSR :: "'b cpu_cfg \<Rightarrow> nat \<Rightarrow> ('b, u64) cpuM" where
  "readCSR c regno =
    (if regno = CSR_mcycle then gets step_cnt
     else if regno = CSR_minsret then gets step_cnt
     else if regno = CSR_cycle then gets step_cnt
     else if regno = CSR_time then gets step_cnt
     else if regno = CSR_insret then gets step_cnt
     else if regno = CSR_dpc then
       gets (\<lambda>s. if \<not> isHalted s then ctx_npc s (cur_ctx s) else csr s regno)
     else if regno = CSR_tdata1 then trigger_read c data1
     else if regno = CSR_tdata2 then trigger_read c data2
     else if regno = CSR_textra then trigger_read c extra
     else if regno = CSR_tinfo then returnM (2 ^ 2 OR 2 ^ 3 OR 2 ^ 4 OR 2 ^ 5)
     else if regno = CSR_mip then do {
       msip \<leftarrow> getPendingLoc c (2 * hartid c);
       mtip \<leftarrow> getPendingLoc c (2 * hartid c + 1);
       meip \<leftarrow> getPendingExt c (hartid c);
       returnM (set_bitfield 11 1 (if meip \<noteq> 0 then 1 else 0)
                 (set_bitfield 7 1 (ucast mtip) (set_bitfield 3 1 (ucast msip) 0))) }
     else gets (\<lambda>s. csr s regno))"

text \<open>
  \<^verbatim>\<open>writeCSR\<close>: the side effects first, then the store unless the register is read-only. The flush of
  the instruction cache has no effect on the modelled state; an unsupported paging mode is only
  reported.
\<close>

definition csr_read_only :: "nat \<Rightarrow> bool" where
  "csr_read_only regno \<longleftrightarrow>
     regno \<in> {CSR_misa, CSR_mvendorid, CSR_marchid, CSR_mimplementationid, CSR_mhartid,
              CSR_mcycle, CSR_minsret, CSR_cycle, CSR_time, CSR_insret}"

definition writeCSR :: "'b cpu_cfg \<Rightarrow> nat \<Rightarrow> u64 \<Rightarrow> ('b, unit) cpuM" where
  "writeCSR c regno val =
    (if csr_read_only regno then returnM ()
     else do {
       val \<leftarrow>
         (if regno = CSR_tselect then
            returnM (if of_nat (triggersTotal c) < val then of_nat (triggersTotal c) else val)
          else if regno = CSR_tdata1 then do {
            let tdata1 = (if bitfield 60 4 val = 2
                          then set_bitfield 53 6 (of_nat (mcontrolMaskmax c)) val else val);
            trigger_write c (\<lambda>t. t\<lparr>data1 := val\<rparr>);
            returnM tdata1 }
          else if regno = CSR_tdata2 then do {
            trigger_write c (\<lambda>t. t\<lparr>data2 := val\<rparr>); returnM val }
          else if regno = CSR_textra then do {
            trigger_write c (\<lambda>t. t\<lparr>extra := val\<rparr>); returnM val }
          else if CSR_pmpcfg0 \<le> regno \<and> regno \<le> CSR_pmpcfg15 then do {
            pmpcfg_loop val (8 * (regno - CSR_pmpcfg0)) 8; returnM val }
          else returnM val);
       modify (\<lambda>s. s\<lparr>csr := (csr s)(regno := val)\<rparr>) })"

definition generateException :: "'b cpu_cfg \<Rightarrow> nat \<Rightarrow> u64 \<Rightarrow> ('b, unit) cpuM" where
  "generateException c e arg = do {
     writeCSR c CSR_mtval arg;
     modify (\<lambda>s. s\<lparr>exceptions := exceptions s OR push_bit e 1\<rparr>) }"

section \<open>Memory access\<close>

definition isMpuEnabled :: "'b cpu \<Rightarrow> bool" where
  "isMpuEnabled s =
    (if cur_prv_level s \<noteq> PRV_M then True
     else let mstatus = csr s CSR_mstatus
          in bitfield 17 1 mstatus \<noteq> 0 \<and> bitfield 11 2 mstatus \<noteq> PRV_M)"

definition pmp_hit :: "pmp_table \<Rightarrow> u64 \<Rightarrow> nat \<Rightarrow> bool" where
  "pmp_hit t adr i \<longleftrightarrow> bit (pmp_ena t) i \<and> pmp_startadr t i \<le> adr \<and> adr \<le> pmp_endadr t i"

datatype rwx = RWX_r | RWX_w | RWX_x

definition checkMpu :: "'b cpu_cfg \<Rightarrow> u64 \<Rightarrow> rwx \<Rightarrow> 'b cpu \<Rightarrow> bool" where
  "checkMpu c adr a s =
    (let t = pmpTable s in
     case find (pmp_hit t adr) [0..<pmpTotal c] of
       None \<Rightarrow> False
     | Some i \<Rightarrow> (case a of RWX_x \<Rightarrow> bit (pmp_X t) i | RWX_r \<Rightarrow> bit (pmp_R t) i | RWX_w \<Rightarrow> bit (pmp_W t) i))"

text \<open>
  \<open>csr_satp_type\<close> declares \<open>ppn\<close> with 44, \<open>asid\<close> with 9 and \<open>mode\<close> with 4 bits, so \<open>mode\<close> is at
  bits 56..53.
\<close>

definition isMmuEnabled :: "'b cpu \<Rightarrow> bool" where
  "isMmuEnabled s =
    (let mode = bitfield 53 4 (csr s CSR_satp); mstatus = csr s CSR_mstatus
     in if cur_prv_level s \<noteq> PRV_M \<and> mode \<noteq> 0 then True
        else bitfield 17 1 mstatus \<noteq> 0 \<and> bitfield 11 2 mstatus \<noteq> PRV_M \<and> mode \<noteq> 0)"

definition translateMmu :: "u64 \<Rightarrow> u64" where
  "translateMmu va = (let pa = va in if drop_bit 48 va \<noteq> 0xFFFF then pa else pa)"

definition b_transport :: "'b cpu_cfg \<Rightarrow> axi4 \<Rightarrow> ('b, ETransStatus \<times> axi4) cpuM" where
  "b_transport c tr = do {
     (r, b, rqs) \<leftarrow> gets (\<lambda>s. isysbus c (step_cnt s) tr (devs s));
     modify (\<lambda>s. s\<lparr>devs := b, queue := clk_requests rqs (queue s)\<rparr>);
     returnM r }"

text \<open>
  The split of a transaction wider than the bus: \<open>n\<close> pieces of \<open>minsz\<close> bytes, through one scratch
  transaction \<open>tr1\<close>. The status of the last piece is the result.
\<close>

fun dma_split :: "'b cpu_cfg \<Rightarrow> nat \<Rightarrow> axi4 \<Rightarrow> nat \<Rightarrow> ('b, ETransStatus \<times> axi4 \<times> axi4) cpuM" where
  "dma_split c minsz tr 0 =
     returnM (TRANS_OK, tr, tr\<lparr>xsize := minsz, wstrb := of_nat (2 ^ minsz - 1)\<rparr>)"
| "dma_split c minsz tr (Suc n) = do {
     (_, tr, tr1) \<leftarrow> dma_split c minsz tr n;
     let i = n * minsz;
     let tr1 = tr1\<lparr>addr := addr tr + of_nat i,
                   wpayload := (if action tr = MemAction_Write
                     then set_bitfield 0 (8 * minsz) (drop_bit (8 * i) (wpayload tr)) (wpayload tr1)
                     else wpayload tr1)\<rparr>;
     (ret, tr1) \<leftarrow> b_transport c tr1;
     returnM (ret, if action tr = MemAction_Read
                   then tr\<lparr>rpayload := set_bitfield (8 * i) (8 * minsz) (rpayload tr1) (rpayload tr)\<rparr>
                   else tr, tr1) }"

text \<open>\<^verbatim>\<open>CpuGeneric::dma_memop\<close>. A bus width of 0 makes the splitting loop endless; it is marked as
  undefined behaviour.\<close>

definition dma_memop :: "'b cpu_cfg \<Rightarrow> axi4 \<Rightarrow> bool \<Rightarrow> ('b, ETransStatus \<times> axi4) cpuM" where
  "dma_memop c tr xflag = do {
     let tr = tr\<lparr>source_idx := sysBusMasterID c\<rparr>;
     mmu \<leftarrow> gets isMmuEnabled;
     let tr = (if mmu then tr\<lparr>addr := translateMmu (addr tr)\<rparr> else tr);
     mpu \<leftarrow> gets isMpuEnabled;
     allow \<leftarrow> gets (checkMpu c (addr tr)
               (if xflag then RWX_x else if action tr = MemAction_Write then RWX_w else RWX_r));
     if mpu \<and> \<not> allow then returnM (TRANS_ERROR, tr)
     else if xsize tr \<le> sysBusWidthBytes c then b_transport c tr
     else if sysBusWidthBytes c = 0 then do { undefined_behaviour; returnM (TRANS_OK, tr) }
     else do {
       (ret, tr, _) \<leftarrow> dma_split c (sysBusWidthBytes c) tr
            ((xsize tr + sysBusWidthBytes c - 1) div sysBusWidthBytes c);
       returnM (ret, tr) } }"

section \<open>What the primitive operations do\<close>

abbreviation pc_of :: "'b cpu \<Rightarrow> u64" where "pc_of s \<equiv> ctx_pc s (cur_ctx s)"
abbreviation npc_of :: "'b cpu \<Rightarrow> u64" where "npc_of s \<equiv> ctx_npc s (cur_ctx s)"

lemma run_primitives [simp]:
  "run_state undefined_behaviour s = ((), s\<lparr>ub := True\<rparr>)"
  "run_state getPC s = (pc_of s, s)"
  "run_state getNPC s = (npc_of s, s)"
  "run_state (setPC v) s = ((), s\<lparr>ctx_pc := (ctx_pc s)(cur_ctx s := v)\<rparr>)"
  "run_state (setNPC v) s = ((), s\<lparr>ctx_npc := (ctx_npc s)(cur_ctx s := v)\<rparr>)"
  "run_state (getR i) s = (regs s i, s)"
  "run_state (setReg i v) s = ((), if i = 0 then s else s\<lparr>regs := (regs s)(i := v)\<rparr>)"
  "run_state (readGPR i) s = (regs s i, s)"
  "run_state (writeGPR i v) s = ((), s\<lparr>regs := (regs s)(i := v)\<rparr>)"
  "run_state (setBranch v) s =
     ((), s\<lparr>branch := True, ctx_npc := (ctx_npc s)(cur_ctx s := v)\<rparr>)"
  "run_state getPrvLevel s = (cur_prv_level s, s)"
  "run_state (setPrvLevel l) s = ((), s\<lparr>cur_prv_level := l\<rparr>)"
  "run_state doNotCache s = ((), s\<lparr>do_not_cache := True\<rparr>)"
  "run_state popStackTrace s =
     ((), if stackTraceCnt s \<noteq> 0 then s\<lparr>stackTraceCnt := stackTraceCnt s - 1\<rparr> else s)"
  "run_state (mmuAddrReserve a) s =
     ((), s\<lparr>mmuReservatedAddr := a, mmuReservedAddrWatchdog := 64\<rparr>)"
  by (simp_all add: undefined_behaviour_def getPC_def getNPC_def setPC_def setNPC_def getR_def
      setReg_def readGPR_def writeGPR_def setBranch_def getPrvLevel_def setPrvLevel_def
      doNotCache_def popStackTrace_def mmuAddrReserve_def)

text \<open>The CSRs without side effects.\<close>

definition csr_plain_read :: "nat \<Rightarrow> bool" where
  "csr_plain_read r \<longleftrightarrow>
     r \<notin> {CSR_mcycle, CSR_minsret, CSR_cycle, CSR_time, CSR_insret, CSR_dpc, CSR_tdata1, CSR_tdata2,
          CSR_textra, CSR_tinfo, CSR_mip}"

definition csr_plain_write :: "nat \<Rightarrow> bool" where
  "csr_plain_write r \<longleftrightarrow>
     \<not> csr_read_only r \<and> r \<notin> {CSR_tselect, CSR_tdata1, CSR_tdata2, CSR_textra} \<and>
     \<not> (CSR_pmpcfg0 \<le> r \<and> r \<le> CSR_pmpcfg15)"

lemma run_readCSR_plain: "csr_plain_read r \<Longrightarrow> run_state (readCSR c r) s = (csr s r, s)"
  by (simp add: readCSR_def csr_plain_read_def)

lemma run_writeCSR_plain:
  "csr_plain_write r \<Longrightarrow> run_state (writeCSR c r v) s = ((), s\<lparr>csr := (csr s)(r := v)\<rparr>)"
  by (auto simp: writeCSR_def csr_plain_write_def)

lemma run_writeCSR_read_only: "csr_read_only r \<Longrightarrow> run_state (writeCSR c r v) s = ((), s)"
  by (simp add: writeCSR_def)

lemma csr_plain [simp]:
  "csr_plain_read CSR_mstatus" "csr_plain_read CSR_mie" "csr_plain_read CSR_mtvec"
  "csr_plain_read CSR_satp" "csr_plain_read CSR_dcsr" "csr_plain_read CSR_mstackovr"
  "csr_plain_read CSR_mstackund" "csr_plain_read CSR_mepc" "csr_plain_read CSR_sepc"
  "csr_plain_read CSR_uepc" "csr_plain_read CSR_mcause"
  "csr_plain_write CSR_mstatus" "csr_plain_write CSR_mtval" "csr_plain_write CSR_mcause"
  "csr_plain_write CSR_mepc" "csr_plain_write CSR_sepc" "csr_plain_write CSR_uepc"
  "csr_plain_write CSR_dcsr" "csr_plain_write CSR_dpc" "csr_plain_write CSR_mtvec"
  "csr_plain_write CSR_mstackovr" "csr_plain_write CSR_mstackund"
  by (simp_all add: csr_plain_read_def csr_plain_write_def csr_read_only_def)

lemmas [simp] = run_readCSR_plain run_writeCSR_plain

lemma run_generateException [simp]:
  "run_state (generateException c e arg) s =
     ((), s\<lparr>csr := (csr s)(CSR_mtval := arg), exceptions := exceptions s OR push_bit e 1\<rparr>)"
  by (simp add: generateException_def)

lemma translateMmu_id [simp]: "translateMmu va = va"
  by (simp add: translateMmu_def)

text \<open>An access that fits the bus is one bus transaction, unless the PMP refuses it.\<close>

definition mpu_denies :: "'b cpu_cfg \<Rightarrow> u64 \<Rightarrow> rwx \<Rightarrow> 'b cpu \<Rightarrow> bool" where
  "mpu_denies c a k s \<longleftrightarrow> isMpuEnabled s \<and> \<not> checkMpu c a k s"

lemma run_b_transport [simp]:
  "run_state (b_transport c tr) s =
     (case isysbus c (step_cnt s) tr (devs s) of
        (r, b, rqs) \<Rightarrow> (r, s\<lparr>devs := b, queue := clk_requests rqs (queue s)\<rparr>))"
  by (simp add: b_transport_def split: prod.split)

lemma run_dma_memop:
  assumes "xsize tr \<le> sysBusWidthBytes c"
  shows "run_state (dma_memop c tr x) s =
    (if mpu_denies c (addr tr) (if x then RWX_x else if action tr = MemAction_Write then RWX_w else RWX_r) s
     then ((TRANS_ERROR, tr\<lparr>source_idx := sysBusMasterID c\<rparr>), s)
     else (case isysbus c (step_cnt s) (tr\<lparr>source_idx := sysBusMasterID c\<rparr>) (devs s) of
             (r, b, rqs) \<Rightarrow> (r, s\<lparr>devs := b, queue := clk_requests rqs (queue s)\<rparr>)))"
proof -
  have same: "(if m then t\<lparr>addr := translateMmu (addr t)\<rparr> else t) = t" for m and t :: axi4
    by simp
  show ?thesis using assms
    by (simp add: dma_memop_def mpu_denies_def same cong: if_cong)
qed

section \<open>A sample configuration\<close>

text \<open>
  A configuration and a state to instantiate the properties with: a bus that maps nothing, no interrupt, no
  callbacks; a core in machine mode with all registers zero.
\<close>

definition sample_cfg :: "'b cpu_cfg" where
  "sample_cfg =
    \<lparr>isysbus = (\<lambda>t tr b. ((TRANS_ERROR, tr), b, [])), iirqloc = (\<lambda>t k b. (0, b)), iirqext = (\<lambda>t k b. (0, b)),
     stepCallback = (\<lambda>cb t b. (b, [])), vendorid = 0xF1, implementationid = 0x20240227, hartid = 0,
     sysBusWidthBytes = 8, sysBusMasterID = 0, resetVector = 0x10000, pmpTotal = 8, triggersTotal = 2,
     mcontrolMaskmax = 15, stackTraceSize = 32, listExtISA = ''IMAC'', uninit = 0xCDCDCDCDCDCDCDCD\<rparr>"

definition sample_cpu :: "'b \<Rightarrow> 'b cpu" where
  "sample_cpu b =
    \<lparr>regs = (\<lambda>_. 0), csr = (\<lambda>_. 0), ctx_pc = (\<lambda>_. 0x10000), ctx_npc = (\<lambda>_. 0x10000), cur_ctx = Ctx_Normal,
     estate = CORE_Normal, step_cnt = 0, pc_z = 0, branch = False, oplen = 0, exceptions = 0,
     do_not_cache = False, haltreq = False, resumereq = False, resumeack = False, procbufexecreq = False,
     progbuf = (\<lambda>_. 0),
     trans_fetch = \<lparr>action = MemAction_Read, response = MemResp_Valid, xsize = 4, wstrb = 0, addr = 0,
                    rpayload = 0, wpayload = 0, source_idx = 0\<rparr>,
     cacheline = 0, cur_prv_level = 3, stackTraceCnt = 0, stackTraceBuf = (\<lambda>_. 0),
     ptriggers = (\<lambda>_. \<lparr>data1 = 0, data2 = 0, extra = 0\<rparr>), mmuReservatedAddr = 0, mmuReservedAddrWatchdog = 0,
     pmpTable = \<lparr>pmp_ena = 0, pmp_startadr = (\<lambda>_. 0), pmp_endadr = (\<lambda>_. 0), pmp_R = 0, pmp_W = 0,
                 pmp_X = 0, pmp_L = 0\<rparr>,
     resetHalted = False, queue = q_hardReset, devs = b, ub = False\<rparr>"

section \<open>Properties of the CSR file\<close>

text \<open>A CSR without side effects holds what was last written to it, and a write changes no other register.\<close>

lemma csr_write_read:
  assumes "csr_plain_write r" and "csr_plain_read r'"
  shows "run_state (do { writeCSR c r v; readCSR c r' }) s =
     (if r' = r then v else csr s r', s\<lparr>csr := (csr s)(r := v)\<rparr>)"
  using assms by simp

end
