(* ===== verification/Rv64i_User.thy ===== *)
theory Rv64i_User
  imports Cpu_State
begin

text \<open>
  The instruction objects of the functional model (\<^verbatim>\<open>cpu_fnc_plugin/instructions.h\<close>) and the RV64I user
  instructions of \<^verbatim>\<open>riscv-rv64i-user.cpp\<close>: one definition per instruction class, its \<^verbatim>\<open>exec\<close> method.
  The argument \<open>payload\<close> is the 64-bit fetch buffer; the result is the instruction length in bytes.
\<close>

section \<open>Instruction objects\<close>

definition buf32_0 :: "u64 \<Rightarrow> u32" where "buf32_0 payload = ucast payload"
definition buf16_0 :: "u64 \<Rightarrow> u16" where "buf16_0 payload = ucast payload"

lemma buf_ucast [simp]:
  "buf32_0 (ucast (w :: u32)) = w" "buf16_0 (ucast (h :: u16)) = h"
  by (rule bit_word_eqI; simp add: buf32_0_def buf16_0_def bit_simps)+

record 'b riscv_instr =
  iname :: string
  opcode :: u32
  imask :: u32
  iparse :: "u32 \<Rightarrow> bool"
  ihash :: nat
  iexec :: "u64 \<Rightarrow> ('b, nat) cpuM"

text \<open>The constructor's scan of the bit pattern: \<open>scan_bits i bits opcode mask\<close>.\<close>

fun scan_bits :: "nat \<Rightarrow> string \<Rightarrow> u32 \<Rightarrow> u32 \<Rightarrow> u32 \<times> u32" where
  "scan_bits i [] op m = (op, m)"
| "scan_bits i (ch # bs) op m =
    (if ch = CHR ''1'' then scan_bits (i + 1) bs (op OR push_bit (31 - i) 1) m
     else if ch = CHR ''?'' then scan_bits (i + 1) bs op (m OR push_bit (31 - i) 1)
     else scan_bits (i + 1) bs op m)"

definition pattern_opcode :: "string \<Rightarrow> u32" where
  "pattern_opcode bits = fst (scan_bits 0 (take 32 bits) 0 0)"

definition pattern_mask :: "string \<Rightarrow> u32" where
  "pattern_mask bits = NOT (snd (scan_bits 0 (take 32 bits) 0 0))"

definition parse_pattern :: "string \<Rightarrow> u32 \<Rightarrow> bool" where
  "parse_pattern bits payload \<longleftrightarrow> payload AND pattern_mask bits = pattern_opcode bits"

definition instr_hash :: "u32 \<Rightarrow> nat" where
  "instr_hash op = unat (drop_bit 2 op AND 0x1F)"

definition instr_hash16 :: "u32 \<Rightarrow> nat" where
  "instr_hash16 op =
    (let w = ucast op :: u16 in 0x20 OR (4 * unat (drop_bit 13 w)) OR unat (w AND 3))"

definition mk_instr :: "string \<Rightarrow> string \<Rightarrow> (u64 \<Rightarrow> ('b, nat) cpuM) \<Rightarrow> 'b riscv_instr" where
  "mk_instr nm bits ex =
     \<lparr>iname = nm, opcode = pattern_opcode bits, imask = pattern_mask bits, iparse = parse_pattern bits,
      ihash = instr_hash (pattern_opcode bits), iexec = ex\<rparr>"

section \<open>Memory instructions: the common part\<close>

text \<open>
  The load classes build the same read transaction and differ in its size, the initial payload and
  what they do with the result; likewise the stores. A misaligned access raises the
  exception with the program counter as argument and, for a load, reads as 0.
\<close>

definition load_trans :: "'b cpu_cfg \<Rightarrow> u64 \<Rightarrow> nat \<Rightarrow> u64 \<Rightarrow> axi4" where
  "load_trans c a sz init =
     \<lparr>action = MemAction_Read, response = MemResp_Valid, xsize = sz, wstrb = ucast (uninit c), addr = a,
      rpayload = init, wpayload = uninit c, source_idx = 0\<rparr>"

definition store_trans :: "'b cpu_cfg \<Rightarrow> u64 \<Rightarrow> nat \<Rightarrow> u64 \<Rightarrow> axi4" where
  "store_trans c a sz v =
     \<lparr>action = MemAction_Write, response = MemResp_Valid, xsize = sz, wstrb = of_nat (2 ^ sz - 1), addr = a,
      rpayload = uninit c, wpayload = v, source_idx = 0\<rparr>"

definition load_op :: "'b cpu_cfg \<Rightarrow> u64 \<Rightarrow> nat \<Rightarrow> u64 \<Rightarrow> ('b, u64) cpuM" where
  "load_op c a sz init =
    (if a AND of_nat (sz - 1) \<noteq> 0 then do {
       pc \<leftarrow> getPC;
       generateException c EXCEPTION_LoadMisalign pc;
       returnM 0 }
     else do {
       (ret, tr) \<leftarrow> dma_memop c (load_trans c a sz init) False;
       whenM (ret = TRANS_ERROR) (generateException c EXCEPTION_LoadFault (addr tr));
       returnM (rpayload tr) })"

definition store_op :: "'b cpu_cfg \<Rightarrow> u64 \<Rightarrow> nat \<Rightarrow> u64 \<Rightarrow> ('b, unit) cpuM" where
  "store_op c a sz v =
    (if a AND of_nat (sz - 1) \<noteq> 0 then do {
       pc \<leftarrow> getPC;
       generateException c EXCEPTION_StoreMisalign pc }
     else do {
       (ret, tr) \<leftarrow> dma_memop c (store_trans c a sz v) False;
       whenM (ret = TRANS_ERROR) (generateException c EXCEPTION_StoreFault (addr tr)) })"

section \<open>The instruction classes\<close>

subsection \<open>Addition, logic, upper immediates\<close>

definition exec_ADD :: "'b cpu_cfg \<Rightarrow> u64 \<Rightarrow> ('b, nat) cpuM" where
  "exec_ADD c payload = do {
     let u = buf32_0 payload;
     a \<leftarrow> getR (ISA_rs1 u);
     b \<leftarrow> getR (ISA_rs2 u);
     setReg (ISA_rd u) (a + b);
     returnM 4 }"

definition exec_ADDI :: "'b cpu_cfg \<Rightarrow> u64 \<Rightarrow> ('b, nat) cpuM" where
  "exec_ADDI c payload = do {
     let u = buf32_0 payload;
     let imm = sext_imm12 (ISA_I_imm u);
     a \<leftarrow> getR (ISA_rs1 u);
     setReg (ISA_rd u) (a + imm);
     returnM 4 }"

definition exec_ADDIW :: "'b cpu_cfg \<Rightarrow> u64 \<Rightarrow> ('b, nat) cpuM" where
  "exec_ADDIW c payload = do {
     let u = buf32_0 payload;
     let imm = sext_imm12 (ISA_I_imm u);
     a \<leftarrow> getR (ISA_rs1 u);
     setReg (ISA_rd u) (sext32 (a + imm));
     returnM 4 }"

definition exec_ADDW :: "'b cpu_cfg \<Rightarrow> u64 \<Rightarrow> ('b, nat) cpuM" where
  "exec_ADDW c payload = do {
     let u = buf32_0 payload;
     a \<leftarrow> getR (ISA_rs1 u);
     b \<leftarrow> getR (ISA_rs2 u);
     setReg (ISA_rd u) (sext32 (a + b));
     returnM 4 }"

definition exec_AND :: "'b cpu_cfg \<Rightarrow> u64 \<Rightarrow> ('b, nat) cpuM" where
  "exec_AND c payload = do {
     let u = buf32_0 payload;
     a \<leftarrow> getR (ISA_rs1 u);
     b \<leftarrow> getR (ISA_rs2 u);
     setReg (ISA_rd u) (a AND b);
     returnM 4 }"

definition exec_ANDI :: "'b cpu_cfg \<Rightarrow> u64 \<Rightarrow> ('b, nat) cpuM" where
  "exec_ANDI c payload = do {
     let u = buf32_0 payload;
     let imm = sext_imm12 (ISA_I_imm u);
     a \<leftarrow> getR (ISA_rs1 u);
     setReg (ISA_rd u) (a AND imm);
     returnM 4 }"

definition exec_AUIPC :: "'b cpu_cfg \<Rightarrow> u64 \<Rightarrow> ('b, nat) cpuM" where
  "exec_AUIPC c payload = do {
     let u = buf32_0 payload;
     pc \<leftarrow> getPC;
     setReg (ISA_rd u) (pc + ISA_U_off u);
     returnM 4 }"

subsection \<open>Branches and jumps\<close>

definition exec_BEQ :: "'b cpu_cfg \<Rightarrow> u64 \<Rightarrow> ('b, nat) cpuM" where
  "exec_BEQ c payload = do {
     let u = buf32_0 payload;
     a \<leftarrow> getR (ISA_rs1 u);
     b \<leftarrow> getR (ISA_rs2 u);
     pc \<leftarrow> getPC;
     whenM (a = b) (setBranch (pc + ISA_SB_off u));
     returnM 4 }"

definition exec_BGE :: "'b cpu_cfg \<Rightarrow> u64 \<Rightarrow> ('b, nat) cpuM" where
  "exec_BGE c payload = do {
     let u = buf32_0 payload;
     a \<leftarrow> getR (ISA_rs1 u);
     b \<leftarrow> getR (ISA_rs2 u);
     pc \<leftarrow> getPC;
     whenM (sint b \<le> sint a) (setBranch (pc + ISA_SB_off u));
     returnM 4 }"

definition exec_BGEU :: "'b cpu_cfg \<Rightarrow> u64 \<Rightarrow> ('b, nat) cpuM" where
  "exec_BGEU c payload = do {
     let u = buf32_0 payload;
     a \<leftarrow> getR (ISA_rs1 u);
     b \<leftarrow> getR (ISA_rs2 u);
     pc \<leftarrow> getPC;
     whenM (b \<le> a) (setBranch (pc + ISA_SB_off u));
     returnM 4 }"

definition exec_BLT :: "'b cpu_cfg \<Rightarrow> u64 \<Rightarrow> ('b, nat) cpuM" where
  "exec_BLT c payload = do {
     let u = buf32_0 payload;
     a \<leftarrow> getR (ISA_rs1 u);
     b \<leftarrow> getR (ISA_rs2 u);
     pc \<leftarrow> getPC;
     whenM (sint a < sint b) (setBranch (pc + ISA_SB_off u));
     returnM 4 }"

definition exec_BLTU :: "'b cpu_cfg \<Rightarrow> u64 \<Rightarrow> ('b, nat) cpuM" where
  "exec_BLTU c payload = do {
     let u = buf32_0 payload;
     a \<leftarrow> getR (ISA_rs1 u);
     b \<leftarrow> getR (ISA_rs2 u);
     pc \<leftarrow> getPC;
     whenM (a < b) (setBranch (pc + ISA_SB_off u));
     returnM 4 }"

definition exec_BNE :: "'b cpu_cfg \<Rightarrow> u64 \<Rightarrow> ('b, nat) cpuM" where
  "exec_BNE c payload = do {
     let u = buf32_0 payload;
     a \<leftarrow> getR (ISA_rs1 u);
     b \<leftarrow> getR (ISA_rs2 u);
     pc \<leftarrow> getPC;
     whenM (a \<noteq> b) (setBranch (pc + ISA_SB_off u));
     returnM 4 }"

definition exec_JAL :: "'b cpu_cfg \<Rightarrow> u64 \<Rightarrow> ('b, nat) cpuM" where
  "exec_JAL c payload = do {
     let u = buf32_0 payload;
     let off = ISA_UJ_off u;
     pc \<leftarrow> getPC;
     whenM (ISA_rd u \<noteq> 0) (setReg (ISA_rd u) (pc + 4));
     setBranch (pc + off);
     whenM (ISA_rd u = Reg_ra) (pushStackTrace c);
     returnM 4 }"

definition exec_JALR :: "'b cpu_cfg \<Rightarrow> u64 \<Rightarrow> ('b, nat) cpuM" where
  "exec_JALR c payload = do {
     let u = buf32_0 payload;
     let off = sext_imm12 (ISA_I_imm u);
     a \<leftarrow> getR (ISA_rs1 u);
     let off = (off + a) AND NOT 1;
     pc \<leftarrow> getPC;
     whenM (ISA_rd u \<noteq> 0) (setReg (ISA_rd u) (pc + 4));
     setBranch off;
     (if ISA_rd u = Reg_ra then pushStackTrace c
      else whenM (ISA_I_imm u = 0 \<and> ISA_rs1 u = Reg_ra) popStackTrace);
     returnM 4 }"

subsection \<open>Loads\<close>

definition exec_LD :: "'b cpu_cfg \<Rightarrow> u64 \<Rightarrow> ('b, nat) cpuM" where
  "exec_LD c payload = do {
     let u = buf32_0 payload;
     a \<leftarrow> getR (ISA_rs1 u);
     r \<leftarrow> load_op c (a + sext_imm12 (ISA_I_imm u)) 8 (uninit c);
     setReg (ISA_rd u) (r);
     returnM 4 }"

definition exec_LW :: "'b cpu_cfg \<Rightarrow> u64 \<Rightarrow> ('b, nat) cpuM" where
  "exec_LW c payload = do {
     let u = buf32_0 payload;
     a \<leftarrow> getR (ISA_rs1 u);
     r \<leftarrow> load_op c (a + sext_imm12 (ISA_I_imm u)) 4 0;
     setReg (ISA_rd u) (if r AND 0x80000000 \<noteq> 0 then r OR EXT_SIGN_32 else r);
     returnM 4 }"

definition exec_LWU :: "'b cpu_cfg \<Rightarrow> u64 \<Rightarrow> ('b, nat) cpuM" where
  "exec_LWU c payload = do {
     let u = buf32_0 payload;
     a \<leftarrow> getR (ISA_rs1 u);
     r \<leftarrow> load_op c (a + sext_imm12 (ISA_I_imm u)) 4 0;
     setReg (ISA_rd u) (r);
     returnM 4 }"

definition exec_LH :: "'b cpu_cfg \<Rightarrow> u64 \<Rightarrow> ('b, nat) cpuM" where
  "exec_LH c payload = do {
     let u = buf32_0 payload;
     a \<leftarrow> getR (ISA_rs1 u);
     r \<leftarrow> load_op c (a + sext_imm12 (ISA_I_imm u)) 2 0;
     setReg (ISA_rd u) (let res = b16_0 r in if res AND 0x8000 \<noteq> 0 then res OR EXT_SIGN_16 else res);
     returnM 4 }"

definition exec_LHU :: "'b cpu_cfg \<Rightarrow> u64 \<Rightarrow> ('b, nat) cpuM" where
  "exec_LHU c payload = do {
     let u = buf32_0 payload;
     a \<leftarrow> getR (ISA_rs1 u);
     r \<leftarrow> load_op c (a + sext_imm12 (ISA_I_imm u)) 2 0;
     setReg (ISA_rd u) (b16_0 r);
     returnM 4 }"

definition exec_LB :: "'b cpu_cfg \<Rightarrow> u64 \<Rightarrow> ('b, nat) cpuM" where
  "exec_LB c payload = do {
     let u = buf32_0 payload;
     a \<leftarrow> getR (ISA_rs1 u);
     r \<leftarrow> load_op c (a + sext_imm12 (ISA_I_imm u)) 1 0;
     setReg (ISA_rd u) (let res = ucast (b8 0 r) in if res AND 0x80 \<noteq> 0 then res OR EXT_SIGN_8 else res);
     returnM 4 }"

definition exec_LBU :: "'b cpu_cfg \<Rightarrow> u64 \<Rightarrow> ('b, nat) cpuM" where
  "exec_LBU c payload = do {
     let u = buf32_0 payload;
     a \<leftarrow> getR (ISA_rs1 u);
     r \<leftarrow> load_op c (a + sext_imm12 (ISA_I_imm u)) 1 0;
     setReg (ISA_rd u) (ucast (b8 0 r));
     returnM 4 }"

definition exec_LUI :: "'b cpu_cfg \<Rightarrow> u64 \<Rightarrow> ('b, nat) cpuM" where
  "exec_LUI c payload = do {
     let u = buf32_0 payload;
     setReg (ISA_rd u) (ISA_U_off u);
     returnM 4 }"

subsection \<open>Logic and comparisons\<close>

definition exec_OR :: "'b cpu_cfg \<Rightarrow> u64 \<Rightarrow> ('b, nat) cpuM" where
  "exec_OR c payload = do {
     let u = buf32_0 payload;
     a \<leftarrow> getR (ISA_rs1 u);
     b \<leftarrow> getR (ISA_rs2 u);
     setReg (ISA_rd u) (a OR b);
     returnM 4 }"

definition exec_ORI :: "'b cpu_cfg \<Rightarrow> u64 \<Rightarrow> ('b, nat) cpuM" where
  "exec_ORI c payload = do {
     let u = buf32_0 payload;
     let imm = sext_imm12 (ISA_I_imm u);
     a \<leftarrow> getR (ISA_rs1 u);
     setReg (ISA_rd u) (a OR imm);
     returnM 4 }"

definition exec_SLLI :: "'b cpu_cfg \<Rightarrow> u64 \<Rightarrow> ('b, nat) cpuM" where
  "exec_SLLI c payload = do {
     let u = buf32_0 payload;
     let shamt = unat (ISA_I_imm u AND 0x3F);
     a \<leftarrow> getR (ISA_rs1 u);
     setReg (ISA_rd u) (push_bit shamt a);
     returnM 4 }"

definition exec_SLT :: "'b cpu_cfg \<Rightarrow> u64 \<Rightarrow> ('b, nat) cpuM" where
  "exec_SLT c payload = do {
     let u = buf32_0 payload;
     a \<leftarrow> getR (ISA_rs1 u);
     b \<leftarrow> getR (ISA_rs2 u);
     setReg (ISA_rd u) (if sint a < sint b then 1 else 0);
     returnM 4 }"

definition exec_SLTI :: "'b cpu_cfg \<Rightarrow> u64 \<Rightarrow> ('b, nat) cpuM" where
  "exec_SLTI c payload = do {
     let u = buf32_0 payload;
     let imm = sext_imm12 (ISA_I_imm u);
     a \<leftarrow> getR (ISA_rs1 u);
     setReg (ISA_rd u) (if sint a < sint imm then 1 else 0);
     returnM 4 }"

definition exec_SLTU :: "'b cpu_cfg \<Rightarrow> u64 \<Rightarrow> ('b, nat) cpuM" where
  "exec_SLTU c payload = do {
     let u = buf32_0 payload;
     a \<leftarrow> getR (ISA_rs1 u);
     b \<leftarrow> getR (ISA_rs2 u);
     setReg (ISA_rd u) (if a < b then 1 else 0);
     returnM 4 }"

definition exec_SLTIU :: "'b cpu_cfg \<Rightarrow> u64 \<Rightarrow> ('b, nat) cpuM" where
  "exec_SLTIU c payload = do {
     let u = buf32_0 payload;
     let imm = sext_imm12 (ISA_I_imm u);
     a \<leftarrow> getR (ISA_rs1 u);
     setReg (ISA_rd u) (if a < imm then 1 else 0);
     returnM 4 }"

subsection \<open>Shifts\<close>

definition exec_SLL :: "'b cpu_cfg \<Rightarrow> u64 \<Rightarrow> ('b, nat) cpuM" where
  "exec_SLL c payload = do {
     let u = buf32_0 payload;
     a \<leftarrow> getR (ISA_rs1 u);
     b \<leftarrow> getR (ISA_rs2 u);
     setReg (ISA_rd u) (push_bit (unat (b AND 0x3F)) a);
     returnM 4 }"

definition exec_SLLW :: "'b cpu_cfg \<Rightarrow> u64 \<Rightarrow> ('b, nat) cpuM" where
  "exec_SLLW c payload = do {
     let u = buf32_0 payload;
     a \<leftarrow> getR (ISA_rs1 u);
     b \<leftarrow> getR (ISA_rs2 u);
     setReg (ISA_rd u) (sext32 (push_bit (unat (b AND 0x1F)) a));
     returnM 4 }"

definition exec_SLLIW :: "'b cpu_cfg \<Rightarrow> u64 \<Rightarrow> ('b, nat) cpuM" where
  "exec_SLLIW c payload = do {
     let u = buf32_0 payload;
     let shamt = unat (ISA_I_imm u AND 0x1F);
     a \<leftarrow> getR (ISA_rs1 u);
     setReg (ISA_rd u) (sext32 (push_bit shamt a));
     pc \<leftarrow> getPC;
     whenM (drop_bit 5 (ISA_I_imm u) AND 1 \<noteq> 0) (generateException c EXCEPTION_InstrIllegal pc);
     returnM 4 }"

definition exec_SRA :: "'b cpu_cfg \<Rightarrow> u64 \<Rightarrow> ('b, nat) cpuM" where
  "exec_SRA c payload = do {
     let u = buf32_0 payload;
     a \<leftarrow> getR (ISA_rs1 u);
     b \<leftarrow> getR (ISA_rs2 u);
     setReg (ISA_rd u) (signed_drop_bit (unat (b AND 0x3F)) a);
     returnM 4 }"

definition exec_SRAW :: "'b cpu_cfg \<Rightarrow> u64 \<Rightarrow> ('b, nat) cpuM" where
  "exec_SRAW c payload = do {
     let u = buf32_0 payload;
     a \<leftarrow> getR (ISA_rs1 u);
     b \<leftarrow> getR (ISA_rs2 u);
     setReg (ISA_rd u) (scast (signed_drop_bit (unat (b AND 0x1F)) (ucast a :: u32)));
     returnM 4 }"

definition exec_SRAI :: "'b cpu_cfg \<Rightarrow> u64 \<Rightarrow> ('b, nat) cpuM" where
  "exec_SRAI c payload = do {
     let u = buf32_0 payload;
     let shamt = unat (ISA_I_imm u AND 0x3F);
     a \<leftarrow> getR (ISA_rs1 u);
     setReg (ISA_rd u) (signed_drop_bit shamt a);
     returnM 4 }"

definition exec_SRAIW :: "'b cpu_cfg \<Rightarrow> u64 \<Rightarrow> ('b, nat) cpuM" where
  "exec_SRAIW c payload = do {
     let u = buf32_0 payload;
     let shamt = unat (ISA_I_imm u AND 0x1F);
     a \<leftarrow> getR (ISA_rs1 u);
     setReg (ISA_rd u) (scast (signed_drop_bit shamt (ucast a :: u32)));
     pc \<leftarrow> getPC;
     whenM (drop_bit 5 (ISA_I_imm u) AND 1 \<noteq> 0) (generateException c EXCEPTION_InstrIllegal pc);
     returnM 4 }"

definition exec_SRL :: "'b cpu_cfg \<Rightarrow> u64 \<Rightarrow> ('b, nat) cpuM" where
  "exec_SRL c payload = do {
     let u = buf32_0 payload;
     a \<leftarrow> getR (ISA_rs1 u);
     b \<leftarrow> getR (ISA_rs2 u);
     setReg (ISA_rd u) (drop_bit (unat (b AND 0x3F)) a);
     returnM 4 }"

definition exec_SRLI :: "'b cpu_cfg \<Rightarrow> u64 \<Rightarrow> ('b, nat) cpuM" where
  "exec_SRLI c payload = do {
     let u = buf32_0 payload;
     let shamt = unat (ISA_I_imm u AND 0x3F);
     a \<leftarrow> getR (ISA_rs1 u);
     setReg (ISA_rd u) (drop_bit shamt a);
     returnM 4 }"

definition exec_SRLIW :: "'b cpu_cfg \<Rightarrow> u64 \<Rightarrow> ('b, nat) cpuM" where
  "exec_SRLIW c payload = do {
     let u = buf32_0 payload;
     let shamt = unat (ISA_I_imm u AND 0x1F);
     a \<leftarrow> getR (ISA_rs1 u);
     setReg (ISA_rd u) (scast (drop_bit shamt (ucast a :: u32)));
     returnM 4 }"

definition exec_SRLW :: "'b cpu_cfg \<Rightarrow> u64 \<Rightarrow> ('b, nat) cpuM" where
  "exec_SRLW c payload = do {
     let u = buf32_0 payload;
     a \<leftarrow> getR (ISA_rs1 u);
     b \<leftarrow> getR (ISA_rs2 u);
     setReg (ISA_rd u) (sext32 (ucast (drop_bit (unat (b AND 0x1F)) (ucast a :: u32))));
     returnM 4 }"

subsection \<open>Stores\<close>

definition exec_SD :: "'b cpu_cfg \<Rightarrow> u64 \<Rightarrow> ('b, nat) cpuM" where
  "exec_SD c payload = do {
     let u = buf32_0 payload;
     a \<leftarrow> getR (ISA_rs1 u);
     b \<leftarrow> getR (ISA_rs2 u);
     store_op c (a + sext_imm12 (ISA_S_off u)) 8 (b);
     returnM 4 }"

definition exec_SW :: "'b cpu_cfg \<Rightarrow> u64 \<Rightarrow> ('b, nat) cpuM" where
  "exec_SW c payload = do {
     let u = buf32_0 payload;
     a \<leftarrow> getR (ISA_rs1 u);
     b \<leftarrow> getR (ISA_rs2 u);
     store_op c (a + sext_imm12 (ISA_S_off u)) 4 (b);
     returnM 4 }"

definition exec_SH :: "'b cpu_cfg \<Rightarrow> u64 \<Rightarrow> ('b, nat) cpuM" where
  "exec_SH c payload = do {
     let u = buf32_0 payload;
     a \<leftarrow> getR (ISA_rs1 u);
     b \<leftarrow> getR (ISA_rs2 u);
     store_op c (a + sext_imm12 (ISA_S_off u)) 2 (b AND 0xFFFF);
     returnM 4 }"

definition exec_SB :: "'b cpu_cfg \<Rightarrow> u64 \<Rightarrow> ('b, nat) cpuM" where
  "exec_SB c payload = do {
     let u = buf32_0 payload;
     a \<leftarrow> getR (ISA_rs1 u);
     b \<leftarrow> getR (ISA_rs2 u);
     store_op c (a + sext_imm12 (ISA_S_off u)) 1 (b AND 0xFF);
     returnM 4 }"

subsection \<open>Subtraction and exclusive or\<close>

definition exec_SUB :: "'b cpu_cfg \<Rightarrow> u64 \<Rightarrow> ('b, nat) cpuM" where
  "exec_SUB c payload = do {
     let u = buf32_0 payload;
     a \<leftarrow> getR (ISA_rs1 u);
     b \<leftarrow> getR (ISA_rs2 u);
     setReg (ISA_rd u) (a - b);
     returnM 4 }"

definition exec_SUBW :: "'b cpu_cfg \<Rightarrow> u64 \<Rightarrow> ('b, nat) cpuM" where
  "exec_SUBW c payload = do {
     let u = buf32_0 payload;
     a \<leftarrow> getR (ISA_rs1 u);
     b \<leftarrow> getR (ISA_rs2 u);
     setReg (ISA_rd u) (sext32 (a - b));
     returnM 4 }"

definition exec_XOR :: "'b cpu_cfg \<Rightarrow> u64 \<Rightarrow> ('b, nat) cpuM" where
  "exec_XOR c payload = do {
     let u = buf32_0 payload;
     a \<leftarrow> getR (ISA_rs1 u);
     b \<leftarrow> getR (ISA_rs2 u);
     setReg (ISA_rd u) (a XOR b);
     returnM 4 }"

definition exec_XORI :: "'b cpu_cfg \<Rightarrow> u64 \<Rightarrow> ('b, nat) cpuM" where
  "exec_XORI c payload = do {
     let u = buf32_0 payload;
     let imm = sext_imm12 (ISA_I_imm u);
     a \<leftarrow> getR (ISA_rs1 u);
     setReg (ISA_rd u) (a XOR imm);
     returnM 4 }"

section \<open>The table\<close>

text \<open>\<^verbatim>\<open>addIsaUserRV64I\<close>, in the order the objects are added.\<close>

definition isaUserRV64I :: "'b cpu_cfg \<Rightarrow> 'b riscv_instr list" where
  "isaUserRV64I c =
    [mk_instr ''ADD'' ''0000000??????????000?????0110011'' (exec_ADD c),
     mk_instr ''ADDI'' ''?????????????????000?????0010011'' (exec_ADDI c),
     mk_instr ''ADDIW'' ''?????????????????000?????0011011'' (exec_ADDIW c),
     mk_instr ''ADDW'' ''0000000??????????000?????0111011'' (exec_ADDW c),
     mk_instr ''AND'' ''0000000??????????111?????0110011'' (exec_AND c),
     mk_instr ''ANDI'' ''?????????????????111?????0010011'' (exec_ANDI c),
     mk_instr ''AUIPC'' ''?????????????????????????0010111'' (exec_AUIPC c),
     mk_instr ''BEQ'' ''?????????????????000?????1100011'' (exec_BEQ c),
     mk_instr ''BGE'' ''?????????????????101?????1100011'' (exec_BGE c),
     mk_instr ''BGEU'' ''?????????????????111?????1100011'' (exec_BGEU c),
     mk_instr ''BLT'' ''?????????????????100?????1100011'' (exec_BLT c),
     mk_instr ''BLTU'' ''?????????????????110?????1100011'' (exec_BLTU c),
     mk_instr ''BNE'' ''?????????????????001?????1100011'' (exec_BNE c),
     mk_instr ''JAL'' ''?????????????????????????1101111'' (exec_JAL c),
     mk_instr ''JALR'' ''?????????????????000?????1100111'' (exec_JALR c),
     mk_instr ''LD'' ''?????????????????011?????0000011'' (exec_LD c),
     mk_instr ''LW'' ''?????????????????010?????0000011'' (exec_LW c),
     mk_instr ''LWU'' ''?????????????????110?????0000011'' (exec_LWU c),
     mk_instr ''LH'' ''?????????????????001?????0000011'' (exec_LH c),
     mk_instr ''LHU'' ''?????????????????101?????0000011'' (exec_LHU c),
     mk_instr ''LB'' ''?????????????????000?????0000011'' (exec_LB c),
     mk_instr ''LBU'' ''?????????????????100?????0000011'' (exec_LBU c),
     mk_instr ''LUI'' ''?????????????????????????0110111'' (exec_LUI c),
     mk_instr ''OR'' ''0000000??????????110?????0110011'' (exec_OR c),
     mk_instr ''ORI'' ''?????????????????110?????0010011'' (exec_ORI c),
     mk_instr ''SLL'' ''0000000??????????001?????0110011'' (exec_SLL c),
     mk_instr ''SLLI'' ''000000???????????001?????0010011'' (exec_SLLI c),
     mk_instr ''SLLIW'' ''0000000??????????001?????0011011'' (exec_SLLIW c),
     mk_instr ''SLLW'' ''0000000??????????001?????0111011'' (exec_SLLW c),
     mk_instr ''SLT'' ''0000000??????????010?????0110011'' (exec_SLT c),
     mk_instr ''SLTI'' ''?????????????????010?????0010011'' (exec_SLTI c),
     mk_instr ''SLTU'' ''0000000??????????011?????0110011'' (exec_SLTU c),
     mk_instr ''SLTIU'' ''?????????????????011?????0010011'' (exec_SLTIU c),
     mk_instr ''SRA'' ''0100000??????????101?????0110011'' (exec_SRA c),
     mk_instr ''SRAI'' ''010000???????????101?????0010011'' (exec_SRAI c),
     mk_instr ''SRAIW'' ''0100000??????????101?????0011011'' (exec_SRAIW c),
     mk_instr ''SRAW'' ''0100000??????????101?????0111011'' (exec_SRAW c),
     mk_instr ''SRL'' ''0000000??????????101?????0110011'' (exec_SRL c),
     mk_instr ''SRLI'' ''000000???????????101?????0010011'' (exec_SRLI c),
     mk_instr ''SRLIW'' ''0000000??????????101?????0011011'' (exec_SRLIW c),
     mk_instr ''SRLW'' ''0000000??????????101?????0111011'' (exec_SRLW c),
     mk_instr ''SUB'' ''0100000??????????000?????0110011'' (exec_SUB c),
     mk_instr ''SUBW'' ''0100000??????????000?????0111011'' (exec_SUBW c),
     mk_instr ''SD'' ''?????????????????011?????0100011'' (exec_SD c),
     mk_instr ''SW'' ''?????????????????010?????0100011'' (exec_SW c),
     mk_instr ''SH'' ''?????????????????001?????0100011'' (exec_SH c),
     mk_instr ''SB'' ''?????????????????000?????0100011'' (exec_SB c),
     mk_instr ''XOR'' ''0000000??????????100?????0110011'' (exec_XOR c),
     mk_instr ''XORI'' ''?????????????????100?????0010011'' (exec_XORI c)]"

lemmas rv64i_defs [exec_defs] =
  exec_ADD_def exec_ADDI_def exec_ADDIW_def exec_ADDW_def exec_AND_def exec_ANDI_def
  exec_AUIPC_def exec_BEQ_def exec_BGE_def exec_BGEU_def exec_BLT_def exec_BLTU_def exec_BNE_def
  exec_JAL_def exec_JALR_def exec_LD_def exec_LW_def exec_LWU_def exec_LH_def exec_LHU_def
  exec_LB_def exec_LBU_def exec_LUI_def exec_OR_def exec_ORI_def exec_SLL_def exec_SLLI_def
  exec_SLLIW_def exec_SLLW_def exec_SLT_def exec_SLTI_def exec_SLTU_def exec_SLTIU_def
  exec_SRA_def exec_SRAI_def exec_SRAIW_def exec_SRAW_def exec_SRL_def exec_SRLI_def
  exec_SRLIW_def exec_SRLW_def exec_SUB_def exec_SUBW_def exec_SD_def exec_SW_def exec_SH_def
  exec_SB_def exec_XOR_def exec_XORI_def

section \<open>Properties\<close>

text \<open>The state after an instruction that writes \<open>v\<close> to its destination register.\<close>

definition write_rd :: "u32 \<Rightarrow> u64 \<Rightarrow> 'b cpu \<Rightarrow> 'b cpu" where
  "write_rd u v s = (if ISA_rd u = 0 then s else s\<lparr>regs := (regs s)(ISA_rd u := v)\<rparr>)"

lemma ucast_u32_add: "ucast (a + b :: u64) = (ucast a + ucast b :: u32)"
  and ucast_u32_sub: "ucast (a - b :: u64) = (ucast a - ucast b :: u32)"
proof -
  have dn: "ucast (word_of_int x :: u64) = (word_of_int x :: u32)" for x
    by (rule ucast_down_wi) (simp add: is_down)
  have u: "(ucast w :: u32) = word_of_int (uint w)" for w :: u64 using dn [of "uint w"] by simp
  show "ucast (a + b :: u64) = (ucast a + ucast b :: u32)"
    using dn [of "uint a + uint b"] unfolding u [of a] u [of b] by simp
  show "ucast (a - b :: u64) = (ucast a - ucast b :: u32)"
    using dn [of "uint a - uint b"] unfolding u [of a] u [of b] by simp
qed

text \<open>The \<open>W\<close> instructions compute in 32 bits and sign-extend: on the low halves of the operands they are the
  32-bit addition, subtraction and shifts, with the shift amount taken modulo 32.\<close>

lemma word_ops_are_32_bit:
  "let u = buf32_0 p in
    run_state (exec_ADDW c p) s = (4, write_rd u (scast (ucast (regs s (ISA_rs1 u)) + ucast (regs s (ISA_rs2 u)) :: u32)) s) \<and>
    run_state (exec_SUBW c p) s = (4, write_rd u (scast (ucast (regs s (ISA_rs1 u)) - ucast (regs s (ISA_rs2 u)) :: u32)) s) \<and>
    run_state (exec_SLLW c p) s =
      (4, write_rd u (scast (push_bit (unat (take_bit 5 (regs s (ISA_rs2 u)))) (ucast (regs s (ISA_rs1 u))) :: u32)) s) \<and>
    run_state (exec_SRLW c p) s =
      (4, write_rd u (scast (drop_bit (unat (take_bit 5 (regs s (ISA_rs2 u)))) (ucast (regs s (ISA_rs1 u))) :: u32)) s) \<and>
    run_state (exec_SRAW c p) s =
      (4, write_rd u (scast (signed_drop_bit (unat (take_bit 5 (regs s (ISA_rs2 u)))) (ucast (regs s (ISA_rs1 u))) :: u32)) s)"
proof -
  have add: "sext32 (a + b) = scast (ucast a + ucast b :: u32)" "sext32 (a - b) = scast (ucast a - ucast b :: u32)" for a b
    unfolding sext32_scast by (simp_all add: ucast_u32_add ucast_u32_sub)
  have sh: "sext32 (push_bit k a) = scast (push_bit k (ucast a) :: u32)" for k a
    unfolding sext32_scast by (rule arg_cong [where f = scast], rule bit_word_eqI) (auto simp: bit_simps)
  have u: "sext32 (ucast w) = scast (w :: u32)" for w
    unfolding sext32_scast by (simp add: buf_ucast(1) [unfolded buf32_0_def])
  have m: "w AND 0x1F = take_bit 5 w" for w :: u64
    by (simp add: take_bit_eq_mask mask_numeral)
  show ?thesis
    by (simp add: exec_ADDW_def exec_SUBW_def exec_SLLW_def exec_SRLW_def exec_SRAW_def write_rd_def Let_def add sh u m)
qed





end
