(* ===== verification/Rv64i_Priv.thy ===== *)
theory Rv64i_Priv
  imports Rv64i_User
begin

text \<open>
  The privileged RV64I instructions of \<^verbatim>\<open>riscv-rv64i-priv.cpp\<close>: CSR access, the returns from traps,
  the fences and the environment calls. \<open>csr_mstatus_type\<close> has SIE, MIE, SPIE, MPIE and SPP at bits
  1, 3, 5, 7 and 8, and MPP at bits 12..11. The fences and \<^verbatim>\<open>flushMmu\<close> (an empty function) change
  nothing.
\<close>

section \<open>CSR instructions\<close>

definition ISA_I_csr :: "u32 \<Rightarrow> nat" where "ISA_I_csr u = unat (ISA_I_imm u)"
definition ISA_zimm :: "u32 \<Rightarrow> u64" where "ISA_zimm u = of_nat (ISA_rs1 u)"

definition exec_CSRRC :: "'b cpu_cfg \<Rightarrow> u64 \<Rightarrow> ('b, nat) cpuM" where
  "exec_CSRRC c payload = do {
     let u = buf32_0 payload;
     m \<leftarrow> getR (ISA_rs1 u);
     old \<leftarrow> readCSR c (ISA_I_csr u);
     whenM (ISA_rd u \<noteq> 0) (setReg (ISA_rd u) old);
     writeCSR c (ISA_I_csr u) (old AND NOT m);
     returnM 4 }"

definition exec_CSRRCI :: "'b cpu_cfg \<Rightarrow> u64 \<Rightarrow> ('b, nat) cpuM" where
  "exec_CSRRCI c payload = do {
     let u = buf32_0 payload;
     m \<leftarrow> returnM (ISA_zimm u);
     old \<leftarrow> readCSR c (ISA_I_csr u);
     whenM (ISA_rd u \<noteq> 0) (setReg (ISA_rd u) old);
     writeCSR c (ISA_I_csr u) (old AND NOT m);
     returnM 4 }"

definition exec_CSRRS :: "'b cpu_cfg \<Rightarrow> u64 \<Rightarrow> ('b, nat) cpuM" where
  "exec_CSRRS c payload = do {
     let u = buf32_0 payload;
     m \<leftarrow> getR (ISA_rs1 u);
     old \<leftarrow> readCSR c (ISA_I_csr u);
     whenM (ISA_rd u \<noteq> 0) (setReg (ISA_rd u) old);
     writeCSR c (ISA_I_csr u) (old OR m);
     returnM 4 }"

definition exec_CSRRSI :: "'b cpu_cfg \<Rightarrow> u64 \<Rightarrow> ('b, nat) cpuM" where
  "exec_CSRRSI c payload = do {
     let u = buf32_0 payload;
     m \<leftarrow> returnM (ISA_zimm u);
     old \<leftarrow> readCSR c (ISA_I_csr u);
     whenM (ISA_rd u \<noteq> 0) (setReg (ISA_rd u) old);
     writeCSR c (ISA_I_csr u) (old OR m);
     returnM 4 }"

definition exec_CSRRW :: "'b cpu_cfg \<Rightarrow> u64 \<Rightarrow> ('b, nat) cpuM" where
  "exec_CSRRW c payload = do {
     let u = buf32_0 payload;
     m \<leftarrow> getR (ISA_rs1 u);
     whenM (ISA_rd u \<noteq> 0) (do {
       old \<leftarrow> readCSR c (ISA_I_csr u);
       setReg (ISA_rd u) old });
     writeCSR c (ISA_I_csr u) m;
     returnM 4 }"

definition exec_CSRRWI :: "'b cpu_cfg \<Rightarrow> u64 \<Rightarrow> ('b, nat) cpuM" where
  "exec_CSRRWI c payload = do {
     let u = buf32_0 payload;
     m \<leftarrow> returnM (ISA_zimm u);
     whenM (ISA_rd u \<noteq> 0) (do {
       old \<leftarrow> readCSR c (ISA_I_csr u);
       setReg (ISA_rd u) old });
     writeCSR c (ISA_I_csr u) m;
     returnM 4 }"

section \<open>Trap returns\<close>

text \<open>A return from another privilege level than the current one is illegal.\<close>

definition exec_URET :: "'b cpu_cfg \<Rightarrow> u64 \<Rightarrow> ('b, nat) cpuM" where
  "exec_URET c payload = do {
     prv \<leftarrow> getPrvLevel;
     pc \<leftarrow> getPC;
     if prv \<noteq> PRV_U then do { generateException c EXCEPTION_InstrIllegal pc; returnM 4 }
     else do {
       mstatus \<leftarrow> readCSR c CSR_mstatus;
       epc \<leftarrow> readCSR c CSR_uepc;
       setBranch epc;
       setPrvLevel PRV_U;
       writeCSR c CSR_mstatus mstatus;
       returnM 4 } }"

definition exec_SRET :: "'b cpu_cfg \<Rightarrow> u64 \<Rightarrow> ('b, nat) cpuM" where
  "exec_SRET c payload = do {
     prv \<leftarrow> getPrvLevel;
     pc \<leftarrow> getPC;
     if prv \<noteq> PRV_S then do { generateException c EXCEPTION_InstrIllegal pc; returnM 4 }
     else do {
       mstatus \<leftarrow> readCSR c CSR_mstatus;
       epc \<leftarrow> readCSR c CSR_sepc;
       setBranch epc;
       let mstatus = set_bitfield 1 1 (bitfield 5 1 mstatus) mstatus;
       let mstatus = set_bitfield 5 1 1 mstatus;
       setPrvLevel (bitfield 8 1 mstatus);
       let mstatus = set_bitfield 8 1 PRV_U mstatus;
       writeCSR c CSR_mstatus mstatus;
       returnM 4 } }"

definition exec_HRET :: "'b cpu_cfg \<Rightarrow> u64 \<Rightarrow> ('b, nat) cpuM" where
  "exec_HRET c payload = do {
     pc \<leftarrow> getPC;
     generateException c EXCEPTION_InstrIllegal pc;
     returnM 4 }"

definition exec_MRET :: "'b cpu_cfg \<Rightarrow> u64 \<Rightarrow> ('b, nat) cpuM" where
  "exec_MRET c payload = do {
     prv \<leftarrow> getPrvLevel;
     pc \<leftarrow> getPC;
     if prv \<noteq> PRV_M then do { generateException c EXCEPTION_InstrIllegal pc; returnM 4 }
     else do {
       mstatus \<leftarrow> readCSR c CSR_mstatus;
       epc \<leftarrow> readCSR c CSR_mepc;
       setBranch epc;
       let mstatus = set_bitfield 3 1 (bitfield 7 1 mstatus) mstatus;
       let mstatus = set_bitfield 7 1 1 mstatus;
       setPrvLevel (bitfield 11 2 mstatus);
       let mstatus = set_bitfield 11 2 PRV_U mstatus;
       writeCSR c CSR_mstatus mstatus;
       returnM 4 } }"

section \<open>Fences and environment calls\<close>

definition exec_FENCE :: "'b cpu_cfg \<Rightarrow> u64 \<Rightarrow> ('b, nat) cpuM" where
  "exec_FENCE c payload = returnM 4"

definition exec_FENCE_I :: "'b cpu_cfg \<Rightarrow> u64 \<Rightarrow> ('b, nat) cpuM" where
  "exec_FENCE_I c payload = returnM 4"

definition exec_SFENCE_VMA :: "'b cpu_cfg \<Rightarrow> u64 \<Rightarrow> ('b, nat) cpuM" where
  "exec_SFENCE_VMA c payload = returnM 4"

definition exec_EBREAK :: "'b cpu_cfg \<Rightarrow> u64 \<Rightarrow> ('b, nat) cpuM" where
  "exec_EBREAK c payload = do {
     pc \<leftarrow> getPC;
     generateException c EXCEPTION_Breakpoint pc;
     doNotCache;
     returnM 4 }"

definition exec_ECALL :: "'b cpu_cfg \<Rightarrow> u64 \<Rightarrow> ('b, nat) cpuM" where
  "exec_ECALL c payload = do {
     prv \<leftarrow> getPrvLevel;
     pc \<leftarrow> getPC;
     (if prv = PRV_M then generateException c EXCEPTION_CallFromMmode pc
      else whenM (prv = PRV_U) (generateException c EXCEPTION_CallFromUmode pc));
     returnM 4 }"

section \<open>The table\<close>

text \<open>\<^verbatim>\<open>addIsaPrivilegedRV64I\<close>.\<close>

definition isaPrivilegedRV64I :: "'b cpu_cfg \<Rightarrow> 'b riscv_instr list" where
  "isaPrivilegedRV64I c =
    [mk_instr ''CSRRC'' ''?????????????????011?????1110011'' (exec_CSRRC c),
     mk_instr ''CSRRCI'' ''?????????????????111?????1110011'' (exec_CSRRCI c),
     mk_instr ''CSRRS'' ''?????????????????010?????1110011'' (exec_CSRRS c),
     mk_instr ''CSRRSI'' ''?????????????????110?????1110011'' (exec_CSRRSI c),
     mk_instr ''CSRRW'' ''?????????????????001?????1110011'' (exec_CSRRW c),
     mk_instr ''CSRRWI'' ''?????????????????101?????1110011'' (exec_CSRRWI c),
     mk_instr ''URET'' ''00000000001000000000000001110011'' (exec_URET c),
     mk_instr ''SRET'' ''00010000001000000000000001110011'' (exec_SRET c),
     mk_instr ''HRET'' ''00100000001000000000000001110011'' (exec_HRET c),
     mk_instr ''MRET'' ''00110000001000000000000001110011'' (exec_MRET c),
     mk_instr ''FENCE'' ''?????????????????000?????0001111'' (exec_FENCE c),
     mk_instr ''FENCE_I'' ''?????????????????001?????0001111'' (exec_FENCE_I c),
     mk_instr ''SFENCE_VMA'' ''0001001??????????000000001110011'' (exec_SFENCE_VMA c),
     mk_instr ''ECALL'' ''00000000000000000000000001110011'' (exec_ECALL c),
     mk_instr ''EBREAK'' ''00000000000100000000000001110011'' (exec_EBREAK c)]"

lemmas priv_defs [exec_defs] =
  exec_CSRRC_def exec_CSRRCI_def exec_CSRRS_def exec_CSRRSI_def exec_CSRRW_def exec_CSRRWI_def
  exec_URET_def exec_SRET_def exec_HRET_def exec_MRET_def exec_FENCE_def exec_FENCE_I_def
  exec_SFENCE_VMA_def exec_ECALL_def exec_EBREAK_def

end
