(* ===== verification/Ext_M.thy ===== *)
theory Ext_M
  imports Rv64i_User
begin

text \<open>
  The multiplication and division instructions of \<^verbatim>\<open>riscv-ext-m.cpp\<close>. Signed division truncates
  towards zero as in C++; a signed product that overflows wraps, as it does on the hosts the simulator is
  built for. \<open>MULH\<close>, \<open>MULHSU\<close> and \<open>MULHU\<close> contain the same adder tree, which is \<open>mul_tree\<close> here;
  the lemmas show that it computes the 128-bit product.
\<close>

section \<open>Division and remainder\<close>

definition div64 :: "u64 \<Rightarrow> u64 \<Rightarrow> u64" where
  "div64 rs1 rs2 =
    (if rs2 \<noteq> 0 then
       if rs1 = 0x8000000000000000 \<and> rs2 = - 1 then 0x8000000000000000
       else word_of_int (sint rs1 sdiv sint rs2)
     else - 1)"

definition rem64 :: "u64 \<Rightarrow> u64 \<Rightarrow> u64" where
  "rem64 rs1 rs2 =
    (if rs2 \<noteq> 0 then
       if rs1 = 0x8000000000000000 \<and> rs2 = - 1 then 0
       else word_of_int (sint rs1 smod sint rs2)
     else rs1)"

definition exec_DIV :: "'b cpu_cfg \<Rightarrow> u64 \<Rightarrow> ('b, nat) cpuM" where
  "exec_DIV c payload = do {
     let u = buf32_0 payload;
     a \<leftarrow> getR (ISA_rs1 u);
     b \<leftarrow> getR (ISA_rs2 u);
     setReg (ISA_rd u) (div64 a b);
     returnM 4 }"

definition exec_DIVU :: "'b cpu_cfg \<Rightarrow> u64 \<Rightarrow> ('b, nat) cpuM" where
  "exec_DIVU c payload = do {
     let u = buf32_0 payload;
     a \<leftarrow> getR (ISA_rs1 u);
     b \<leftarrow> getR (ISA_rs2 u);
     setReg (ISA_rd u) (if b \<noteq> 0 then a div b else NOT 0);
     returnM 4 }"

definition exec_DIVUW :: "'b cpu_cfg \<Rightarrow> u64 \<Rightarrow> ('b, nat) cpuM" where
  "exec_DIVUW c payload = do {
     let u = buf32_0 payload;
     a \<leftarrow> getR (ISA_rs1 u);
     b \<leftarrow> getR (ISA_rs2 u);
     setReg (ISA_rd u) (let a1 = ucast a :: u32; a2 = ucast b :: u32
       in if a2 \<noteq> 0 then scast (a1 div a2) else - 1);
     returnM 4 }"

definition exec_DIVW :: "'b cpu_cfg \<Rightarrow> u64 \<Rightarrow> ('b, nat) cpuM" where
  "exec_DIVW c payload = do {
     let u = buf32_0 payload;
     a \<leftarrow> getR (ISA_rs1 u);
     b \<leftarrow> getR (ISA_rs2 u);
     setReg (ISA_rd u) (let divident = ucast a :: u32; divisor = ucast b :: u32;
           rs1 = scast divident :: u64; rs2 = scast divisor :: u64;
           res = (if divisor \<noteq> 0 then
                    if rs1 = 0x8000000000000000 \<and> rs2 = - 1 then 0x8000000000000000
                    else word_of_int (sint rs1 sdiv sint rs2)
                  else - 1)
       in signed_drop_bit 32 (push_bit 32 res));
     returnM 4 }"

definition exec_REM :: "'b cpu_cfg \<Rightarrow> u64 \<Rightarrow> ('b, nat) cpuM" where
  "exec_REM c payload = do {
     let u = buf32_0 payload;
     a \<leftarrow> getR (ISA_rs1 u);
     b \<leftarrow> getR (ISA_rs2 u);
     setReg (ISA_rd u) (rem64 a b);
     returnM 4 }"

definition exec_REMU :: "'b cpu_cfg \<Rightarrow> u64 \<Rightarrow> ('b, nat) cpuM" where
  "exec_REMU c payload = do {
     let u = buf32_0 payload;
     a \<leftarrow> getR (ISA_rs1 u);
     b \<leftarrow> getR (ISA_rs2 u);
     setReg (ISA_rd u) (if b \<noteq> 0 then a mod b else a);
     returnM 4 }"

definition exec_REMW :: "'b cpu_cfg \<Rightarrow> u64 \<Rightarrow> ('b, nat) cpuM" where
  "exec_REMW c payload = do {
     let u = buf32_0 payload;
     a \<leftarrow> getR (ISA_rs1 u);
     b \<leftarrow> getR (ISA_rs2 u);
     setReg (ISA_rd u) (let a1 = ucast a :: u32; a2 = ucast b :: u32;
           rs1 = scast a1 :: u64; rs2 = scast a2 :: u64
       in if a2 \<noteq> 0 then
            if rs1 = 0x8000000000000000 \<and> rs2 = - 1 then 0
            else word_of_int (sint rs1 smod sint rs2)
          else rs1);
     returnM 4 }"

definition exec_REMUW :: "'b cpu_cfg \<Rightarrow> u64 \<Rightarrow> ('b, nat) cpuM" where
  "exec_REMUW c payload = do {
     let u = buf32_0 payload;
     a \<leftarrow> getR (ISA_rs1 u);
     b \<leftarrow> getR (ISA_rs2 u);
     setReg (ISA_rd u) (let a1 = ucast a :: u32; a2 = ucast b :: u32
       in scast (if a2 \<noteq> 0 then a1 mod a2 else a1));
     returnM 4 }"

section \<open>Multiplication\<close>

text \<open>
  A level entry is a 128-bit number, low half first. \<open>mul_digit\<close> multiplies by two bits of the second
  operand, \<open>mul_join k hi lo\<close> is the body of the loops: \<open>hi\<close> shifted by \<open>k\<close> plus \<open>lo\<close>, with the
  carry recovered from the top bits of the summands and of the sum.
\<close>

definition carry_of :: "u64 \<Rightarrow> u64 \<Rightarrow> u64 \<Rightarrow> u64" where
  "carry_of msb1 msb2 msbres =
     (msb1 AND msb2) OR ((msb1 OR msb2) AND (if msbres = 0 then 1 else 0))"

definition mul_digit :: "u64 \<Rightarrow> u64 \<Rightarrow> u64 \<times> u64" where
  "mul_digit a1 dig =
    (if dig = 0 then (0, 0)
     else if dig = 1 then (a1, 0)
     else if dig = 2 then (push_bit 1 a1, drop_bit 63 a1)
     else let val0 = push_bit 1 a1 + a1;
              msb1 = drop_bit 62 a1 AND 1;
              msb2 = drop_bit 63 a1 AND 1;
              msbres = drop_bit 63 val0
          in (val0, drop_bit 63 a1 + carry_of msb1 msb2 msbres))"

definition mul_join :: "nat \<Rightarrow> u64 \<times> u64 \<Rightarrow> u64 \<times> u64 \<Rightarrow> u64 \<times> u64" where
  "mul_join k hi lo =
    (let val0 = push_bit k (fst hi) + fst lo;
         msb1 = drop_bit (63 - k) (fst hi) AND 1;
         msb2 = drop_bit 63 (fst lo) AND 1;
         msbres = drop_bit 63 val0;
         val1 = push_bit k (snd hi) OR drop_bit (64 - k) (fst hi)
     in (val0, val1 + (snd lo + carry_of msb1 msb2 msbres)))"

definition mul_level :: "nat \<Rightarrow> nat \<Rightarrow> (nat \<Rightarrow> u64 \<times> u64) \<Rightarrow> nat \<Rightarrow> u64 \<times> u64" where
  "mul_level k n lvl i = (if i < n then mul_join k (lvl (2 * i + 1)) (lvl (2 * i)) else (0, 0))"

definition mul_level0 :: "u64 \<Rightarrow> u64 \<Rightarrow> nat \<Rightarrow> u64 \<times> u64" where
  "mul_level0 a1 a2 i = mul_digit a1 (drop_bit (2 * i) a2 AND 3)"

definition mul_tree :: "u64 \<Rightarrow> u64 \<Rightarrow> u64 \<times> u64" where
  "mul_tree a1 a2 =
    (let lvl0 = mul_level0 a1 a2;
         lvl1 = mul_level 2 16 lvl0;
         lvl2 = mul_level 4 8 lvl1;
         lvl3 = mul_level 8 4 lvl2;
         lvl4 = mul_level 16 2 lvl3
     in mul_join 32 (lvl4 1) (lvl4 0))"

text \<open>The magnitude of a signed operand: a value whose only one bit is the sign is left alone.\<close>

definition neg_not_min :: "u64 \<Rightarrow> bool" where
  "neg_not_min a \<longleftrightarrow> drop_bit 63 a \<noteq> 0 \<and> push_bit 1 a \<noteq> 0"

definition magnitude :: "u64 \<Rightarrow> u64" where
  "magnitude a = (if neg_not_min a then NOT a + 1 else a)"

definition mulh :: "u64 \<Rightarrow> u64 \<Rightarrow> u64" where
  "mulh a1 a2 =
    (let a1s = magnitude a1; a2s = magnitude a2;
         zero = (a1s = 0 \<or> a2s = 0);
         inv = (neg_not_min a1 \<noteq> neg_not_min a2);
         hi = snd (mul_tree a1s a2s)
     in if zero then 0 else if inv then NOT hi else hi)"

definition mulhsu :: "u64 \<Rightarrow> u64 \<Rightarrow> u64" where
  "mulhsu a1 a2 =
    (let a1s = magnitude a1;
         zero = (a1s = 0 \<or> a2 = 0);
         hi = snd (mul_tree a1s a2)
     in if zero then 0 else if neg_not_min a1 then NOT hi else hi)"

definition exec_MUL :: "'b cpu_cfg \<Rightarrow> u64 \<Rightarrow> ('b, nat) cpuM" where
  "exec_MUL c payload = do {
     let u = buf32_0 payload;
     a \<leftarrow> getR (ISA_rs1 u);
     b \<leftarrow> getR (ISA_rs2 u);
     setReg (ISA_rd u) (a * b);
     returnM 4 }"

definition exec_MULH :: "'b cpu_cfg \<Rightarrow> u64 \<Rightarrow> ('b, nat) cpuM" where
  "exec_MULH c payload = do {
     let u = buf32_0 payload;
     a \<leftarrow> getR (ISA_rs1 u);
     b \<leftarrow> getR (ISA_rs2 u);
     setReg (ISA_rd u) (mulh a b);
     returnM 4 }"

definition exec_MULHSU :: "'b cpu_cfg \<Rightarrow> u64 \<Rightarrow> ('b, nat) cpuM" where
  "exec_MULHSU c payload = do {
     let u = buf32_0 payload;
     a \<leftarrow> getR (ISA_rs1 u);
     b \<leftarrow> getR (ISA_rs2 u);
     setReg (ISA_rd u) (mulhsu a b);
     returnM 4 }"

definition exec_MULHU :: "'b cpu_cfg \<Rightarrow> u64 \<Rightarrow> ('b, nat) cpuM" where
  "exec_MULHU c payload = do {
     let u = buf32_0 payload;
     a \<leftarrow> getR (ISA_rs1 u);
     b \<leftarrow> getR (ISA_rs2 u);
     setReg (ISA_rd u) (snd (mul_tree a b));
     returnM 4 }"

definition exec_MULW :: "'b cpu_cfg \<Rightarrow> u64 \<Rightarrow> ('b, nat) cpuM" where
  "exec_MULW c payload = do {
     let u = buf32_0 payload;
     a \<leftarrow> getR (ISA_rs1 u);
     b \<leftarrow> getR (ISA_rs2 u);
     setReg (ISA_rd u) (scast ((ucast a :: u32) * ucast b));
     returnM 4 }"

section \<open>The table\<close>

text \<open>\<^verbatim>\<open>addIsaExtensionM\<close>.\<close>

definition isaExtensionM :: "'b cpu_cfg \<Rightarrow> 'b riscv_instr list" where
  "isaExtensionM c =
    [mk_instr ''DIV'' ''0000001??????????100?????0110011'' (exec_DIV c),
     mk_instr ''DIVU'' ''0000001??????????101?????0110011'' (exec_DIVU c),
     mk_instr ''DIVUW'' ''0000001??????????101?????0111011'' (exec_DIVUW c),
     mk_instr ''DIVW'' ''0000001??????????100?????0111011'' (exec_DIVW c),
     mk_instr ''MUL'' ''0000001??????????000?????0110011'' (exec_MUL c),
     mk_instr ''MULH'' ''0000001??????????001?????0110011'' (exec_MULH c),
     mk_instr ''MULHSU'' ''0000001??????????010?????0110011'' (exec_MULHSU c),
     mk_instr ''MULHU'' ''0000001??????????011?????0110011'' (exec_MULHU c),
     mk_instr ''MULW'' ''0000001??????????000?????0111011'' (exec_MULW c),
     mk_instr ''REM'' ''0000001??????????110?????0110011'' (exec_REM c),
     mk_instr ''REMU'' ''0000001??????????111?????0110011'' (exec_REMU c),
     mk_instr ''REMW'' ''0000001??????????110?????0111011'' (exec_REMW c),
     mk_instr ''REMUW'' ''0000001??????????111?????0111011'' (exec_REMUW c)]"

lemmas ext_m_defs [exec_defs] =
  exec_DIV_def exec_DIVU_def exec_DIVUW_def exec_DIVW_def exec_MUL_def exec_MULH_def
  exec_MULHSU_def exec_MULHU_def exec_MULW_def exec_REM_def exec_REMU_def exec_REMW_def
  exec_REMUW_def

section \<open>The adder tree computes the product\<close>

text \<open>
  A pair of 64-bit halves is read as a 128-bit word. There \<open>mul_join\<close> is \<open>2 ^ k\<close> times the high
  entry plus the low one, and level by level the entries become the product with
  ever wider digits of the second operand.
\<close>

type_synonym u128 = "128 word"

definition word128 :: "u64 \<times> u64 \<Rightarrow> u128" where
  "word128 p = ucast (fst p) + 2 ^ 64 * ucast (snd p)"

lemma bit63_le: "bit (x :: u64) 63 \<longleftrightarrow> 2 ^ 63 \<le> unat x"
proof -
  have lt: "unat x < 2 ^ 64" using unsigned_less [where 'a = nat, of x] by simp
  have "bit x 63 \<longleftrightarrow> bit (unat x) 63" by (simp add: bit_unsigned_iff)
  also have "\<dots> \<longleftrightarrow> odd (unat x div 2 ^ 63)" by (simp only: bit_iff_odd)
  also have "\<dots> \<longleftrightarrow> 2 ^ 63 \<le> unat x"
  proof (cases "2 ^ 63 \<le> unat x")
    case True
    then have "unat x div 2 ^ 63 = 1" using lt by (intro div_nat_eqI) simp_all
    with True show ?thesis by simp
  qed simp
  finally show ?thesis .
qed

lemma drop63: "drop_bit 63 (x :: u64) = (if bit x 63 then 1 else 0)"
proof (rule bit_word_eqI)
  fix n assume "n < LENGTH(64)"
  then show "bit (drop_bit 63 x) n = bit (if bit x 63 then 1 else 0 :: u64) n"
    using bit_imp_le_length [of x "63 + n"] by (cases n) (auto simp: bit_simps)
qed

lemma and1: "(x :: u64) AND 1 = (if bit x 0 then 1 else 0)"
  by (simp add: and_one_eq bit_0 even_iff_mod_2_eq_zero odd_iff_mod_2_eq_one)

lemma carry_of_bits:
  "carry_of (if p then 1 else 0) (if q then 1 else 0) (if r then 1 else 0) =
     (if p \<and> q \<or> (p \<or> q) \<and> \<not> r then 1 else 0)"
  by (simp add: carry_of_def)

lemma carry_sum:
  fixes x y :: u64
  shows "unat x + unat y = unat (x + y) + 2 ^ 64 * unat (carry_of (drop_bit 63 x) (drop_bit 63 y) (drop_bit 63 (x + y)))"
proof -
  have lt: "unat x < 2 ^ 64" "unat y < 2 ^ 64"
    using unsigned_less [where 'a = nat, of x] unsigned_less [where 'a = nat, of y] by simp_all
  have s: "unat (x + y) = (if unat x + unat y < 2 ^ 64 then unat x + unat y else unat x + unat y - 2 ^ 64)"
    using lt by (simp add: unat_word_ariths mod_if)
  show ?thesis
    unfolding drop63 carry_of_bits bit63_le s using lt by (auto split: if_splits)
qed

abbreviation (input) U128 :: "u64 \<Rightarrow> u128" where "U128 \<equiv> ucast"

lemma U128_nat: "U128 x = of_nat (unat x)"
  by simp

lemma two128: "(2 ^ 64 :: u128) * 2 ^ 64 = 0"
  by simp

lemma hi_mod: "(2 ^ 64 :: u128) * of_nat (n mod 2 ^ 64) = 2 ^ 64 * of_nat n"
proof -
  have "(of_nat n :: u128) = of_nat (2 ^ 64 * (n div 2 ^ 64) + n mod 2 ^ 64)" by simp
  also have "\<dots> = 2 ^ 64 * of_nat (n div 2 ^ 64) + of_nat (n mod 2 ^ 64)"
    by (simp only: of_nat_add of_nat_mult of_nat_power of_nat_numeral)
  finally have "(2 ^ 64 :: u128) * of_nat n = 2 ^ 64 * 2 ^ 64 * of_nat (n div 2 ^ 64) + 2 ^ 64 * of_nat (n mod 2 ^ 64)"
    by (simp only: distrib_left mult.assoc)
  then show ?thesis unfolding two128 by simp
qed

lemma hi_add: "2 ^ 64 * U128 (a + b) = 2 ^ 64 * U128 a + 2 ^ 64 * U128 b"
proof -
  have "unat (a + b) = (unat a + unat b) mod 2 ^ 64" by (simp add: unat_word_ariths)
  then have "2 ^ 64 * U128 (a + b) = 2 ^ 64 * of_nat ((unat a + unat b) mod 2 ^ 64)" by (simp only: U128_nat)
  also have "\<dots> = 2 ^ 64 * U128 a + 2 ^ 64 * U128 b"
    by (simp only: hi_mod of_nat_add distrib_left U128_nat)
  finally show ?thesis .
qed

lemma unat_push_bit: "unat (push_bit k (x :: u64)) = 2 ^ k * unat x mod 2 ^ 64"
  unfolding unsigned_push_bit_eq take_bit_eq_mod by (simp add: push_bit_nat_def mult.commute)

lemma hi_push: "2 ^ 64 * U128 (push_bit k a) = 2 ^ 64 * 2 ^ k * U128 a"
proof -
  have "2 ^ 64 * U128 (push_bit k a) = 2 ^ 64 * of_nat (2 ^ k * unat a mod 2 ^ 64)"
    by (simp only: U128_nat unat_push_bit)
  also have "\<dots> = 2 ^ 64 * 2 ^ k * U128 a"
    by (simp only: hi_mod of_nat_mult of_nat_power of_nat_numeral U128_nat mult.assoc)
  finally show ?thesis .
qed

lemma lo_push:
  assumes "k \<le> 64"
  shows "U128 (push_bit k x) + 2 ^ 64 * U128 (drop_bit (64 - k) x) = 2 ^ k * U128 x"
proof -
  have lt: "unat x < 2 ^ 64" using unsigned_less [where 'a = nat, of x] by simp
  have e: "(2 :: nat) ^ 64 = 2 ^ k * 2 ^ (64 - k)" using assms by (simp flip: power_add)
  have "unat (drop_bit (64 - k) x) = unat x div 2 ^ (64 - k)"
    using lt unfolding unsigned_drop_bit_eq by (simp add: drop_bit_eq_div take_bit_nat_eq_self)
  also have "\<dots> = 2 ^ k * unat x div 2 ^ 64" unfolding e by simp
  finally have d: "unat (drop_bit (64 - k) x) = 2 ^ k * unat x div 2 ^ 64" .
  have "unat (push_bit k x) + 2 ^ 64 * unat (drop_bit (64 - k) x) = 2 ^ k * unat x"
    unfolding unat_push_bit d by (rule mod_mult_div_eq)
  then have "(of_nat (unat (push_bit k x) + 2 ^ 64 * unat (drop_bit (64 - k) x)) :: u128) = of_nat (2 ^ k * unat x)"
    by (rule arg_cong)
  then show ?thesis by (simp only: of_nat_add of_nat_mult of_nat_power of_nat_numeral U128_nat)
qed

lemma lo_add:
  "U128 (x + y) + 2 ^ 64 * U128 (carry_of (drop_bit 63 x) (drop_bit 63 y) (drop_bit 63 (x + y))) = U128 x + U128 y"
  using arg_cong [OF carry_sum [of x y], of "of_nat :: nat \<Rightarrow> u128"]
  by (simp only: of_nat_add of_nat_mult of_nat_power of_nat_numeral U128_nat)

lemma word128_join:
  assumes "0 < k" "k < 64"
  shows "word128 (mul_join k hi lo) = 2 ^ k * word128 hi + word128 lo"
proof -
  let ?x = "push_bit k (fst hi)" and ?y = "fst lo"
  have m1: "drop_bit (63 - k) (fst hi) AND 1 = drop_bit 63 ?x"
    using assms unfolding and1 drop63 by (simp add: bit_simps)
  have m2: "drop_bit 63 ?y AND 1 = drop_bit 63 ?y"
    unfolding and1 drop63 by simp
  have v1: "push_bit k (snd hi) OR drop_bit (64 - k) (fst hi) = push_bit k (snd hi) + drop_bit (64 - k) (fst hi)"
    by (rule disjunctive_add [symmetric]) (use assms in \<open>auto simp: bit_simps dest: bit_imp_le_length\<close>)
  let ?c = "carry_of (drop_bit 63 ?x) (drop_bit 63 ?y) (drop_bit 63 (?x + ?y))"
  have "word128 (mul_join k hi lo) =
      U128 (?x + ?y) + 2 ^ 64 * U128 (push_bit k (snd hi) + drop_bit (64 - k) (fst hi) + (snd lo + ?c))"
    unfolding mul_join_def Let_def word128_def m1 m2 v1 by (simp only: fst_conv snd_conv)
  also have "\<dots> = (U128 (?x + ?y) + 2 ^ 64 * U128 ?c) + 2 ^ 64 * U128 (drop_bit (64 - k) (fst hi)) +
      2 ^ 64 * 2 ^ k * U128 (snd hi) + 2 ^ 64 * U128 (snd lo)"
    unfolding hi_add hi_push by (simp only: add_ac)
  also have "\<dots> = (U128 ?x + 2 ^ 64 * U128 (drop_bit (64 - k) (fst hi))) + U128 ?y +
      2 ^ 64 * 2 ^ k * U128 (snd hi) + 2 ^ 64 * U128 (snd lo)"
    unfolding lo_add by (simp only: add_ac)
  also have "\<dots> = 2 ^ k * word128 hi + word128 lo"
    using assms(2) lo_push [of k "fst hi"] unfolding word128_def by (simp add: algebra_simps)
  finally show ?thesis .
qed

lemma word128_digit:
  assumes "unat d < 4"
  shows "word128 (mul_digit a d) = ucast a * ucast d"
proof -
  have "unat d = 0 \<or> unat d = 1 \<or> unat d = 2 \<or> unat d = 3" using assms by linarith
  then consider "d = 0" | "d = 1" | "d = 2" | "d = 3" by (auto simp: word_unat_eq_iff)
  then show ?thesis
  proof cases
    case 3
    have "word128 (mul_digit a d) = 2 ^ 1 * U128 a"
      unfolding 3 using lo_push [of 1 a] by (simp add: mul_digit_def word128_def)
    then show ?thesis unfolding 3 by simp
  next
    case 4
    have m: "drop_bit 62 a AND 1 = drop_bit 63 (push_bit 1 a)" "drop_bit 63 a AND 1 = drop_bit 63 a"
      unfolding and1 drop63 bit_push_bit_iff by (simp_all add: bit_drop_bit_eq)
    have "word128 (mul_digit a d) = U128 (push_bit 1 a + a) + 2 ^ 64 * U128 (drop_bit 63 a +
        carry_of (drop_bit 63 (push_bit 1 a)) (drop_bit 63 a) (drop_bit 63 (push_bit 1 a + a)))"
      unfolding 4 mul_digit_def word128_def Let_def m by simp
    also have "\<dots> = U128 (push_bit 1 a) + 2 ^ 64 * U128 (drop_bit (64 - 1) a) + U128 a"
      using lo_add [of "push_bit 1 a" a] unfolding hi_add by (simp add: algebra_simps)
    also have "\<dots> = 3 * U128 a" using lo_push [of 1 a] by simp
    finally show ?thesis unfolding 4 by simp
  qed (simp_all add: mul_digit_def word128_def)
qed

lemma digits_join:
  fixes n k i :: nat
  shows "2 ^ k * (n div 2 ^ (k * (2 * i + 1)) mod 2 ^ k) + n div 2 ^ (k * (2 * i)) mod 2 ^ k =
     n div 2 ^ (2 * k * i) mod 2 ^ (2 * k)"
proof -
  let ?m = "n div 2 ^ (2 * k * i)"
  have 1: "n div 2 ^ (k * (2 * i + 1)) = ?m div 2 ^ k"
    using div_mult2_eq [of n "2 ^ (2 * k * i)" "2 ^ k"] by (simp add: algebra_simps power_add)
  have 2: "n div 2 ^ (k * (2 * i)) = ?m" by (simp add: algebra_simps)
  have 3: "(2 :: nat) ^ (2 * k) = 2 ^ k * 2 ^ k" by (simp add: mult_2 power_add)
  show ?thesis unfolding 1 2 3 mod_mult2_eq ..
qed

abbreviation digits :: "nat \<Rightarrow> u64 \<Rightarrow> nat \<Rightarrow> u128" where
  "digits k b i \<equiv> of_nat (unat b div 2 ^ (k * i) mod 2 ^ k)"

lemma word128_level:
  assumes "0 < k" "k < 64" and lvl: "\<And>i. i < 2 * n \<Longrightarrow> word128 (lvl i) = A * digits k b i" and "i < n"
  shows "word128 (mul_level k n lvl i) = A * digits (2 * k) b i"
proof -
  have "word128 (mul_level k n lvl i) = A * (2 ^ k * digits k b (2 * i + 1) + digits k b (2 * i))"
    using assms by (simp add: mul_level_def word128_join algebra_simps)
  also have "2 ^ k * digits k b (2 * i + 1) + digits k b (2 * i) = digits (2 * k) b i"
    unfolding digits_join [symmetric] by (simp only: of_nat_add of_nat_mult of_nat_power of_nat_numeral)
  finally show ?thesis .
qed

lemma word128_level0: "word128 (mul_level0 a b i) = ucast a * digits 2 b i"
proof -
  have "unat (drop_bit (2 * i) b AND 3) = unat b div 2 ^ (2 * i) mod 2 ^ 2"
  proof -
    have "drop_bit (2 * i) b AND 3 = take_bit 2 (drop_bit (2 * i) b)" by (simp add: take_bit_eq_mask mask_numeral)
    moreover have "unat (drop_bit (2 * i) b) = unat b div 2 ^ (2 * i)"
      using unsigned_less [where 'a = nat, of b] unfolding unsigned_drop_bit_eq
      by (simp add: drop_bit_nat_def take_bit_nat_eq_self)
    ultimately show ?thesis by (simp only: unsigned_take_bit_eq take_bit_nat_def)
  qed
  moreover have "unat b div 2 ^ (2 * i) mod 2 ^ 2 < 4" by simp
  ultimately show ?thesis
    using word128_digit [of "drop_bit (2 * i) b AND 3" a] by (simp only: mul_level0_def U128_nat)
qed

lemma word128_mul_tree: "word128 (mul_tree a b) = ucast a * ucast b"
proof -
  have 1: "i < 16 \<Longrightarrow> word128 (mul_level 2 16 (mul_level0 a b) i) = ucast a * digits 4 b i" for i
    using word128_level [of 2 16 "mul_level0 a b" "ucast a" b i] by (simp add: word128_level0)
  have 2: "i < 8 \<Longrightarrow> word128 (mul_level 4 8 (mul_level 2 16 (mul_level0 a b)) i) = ucast a * digits 8 b i" for i
    using word128_level [of 4 8 _ "ucast a" b i, OF _ _ 1] by simp
  have 3: "i < 4 \<Longrightarrow> word128 (mul_level 8 4 (mul_level 4 8 (mul_level 2 16 (mul_level0 a b))) i) = ucast a * digits 16 b i" for i
    using word128_level [of 8 4 _ "ucast a" b i, OF _ _ 2] by simp
  have 4: "i < 2 \<Longrightarrow> word128 (mul_level 16 2 (mul_level 8 4 (mul_level 4 8 (mul_level 2 16 (mul_level0 a b)))) i) =
      ucast a * digits 32 b i" for i
    using word128_level [of 16 2 _ "ucast a" b i, OF _ _ 3] by simp
  have "word128 (mul_level 32 1 (mul_level 16 2 (mul_level 8 4 (mul_level 4 8 (mul_level 2 16 (mul_level0 a b))))) 0) =
      ucast a * digits 64 b 0"
    using word128_level [of 32 1 _ "ucast a" b 0, OF _ _ 4] by simp
  moreover have "unat b mod 2 ^ 64 = unat b" using unsigned_less [where 'a = nat, of b] by simp
  ultimately show ?thesis by (simp add: mul_tree_def mul_level_def Let_def)
qed

lemma uint_word128: "uint (word128 p) = uint (fst p) + 2 ^ 64 * uint (snd p)"
proof -
  have "uint (fst p) < 2 ^ 64" "uint (snd p) < 2 ^ 64" 
    using uint_lt2p [of "fst p"] uint_lt2p [of "snd p"] by simp_all
  moreover have "0 \<le> uint (fst p)" "0 \<le> uint (snd p)" by simp_all
  ultimately show ?thesis
    unfolding word128_def by (simp add: uint_word_ariths unsigned_ucast_eq take_bit_int_eq_self)
qed

lemma mul_tree_value: "uint (fst (mul_tree a b)) + 2 ^ 64 * uint (snd (mul_tree a b)) = uint a * uint b"
proof -
  have lt: "uint a < 2 ^ 64" "uint b < 2 ^ 64" "0 \<le> uint a" "0 \<le> uint b"
    using uint_lt2p [of a] uint_lt2p [of b] by simp_all
  then have "uint a * uint b < 2 ^ 64 * 2 ^ 64" by (intro mult_strict_mono) simp_all
  then have "uint (ucast a * ucast b :: u128) = uint a * uint b"
    using lt by (simp add: uint_word_ariths unsigned_ucast_eq take_bit_int_eq_self)
  then show ?thesis unfolding uint_word128 [symmetric] word128_mul_tree .
qed


lemma mul_tree_high: "uint (snd (mul_tree a b)) = uint a * uint b div 2 ^ 64"
  and mul_tree_low: "uint (fst (mul_tree a b)) = uint a * uint b mod 2 ^ 64"
proof -
  have p: "uint a * uint b = uint (fst (mul_tree a b)) + 2 ^ 64 * uint (snd (mul_tree a b))"
    by (rule mul_tree_value [symmetric])
  have lt: "uint (fst (mul_tree a b)) < 2 ^ 64" using uint_lt2p [of "fst (mul_tree a b)"] by simp
  then show "uint (snd (mul_tree a b)) = uint a * uint b div 2 ^ 64"
    and "uint (fst (mul_tree a b)) = uint a * uint b mod 2 ^ 64" unfolding p by simp_all
qed

section \<open>The signed high half\<close>

lemma sint_cases: "sint (a :: u64) = (if bit a 63 then uint a - 2 ^ 64 else uint a)"
proof -
  have "take_bit 64 (uint a) = uint a" using uint_lt2p [of a] by (intro take_bit_int_eq_self) simp_all
  then show ?thesis
    by (simp add: sint_uint signed_take_bit_eq_take_bit_minus bit_unsigned_iff)
qed

lemma neg_not_min_iff: "neg_not_min a \<longleftrightarrow> bit a 63 \<and> a \<noteq> 0x8000000000000000"
proof -
  have min: "(0x8000000000000000 :: u64) = 2 ^ 63" by simp
  have "a = 2 ^ 63" if "bit a 63" "push_bit 1 a = 0"
  proof (rule bit_word_eqI)
    fix n assume n: "n < LENGTH(64)"
    have "n < 63 \<Longrightarrow> bit (push_bit 1 a) (Suc n) = bit a n" by (simp only: bit_push_bit_iff) simp
    then have "n < 63 \<Longrightarrow> \<not> bit a n" unfolding that(2) by simp
    with n that(1) show "bit a n = bit (2 ^ 63 :: u64) n"
      by (simp only: bit_exp_iff) (cases "n = 63"; auto)
  qed
  moreover have "push_bit 1 (2 ^ 63 :: u64) = 0" by simp
  ultimately show ?thesis unfolding min by (auto simp: neg_not_min_def drop63)
qed

lemma take63_zero: "take_bit 63 b = 0 \<longleftrightarrow> b = 0 \<or> b = (0x8000000000000000 :: u64)"
proof
  assume z: "take_bit 63 b = 0"
  have nb: "\<not> bit b n" if "n < 63" for n using z that by (metis bit_take_bit_iff bit_0_eq bot_apply bot_bool_def)
  have "b = (if bit b 63 then 2 ^ 63 else 0)"
  proof (rule bit_word_eqI)
    fix n assume "n < LENGTH(64)"
    then consider "n < 63" | "n = 63" by fastforce
    then show "bit b n \<longleftrightarrow> bit (if bit b 63 then 2 ^ 63 else 0 :: u64) n"
      by cases (simp_all only: nb bit_exp_iff bit_0_eq bot_apply bot_bool_def possible_bit_word simp_thms split: if_split, simp_all)
  qed
  then show "b = 0 \<or> b = 0x8000000000000000" by (auto split: if_splits)
next
  assume "b = 0 \<or> b = 0x8000000000000000"
  moreover have "take_bit 63 (0x8000000000000000 :: u64) = 0" by code_simp
  ultimately show "take_bit 63 b = 0" by auto
qed

lemma bit63_int: "bit (a :: u64) 63 \<longleftrightarrow> 2 ^ 63 \<le> uint a"
  unfolding bit63_le uint_nat by (metis of_nat_le_iff of_nat_numeral of_nat_power)

lemma uint_magnitude: "a \<noteq> 0x8000000000000000 \<Longrightarrow> uint (magnitude a) = \<bar>sint a\<bar>"
proof -
  assume "a \<noteq> 0x8000000000000000"
  then have n: "neg_not_min a \<longleftrightarrow> bit a 63" by (simp add: neg_not_min_iff)
  have "uint (NOT a + 1) = 2 ^ 64 - uint a" if "a \<noteq> 0"
  proof -
    have "uint a \<noteq> 0" using that by (simp add: uint_0_iff)
    then show ?thesis using uint_lt2p [of a]
      by (simp add: minus_eq_not_plus_1 [symmetric] uint_word_ariths zmod_zminus1_eq_if)
  qed
  moreover have "bit a 63 \<Longrightarrow> a \<noteq> 0" by auto
  ultimately show ?thesis using uint_lt2p [of a] by (auto simp: magnitude_def n sint_cases)
qed

lemma mulh_high_half:
  assumes "a \<noteq> 0x8000000000000000" and "b \<noteq> 0x8000000000000000" and "0 \<le> sint a * sint b \<or> a * b \<noteq> 0"
  shows "mulh a b = word_of_int (sint a * sint b div 2 ^ 64)"
proof -
  let ?x = "sint a" and ?y = "sint b" and ?h = "snd (mul_tree (magnitude a) (magnitude b))"
  note mag = uint_magnitude [OF assms(1)] uint_magnitude [OF assms(2)]
  have neg: "neg_not_min a \<longleftrightarrow> ?x < 0" "neg_not_min b \<longleftrightarrow> ?y < 0"
    using assms(1,2) uint_lt2p [of a] uint_lt2p [of b] by (simp_all add: neg_not_min_iff sint_cases)
  have z: "magnitude a = 0 \<longleftrightarrow> ?x = 0" "magnitude b = 0 \<longleftrightarrow> ?y = 0"
    using mag by (simp_all add: uint_0_iff [symmetric])
  have h: "?h = word_of_int (\<bar>?x * ?y\<bar> div 2 ^ 64)"
    using mul_tree_high [of "magnitude a" "magnitude b"] unfolding mag abs_mult by (metis word_of_int_uint)
  show ?thesis
  proof (cases "?x = 0 \<or> ?y = 0 \<or> (?x < 0) = (?y < 0)")
    case True
    then have "0 \<le> ?x * ?y" by (auto simp: zero_le_mult_iff)
    with True h show ?thesis by (auto simp: mulh_def Let_def neg z)
  next
    case False
    then have lt: "?x * ?y < 0" by (auto simp: mult_less_0_iff)
    have "a * b = word_of_int (?x * ?y)" by simp
    moreover have "a * b \<noteq> 0" using assms(3) lt by linarith
    ultimately have "\<not> 2 ^ 64 dvd ?x * ?y" using word_of_int_eq_0_iff [where 'a = 64, of "?x * ?y"] by simp
    then have "\<bar>?x * ?y\<bar> mod 2 ^ 64 \<noteq> 0" by (simp only: mod_eq_0_iff_dvd dvd_abs_iff simp_thms)
    then have "?x * ?y div 2 ^ 64 = - (\<bar>?x * ?y\<bar> div 2 ^ 64) - 1"
      using zdiv_zminus1_eq_if [of "2 ^ 64" "\<bar>?x * ?y\<bar>"] lt by simp
    moreover have "mulh a b = NOT ?h" using False by (auto simp: mulh_def Let_def neg z)
    ultimately show ?thesis by (simp add: h not_eq_complement)
  qed
qed


section \<open>Properties\<close>

text \<open>\<open>MULH\<close> writes the high half of the signed product, except when an operand is the smallest
  number or the product is negative with a zero low half.\<close>

lemma MULH_high_half:
  assumes "regs s (ISA_rs1 (buf32_0 p)) \<noteq> 0x8000000000000000" and "regs s (ISA_rs2 (buf32_0 p)) \<noteq> 0x8000000000000000"
    and "0 \<le> sint (regs s (ISA_rs1 (buf32_0 p))) * sint (regs s (ISA_rs2 (buf32_0 p))) \<or>
         regs s (ISA_rs1 (buf32_0 p)) * regs s (ISA_rs2 (buf32_0 p)) \<noteq> 0"
    and "ISA_rd (buf32_0 p) \<noteq> 0"
  shows "run_state (exec_MULH c p) s =
    (4, s\<lparr>regs := (regs s)(ISA_rd (buf32_0 p) :=
       word_of_int (sint (regs s (ISA_rs1 (buf32_0 p))) * sint (regs s (ISA_rs2 (buf32_0 p))) div 2 ^ 64))\<rparr>)"
  using assms by (simp add: exec_MULH_def Let_def mulh_high_half)

lemma MULH_high_half_witness:
  "run_state (exec_MULH sample_cfg (ucast (enc_R 5 6 7))) ((sample_cpu ())\<lparr>regs := (\<lambda>_. 0)(6 := - 3, 7 := 2 ^ 62)\<rparr>) =
    (4, (sample_cpu ())\<lparr>regs := (\<lambda>_. 0)(6 := - 3, 7 := 2 ^ 62, 5 := word_of_int (- 3 * 2 ^ 62 div 2 ^ 64))\<rparr>)"
  using MULH_high_half [of "(sample_cpu ())\<lparr>regs := (\<lambda>_. 0)(6 := - 3, 7 := 2 ^ 62)\<rparr>" "ucast (enc_R 5 6 7)" sample_cfg]
  by simp

text \<open>The two exceptions: a smallest operand is taken as a positive number, and the complement of the high
  half is one too small when the low half is zero.\<close>

lemma mulh_min_operand: "mulh 0x8000000000000000 1 = 0"
  and mulh_zero_low_half: "mulh (- (2 ^ 32)) (2 ^ 32) = - 2"
  by code_simp+

lemma div64_sdiv: "div64 a b = (if b = 0 then - 1 else word_of_int (sint a sdiv sint b))"
  and rem64_smod: "rem64 a b = (if b = 0 then a else word_of_int (sint a smod sint b))"
  by (auto simp: div64_def rem64_def signed_divide_int_def signed_modulo_int_def)

text \<open>C38. \<open>DIV\<close> and \<open>REM\<close>: division by zero gives all ones and the dividend, otherwise the quotient is
  truncated towards zero (the overflowing case wraps), and quotient and remainder recompose the dividend.\<close>

theorem div_rem_spec:
  "div64 a b = (if b = 0 then - 1 else word_of_int (sint a sdiv sint b)) \<and>
   rem64 a b = (if b = 0 then a else word_of_int (sint a smod sint b)) \<and>
   div64 a b * b + rem64 a b = a"
proof -
  have "word_of_int (sint a sdiv sint b) * b + word_of_int (sint a smod sint b) =
      (word_of_int (sint a sdiv sint b * sint b + sint a smod sint b) :: u64)" by simp
  then have "word_of_int (sint a sdiv sint b) * b + word_of_int (sint a smod sint b) = a"
    unfolding sdiv_mult_smod_eq by simp
  then show ?thesis by (simp add: div64_sdiv rem64_smod)
qed

end
