(* ===== verification/Ext_A.thy ===== *)
theory Ext_A
  imports Rv64i_User
begin

text \<open>
  The atomic instructions of \<^verbatim>\<open>riscv-ext-a.cpp\<close>. \<open>amo_exec\<close> is \<^verbatim>\<open>RiscvAmoGeneric::exec\<close>, with the
  virtual method \<^verbatim>\<open>amo_op\<close> as an argument; each AMO class passes its own operator and width.
\<close>

section \<open>Read-modify-write\<close>

definition amo_exec :: "'b cpu_cfg \<Rightarrow> nat \<Rightarrow> (u64 \<Rightarrow> u64 \<Rightarrow> u64) \<Rightarrow> u64 \<Rightarrow> ('b, nat) cpuM" where
  "amo_exec c rvbytes amo_op payload = do {
     let u = buf32_0 payload;
     a \<leftarrow> getR (ISA_rs1 u);
     pc \<leftarrow> getPC;
     (if a AND of_nat (rvbytes - 1) \<noteq> 0 then generateException c EXCEPTION_StoreMisalign pc
      else do {
        (ret, tr) \<leftarrow> dma_memop c (load_trans c a rvbytes (uninit c)) False;
        if ret = TRANS_ERROR then generateException c EXCEPTION_StoreFault (addr tr)
        else do {
          let t = (if rvbytes = 4
                   then let t = b32_0 (rpayload tr)
                        in if t AND 0x80000000 \<noteq> 0 then t OR EXT_SIGN_32 else t
                   else rpayload tr);
          b \<leftarrow> getR (ISA_rs2 u);
          (ret, tr) \<leftarrow> dma_memop c (tr\<lparr>action := MemAction_Write,
                          wstrb := of_nat (2 ^ xsize tr - 1), wpayload := amo_op b t\<rparr>) False;
          whenM (ret = TRANS_ERROR) (generateException c EXCEPTION_StoreFault (addr tr));
          setReg (ISA_rd u) t } });
     returnM 4 }"

definition exec_AMOADD_W :: "'b cpu_cfg \<Rightarrow> u64 \<Rightarrow> ('b, nat) cpuM" where
  "exec_AMOADD_W c = amo_exec c 4 (\<lambda>a b. a + b)"

definition exec_AMOXOR_W :: "'b cpu_cfg \<Rightarrow> u64 \<Rightarrow> ('b, nat) cpuM" where
  "exec_AMOXOR_W c = amo_exec c 4 (\<lambda>a b. a XOR b)"

definition exec_AMOOR_W :: "'b cpu_cfg \<Rightarrow> u64 \<Rightarrow> ('b, nat) cpuM" where
  "exec_AMOOR_W c = amo_exec c 4 (\<lambda>a b. a OR b)"

definition exec_AMOAND_W :: "'b cpu_cfg \<Rightarrow> u64 \<Rightarrow> ('b, nat) cpuM" where
  "exec_AMOAND_W c = amo_exec c 4 (\<lambda>a b. a AND b)"

definition exec_AMOMIN_W :: "'b cpu_cfg \<Rightarrow> u64 \<Rightarrow> ('b, nat) cpuM" where
  "exec_AMOMIN_W c = amo_exec c 4 (\<lambda>a b. if sint a < sint b then a else b)"

definition exec_AMOMAX_W :: "'b cpu_cfg \<Rightarrow> u64 \<Rightarrow> ('b, nat) cpuM" where
  "exec_AMOMAX_W c = amo_exec c 4 (\<lambda>a b. if sint b < sint a then a else b)"

definition exec_AMOMINU_W :: "'b cpu_cfg \<Rightarrow> u64 \<Rightarrow> ('b, nat) cpuM" where
  "exec_AMOMINU_W c = amo_exec c 4 (\<lambda>a b. if a < b then a else b)"

definition exec_AMOMAXU_W :: "'b cpu_cfg \<Rightarrow> u64 \<Rightarrow> ('b, nat) cpuM" where
  "exec_AMOMAXU_W c = amo_exec c 4 (\<lambda>a b. if b < a then a else b)"

definition exec_AMOSWAP_W :: "'b cpu_cfg \<Rightarrow> u64 \<Rightarrow> ('b, nat) cpuM" where
  "exec_AMOSWAP_W c = amo_exec c 4 (\<lambda>a b. a)"

definition exec_AMOADD_D :: "'b cpu_cfg \<Rightarrow> u64 \<Rightarrow> ('b, nat) cpuM" where
  "exec_AMOADD_D c = amo_exec c 8 (\<lambda>a b. a + b)"

definition exec_AMOXOR_D :: "'b cpu_cfg \<Rightarrow> u64 \<Rightarrow> ('b, nat) cpuM" where
  "exec_AMOXOR_D c = amo_exec c 8 (\<lambda>a b. a XOR b)"

definition exec_AMOOR_D :: "'b cpu_cfg \<Rightarrow> u64 \<Rightarrow> ('b, nat) cpuM" where
  "exec_AMOOR_D c = amo_exec c 8 (\<lambda>a b. a OR b)"

definition exec_AMOAND_D :: "'b cpu_cfg \<Rightarrow> u64 \<Rightarrow> ('b, nat) cpuM" where
  "exec_AMOAND_D c = amo_exec c 8 (\<lambda>a b. a AND b)"

definition exec_AMOMIN_D :: "'b cpu_cfg \<Rightarrow> u64 \<Rightarrow> ('b, nat) cpuM" where
  "exec_AMOMIN_D c = amo_exec c 8 (\<lambda>a b. if sint a < sint b then a else b)"

definition exec_AMOMAX_D :: "'b cpu_cfg \<Rightarrow> u64 \<Rightarrow> ('b, nat) cpuM" where
  "exec_AMOMAX_D c = amo_exec c 8 (\<lambda>a b. if sint b < sint a then a else b)"

definition exec_AMOMINU_D :: "'b cpu_cfg \<Rightarrow> u64 \<Rightarrow> ('b, nat) cpuM" where
  "exec_AMOMINU_D c = amo_exec c 8 (\<lambda>a b. if a < b then a else b)"

definition exec_AMOMAXU_D :: "'b cpu_cfg \<Rightarrow> u64 \<Rightarrow> ('b, nat) cpuM" where
  "exec_AMOMAXU_D c = amo_exec c 8 (\<lambda>a b. if b < a then a else b)"

definition exec_AMOSWAP_D :: "'b cpu_cfg \<Rightarrow> u64 \<Rightarrow> ('b, nat) cpuM" where
  "exec_AMOSWAP_D c = amo_exec c 8 (\<lambda>a b. a)"

section \<open>Load-reserved and store-conditional\<close>

definition exec_LR_W :: "'b cpu_cfg \<Rightarrow> u64 \<Rightarrow> ('b, nat) cpuM" where
  "exec_LR_W c payload = do {
     let u = buf32_0 payload;
     a \<leftarrow> getR (ISA_rs1 u);
     pc \<leftarrow> getPC;
     (if a AND 3 \<noteq> 0 then generateException c EXCEPTION_LoadMisalign pc
      else do {
        (ret, tr) \<leftarrow> dma_memop c (load_trans c a 4 (uninit c)) False;
        if ret = TRANS_ERROR then generateException c EXCEPTION_LoadFault (addr tr)
        else do {
          mmuAddrReserve (addr tr);
          setReg (ISA_rd u) (let t = b32_0 (rpayload tr) in if t AND 0x80000000 \<noteq> 0 then t OR EXT_SIGN_32 else t) } });
     returnM 4 }"

definition exec_LR_D :: "'b cpu_cfg \<Rightarrow> u64 \<Rightarrow> ('b, nat) cpuM" where
  "exec_LR_D c payload = do {
     let u = buf32_0 payload;
     a \<leftarrow> getR (ISA_rs1 u);
     pc \<leftarrow> getPC;
     (if a AND 7 \<noteq> 0 then generateException c EXCEPTION_LoadMisalign pc
      else do {
        (ret, tr) \<leftarrow> dma_memop c (load_trans c a 8 (uninit c)) False;
        if ret = TRANS_ERROR then generateException c EXCEPTION_LoadFault (addr tr)
        else do {
          mmuAddrReserve (addr tr);
          setReg (ISA_rd u) (b32_0 (rpayload tr)) } });
     returnM 4 }"

definition exec_SC_W :: "'b cpu_cfg \<Rightarrow> u64 \<Rightarrow> ('b, nat) cpuM" where
  "exec_SC_W c payload = do {
     let u = buf32_0 payload;
     a \<leftarrow> getR (ISA_rs1 u);
     b \<leftarrow> getR (ISA_rs2 u);
     pc \<leftarrow> getPC;
     released \<leftarrow> mmuAddrRelease a;
     error \<leftarrow>
       (if \<not> released then returnM 1
        else if a AND 3 \<noteq> 0
        then do { generateException c EXCEPTION_StoreMisalign pc; returnM 1 }
        else do {
          (ret, tr) \<leftarrow> dma_memop c (store_trans c a 4 b) False;
          if ret = TRANS_ERROR
          then do { generateException c EXCEPTION_StoreFault (addr tr); returnM 1 }
          else returnM 0 });
     setReg (ISA_rd u) error;
     returnM 4 }"

definition exec_SC_D :: "'b cpu_cfg \<Rightarrow> u64 \<Rightarrow> ('b, nat) cpuM" where
  "exec_SC_D c payload = do {
     let u = buf32_0 payload;
     a \<leftarrow> getR (ISA_rs1 u);
     b \<leftarrow> getR (ISA_rs2 u);
     pc \<leftarrow> getPC;
     released \<leftarrow> mmuAddrRelease a;
     error \<leftarrow>
       (if \<not> released then returnM 1
        else if a AND 7 \<noteq> 0
        then do { generateException c EXCEPTION_StoreMisalign pc; returnM 1 }
        else do {
          (ret, tr) \<leftarrow> dma_memop c (store_trans c a 8 b) False;
          if ret = TRANS_ERROR
          then do { generateException c EXCEPTION_StoreFault (addr tr); returnM 1 }
          else returnM 0 });
     setReg (ISA_rd u) error;
     returnM 4 }"

section \<open>The table\<close>

text \<open>\<^verbatim>\<open>addIsaExtensionA\<close>.\<close>

definition isaExtensionA :: "'b cpu_cfg \<Rightarrow> 'b riscv_instr list" where
  "isaExtensionA c =
    [mk_instr ''AMOADD_W'' ''00000????????????010?????0101111'' (exec_AMOADD_W c),
     mk_instr ''AMOXOR_W'' ''00100????????????010?????0101111'' (exec_AMOXOR_W c),
     mk_instr ''AMOOR_W'' ''01000????????????010?????0101111'' (exec_AMOOR_W c),
     mk_instr ''AMOAND_W'' ''01100????????????010?????0101111'' (exec_AMOAND_W c),
     mk_instr ''AMOMIN_W'' ''10000????????????010?????0101111'' (exec_AMOMIN_W c),
     mk_instr ''AMOMAX_W'' ''10100????????????010?????0101111'' (exec_AMOMAX_W c),
     mk_instr ''AMOMINU_W'' ''11000????????????010?????0101111'' (exec_AMOMINU_W c),
     mk_instr ''AMOMAXU_W'' ''11100????????????010?????0101111'' (exec_AMOMAXU_W c),
     mk_instr ''AMOSWAP_W'' ''00001????????????010?????0101111'' (exec_AMOSWAP_W c),
     mk_instr ''LR_W'' ''00010??00000?????010?????0101111'' (exec_LR_W c),
     mk_instr ''SC_W'' ''00011????????????010?????0101111'' (exec_SC_W c),
     mk_instr ''AMOADD_D'' ''00000????????????011?????0101111'' (exec_AMOADD_D c),
     mk_instr ''AMOXOR_D'' ''00100????????????011?????0101111'' (exec_AMOXOR_D c),
     mk_instr ''AMOOR_D'' ''01000????????????011?????0101111'' (exec_AMOOR_D c),
     mk_instr ''AMOAND_D'' ''01100????????????011?????0101111'' (exec_AMOAND_D c),
     mk_instr ''AMOMIN_D'' ''10000????????????011?????0101111'' (exec_AMOMIN_D c),
     mk_instr ''AMOMAX_D'' ''10100????????????011?????0101111'' (exec_AMOMAX_D c),
     mk_instr ''AMOMINU_D'' ''11000????????????011?????0101111'' (exec_AMOMINU_D c),
     mk_instr ''AMOMAXU_D'' ''11100????????????011?????0101111'' (exec_AMOMAXU_D c),
     mk_instr ''AMOSWAP_D'' ''00001????????????011?????0101111'' (exec_AMOSWAP_D c),
     mk_instr ''LR_D'' ''00010??00000?????011?????0101111'' (exec_LR_D c),
     mk_instr ''SC_D'' ''00011????????????011?????0101111'' (exec_SC_D c)]"

lemmas ext_a_defs [exec_defs] =
  exec_AMOADD_W_def exec_AMOXOR_W_def exec_AMOOR_W_def exec_AMOAND_W_def exec_AMOMIN_W_def
  exec_AMOMAX_W_def exec_AMOMINU_W_def exec_AMOMAXU_W_def exec_AMOSWAP_W_def exec_LR_W_def
  exec_SC_W_def exec_AMOADD_D_def exec_AMOXOR_D_def exec_AMOOR_D_def exec_AMOAND_D_def
  exec_AMOMIN_D_def exec_AMOMAX_D_def exec_AMOMINU_D_def exec_AMOMAXU_D_def exec_AMOSWAP_D_def
  exec_LR_D_def exec_SC_D_def

end
