(* ===== verification/Ext_C.thy ===== *)
theory Ext_C
  imports Rv64i_User
begin

text \<open>
  The compressed instructions of \<^verbatim>\<open>riscv-ext-c.cpp\<close>. A class derived from \<^verbatim>\<open>RiscvInstruction16\<close> has its
  own hash and may strengthen \<^verbatim>\<open>parse\<close> by a guard on its register fields; both are part of the
  table at the end. \<^verbatim>\<open>C_JAL\<close> is compiled for RV32 only and is left out.
\<close>

definition mk_instr16 ::
  "string \<Rightarrow> string \<Rightarrow> (u16 \<Rightarrow> bool) \<Rightarrow> (u64 \<Rightarrow> ('b, nat) cpuM) \<Rightarrow> 'b riscv_instr" where
  "mk_instr16 nm bits guard ex =
     \<lparr>iname = nm, opcode = pattern_opcode bits, imask = pattern_mask bits,
      iparse = (\<lambda>w. parse_pattern bits w \<and> guard (ucast w)),
      ihash = instr_hash16 (pattern_opcode bits), iexec = ex\<rparr>"

section \<open>The instruction classes\<close>

definition exec_C_ADD :: "'b cpu_cfg \<Rightarrow> u64 \<Rightarrow> ('b, nat) cpuM" where
  "exec_C_ADD c payload = do {
     let u = buf16_0 payload;
     whenM (CR_rdrs1 u \<noteq> 0) (do {
       a \<leftarrow> getR (CR_rdrs1 u);
       b \<leftarrow> getR (CR_rs2 u);
       setReg (CR_rdrs1 u) (a + b) });
     returnM 2 }"

definition exec_C_ADDI :: "'b cpu_cfg \<Rightarrow> u64 \<Rightarrow> ('b, nat) cpuM" where
  "exec_C_ADDI c payload = do {
     let u = buf16_0 payload;
     a \<leftarrow> getR (CR_rdrs1 u);
     setReg (CR_rdrs1 u) (a + CI_imm u);
     returnM 2 }"

definition exec_C_ADDI16SP :: "'b cpu_cfg \<Rightarrow> u64 \<Rightarrow> ('b, nat) cpuM" where
  "exec_C_ADDI16SP c payload = do {
     let u = buf16_0 payload;
     a \<leftarrow> getR Reg_sp;
     setReg Reg_sp (a + CI_sp_imm u);
     returnM 2 }"

definition exec_C_ADDI4SPN :: "'b cpu_cfg \<Rightarrow> u64 \<Rightarrow> ('b, nat) cpuM" where
  "exec_C_ADDI4SPN c payload = do {
     let u = buf16_0 payload;
     a \<leftarrow> getR Reg_sp;
     setReg (8 + C_lo u) (a + CIW_imm u);
     returnM 2 }"

definition exec_C_ADDIW :: "'b cpu_cfg \<Rightarrow> u64 \<Rightarrow> ('b, nat) cpuM" where
  "exec_C_ADDIW c payload = do {
     let u = buf16_0 payload;
     a \<leftarrow> getR (CR_rdrs1 u);
     setReg (CR_rdrs1 u) (sext32 (a + CI_imm u));
     returnM 2 }"

definition exec_C_ADDW :: "'b cpu_cfg \<Rightarrow> u64 \<Rightarrow> ('b, nat) cpuM" where
  "exec_C_ADDW c payload = do {
     let u = buf16_0 payload;
     a \<leftarrow> getR (8 + C_hi u);
     b \<leftarrow> getR (8 + C_lo u);
     setReg (8 + C_hi u) (sext32 (a + b));
     returnM 2 }"

definition exec_C_AND :: "'b cpu_cfg \<Rightarrow> u64 \<Rightarrow> ('b, nat) cpuM" where
  "exec_C_AND c payload = do {
     let u = buf16_0 payload;
     a \<leftarrow> getR (8 + C_hi u);
     b \<leftarrow> getR (8 + C_lo u);
     setReg (8 + C_hi u) (a AND b);
     returnM 2 }"

definition exec_C_ANDI :: "'b cpu_cfg \<Rightarrow> u64 \<Rightarrow> ('b, nat) cpuM" where
  "exec_C_ANDI c payload = do {
     let u = buf16_0 payload;
     a \<leftarrow> getR (8 + C_hi u);
     setReg (8 + C_hi u) (a AND CI_imm u);
     returnM 2 }"

definition exec_C_BEQZ :: "'b cpu_cfg \<Rightarrow> u64 \<Rightarrow> ('b, nat) cpuM" where
  "exec_C_BEQZ c payload = do {
     let u = buf16_0 payload;
     a \<leftarrow> getR (8 + C_hi u);
     pc \<leftarrow> getPC;
     whenM (a = 0) (setBranch (pc + CB_off u));
     returnM 2 }"

definition exec_C_BNEZ :: "'b cpu_cfg \<Rightarrow> u64 \<Rightarrow> ('b, nat) cpuM" where
  "exec_C_BNEZ c payload = do {
     let u = buf16_0 payload;
     a \<leftarrow> getR (8 + C_hi u);
     pc \<leftarrow> getPC;
     whenM (a \<noteq> 0) (setBranch (pc + CB_off u));
     returnM 2 }"

definition exec_C_EBREAK :: "'b cpu_cfg \<Rightarrow> u64 \<Rightarrow> ('b, nat) cpuM" where
  "exec_C_EBREAK c payload = do {
     pc \<leftarrow> getPC;
     generateException c EXCEPTION_Breakpoint pc;
     doNotCache;
     returnM 2 }"

definition exec_C_J :: "'b cpu_cfg \<Rightarrow> u64 \<Rightarrow> ('b, nat) cpuM" where
  "exec_C_J c payload = do {
     let u = buf16_0 payload;
     pc \<leftarrow> getPC;
     setBranch (pc + CJ_off u);
     returnM 2 }"

definition exec_C_JALR :: "'b cpu_cfg \<Rightarrow> u64 \<Rightarrow> ('b, nat) cpuM" where
  "exec_C_JALR c payload = do {
     let u = buf16_0 payload;
     pc \<leftarrow> getPC;
     setReg Reg_ra (pc + 2);
     a \<leftarrow> getR (CR_rdrs1 u);
     setBranch a;
     pushStackTrace c;
     returnM 2 }"

definition exec_C_JR :: "'b cpu_cfg \<Rightarrow> u64 \<Rightarrow> ('b, nat) cpuM" where
  "exec_C_JR c payload = do {
     let u = buf16_0 payload;
     a \<leftarrow> getR (CR_rdrs1 u);
     setBranch a;
     whenM (CR_rdrs1 u = Reg_ra) popStackTrace;
     returnM 2 }"

definition exec_C_LD :: "'b cpu_cfg \<Rightarrow> u64 \<Rightarrow> ('b, nat) cpuM" where
  "exec_C_LD c payload = do {
     let u = buf16_0 payload;
     a \<leftarrow> getR (8 + C_hi u);
     r \<leftarrow> load_op c (a + CL_d_off u) 8 (uninit c);
     setReg (8 + C_lo u) (r);
     returnM 2 }"

definition exec_C_LDSP :: "'b cpu_cfg \<Rightarrow> u64 \<Rightarrow> ('b, nat) cpuM" where
  "exec_C_LDSP c payload = do {
     let u = buf16_0 payload;
     a \<leftarrow> getR (Reg_sp);
     r \<leftarrow> load_op c (a + CI_ldsp_off u) 8 (uninit c);
     setReg (CR_rdrs1 u) (r);
     returnM 2 }"

definition exec_C_LI :: "'b cpu_cfg \<Rightarrow> u64 \<Rightarrow> ('b, nat) cpuM" where
  "exec_C_LI c payload = do {
     let u = buf16_0 payload;
     setReg (CR_rdrs1 u) (CI_imm u);
     returnM 2 }"

definition exec_C_LW :: "'b cpu_cfg \<Rightarrow> u64 \<Rightarrow> ('b, nat) cpuM" where
  "exec_C_LW c payload = do {
     let u = buf16_0 payload;
     a \<leftarrow> getR (8 + C_hi u);
     r \<leftarrow> load_op c (a + CL_w_off u) 4 0;
     setReg (8 + C_lo u) (if b32_0 r AND 0x80000000 \<noteq> 0 then b32_0 r OR EXT_SIGN_32 else b32_0 r);
     returnM 2 }"

definition exec_C_LWSP :: "'b cpu_cfg \<Rightarrow> u64 \<Rightarrow> ('b, nat) cpuM" where
  "exec_C_LWSP c payload = do {
     let u = buf16_0 payload;
     a \<leftarrow> getR (Reg_sp);
     r \<leftarrow> load_op c (a + CI_lwsp_off u) 4 (uninit c);
     setReg (CR_rdrs1 u) (if b32_0 r AND 0x80000000 \<noteq> 0 then b32_0 r OR EXT_SIGN_32 else b32_0 r);
     returnM 2 }"

definition exec_C_LUI :: "'b cpu_cfg \<Rightarrow> u64 \<Rightarrow> ('b, nat) cpuM" where
  "exec_C_LUI c payload = do {
     let u = buf16_0 payload;
     setReg (CR_rdrs1 u) (push_bit 12 (CI_imm u));
     returnM 2 }"

definition exec_C_MV :: "'b cpu_cfg \<Rightarrow> u64 \<Rightarrow> ('b, nat) cpuM" where
  "exec_C_MV c payload = do {
     let u = buf16_0 payload;
     b \<leftarrow> getR (CR_rs2 u);
     setReg (CR_rdrs1 u) b;
     returnM 2 }"

definition exec_C_NOP :: "'b cpu_cfg \<Rightarrow> u64 \<Rightarrow> ('b, nat) cpuM" where
  "exec_C_NOP c payload = returnM 2"

definition exec_C_OR :: "'b cpu_cfg \<Rightarrow> u64 \<Rightarrow> ('b, nat) cpuM" where
  "exec_C_OR c payload = do {
     let u = buf16_0 payload;
     a \<leftarrow> getR (8 + C_hi u);
     b \<leftarrow> getR (8 + C_lo u);
     setReg (8 + C_hi u) (a OR b);
     returnM 2 }"

definition exec_C_SD :: "'b cpu_cfg \<Rightarrow> u64 \<Rightarrow> ('b, nat) cpuM" where
  "exec_C_SD c payload = do {
     let u = buf16_0 payload;
     a \<leftarrow> getR (8 + C_hi u);
     b \<leftarrow> getR (8 + C_lo u);
     store_op c (a + CL_d_off u) 8 b;
     returnM 2 }"

definition exec_C_SDSP :: "'b cpu_cfg \<Rightarrow> u64 \<Rightarrow> ('b, nat) cpuM" where
  "exec_C_SDSP c payload = do {
     let u = buf16_0 payload;
     a \<leftarrow> getR (Reg_sp);
     b \<leftarrow> getR (CR_rs2 u);
     store_op c (a + CSS_d_off u) 8 b;
     returnM 2 }"

definition exec_C_SLLI :: "'b cpu_cfg \<Rightarrow> u64 \<Rightarrow> ('b, nat) cpuM" where
  "exec_C_SLLI c payload = do {
     let u = buf16_0 payload;
     let idx = unat (push_bit 3 (bitfield 10 2 u) OR bitfield 7 3 u);
     a \<leftarrow> getR idx;
     setReg idx (push_bit (CB_shamt u) a);
     returnM 2 }"

definition exec_C_SRAI :: "'b cpu_cfg \<Rightarrow> u64 \<Rightarrow> ('b, nat) cpuM" where
  "exec_C_SRAI c payload = do {
     let u = buf16_0 payload;
     a \<leftarrow> getR (8 + C_hi u);
     setReg (8 + C_hi u) (signed_drop_bit (CB_shamt u) a);
     returnM 2 }"

definition exec_C_SRLI :: "'b cpu_cfg \<Rightarrow> u64 \<Rightarrow> ('b, nat) cpuM" where
  "exec_C_SRLI c payload = do {
     let u = buf16_0 payload;
     a \<leftarrow> getR (8 + C_hi u);
     setReg (8 + C_hi u) (drop_bit (CB_shamt u) a);
     returnM 2 }"

definition exec_C_SUB :: "'b cpu_cfg \<Rightarrow> u64 \<Rightarrow> ('b, nat) cpuM" where
  "exec_C_SUB c payload = do {
     let u = buf16_0 payload;
     a \<leftarrow> getR (8 + C_hi u);
     b \<leftarrow> getR (8 + C_lo u);
     setReg (8 + C_hi u) (a - b);
     returnM 2 }"

definition exec_C_SUBW :: "'b cpu_cfg \<Rightarrow> u64 \<Rightarrow> ('b, nat) cpuM" where
  "exec_C_SUBW c payload = do {
     let u = buf16_0 payload;
     a \<leftarrow> getR (8 + C_hi u);
     b \<leftarrow> getR (8 + C_lo u);
     setReg (8 + C_hi u) (sext32 (a - b));
     returnM 2 }"

definition exec_C_SW :: "'b cpu_cfg \<Rightarrow> u64 \<Rightarrow> ('b, nat) cpuM" where
  "exec_C_SW c payload = do {
     let u = buf16_0 payload;
     a \<leftarrow> getR (8 + C_hi u);
     b \<leftarrow> getR (8 + C_lo u);
     store_op c (a + CL_w_off u) 4 b;
     returnM 2 }"

definition exec_C_SWSP :: "'b cpu_cfg \<Rightarrow> u64 \<Rightarrow> ('b, nat) cpuM" where
  "exec_C_SWSP c payload = do {
     let u = buf16_0 payload;
     a \<leftarrow> getR (Reg_sp);
     b \<leftarrow> getR (CR_rs2 u);
     store_op c (a + CSS_w_off u) 4 b;
     returnM 2 }"

definition exec_C_XOR :: "'b cpu_cfg \<Rightarrow> u64 \<Rightarrow> ('b, nat) cpuM" where
  "exec_C_XOR c payload = do {
     let u = buf16_0 payload;
     a \<leftarrow> getR (8 + C_hi u);
     b \<leftarrow> getR (8 + C_lo u);
     setReg (8 + C_hi u) (a XOR b);
     returnM 2 }"

section \<open>The table\<close>

text \<open>\<^verbatim>\<open>addIsaExtensionC\<close>.\<close>

definition isaExtensionC :: "'b cpu_cfg \<Rightarrow> 'b riscv_instr list" where
  "isaExtensionC c =
    [mk_instr16 ''C_ADD'' ''????????????????1001??????????10''
       (\<lambda>u. CR_rdrs1 u \<noteq> 0 \<and> CR_rs2 u \<noteq> 0) (exec_C_ADD c),
     mk_instr16 ''C_ADDI'' ''????????????????000???????????01''
       (\<lambda>u. CR_rdrs1 u \<noteq> 0) (exec_C_ADDI c),
     mk_instr16 ''C_ADDI16SP'' ''????????????????011?00010?????01''
       (\<lambda>u. True) (exec_C_ADDI16SP c),
     mk_instr16 ''C_ADDI4SPN'' ''????????????????000???????????00''
       (\<lambda>u. True) (exec_C_ADDI4SPN c),
     mk_instr16 ''C_ADDIW'' ''????????????????001???????????01''
       (\<lambda>u. CR_rdrs1 u \<noteq> 0) (exec_C_ADDIW c),
     mk_instr16 ''C_ADDW'' ''????????????????100111???01???01''
       (\<lambda>u. True) (exec_C_ADDW c),
     mk_instr16 ''C_AND'' ''????????????????100011???11???01''
       (\<lambda>u. True) (exec_C_AND c),
     mk_instr16 ''C_ANDI'' ''????????????????100?10????????01''
       (\<lambda>u. True) (exec_C_ANDI c),
     mk_instr16 ''C_BEQZ'' ''????????????????110???????????01''
       (\<lambda>u. True) (exec_C_BEQZ c),
     mk_instr16 ''C_BNEZ'' ''????????????????111???????????01''
       (\<lambda>u. True) (exec_C_BNEZ c),
     mk_instr16 ''C_EBREAK'' ''????????????????1001000000000010''
       (\<lambda>u. True) (exec_C_EBREAK c),
     mk_instr16 ''C_J'' ''????????????????101???????????01''
       (\<lambda>u. True) (exec_C_J c),
     mk_instr16 ''C_JALR'' ''????????????????1001?????0000010''
       (\<lambda>u. CR_rdrs1 u \<noteq> 0) (exec_C_JALR c),
     mk_instr16 ''C_JR'' ''????????????????1000?????0000010''
       (\<lambda>u. CR_rdrs1 u \<noteq> 0) (exec_C_JR c),
     mk_instr16 ''C_LD'' ''????????????????011???????????00''
       (\<lambda>u. True) (exec_C_LD c),
     mk_instr16 ''C_LDSP'' ''????????????????011???????????10''
       (\<lambda>u. CR_rdrs1 u \<noteq> 0) (exec_C_LDSP c),
     mk_instr16 ''C_LWSP'' ''????????????????010???????????10''
       (\<lambda>u. CR_rdrs1 u \<noteq> 0) (exec_C_LWSP c),
     mk_instr16 ''C_LI'' ''????????????????010???????????01''
       (\<lambda>u. CR_rdrs1 u \<noteq> 0) (exec_C_LI c),
     mk_instr16 ''C_LUI'' ''????????????????011???????????01''
       (\<lambda>u. CR_rdrs1 u \<noteq> 0 \<and> CR_rdrs1 u \<noteq> Reg_sp) (exec_C_LUI c),
     mk_instr16 ''C_LW'' ''????????????????010???????????00''
       (\<lambda>u. True) (exec_C_LW c),
     mk_instr16 ''C_MV'' ''????????????????1000??????????10''
       (\<lambda>u. CR_rs2 u \<noteq> 0 \<and> CR_rdrs1 u \<noteq> 0) (exec_C_MV c),
     mk_instr16 ''C_NOP'' ''????????????????0000000000000001''
       (\<lambda>u. True) (exec_C_NOP c),
     mk_instr16 ''C_OR'' ''????????????????100011???10???01''
       (\<lambda>u. True) (exec_C_OR c),
     mk_instr16 ''C_SD'' ''????????????????111???????????00''
       (\<lambda>u. True) (exec_C_SD c),
     mk_instr16 ''C_SDSP'' ''????????????????111???????????10''
       (\<lambda>u. True) (exec_C_SDSP c),
     mk_instr16 ''C_SLLI'' ''????????????????000???????????10''
       (\<lambda>u. CR_rdrs1 u \<noteq> 0) (exec_C_SLLI c),
     mk_instr16 ''C_SRAI'' ''????????????????100?01????????01''
       (\<lambda>u. True) (exec_C_SRAI c),
     mk_instr16 ''C_SRLI'' ''????????????????100?00????????01''
       (\<lambda>u. True) (exec_C_SRLI c),
     mk_instr16 ''C_SUB'' ''????????????????100011???00???01''
       (\<lambda>u. True) (exec_C_SUB c),
     mk_instr16 ''C_SUBW'' ''????????????????100111???00???01''
       (\<lambda>u. True) (exec_C_SUBW c),
     mk_instr16 ''C_SW'' ''????????????????110???????????00''
       (\<lambda>u. True) (exec_C_SW c),
     mk_instr16 ''C_SWSP'' ''????????????????110???????????10''
       (\<lambda>u. True) (exec_C_SWSP c),
     mk_instr16 ''C_XOR'' ''????????????????100011???01???01''
       (\<lambda>u. True) (exec_C_XOR c)]"

lemmas ext_c_defs [exec_defs] =
  exec_C_ADD_def exec_C_ADDI_def exec_C_ADDI16SP_def exec_C_ADDI4SPN_def exec_C_ADDIW_def
  exec_C_ADDW_def exec_C_AND_def exec_C_ANDI_def exec_C_BEQZ_def exec_C_BNEZ_def
  exec_C_EBREAK_def exec_C_J_def exec_C_JALR_def exec_C_JR_def exec_C_LD_def exec_C_LDSP_def
  exec_C_LWSP_def exec_C_LI_def exec_C_LUI_def exec_C_LW_def exec_C_MV_def exec_C_NOP_def
  exec_C_OR_def exec_C_SD_def exec_C_SDSP_def exec_C_SLLI_def exec_C_SRAI_def exec_C_SRLI_def
  exec_C_SUB_def exec_C_SUBW_def exec_C_SW_def exec_C_SWSP_def exec_C_XOR_def

section \<open>Compressed instructions and their expansions\<close>

text \<open>A compressed instruction does what the 32-bit instruction does that it abbreviates; only the length
  differs. The encoders of \<open>Riscv_ISA\<close> build the expansion.\<close>

lemma C_reg_lt [simp]:
  "CR_rdrs1 u < 32" "CR_rs2 u < 32" "8 + C_lo u < 32" "8 + C_hi u < 32"
  using bitfield_lt [of 3 2 u] bitfield_lt [of 3 7 u] bitfield_lt [of 5 2 u] bitfield_lt [of 5 7 u]
  by (simp_all add: CR_rdrs1_def CR_rs2_def C_lo_def C_hi_def)

lemma fitsI:
  assumes "\<And>i. n \<le> i \<Longrightarrow> i < 64 \<Longrightarrow> bit w i = bit w n"
  shows "fits n w"
  unfolding fits_def
proof (rule bit_word_eqI)
  fix i assume "i < LENGTH(64)"
  then show "bit (signed_take_bit n w) i = bit w i"
    using assms [of i] by (cases "n \<le> i") (simp_all add: bit_signed_take_bit_iff min_absorb1 min_absorb2)
qed

lemma CI_imm_fits: "fits 11 (CI_imm u)"
  by (rule fitsI, unfold CI_imm_def Let_def ext_sign_masks) (auto simp: bit_simps)

lemma low_fits: "(\<And>i. 11 \<le> i \<Longrightarrow> \<not> bit w i) \<Longrightarrow> fits 11 w"
  by (rule fitsI) simp

lemma offsets_fit [simp]:
  "fits 11 (CL_d_off u)" "fits 11 (CL_w_off u)" "fits 11 (CI_ldsp_off u)" "fits 11 (CSS_d_off u)" "fits 11 (CSS_w_off u)"
  unfolding CL_d_off_def CL_w_off_def CI_ldsp_off_def CSS_d_off_def CSS_w_off_def
  by ((rule low_fits; simp only: bit_ucast_iff bit_or_iff bit_push_bit_iff bit_bitfield; linarith)+)

lemma fits_sext:
  "(\<And>i. n \<le> i \<Longrightarrow> \<not> bit w i) \<Longrightarrow> m \<le> n \<Longrightarrow> fits n (if b then w OR NOT (mask m) else w)"
  by (rule fitsI) (auto simp: bit_simps)

lemma sext_even: "\<not> bit w 0 \<Longrightarrow> 0 < m \<Longrightarrow> \<not> bit (if b then w OR NOT (mask m) else w) 0" for w :: u64
  by (simp add: bit_or_iff bit_not_iff bit_mask_iff)

lemma CB_off_fits: "fits 12 (CB_off u)" "\<not> bit (CB_off u) 0"
  unfolding CB_off_def Let_def ext_sign_masks
  by (rule fits_sext; simp only: bit_ucast_iff bit_or_iff bit_push_bit_iff bit_bitfield; linarith)
    (rule sext_even; simp only: bit_push_bit_iff; simp)

lemma no_bit_u16: "17 \<le> i \<Longrightarrow> \<not> bit (push_bit 1 (ucast (y :: u16)) :: u64) i"
  by (simp only: bit_push_bit_iff bit_ucast_iff) (auto dest: bit_imp_le_length)

lemma CJ_off_fits: "fits 20 (CJ_off u)" "\<not> bit (CJ_off u) 0"
  unfolding CJ_off_def Let_def ext_sign_masks
  by (rule fits_sext, rule no_bit_u16; simp) (rule sext_even; simp only: bit_push_bit_iff; simp)

text \<open>The compressed arithmetic instructions have the effect of their 32-bit expansions, for every
  register and immediate field.\<close>

lemma compressed_alu:
  "let u = buf16_0 p; d = CR_rdrs1 u; h = 8 + C_hi u; l = 8 + C_lo u in
   snd (run_state (exec_C_ADD c p) s) = snd (run_state (exec_ADD c (ucast (enc_R d d (CR_rs2 u)))) s) \<and>
   snd (run_state (exec_C_SUB c p) s) = snd (run_state (exec_SUB c (ucast (enc_R h h l))) s) \<and>
   snd (run_state (exec_C_AND c p) s) = snd (run_state (exec_AND c (ucast (enc_R h h l))) s) \<and>
   snd (run_state (exec_C_OR c p) s) = snd (run_state (exec_OR c (ucast (enc_R h h l))) s) \<and>
   snd (run_state (exec_C_XOR c p) s) = snd (run_state (exec_XOR c (ucast (enc_R h h l))) s) \<and>
   snd (run_state (exec_C_ADDW c p) s) = snd (run_state (exec_ADDW c (ucast (enc_R h h l))) s) \<and>
   snd (run_state (exec_C_SUBW c p) s) = snd (run_state (exec_SUBW c (ucast (enc_R h h l))) s) \<and>
   snd (run_state (exec_C_ADDI c p) s) = snd (run_state (exec_ADDI c (ucast (enc_I d d (CI_imm u)))) s) \<and>
   snd (run_state (exec_C_ADDIW c p) s) = snd (run_state (exec_ADDIW c (ucast (enc_I d d (CI_imm u)))) s) \<and>
   snd (run_state (exec_C_ANDI c p) s) = snd (run_state (exec_ANDI c (ucast (enc_I h h (CI_imm u)))) s)"
  by (simp add: ext_c_defs rv64i_defs Let_def enc_I_imm CI_imm_fits)


text \<open>The compressed 64-bit loads and the compressed stores have the effect of \<open>LD\<close>, \<open>SD\<close> and \<open>SW\<close> with the
  expanded offset, whatever the bus answers.\<close>

lemma compressed_memory:
  "let u = buf16_0 p; h = 8 + C_hi u; l = 8 + C_lo u in
   snd (run_state (exec_C_LD c p) s) = snd (run_state (exec_LD c (ucast (enc_I l h (CL_d_off u)))) s) \<and>
   snd (run_state (exec_C_LDSP c p) s) = snd (run_state (exec_LD c (ucast (enc_I (CR_rdrs1 u) Reg_sp (CI_ldsp_off u)))) s) \<and>
   snd (run_state (exec_C_SD c p) s) = snd (run_state (exec_SD c (ucast (enc_S h l (CL_d_off u)))) s) \<and>
   snd (run_state (exec_C_SDSP c p) s) = snd (run_state (exec_SD c (ucast (enc_S Reg_sp (CR_rs2 u) (CSS_d_off u)))) s) \<and>
   snd (run_state (exec_C_SW c p) s) = snd (run_state (exec_SW c (ucast (enc_S h l (CL_w_off u)))) s) \<and>
   snd (run_state (exec_C_SWSP c p) s) = snd (run_state (exec_SW c (ucast (enc_S Reg_sp (CR_rs2 u) (CSS_w_off u)))) s)"
  by (simp add: ext_c_defs rv64i_defs Let_def enc_I_imm enc_S_off split: prod.split)

text \<open>The compressed jump, branches, move and load-immediate have the effect of their expansions on register 0,
  in a state where that register reads as 0.\<close>

lemma compressed_control:
  assumes "regs s 0 = 0"
  shows "let u = buf16_0 p; h = 8 + C_hi u in
   snd (run_state (exec_C_J c p) s) = snd (run_state (exec_JAL c (ucast (enc_UJ 0 (CJ_off u)))) s) \<and>
   snd (run_state (exec_C_BEQZ c p) s) = snd (run_state (exec_BEQ c (ucast (enc_SB h 0 (CB_off u)))) s) \<and>
   snd (run_state (exec_C_BNEZ c p) s) = snd (run_state (exec_BNE c (ucast (enc_SB h 0 (CB_off u)))) s) \<and>
   snd (run_state (exec_C_MV c p) s) = snd (run_state (exec_ADD c (ucast (enc_R (CR_rdrs1 u) 0 (CR_rs2 u)))) s) \<and>
   snd (run_state (exec_C_LI c p) s) = snd (run_state (exec_ADDI c (ucast (enc_I (CR_rdrs1 u) 0 (CI_imm u)))) s)"
  using assms
  by (simp add: ext_c_defs rv64i_defs Let_def enc_I_imm CI_imm_fits enc_SB_off enc_UJ_off CB_off_fits CJ_off_fits)


lemma compressed_control_witness:
  "let u = buf16_0 (ucast (0xA001 :: u16)); h = 8 + C_hi u; s = sample_cpu (); c = sample_cfg; p = ucast (0xA001 :: u16) in
   snd (run_state (exec_C_J c p) s) = snd (run_state (exec_JAL c (ucast (enc_UJ 0 (CJ_off u)))) s) \<and>
   snd (run_state (exec_C_BEQZ c p) s) = snd (run_state (exec_BEQ c (ucast (enc_SB h 0 (CB_off u)))) s) \<and>
   snd (run_state (exec_C_BNEZ c p) s) = snd (run_state (exec_BNE c (ucast (enc_SB h 0 (CB_off u)))) s) \<and>
   snd (run_state (exec_C_MV c p) s) = snd (run_state (exec_ADD c (ucast (enc_R (CR_rdrs1 u) 0 (CR_rs2 u)))) s) \<and>
   snd (run_state (exec_C_LI c p) s) = snd (run_state (exec_ADDI c (ucast (enc_I (CR_rdrs1 u) 0 (CI_imm u)))) s)"
  unfolding Let_def by (rule compressed_control [unfolded Let_def]) (simp add: sample_cpu_def)

text \<open>\<open>C_JALR\<close> through \<open>ra\<close> jumps to the next instruction: the link register is written before it is read.\<close>

lemma c_jalr_ra: "CR_rdrs1 (buf16_0 p) = Reg_ra \<Longrightarrow> npc_of (snd (run_state (exec_C_JALR c p) s)) = pc_of s + 2"
  by (simp add: exec_C_JALR_def pushStackTrace_def)

end
