(* ===== verification/Decoder.thy ===== *)
theory Decoder
  imports Rv64i_Priv Ext_M Ext_A Ext_C
begin

text \<open>
  The instruction table and the decoder of \<^verbatim>\<open>CpuRiver_Functional\<close>: \<^verbatim>\<open>addSupportedInstruction\<close>, the
  part of \<^verbatim>\<open>postinitService\<close> that fills the 64 hash buckets, \<^verbatim>\<open>hash32\<close>, \<^verbatim>\<open>hash16\<close> and
  \<^verbatim>\<open>decodeInstruction\<close>. The extensions F and D of the list \<^verbatim>\<open>ListExtISA\<close> are not modelled: the table is
  the one of a CPU configured without them.
\<close>

section \<open>The table\<close>

definition addSupportedInstruction ::
  "'b riscv_instr \<Rightarrow> (nat \<Rightarrow> 'b riscv_instr list) \<Rightarrow> nat \<Rightarrow> 'b riscv_instr list" where
  "addSupportedInstruction instr tbl = tbl(ihash instr := tbl (ihash instr) @ [instr])"

definition isa_extension :: "'b cpu_cfg \<Rightarrow> char \<Rightarrow> 'b riscv_instr list" where
  "isa_extension c ch =
    (if ch = CHR ''A'' then isaExtensionA c
     else if ch = CHR ''C'' then isaExtensionC c
     else if ch = CHR ''M'' then isaExtensionM c
     else [])"

definition isa_instructions :: "'b cpu_cfg \<Rightarrow> 'b riscv_instr list" where
  "isa_instructions c =
     isaUserRV64I c @ isaPrivilegedRV64I c @ concat (map (isa_extension c) (listExtISA c))"

definition listInstr :: "'b cpu_cfg \<Rightarrow> nat \<Rightarrow> 'b riscv_instr list" where
  "listInstr c = fold addSupportedInstruction (isa_instructions c) (\<lambda>_. [])"

section \<open>Decoding\<close>

definition hash32 :: "u32 \<Rightarrow> nat" where
  "hash32 val = unat (drop_bit 2 val AND 0x1F)"

definition hash16 :: "u16 \<Rightarrow> nat" where
  "hash16 val = 0x20 OR (4 * unat (drop_bit 13 val)) OR unat (val AND 3)"

definition lookup_instr :: "'b cpu_cfg \<Rightarrow> u64 \<Rightarrow> 'b riscv_instr option" where
  "lookup_instr c cache =
    (let w = buf32_0 cache in
     case find (\<lambda>i. iparse i w) (listInstr c (hash32 w)) of
       Some instr \<Rightarrow> Some instr
     | None \<Rightarrow> find (\<lambda>i. iparse i w) (listInstr c (hash16 (buf16_0 cache))))"

definition decodeInstruction :: "'b cpu_cfg \<Rightarrow> ('b, 'b riscv_instr option) cpuM" where
  "decodeInstruction c = do {
     instr \<leftarrow> gets (\<lambda>s. lookup_instr c (cacheline s));
     modify (\<lambda>s. if mmuReservedAddrWatchdog s \<noteq> 0
                   then s\<lparr>mmuReservedAddrWatchdog := mmuReservedAddrWatchdog s - 1\<rparr> else s);
     returnM instr }"

section \<open>The buckets\<close>

lemma fold_addSupported:
  "fold addSupportedInstruction is tbl h = tbl h @ filter (\<lambda>i. ihash i = h) is"
  by (induction "is" arbitrary: tbl) (auto simp: addSupportedInstruction_def)

lemma listInstr_filter: "listInstr c h = filter (\<lambda>i. ihash i = h) (isa_instructions c)"
  by (simp add: listInstr_def fold_addSupported)

lemma find_filter_None: "find P (filter Q xs) = None \<longleftrightarrow> (\<forall>x \<in> set xs. Q x \<longrightarrow> \<not> P x)"
  by (auto simp: find_None_iff)

lemma find_filter_covers:
  "(\<And>x. x \<in> set xs \<Longrightarrow> P x \<Longrightarrow> Q x) \<Longrightarrow> find P (filter Q xs) = find P xs"
  by (induction xs) auto

section \<open>Bit patterns\<close>

lemma scan_bits_bit:
  "p < 32 \<Longrightarrow> i + length bits \<le> 32 \<Longrightarrow>
     (bit (fst (scan_bits i bits op m)) (31 - p) \<longleftrightarrow>
        bit op (31 - p) \<or> (i \<le> p \<and> p < i + length bits \<and> bits ! (p - i) = CHR ''1'')) \<and>
     (bit (snd (scan_bits i bits op m)) (31 - p) \<longleftrightarrow>
        bit m (31 - p) \<or> (i \<le> p \<and> p < i + length bits \<and> bits ! (p - i) = CHR ''?''))"
proof (induction i bits op m rule: scan_bits.induct)
  case (2 i ch bs op m)
  have here: "bit ((2 :: u32) ^ (31 - i)) (31 - p) \<longleftrightarrow> p = i"
    using 2 by (auto simp: bit_simps)
  have at: "bit ((2 :: u32) ^ (31 - i)) (31 - i)" by (simp add: bit_simps)
  consider "p < i" | "p = i" | "i < p" by linarith
  then show ?case
  proof cases
    case 3
    then have "p - i = Suc (p - (i + 1))" by simp
    with 3 2 show ?thesis by (simp add: bit_or_iff here)
  qed (use 2 in \<open>auto simp: bit_or_iff here at\<close>)
qed auto

lemma bit_pattern_opcode:
  "length bits = 32 \<Longrightarrow> p < 32 \<Longrightarrow> bit (pattern_opcode bits) (31 - p) \<longleftrightarrow> bits ! p = CHR ''1''"
  using scan_bits_bit [of p 0 bits 0 0] by (simp add: pattern_opcode_def)

lemma bit_pattern_mask:
  "length bits = 32 \<Longrightarrow> p < 32 \<Longrightarrow> bit (pattern_mask bits) (31 - p) \<longleftrightarrow> bits ! p \<noteq> CHR ''?''"
  using scan_bits_bit [of p 0 bits 0 0] by (auto simp: pattern_mask_def bit_not_iff)

lemma flip_index: "(\<forall>k < 32. Q k) \<longleftrightarrow> (\<forall>p < 32. Q (31 - p))" for Q :: "nat \<Rightarrow> bool"
proof -
  have "31 - (31 - k) = k" if "k < 32" for k :: nat using that by simp
  moreover have "31 - k < 32" for k :: nat by simp
  ultimately show ?thesis by metis
qed

text \<open>A word is accepted by a pattern iff it agrees with it wherever the pattern has no \<^verbatim>\<open>?\<close>.\<close>

lemma parse_pattern_iff:
  assumes "length bits = 32"
  shows "parse_pattern bits w \<longleftrightarrow>
     (\<forall>p < 32. bits ! p \<noteq> CHR ''?'' \<longrightarrow> (bit w (31 - p) \<longleftrightarrow> bits ! p = CHR ''1''))"
proof -
  have "parse_pattern bits w \<longleftrightarrow>
      (\<forall>k < 32. bit (w AND pattern_mask bits) k \<longleftrightarrow> bit (pattern_opcode bits) k)"
    by (auto simp: parse_pattern_def bit_eq_iff)
  also have "\<dots> \<longleftrightarrow>
      (\<forall>p < 32. bit (w AND pattern_mask bits) (31 - p) \<longleftrightarrow> bit (pattern_opcode bits) (31 - p))"
    by (rule flip_index)
  also have "\<dots> \<longleftrightarrow>
     (\<forall>p < 32. bits ! p \<noteq> CHR ''?'' \<longrightarrow> (bit w (31 - p) \<longleftrightarrow> bits ! p = CHR ''1''))"
    using assms by (auto simp: bit_and_iff bit_pattern_mask bit_pattern_opcode)
  finally show ?thesis .
qed

section \<open>Hash lookup and linear search\<close>

definition wide_pattern :: "string \<Rightarrow> bool" where
  "wide_pattern bits \<longleftrightarrow> length bits = 32 \<and> bits ! 30 = CHR ''1'' \<and> bits ! 31 = CHR ''1'' \<and>
     list_all (\<lambda>p. bits ! p \<noteq> CHR ''?'') [25, 26, 27, 28, 29, 30, 31] \<and>
     list_ex (\<lambda>p. bits ! p = CHR ''0'') [25, 26, 27, 28, 29]"

definition narrow_pattern :: "string \<Rightarrow> bool" where
  "narrow_pattern bits \<longleftrightarrow> length bits = 32 \<and> (bits ! 30 = CHR ''0'' \<or> bits ! 31 = CHR ''0'') \<and>
     list_all (\<lambda>p. bits ! p \<noteq> CHR ''?'') [16, 17, 18, 30, 31]"

definition wide :: "'b riscv_instr \<Rightarrow> bool" where
  "wide i \<longleftrightarrow> (\<exists>bits. wide_pattern bits \<and> ihash i = instr_hash (pattern_opcode bits) \<and>
                  (\<forall>w. iparse i w \<longrightarrow> parse_pattern bits w))"

definition narrow :: "'b riscv_instr \<Rightarrow> bool" where
  "narrow i \<longleftrightarrow> (\<exists>bits. narrow_pattern bits \<and> ihash i = instr_hash16 (pattern_opcode bits) \<and>
                  (\<forall>w. iparse i w \<longrightarrow> parse_pattern bits w))"

lemma wide_mk_instr [simp]: "wide_pattern bits \<Longrightarrow> wide (mk_instr nm bits ex)"
  by (auto simp: wide_def mk_instr_def)

lemma narrow_mk_instr16 [simp]: "narrow_pattern bits \<Longrightarrow> narrow (mk_instr16 nm bits g ex)"
  by (auto simp: narrow_def mk_instr16_def)

lemma tables_wide:
  "list_all wide (isaUserRV64I c)" "list_all wide (isaPrivilegedRV64I c)"
  "list_all wide (isaExtensionM c)" "list_all wide (isaExtensionA c)"
  by (simp_all add: isaUserRV64I_def isaPrivilegedRV64I_def isaExtensionM_def isaExtensionA_def
      wide_pattern_def)

lemma table_narrow: "list_all narrow (isaExtensionC c)"
  by (simp add: isaExtensionC_def narrow_pattern_def)

lemma table_cases:
  assumes "i \<in> set (isa_instructions c)"
  shows "wide i \<or> narrow i"
  using assms tables_wide [of c] table_narrow [of c]
  by (auto simp: isa_instructions_def isa_extension_def list_all_iff split: if_splits)

lemma parse_agrees:
  assumes "length bits = 32" and "parse_pattern bits w" and "k < 32" and "bits ! (31 - k) \<noteq> CHR ''?''"
  shows "bit w k \<longleftrightarrow> bit (pattern_opcode bits) k"
proof -
  have p: "31 - k < 32" "31 - (31 - k) = k" using assms(3) by simp_all
  show ?thesis
    using assms p(1) parse_pattern_iff [of bits w] bit_pattern_opcode [of bits "31 - k"]
    unfolding p(2) by (metis p(2))
qed

lemma wide_hash:
  assumes "wide i" and "iparse i w"
  shows "ihash i = hash32 w" and "w AND 3 = 3" and "\<exists>k < 7. \<not> bit w k"
proof -
  from assms obtain bits where b: "wide_pattern bits" "ihash i = instr_hash (pattern_opcode bits)"
    "parse_pattern bits w" by (auto simp: wide_def)
  then have len: "length bits = 32" by (simp add: wide_pattern_def)
  have eq: "bit w k \<longleftrightarrow> bit (pattern_opcode bits) k" if "k \<in> {0, 1, 2, 3, 4, 5, 6}" for k
    using parse_agrees [OF len b(3), of k] b(1) that by (auto simp: wide_pattern_def)
  have eq': "bit w k \<longleftrightarrow> bit (pattern_opcode bits) k" if "k < 7" for k
    by (rule eq) (use that in auto)
  have "drop_bit 2 w AND mask 5 = drop_bit 2 (pattern_opcode bits) AND mask 5"
    by (rule bit_word_eqI) (auto simp: bit_simps eq')
  with b(2) show "ihash i = hash32 w" by (simp add: instr_hash_def hash32_def mask_numeral)
  have "w AND mask 2 = mask 2"
    using b(1) bit_pattern_opcode [OF len, of 31] bit_pattern_opcode [OF len, of 30]
    by (intro bit_word_eqI) (auto simp: bit_simps eq' less_2_cases_iff wide_pattern_def)
  then show "w AND 3 = 3" by (simp add: mask_numeral)
  from b(1) obtain q where "q \<in> {25, 26, 27, 28, 29}" "bits ! q = CHR ''0''"
    by (auto simp: wide_pattern_def)
  then have "\<not> bit w (31 - q)" "31 - q < 7"
    using eq' [of "31 - q"] bit_pattern_opcode [OF len, of q] by auto
  then show "\<exists>k < 7. \<not> bit w k" by blast
qed

lemma narrow_hash:
  assumes "narrow i" and "iparse i w"
  shows "ihash i = hash16 (ucast w)" and "w AND 3 \<noteq> 3"
proof -
  from assms obtain bits where b: "narrow_pattern bits" "ihash i = instr_hash16 (pattern_opcode bits)"
    "parse_pattern bits w" by (auto simp: narrow_def)
  then have len: "length bits = 32" by (simp add: narrow_pattern_def)
  have eq: "bit w k \<longleftrightarrow> bit (pattern_opcode bits) k" if "k \<in> {0, 1, 13, 14, 15}" for k
    using parse_agrees [OF len b(3), of k] b(1) that by (auto simp: narrow_pattern_def)
  have lo: "bit w k \<longleftrightarrow> bit (pattern_opcode bits) k" if "k < 2" for k
    by (rule eq) (use that in auto)
  have hi: "bit w (13 + k) \<longleftrightarrow> bit (pattern_opcode bits) (13 + k)" if "k < 3" for k
    by (rule eq) (use that in auto)
  have "drop_bit 13 (ucast w :: u16) = drop_bit 13 (ucast (pattern_opcode bits))"
    by (rule bit_word_eqI) (auto simp: bit_simps hi)
  moreover have "ucast w AND (mask 2 :: u16) = ucast (pattern_opcode bits) AND mask 2"
    by (rule bit_word_eqI) (auto simp: bit_simps lo)
  ultimately show "ihash i = hash16 (ucast w)"
    using b(2) by (simp add: instr_hash16_def hash16_def mask_numeral Let_def)
  have "\<not> bit w 0 \<or> \<not> bit w 1"
    using b(1) bit_pattern_opcode [OF len, of 31] bit_pattern_opcode [OF len, of 30]
    by (auto simp: lo narrow_pattern_def)
  moreover have "bit (3 :: u32) 0" "bit (3 :: u32) 1" by simp_all
  ultimately show "w AND 3 \<noteq> 3" by (metis bit_and_iff)
qed

lemma hash32_lt: "hash32 w < 32"
proof -
  have "drop_bit 2 w AND 0x1F \<le> 0x1F" by (rule word_and_le1)
  then show ?thesis by (simp add: hash32_def word_le_nat_alt)
qed

lemma hash16_ge: "32 \<le> hash16 h"
proof -
  have "int 32 \<le> int 32 OR int n" for n by (rule or_greater_eq) simp
  then have "32 \<le> 32 OR n" for n :: nat by (metis of_nat_le_iff of_nat_or_eq)
  then show ?thesis by (simp add: hash16_def or.assoc)
qed

text \<open>The hash lookup finds what a search of the whole table finds.\<close>

lemma lookup_instr_linear:
  "lookup_instr c cache = find (\<lambda>i. iparse i (buf32_0 cache)) (isa_instructions c)"
proof -
  let ?w = "buf32_0 cache" and ?I = "isa_instructions c"
  have low: "buf16_0 cache = ucast ?w"
    by (rule bit_word_eqI) (simp add: buf16_0_def buf32_0_def bit_simps)
  have kind: "wide i \<and> ihash i = hash32 ?w \<and> ?w AND 3 = 3 \<or>
      narrow i \<and> ihash i = hash16 (ucast ?w) \<and> ?w AND 3 \<noteq> 3" if "i \<in> set ?I" "iparse i ?w" for i
    using table_cases [OF that(1)] wide_hash [OF _ that(2)] narrow_hash [OF _ that(2)] by auto
  show ?thesis
  proof (cases "?w AND 3 = 3")
    case True
    then have "find (\<lambda>i. iparse i ?w) (listInstr c (hash32 ?w)) = find (\<lambda>i. iparse i ?w) ?I"
      unfolding listInstr_filter by (intro find_filter_covers) (use kind in auto)
    moreover have "find (\<lambda>i. iparse i ?w) (listInstr c (hash16 (ucast ?w))) = None"
      if "find (\<lambda>i. iparse i ?w) ?I = None"
      using that unfolding listInstr_filter find_filter_None by (auto simp: find_None_iff)
    ultimately show ?thesis by (auto simp: lookup_instr_def Let_def low split: option.split)
  next
    case False
    then have "find (\<lambda>i. iparse i ?w) (listInstr c (hash16 (ucast ?w))) = find (\<lambda>i. iparse i ?w) ?I"
      unfolding listInstr_filter by (intro find_filter_covers) (use kind in auto)
    moreover have "find (\<lambda>i. iparse i ?w) (listInstr c (hash32 ?w)) = None"
      unfolding listInstr_filter find_filter_None by (use kind False hash32_lt [of ?w] hash16_ge [of "ucast ?w"] in force)
    ultimately show ?thesis by (simp add: lookup_instr_def Let_def low)
  qed
qed

text \<open>No instruction has the low seven bits all ones, the prefix of the encodings longer than 64 bits.\<close>

lemma lookup_reserved:
  assumes "\<forall>k < 7. bit (buf32_0 cache) k"
  shows "lookup_instr c cache = None"
proof -
  have "\<not> iparse i (buf32_0 cache)" if i: "i \<in> set (isa_instructions c)" for i
  proof
    assume p: "iparse i (buf32_0 cache)"
    have "buf32_0 cache AND 3 = 3"
    proof -
      have "buf32_0 cache AND mask 2 = mask 2" by (rule bit_word_eqI) (use assms in \<open>auto simp: bit_simps\<close>)
      then show ?thesis by (simp add: mask_numeral)
    qed
    with p have "\<not> narrow i" using narrow_hash(2) by blast
    with table_cases [OF i] wide_hash(3) [OF _ p] assms show False by blast
  qed
  then show ?thesis by (simp add: lookup_instr_linear find_None_iff)
qed

section \<open>Properties\<close>


end
