(* ===== verification/Cpu_Func.thy ===== *)
theory Cpu_Func
  imports Decoder
begin

text \<open>
  The pipeline of the functional CPU: \<^verbatim>\<open>CpuGeneric::updatePipeline\<close> and what it calls, with the overrides of
  \<^verbatim>\<open>CpuRiver_Functional\<close>: the run-control state machine, the clock queue, instruction fetch, traps and
  interrupts, hardware triggers, the debug port, power and reset.

  \<^verbatim>\<open>fetchILine\<close> calls itself after a fetch fault and may never return, so it is a partial function:
  \<open>None\<close> means that the C++ function does not return.
\<close>

section \<open>Debug mode, halt and resume\<close>

abbreviation (input) HALT_CAUSE_EBREAK :: u64 where "HALT_CAUSE_EBREAK \<equiv> 1"
abbreviation (input) HALT_CAUSE_TRIGGER :: u64 where "HALT_CAUSE_TRIGGER \<equiv> 2"
abbreviation (input) HALT_CAUSE_HALTREQ :: u64 where "HALT_CAUSE_HALTREQ \<equiv> 3"
abbreviation (input) HALT_CAUSE_STEP :: u64 where "HALT_CAUSE_STEP \<equiv> 4"

text \<open>\<open>csr_dcsr_type\<close>: \<open>step\<close> is bit 2, \<open>cause\<close> bits 8..6, \<open>ebreakm\<close> bit 15. The code narrows the
  register to 32 bits when it reads it.\<close>

definition read_dcsr :: "'b cpu_cfg \<Rightarrow> ('b, u64) cpuM" where
  "read_dcsr c = do { v \<leftarrow> readCSR c CSR_dcsr; returnM (ucast (ucast v :: u32)) }"

definition isStepEnabled :: "'b cpu_cfg \<Rightarrow> ('b, bool) cpuM" where
  "isStepEnabled c = do { dcsr \<leftarrow> read_dcsr c; returnM (bitfield 2 1 dcsr \<noteq> 0) }"

definition enterDebugMode :: "'b cpu_cfg \<Rightarrow> u64 \<Rightarrow> u64 \<Rightarrow> ('b, unit) cpuM" where
  "enterDebugMode c v cause = do {
     dcsr \<leftarrow> read_dcsr c;
     writeCSR c CSR_dcsr (set_bitfield 6 3 cause dcsr);
     writeCSR c CSR_dpc v }"

definition resume :: "('b, unit) cpuM" where
  "resume = modify (\<lambda>s. s\<lparr>estate := CORE_Normal\<rparr>)"

definition halt :: "'b cpu_cfg \<Rightarrow> u64 \<Rightarrow> ('b, unit) cpuM" where
  "halt c cause = do {
     off \<leftarrow> gets (\<lambda>s. estate s = CORE_OFF);
     if off then returnM ()
     else do {
       pc \<leftarrow> getPC;
       npc \<leftarrow> getNPC;
       (if cause = HALT_CAUSE_TRIGGER \<or> cause = HALT_CAUSE_EBREAK then enterDebugMode c pc cause
        else enterDebugMode c npc cause);
       modify (\<lambda>s. s\<lparr>estate := CORE_Halted\<rparr>) } }"

definition enterProgbufExec :: "('b, unit) cpuM" where
  "enterProgbufExec = do {
     modify (\<lambda>s. s\<lparr>estate := CORE_ProgbufExec, cur_ctx := Ctx_ProgbufExec\<rparr>);
     setNPC 0 }"

definition exitProgbufExec :: "('b, unit) cpuM" where
  "exitProgbufExec = modify (\<lambda>s. s\<lparr>estate := CORE_Halted, cur_ctx := Ctx_Normal\<rparr>)"

section \<open>Traps\<close>

definition checkStackProtection :: "'b cpu_cfg \<Rightarrow> ('b, unit) cpuM" where
  "checkStackProtection c = do {
     mstackovr \<leftarrow> readCSR c CSR_mstackovr;
     mstackund \<leftarrow> readCSR c CSR_mstackund;
     sp \<leftarrow> getR Reg_sp;
     pc \<leftarrow> getPC;
     if mstackovr \<noteq> 0 \<and> sp < mstackovr then do {
       generateException c EXCEPTION_StackOverflow pc;
       writeCSR c CSR_mstackovr 0 }
     else whenM (mstackund \<noteq> 0 \<and> mstackund < sp) (do {
       generateException c EXCEPTION_StackUnderflow pc;
       writeCSR c CSR_mstackund 0 }) }"

text \<open>
  \<^verbatim>\<open>switchContext\<close>: \<open>MPIE\<close> is taken from the bit of \<open>mstatus\<close> at the position of the old privilege level.
  The level has at most two bits, so the shift stays below the width.
\<close>

definition switchContext :: "'b cpu_cfg \<Rightarrow> u64 \<Rightarrow> ('b, unit) cpuM" where
  "switchContext c prvnxt = do {
     mstatus \<leftarrow> readCSR c CSR_mstatus;
     prv \<leftarrow> getPrvLevel;
     let mstatus = set_bitfield 11 2 prv mstatus;
     let mstatus = set_bitfield 7 1 (drop_bit (unat prv) mstatus AND 1) mstatus;
     let mstatus = set_bitfield 3 1 0 mstatus;
     setPrvLevel prvnxt;
     writeCSR c CSR_mstatus mstatus;
     npc \<leftarrow> getNPC;
     writeCSR c (unat (push_bit 8 prvnxt) + 0x41) npc }"

definition handleException :: "'b cpu_cfg \<Rightarrow> nat \<Rightarrow> ('b, unit) cpuM" where
  "handleException c e = do {
     progbuf_exec \<leftarrow> gets (\<lambda>s. estate s = CORE_ProgbufExec);
     if e = EXCEPTION_Breakpoint \<and> progbuf_exec then exitProgbufExec
     else do {
       whenM (\<not> progbuf_exec) (writeCSR c CSR_mcause (set_bitfield 0 63 (of_nat e) 0));
       dcsr \<leftarrow> read_dcsr c;
       if e = EXCEPTION_Breakpoint \<and> bitfield 15 1 dcsr = 1 then do {
         pc \<leftarrow> getPC;
         setNPC pc;
         halt c HALT_CAUSE_EBREAK }
       else do {
         switchContext c PRV_M;
         mtvec \<leftarrow> readCSR c CSR_mtvec;
         setNPC (mtvec AND NOT 3) } } }"

text \<open>The cause of the interrupt to take: software, then timer, then external. A line is polled if no
  earlier one was pending and the interrupt is enabled.\<close>

definition poll_loc :: "'b cpu_cfg \<Rightarrow> bool \<Rightarrow> nat \<Rightarrow> u64 \<Rightarrow> u64 option \<Rightarrow> ('b, u64 option) cpuM" where
  "poll_loc c enabled ctxid code cause =
    (if cause = None \<and> enabled then do {
       r \<leftarrow> getPendingLoc c ctxid;
       returnM (if r \<noteq> 0 then Some code else None) }
     else returnM cause)"

definition poll_ext :: "'b cpu_cfg \<Rightarrow> bool \<Rightarrow> nat \<Rightarrow> u64 \<Rightarrow> u64 option \<Rightarrow> ('b, u64 option) cpuM" where
  "poll_ext c enabled ctxid code cause =
    (if cause = None \<and> enabled then do {
       r \<leftarrow> getPendingExt c ctxid;
       returnM (if r \<noteq> 0 then Some code else None) }
     else returnM cause)"

definition interrupt_cause :: "'b cpu_cfg \<Rightarrow> ('b, u64 option) cpuM" where
  "interrupt_cause c = do {
     mie \<leftarrow> readCSR c CSR_mie;
     cause \<leftarrow> poll_loc c (bitfield 3 1 mie = 1) (2 * hartid c) 3 None;
     cause \<leftarrow> poll_loc c (bitfield 7 1 mie = 1) (2 * hartid c + 1) 7 cause;
     poll_ext c (bitfield 11 1 mie = 1) 0 11 cause }"

definition handleInterrupts :: "'b cpu_cfg \<Rightarrow> ('b, unit) cpuM" where
  "handleInterrupts c = do {
     mstatus \<leftarrow> readCSR c CSR_mstatus;
     if bitfield 3 1 mstatus = 0 then returnM ()
     else do {
       cause \<leftarrow> interrupt_cause c;
       case cause of
         None \<Rightarrow> returnM ()
       | Some code \<Rightarrow> do {
           writeCSR c CSR_mcause (set_bitfield 63 1 1 (set_bitfield 0 63 code 0));
           switchContext c PRV_M;
           mtvec \<leftarrow> readCSR c CSR_mtvec;
           let mtvecmode = mtvec AND 3;
           let mtvec = mtvec AND NOT 3;
           (if mtvecmode = 1 then setNPC (mtvec + 4 * code) else setNPC mtvec) } } }"

text \<open>The search loop of \<^verbatim>\<open>handleTrap\<close>; it is entered with a non-zero argument only.\<close>

function lowest_exception :: "u64 \<Rightarrow> nat \<Rightarrow> nat" where
  "lowest_exception t e =
    (if t AND 1 = 0 \<and> t \<noteq> 0 then lowest_exception (drop_bit 1 t) (e + 1) else e)"
  by pat_completeness auto
termination
proof (relation "measure (\<lambda>(t, _). unat t)")
  fix t :: u64 and e :: nat
  assume "t AND 1 = 0 \<and> t \<noteq> 0"
  then have "0 < unat t" by (simp add: unat_gt_0)
  then show "((drop_bit 1 t, e + 1), t, e) \<in> measure (\<lambda>(t, _). unat t)"
    by (simp add: drop_bit_Suc unat_div_distrib)
qed simp

declare lowest_exception.simps [simp del]

definition handleTrap :: "'b cpu_cfg \<Rightarrow> ('b, unit) cpuM" where
  "handleTrap c = do {
     checkStackProtection c;
     exc \<leftarrow> gets exceptions;
     if exc \<noteq> 0 then do {
       let e = lowest_exception exc 0;
       modify (\<lambda>s. s\<lparr>exceptions := exceptions s AND NOT (push_bit e 1)\<rparr>);
       handleException c e }
     else handleInterrupts c }"

section \<open>Hardware triggers\<close>

text \<open>
  \<open>bits_type3\<close> (icount): \<open>u\<close>, \<open>s\<close>, \<open>m\<close> at bits 6, 7, 9, \<open>count\<close> at 23..10, \<open>hit\<close> at 24;
  \<open>bits_type2\<close> (mcontrol): \<open>execute\<close>, \<open>u\<close>, \<open>s\<close>, \<open>m\<close> at bits 2, 3, 4, 6, \<open>match\<close> at 10..7, \<open>action\<close> at
  15..12, \<open>hit\<close> at 20; \<open>type\<close> is at 63..60 of both.
\<close>

definition icount_hit :: "trigger \<Rightarrow> bool" where
  "icount_hit t \<longleftrightarrow> bitfield 60 4 (data1 t) = 3 \<and> bitfield 10 14 (data1 t) = 1"

definition icount_update :: "trigger \<Rightarrow> trigger" where
  "icount_update t =
    (let d = data1 t in
     if bitfield 60 4 d = 3 then
       let count = bitfield 10 14 d;
           d = (if 1 < count \<and> (bitfield 9 1 d \<noteq> 0 \<or> bitfield 7 1 d \<noteq> 0 \<or> bitfield 6 1 d \<noteq> 0)
                then set_bitfield 10 14 (count - 1) d else d)
       in t\<lparr>data1 := set_bitfield 24 1 1 d\<rparr>
     else t)"

definition isTriggerICount :: "'b cpu_cfg \<Rightarrow> ('b, bool) cpuM" where
  "isTriggerICount c = do {
     ret \<leftarrow> gets (\<lambda>s. list_ex (\<lambda>i. icount_hit (ptriggers s i)) [0..<triggersTotal c]);
     modify (\<lambda>s. s\<lparr>ptriggers := (\<lambda>i. if i < triggersTotal c then icount_update (ptriggers s i)
                                          else ptriggers s i)\<rparr>);
     returnM ret }"

text \<open>\<open>napot_mask data2 msk n\<close>: the mask loop of \<open>match = 1\<close> with \<open>n\<close> iterations left.\<close>

fun napot_mask :: "u64 \<Rightarrow> u64 \<Rightarrow> nat \<Rightarrow> u64" where
  "napot_mask d2 msk 0 = msk"
| "napot_mask d2 msk (Suc n) = (if d2 AND msk = 0 then napot_mask d2 (push_bit 1 msk) n else msk)"

definition mcontrol_match :: "'b cpu_cfg \<Rightarrow> u64 \<Rightarrow> trigger \<Rightarrow> bool" where
  "mcontrol_match c pc t =
    (let m = bitfield 7 4 (data1 t); d2 = data2 t in
     if m = 0 then pc = d2
     else if m = 1 then let msk = NOT (napot_mask d2 1 (mcontrolMaskmax c) - 1) in pc AND msk = d2 AND msk
     else if m = 2 then d2 \<le> pc
     else if m = 3 then pc < d2
     else if m = 4 then (pc AND 0xFFFFFFFF) AND drop_bit 32 d2 = d2 AND 0xFFFFFFFF
     else if m = 5 then drop_bit 32 pc AND drop_bit 32 d2 = d2 AND 0xFFFFFFFF
     else False)"

definition mcontrol_enabled :: "trigger \<Rightarrow> bool" where
  "mcontrol_enabled t \<longleftrightarrow>
     (let d = data1 t in
      bitfield 60 4 d = 2 \<and> (bitfield 6 1 d OR bitfield 4 1 d OR bitfield 3 1 d) \<noteq> 0 \<and>
      bitfield 2 1 d \<noteq> 0)"

definition mcontrol_update :: "'b cpu_cfg \<Rightarrow> u64 \<Rightarrow> trigger \<Rightarrow> trigger" where
  "mcontrol_update c pc t =
    (if mcontrol_enabled t \<and> mcontrol_match c pc t
     then t\<lparr>data1 := set_bitfield 20 1 1 (data1 t)\<rparr> else t)"

definition mcontrol_fires :: "trigger \<Rightarrow> bool" where
  "mcontrol_fires t \<longleftrightarrow> mcontrol_enabled t \<and> bitfield 20 1 (data1 t) = 1"

text \<open>
  The loop over the triggers, then the action of the last trigger that fired. \<^verbatim>\<open>raiseSoftwareIrq\<close> is
  empty in this CPU. A trigger whose hit bit is already set fires again without a match.
\<close>

definition isTriggerInstruction :: "'b cpu_cfg \<Rightarrow> ('b, bool) cpuM" where
  "isTriggerInstruction c = do {
     pc \<leftarrow> getPC;
     modify (\<lambda>s. s\<lparr>ptriggers := (\<lambda>i. if i < triggersTotal c then mcontrol_update c pc (ptriggers s i)
                                          else ptriggers s i)\<rparr>);
     fired \<leftarrow> gets (\<lambda>s. filter (\<lambda>i. mcontrol_fires (ptriggers s i)) [0..<triggersTotal c]);
     if fired = [] then returnM False
     else do {
       action \<leftarrow> gets (\<lambda>s. bitfield 12 4 (data1 (ptriggers s (last fired))));
       whenM (action = 1) (halt c HALT_CAUSE_TRIGGER);
       returnM True } }"

section \<open>The clock queue\<close>

text \<open>
  \<^verbatim>\<open>updateQueue\<close>: the callbacks run on the device state; what they register or move acts on the queue that is
  being drained. Each iteration removes one entry and no request adds one, so the loop ends.
\<close>

function callback_loop :: "'b cpu_cfg \<Rightarrow> 'b cpu \<Rightarrow> 'b cpu" where
  "callback_loop c s =
    (case q_getNext (step_cnt s) (queue s) of
       (None, q) \<Rightarrow> s\<lparr>queue := q\<rparr>
     | (Some cb, q) \<Rightarrow>
         (case stepCallback c cb (step_cnt s) (devs s) of
            (b, rqs) \<Rightarrow> callback_loop c (s\<lparr>queue := clk_requests rqs q, devs := b\<rparr>)))"
  by pat_completeness auto
termination
  by (relation "measure (\<lambda>(_, s). length (q_items (queue s)))") (auto dest: q_getNext_shrinks [OF sym])

declare callback_loop.simps [simp del]

definition updateQueue :: "'b cpu_cfg \<Rightarrow> ('b, unit) cpuM" where
  "updateQueue c = do {
     modify (\<lambda>s. s\<lparr>queue := q_pushPreQueued (q_initProc (queue s))\<rparr>);
     modify (callback_loop c) }"

section \<open>Run control\<close>

definition updateState :: "'b cpu_cfg \<Rightarrow> ('b, bool) cpuM" where
  "updateState c = do {
     st \<leftarrow> gets estate;
     upd \<leftarrow>
       (case st of
          CORE_Normal \<Rightarrow> do {
            hr \<leftarrow> gets haltreq;
            if hr then do {
              modify (\<lambda>s. s\<lparr>haltreq := False\<rparr>);
              halt c HALT_CAUSE_HALTREQ;
              returnM False }
            else do {
              icount \<leftarrow> isTriggerICount c;
              if icount then do { halt c HALT_CAUSE_TRIGGER; returnM False }
              else do {
                step \<leftarrow> isStepEnabled c;
                if step then do { halt c HALT_CAUSE_STEP; returnM False } else returnM True } } }
        | CORE_ProgbufExec \<Rightarrow> returnM True
        | _ \<Rightarrow> do {
            pb \<leftarrow> gets procbufexecreq;
            rr \<leftarrow> gets resumereq;
            if pb then do {
              enterProgbufExec;
              modify (\<lambda>s. s\<lparr>procbufexecreq := False\<rparr>);
              returnM False }
            else if rr then do {
              modify (\<lambda>s. s\<lparr>resumereq := False, resumeack := True\<rparr>);
              resume;
              returnM True }
            else do { updateQueue c; returnM False } });
     modify (\<lambda>s. if upd \<and> estate s \<noteq> CORE_ProgbufExec then s\<lparr>step_cnt := step_cnt s + 1\<rparr> else s);
     returnM upd }"

section \<open>Fetch and the pipeline step\<close>

text \<open>
  The program buffer belongs to the debug module, which has 32 words of it. The result of
  \<open>fetch_attempt\<close> tells whether the line was fetched; if not, the trap has been entered and
  the fetch is repeated from its vector.
\<close>

definition fetch_attempt :: "'b cpu_cfg \<Rightarrow> ('b, bool) cpuM" where
  "fetch_attempt c = do {
     fetch_addr \<leftarrow> getPC;
     st \<leftarrow> gets estate;
     if st = CORE_ProgbufExec then do {
       (if unat fetch_addr + 4 \<le> 128
        then modify (\<lambda>s. s\<lparr>cacheline := load_bytes (progbuf s) (unat fetch_addr) 4 (cacheline s)\<rparr>)
        else undefined_behaviour);
       returnM True }
     else do {
       tr \<leftarrow> gets trans_fetch;
       (ret, tr) \<leftarrow> dma_memop c (tr\<lparr>action := MemAction_Read, addr := fetch_addr, xsize := 4, wstrb := 0\<rparr>) True;
       modify (\<lambda>s. s\<lparr>trans_fetch := tr\<rparr>);
       if ret = TRANS_ERROR then do {
         generateException c EXCEPTION_InstrFault (addr tr);
         handleTrap c;
         npc \<leftarrow> getNPC;
         setPC npc;
         returnM False }
       else do {
         modify (\<lambda>s. s\<lparr>cacheline := rpayload tr\<rparr>);
         returnM True } } }"

partial_function (option) fetchILine :: "'b cpu_cfg \<Rightarrow> 'b cpu \<Rightarrow> 'b cpu option" where
  "fetchILine c s =
    (case run_state (fetch_attempt c) s of (ok, s') \<Rightarrow> if ok then Some s' else fetchILine c s')"

declare fetchILine.simps [code]

definition generateIllegalOpcode :: "'b cpu_cfg \<Rightarrow> ('b, unit) cpuM" where
  "generateIllegalOpcode c = do { pc \<leftarrow> getPC; generateException c EXCEPTION_InstrIllegal pc }"

text \<open>The part of \<^verbatim>\<open>updatePipeline\<close> between the fetch and the program counter update;
  \<^verbatim>\<open>trackContextEnd\<close> clears \<open>do_not_cache\<close>.\<close>

definition execute :: "'b cpu_cfg \<Rightarrow> ('b, unit) cpuM" where
  "execute c = do {
     instr \<leftarrow> decodeInstruction c;
     line \<leftarrow> gets cacheline;
     (case instr of
        Some i \<Rightarrow> do { n \<leftarrow> iexec i line; modify (\<lambda>s. s\<lparr>oplen := n\<rparr>) }
      | None \<Rightarrow> generateIllegalOpcode c);
     modify (\<lambda>s. s\<lparr>do_not_cache := False, pc_z := ctx_pc s (cur_ctx s)\<rparr>) }"

definition finish_step :: "'b cpu_cfg \<Rightarrow> ('b, unit) cpuM" where
  "finish_step c = do {
     br \<leftarrow> gets branch;
     pc \<leftarrow> getPC;
     n \<leftarrow> gets oplen;
     whenM (\<not> br) (setNPC (pc + of_nat n));
     updateQueue c;
     handleTrap c }"

definition start_step :: "'b cpu_cfg \<Rightarrow> ('b, bool) cpuM" where
  "start_step c = do {
     npc \<leftarrow> getNPC;
     setPC npc;
     modify (\<lambda>s. s\<lparr>branch := False, oplen := 0\<rparr>);
     isTriggerInstruction c }"

definition updatePipeline :: "'b cpu_cfg \<Rightarrow> 'b cpu \<Rightarrow> 'b cpu option" where
  "updatePipeline c s =
    (case run_state (updateState c) s of (upd, s) \<Rightarrow>
       if \<not> upd then Some s
       else case run_state (start_step c) s of (trig, s) \<Rightarrow>
         (if trig then Some (snd (run_state (finish_step c) s))
          else case fetchILine c s of
                 None \<Rightarrow> None
               | Some s \<Rightarrow> Some (snd (run_state (do { execute c; finish_step c }) s))))"

section \<open>Debug port, power and reset\<close>

definition resumereq_op :: "('b, nat) cpuM" where
  "resumereq_op = do {
     halted \<leftarrow> gets isHalted;
     if \<not> halted then returnM 1
     else do { modify (\<lambda>s. s\<lparr>resumereq := True, resumeack := False\<rparr>); returnM 0 } }"

definition haltreq_op :: "('b, nat) cpuM" where
  "haltreq_op = do {
     halted \<leftarrow> gets isHalted;
     if halted then returnM 1
     else do { modify (\<lambda>s. s\<lparr>haltreq := True\<rparr>); returnM 0 } }"

text \<open>\<^verbatim>\<open>executeProgbuf\<close> up to the point where the calling thread waits for the end of the execution.\<close>

definition executeProgbuf :: "(nat \<Rightarrow> u8) \<Rightarrow> ('b, bool) cpuM" where
  "executeProgbuf pb = do {
     halted \<leftarrow> gets isHalted;
     if \<not> halted then returnM True
     else do { modify (\<lambda>s. s\<lparr>progbuf := pb, procbufexecreq := True\<rparr>); returnM False } }"

definition setHaltOnReset :: "('b, unit) cpuM" where
  "setHaltOnReset = modify (\<lambda>s. s\<lparr>resetHalted := True\<rparr>)"

definition clrHaltOnReset :: "('b, unit) cpuM" where
  "clrHaltOnReset = modify (\<lambda>s. s\<lparr>resetHalted := False\<rparr>)"

text \<open>The results \<open>0\<close> and \<open>-1\<close> of the debug port are \<open>Some\<close> and \<open>None\<close>.\<close>

definition dportReadReg :: "'b cpu_cfg \<Rightarrow> u32 \<Rightarrow> ('b, u64 option) cpuM" where
  "dportReadReg c regno = do {
     let region = drop_bit 12 regno;
     if region = 0 then do { v \<leftarrow> readCSR c (unat regno); returnM (Some v) }
     else if region = 1 then do { v \<leftarrow> readGPR (unat (regno AND 0x3F)); returnM (Some v) }
     else if region = 0xC then returnM (Some 0)
     else returnM None }"

definition dportWriteReg :: "'b cpu_cfg \<Rightarrow> u32 \<Rightarrow> u64 \<Rightarrow> ('b, unit option) cpuM" where
  "dportWriteReg c regno val = do {
     let region = drop_bit 12 regno;
     if region = 0 then do { writeCSR c (unat regno) val; returnM (Some ()) }
     else if region = 1 then do { writeGPR (unat (regno AND 0x3F)) val; returnM (Some ()) }
     else if region = 0xC then returnM (Some ())
     else returnM None }"

text \<open>A size above 8 would overrun the caller's 64-bit payload.\<close>

definition dportReadMem :: "'b cpu_cfg \<Rightarrow> u64 \<Rightarrow> nat \<Rightarrow> u64 \<Rightarrow> ('b, u64 option) cpuM" where
  "dportReadMem c a sz payload = do {
     (ret, tr) \<leftarrow> dma_memop c (load_trans c a sz (uninit c)) False;
     if ret \<noteq> TRANS_OK then returnM None
     else do {
       whenM (8 < sz) undefined_behaviour;
       returnM (Some (set_bitfield 0 (8 * sz) (rpayload tr) payload)) } }"

definition dportWriteMem :: "'b cpu_cfg \<Rightarrow> u64 \<Rightarrow> nat \<Rightarrow> u64 \<Rightarrow> ('b, unit option) cpuM" where
  "dportWriteMem c a sz payload = do {
     (ret, tr) \<leftarrow> dma_memop c (store_trans c a sz payload) False;
     returnM (if ret \<noteq> TRANS_OK then None else Some ()) }"

datatype EPowerAction = POWER_OFF | POWER_ON

definition power_op :: "EPowerAction \<Rightarrow> ('b, unit) cpuM" where
  "power_op onoff =
     modify (\<lambda>s. if onoff = POWER_OFF \<and> estate s \<noteq> CORE_OFF
                    then s\<lparr>estate := (if resetHalted s then CORE_Halted else CORE_OFF)\<rparr>
                  else if onoff = POWER_ON \<and> estate s = CORE_OFF then s\<lparr>estate := CORE_Normal\<rparr>
                  else s)"

definition reset_generic :: "'b cpu_cfg \<Rightarrow> ('b, unit) cpuM" where
  "reset_generic c = do {
     modify (\<lambda>s. s\<lparr>regs := (\<lambda>_. 0)\<rparr>);
     setPC (resetVector c);
     setNPC (resetVector c);
     modify (\<lambda>s. s\<lparr>ptriggers := (\<lambda>i. if i < triggersTotal c then \<lparr>data1 = 0, data2 = 0, extra = 0\<rparr>
                                          else ptriggers s i),
                    stackTraceCnt := 0, do_not_cache := False,
                    estate := (if resetHalted s then CORE_Halted else CORE_Normal)\<rparr>) }"

definition reset_op :: "'b cpu_cfg \<Rightarrow> ('b, unit) cpuM" where
  "reset_op c = do {
     reset_generic c;
     modify (\<lambda>s. s\<lparr>regs := (\<lambda>_. 0)\<rparr>);
     writeCSR c CSR_mvendorid (vendorid c);
     writeCSR c CSR_mimplementationid (implementationid c);
     writeCSR c CSR_mhartid (of_nat (hartid c));
     writeCSR c CSR_mtvec 0;
     writeCSR c CSR_dpc (resetVector c);
     modify (\<lambda>s. s\<lparr>cur_prv_level := PRV_M, mmuReservedAddrWatchdog := 0\<rparr>) }"

section \<open>Power-on and runs\<close>

text \<open>
  \<open>constructed\<close> is the object after its constructors, for a given \<^verbatim>\<open>ResetState\<close> attribute, and
  \<open>postinitService\<close> what the method of that name does to the state: the \<open>misa\<close> bits of the
  instruction sets, the power-on reset and the reset address.
\<close>

definition constructed :: "'b cpu_cfg \<Rightarrow> bool \<Rightarrow> 'b \<Rightarrow> 'b cpu" where
  "constructed c halted b =
    \<lparr>regs = (\<lambda>_. 0), csr = (\<lambda>_. 0), ctx_pc = (\<lambda>_. 0), ctx_npc = (\<lambda>_. 0), cur_ctx = Ctx_Normal,
     estate = CORE_OFF, step_cnt = 0, pc_z = 0, branch = False, oplen = 0, exceptions = 0,
     do_not_cache = False, haltreq = False, resumereq = False, resumeack = False, procbufexecreq = False,
     progbuf = (\<lambda>_. 0), trans_fetch = load_trans c (uninit c) 0 (uninit c), cacheline = uninit c,
     cur_prv_level = 0, stackTraceCnt = 0, stackTraceBuf = (\<lambda>_. 0),
     ptriggers = (\<lambda>_. \<lparr>data1 = 0, data2 = 0, extra = 0\<rparr>), mmuReservatedAddr = 0,
     mmuReservedAddrWatchdog = 0,
     pmpTable = \<lparr>pmp_ena = 0, pmp_startadr = (\<lambda>_. 0), pmp_endadr = (\<lambda>_. 0), pmp_R = 0, pmp_W = 0,
                 pmp_X = 0, pmp_L = 0\<rparr>,
     resetHalted = halted, queue = q_hardReset, devs = b, ub = False\<rparr>"

definition misa_extension :: "char \<Rightarrow> u64" where
  "misa_extension ch =
    (if ch = CHR ''A'' then 2 ^ 0 else if ch = CHR ''C'' then 2 ^ 2 else if ch = CHR ''M'' then 2 ^ 12 else 0)"

definition misa_value :: "'b cpu_cfg \<Rightarrow> u64" where
  "misa_value c =
     fold (\<lambda>ch w. w OR misa_extension ch) (listExtISA c)
       (0x8000000000000000 OR 2 ^ 8 OR 2 ^ 20 OR 2 ^ 18)"

definition postinitService :: "'b cpu_cfg \<Rightarrow> ('b, unit) cpuM" where
  "postinitService c = do {
     modify (\<lambda>s. s\<lparr>csr := (csr s)(CSR_misa := misa_value c)\<rparr>);
     reset_op c;
     setPC (resetVector c);
     setNPC (resetVector c) }"

definition power_on :: "'b cpu_cfg \<Rightarrow> bool \<Rightarrow> 'b \<Rightarrow> 'b cpu" where
  "power_on c halted b = snd (run_state (postinitService c) (constructed c halted b))"

text \<open>
  What may happen to the CPU: an iteration of \<^verbatim>\<open>busyLoop\<close>, or a call from the debug module, the power
  switch or the reset controller. \<open>cpu_run\<close> is a sequence of such events.
\<close>

datatype event =
    Ev_Pipeline | Ev_Haltreq | Ev_Resumereq | Ev_Progbuf "nat \<Rightarrow> u8"
  | Ev_ReadReg u32 | Ev_WriteReg u32 u64 | Ev_ReadMem u64 nat | Ev_WriteMem u64 nat u64
  | Ev_Power EPowerAction | Ev_Reset | Ev_HaltOnReset bool

inductive cpu_step :: "'b cpu_cfg \<Rightarrow> event \<Rightarrow> 'b cpu \<Rightarrow> 'b cpu \<Rightarrow> bool" for c where
  step_pipeline: "updatePipeline c s = Some s' \<Longrightarrow> cpu_step c Ev_Pipeline s s'"
| step_haltreq: "run_state haltreq_op s = (r, s') \<Longrightarrow> cpu_step c Ev_Haltreq s s'"
| step_resumereq: "run_state resumereq_op s = (r, s') \<Longrightarrow> cpu_step c Ev_Resumereq s s'"
| step_progbuf: "run_state (executeProgbuf pb) s = (r, s') \<Longrightarrow> cpu_step c (Ev_Progbuf pb) s s'"
| step_read_reg: "run_state (dportReadReg c regno) s = (r, s') \<Longrightarrow> cpu_step c (Ev_ReadReg regno) s s'"
| step_write_reg: "run_state (dportWriteReg c regno v) s = (r, s') \<Longrightarrow> cpu_step c (Ev_WriteReg regno v) s s'"
| step_read_mem: "run_state (dportReadMem c a sz p) s = (r, s') \<Longrightarrow> cpu_step c (Ev_ReadMem a sz) s s'"
| step_write_mem: "run_state (dportWriteMem c a sz v) s = (r, s') \<Longrightarrow> cpu_step c (Ev_WriteMem a sz v) s s'"
| step_power: "run_state (power_op p) s = (r, s') \<Longrightarrow> cpu_step c (Ev_Power p) s s'"
| step_reset: "run_state (reset_op c) s = (r, s') \<Longrightarrow> cpu_step c Ev_Reset s s'"
| step_halt_on_reset:
    "run_state (if b then setHaltOnReset else clrHaltOnReset) s = (r, s') \<Longrightarrow> cpu_step c (Ev_HaltOnReset b) s s'"

inductive cpu_run :: "'b cpu_cfg \<Rightarrow> event list \<Rightarrow> 'b cpu \<Rightarrow> 'b cpu \<Rightarrow> bool" for c where
  run_nil: "cpu_run c [] s s"
| run_cons: "cpu_step c e s s' \<Longrightarrow> cpu_run c es s' s'' \<Longrightarrow> cpu_run c (e # es) s s''"

inductive_cases cpu_stepE: "cpu_step c e s s'"
inductive_cases cpu_run_ConsE: "cpu_run c (e # es) s s''"

inductive_simps cpu_step_simps:
  "cpu_step c Ev_Pipeline s s'" "cpu_step c Ev_Haltreq s s'" "cpu_step c Ev_Resumereq s s'"
  "cpu_step c (Ev_Progbuf pb) s s'" "cpu_step c (Ev_WriteReg regno v) s s'" "cpu_step c Ev_Reset s s'"
  "cpu_step c (Ev_Power p) s s'"

inductive_simps cpu_run_simps: "cpu_run c [] s s'" "cpu_run c (e # es) s s'"

section \<open>Properties of the clock queue\<close>

lemma callback_loop_delivers:
  assumes reg: "\<And>cb t b. list_all is_register (snd (stepCallback c cb t b))"
  shows "q_scanned (step_cnt s) (queue s) \<Longrightarrow>
    \<exists>cbs. mset cbs = image_mset snd (filter_mset (due (step_cnt s)) (mset (q_items (queue s)))) \<and>
      devs (callback_loop c s) = fold (\<lambda>cb b. fst (stepCallback c cb (step_cnt s) b)) cbs (devs s) \<and>
      mset (q_items (queue (callback_loop c s))) =
        filter_mset (\<lambda>x. \<not> due (step_cnt s) x) (mset (q_items (queue s)))"
  using reg
proof (induction c s rule: callback_loop.induct)
  case (1 c s)
  obtain r q where g: "q_getNext (step_cnt s) (queue s) = (r, q)" by fastforce
  show ?case
  proof (cases r)
    case None
    with g "1.prems" q_getNext_None [of "step_cnt s" "queue s" q] have
      *: "q_items q = q_items (queue s)" "\<And>x. x \<in># mset (q_items (queue s)) \<Longrightarrow> \<not> due (step_cnt s) x"
      by auto
    from filter_mset_id [OF *(2), of "mset (q_items (queue s))"] * g None show ?thesis
      by (intro exI [of _ "[]"]) (simp add: callback_loop.simps [of c s])
  next
    case (Some cb)
    obtain b rqs where r: "stepCallback c cb (step_cnt s) (devs s) = (b, rqs)" by fastforce
    let ?s = "s\<lparr>queue := clk_requests rqs q, devs := b\<rparr>"
    have reg: "list_all is_register rqs" using "1.prems"(2) [of cb "step_cnt s" "devs s"] r by simp
    from g Some "1.prems"(1) q_getNext_Some [of "step_cnt s" "queue s" cb q] obtain t where
      *: "q_scanned (step_cnt s) q" "t \<le> step_cnt s"
         "mset (q_items (queue s)) = add_mset (t, cb) (mset (q_items q))" by auto
    have "q_scanned (step_cnt ?s) (queue ?s)"
      using *(1) clk_requests_register [OF reg, of q] by (simp add: q_scanned_def)
    from "1.IH" [OF g [symmetric] Some r [symmetric] this "1.prems"(2)] obtain cbs where
      "mset cbs = image_mset snd (filter_mset (due (step_cnt s)) (mset (q_items q)))"
      "devs (callback_loop c ?s) = fold (\<lambda>cb b. fst (stepCallback c cb (step_cnt s) b)) cbs b"
      "mset (q_items (queue (callback_loop c ?s))) = filter_mset (\<lambda>x. \<not> due (step_cnt s) x) (mset (q_items q))"
      using clk_requests_register [OF reg, of q] by auto
    then show ?thesis
      using * g Some r by (intro exI [of _ "cb # cbs"]) (simp add: callback_loop.simps [of c s])
  qed
qed

text \<open>One iteration of \<^verbatim>\<open>updateQueue\<close> runs the callback of every due registration exactly once, on the device
  state left by the previous one, and leaves the registrations that are not due; callbacks may register
  again.\<close>

lemma updateQueue_delivers:
  assumes "\<And>cb t b. list_all is_register (snd (stepCallback c cb t b))"
  shows "\<exists>cbs. mset cbs = image_mset snd (filter_mset (due (step_cnt s)) (mset (q_items (queue s) @ q_pre (queue s)))) \<and>
      devs (snd (run_state (updateQueue c) s)) =
        fold (\<lambda>cb b. fst (stepCallback c cb (step_cnt s) b)) cbs (devs s) \<and>
      mset (q_items (queue (snd (run_state (updateQueue c) s)))) =
        filter_mset (\<lambda>x. \<not> due (step_cnt s) x) (mset (q_items (queue s) @ q_pre (queue s)))"
proof -
  let ?s = "s\<lparr>queue := q_pushPreQueued (q_initProc (queue s))\<rparr>"
  have "q_scanned (step_cnt ?s) (queue ?s)" and
    "q_items (queue ?s) = q_items (queue s) @ q_pre (queue s)"
    by (simp_all add: q_pushPreQueued_def q_initProc_def q_scanned_def)
  with callback_loop_delivers [of c ?s, OF assms] show ?thesis by (simp add: updateQueue_def)
qed


lemma updateQueue_delivers_witness:
  "\<exists>cbs. mset cbs = image_mset snd (filter_mset (due 5) (mset ([(3, 7), (9, 8)] @ [(5, 7 :: nat)]))) \<and>
      devs (snd (run_state (updateQueue
         (sample_cfg\<lparr>stepCallback := \<lambda>cb t b. (b @ [cb], [RegisterStep cb (t + 10)])\<rparr>))
         ((sample_cpu [])\<lparr>step_cnt := 5, queue := \<lparr>q_items = [(3, 7), (9, 8)], q_cnt = 0, q_pre = [(5, 7)]\<rparr>\<rparr>))) =
        fold (\<lambda>cb b. b @ [cb]) cbs [] \<and>
      mset (q_items (queue (snd (run_state (updateQueue
         (sample_cfg\<lparr>stepCallback := \<lambda>cb t b. (b @ [cb], [RegisterStep cb (t + 10)])\<rparr>))
         ((sample_cpu [])\<lparr>step_cnt := 5, queue := \<lparr>q_items = [(3, 7), (9, 8)], q_cnt = 0, q_pre = [(5, 7)]\<rparr>\<rparr>))))) =
        filter_mset (\<lambda>x. \<not> due 5 x) (mset ([(3, 7), (9, 8)] @ [(5, 7)]))"
  using updateQueue_delivers [of "sample_cfg\<lparr>stepCallback := \<lambda>cb t b. (b @ [cb], [RegisterStep cb (t + 10)])\<rparr>"
      "(sample_cpu [])\<lparr>step_cnt := 5, queue := \<lparr>q_items = [(3, 7), (9, 8)], q_cnt = 0, q_pre = [(5, 7)]\<rparr>\<rparr>"]
  by (simp add: sample_cpu_def)

end
