(* ===== verification/Cpu_Inv.thy ===== *)
theory Cpu_Inv
  imports Cpu_Func
begin

text \<open>
  The invariant of the functional CPU and the proof that every operation keeps it: register 0 reads as 0, the
  LR/SC watchdog does not exceed 64, the stack-trace counter stays within its buffer and the
  privilege level has two bits. The rules for \<open>keeps\<close> take each operation apart; a property of the
  runs follows by rule induction.
\<close>

section \<open>The invariant and the primitive operations\<close>

definition cpu_wf :: "'b cpu_cfg \<Rightarrow> 'b cpu \<Rightarrow> bool" where
  "cpu_wf c s \<longleftrightarrow>
     regs s 0 = 0 \<and> mmuReservedAddrWatchdog s \<le> 64 \<and>
     unat (stackTraceCnt s) \<le> stackTraceSize c \<and> cur_prv_level s \<le> 3"

lemma cpu_wf_frame:
  "regs s' = regs s \<Longrightarrow> mmuReservedAddrWatchdog s' = mmuReservedAddrWatchdog s \<Longrightarrow>
   stackTraceCnt s' = stackTraceCnt s \<Longrightarrow> cur_prv_level s' = cur_prv_level s \<Longrightarrow> cpu_wf c s' = cpu_wf c s"
  by (simp add: cpu_wf_def)

lemma keeps_modify_frame [keeps_intros]:
  "(\<And>s. regs (f s) = regs s \<and> mmuReservedAddrWatchdog (f s) = mmuReservedAddrWatchdog s \<and>
        stackTraceCnt (f s) = stackTraceCnt s \<and> cur_prv_level (f s) = cur_prv_level s) \<Longrightarrow>
   keeps (cpu_wf c) (modify f)"
  by (rule keeps_modify) (metis cpu_wf_frame)

lemma wf_primitives [keeps_intros]:
  "keeps (cpu_wf c) undefined_behaviour" "keeps (cpu_wf c) getPC" "keeps (cpu_wf c) getNPC"
  "keeps (cpu_wf c) (setPC v)" "keeps (cpu_wf c) (setNPC v)" "keeps (cpu_wf c) (getR i)"
  "keeps (cpu_wf c) (setReg i v)" "keeps (cpu_wf c) (readGPR i)" "keeps (cpu_wf c) (setBranch v)"
  "keeps (cpu_wf c) getPrvLevel" "keeps (cpu_wf c) doNotCache" "keeps (cpu_wf c) (mmuAddrReserve a)"
  by (auto intro!: keepsI simp: cpu_wf_def)

lemma wf_setPrvLevel: "l \<le> 3 \<Longrightarrow> keeps (cpu_wf c) (setPrvLevel l)"
  by (auto intro!: keepsI simp: cpu_wf_def)

lemma wf_popStackTrace [keeps_intros]: "keeps (cpu_wf c) popStackTrace"
proof (rule keepsI)
  fix s :: "'a cpu"
  assume "cpu_wf c s"
  then show "cpu_wf c (snd (run_state popStackTrace s))"
    by (auto simp: cpu_wf_def unat_minus_one)
qed

lemma wf_pushStackTrace [keeps_intros]: "keeps (cpu_wf c) (pushStackTrace c)"
proof (rule keepsI)
  fix s :: "'a cpu"
  assume "cpu_wf c s"
  moreover have "unat (stackTraceCnt s + 1) \<le> unat (stackTraceCnt s) + 1"
    by (simp add: unat_word_ariths)
  ultimately show "cpu_wf c (snd (run_state (pushStackTrace c) s))"
    by (auto simp: cpu_wf_def pushStackTrace_def)
qed

lemma wf_pmp [keeps_intros]:
  "keeps (cpu_wf c) (disablePmp i)" "keeps (cpu_wf c) (enablePmp i a b rwx l)"
  unfolding disablePmp_def enablePmp_def by (intro keeps_intros; simp)+

lemma wf_pmpcfg_loop [keeps_intros]: "keeps (cpu_wf c) (pmpcfg_loop val i n)"
  by (induction n) (simp_all add: keeps_return, unfold pmpcfg_entry_def, (intro keeps_intros; simp?)+)

lemma wf_csr [keeps_intros]:
  "keeps (cpu_wf c) (readCSR c r)" "keeps (cpu_wf c) (writeCSR c r v)"
  unfolding readCSR_def writeCSR_def getPendingLoc_def getPendingExt_def trigger_read_def trigger_write_def
  by (intro keeps_intros; simp?)+

lemma wf_generateException [keeps_intros]: "keeps (cpu_wf c) (generateException c e a)"
  unfolding generateException_def by (intro keeps_intros; simp)+

lemma wf_release [keeps_intros]: "keeps (cpu_wf c) (mmuAddrRelease a)"
  by (auto intro!: keepsI simp: cpu_wf_def mmuAddrRelease_def)

lemma wf_b_transport [keeps_intros]: "keeps (cpu_wf c) (b_transport c tr)"
  unfolding b_transport_def by (intro keeps_intros; simp)

lemma wf_dma_split [keeps_intros]: "keeps (cpu_wf c) (dma_split c m tr n)"
  by (induction n) (simp_all add: keeps_return, (intro keeps_intros; simp?)+)

lemma wf_dma_memop [keeps_intros]: "keeps (cpu_wf c) (dma_memop c tr x)"
  unfolding dma_memop_def by (intro keeps_intros; simp?)+

lemma wf_load_op [keeps_intros]: "keeps (cpu_wf c) (load_op c a n i)" "keeps (cpu_wf c) (store_op c a n v)"
  "keeps (cpu_wf c) (amo_exec c n f p)"
  unfolding load_op_def store_op_def amo_exec_def by (intro keeps_intros; simp?)+

section \<open>The instructions\<close>

lemma wf_user_exec:
  "i \<in> set (isaUserRV64I c) \<Longrightarrow> keeps (cpu_wf c) (iexec i p)"
  unfolding isaUserRV64I_def
  by (auto simp: mk_instr_def rv64i_defs intro!: keeps_intros)

lemma wf_ext_m_exec:
  "i \<in> set (isaExtensionM c) \<Longrightarrow> keeps (cpu_wf c) (iexec i p)"
  unfolding isaExtensionM_def
  by (auto simp: mk_instr_def ext_m_defs intro!: keeps_intros)

lemma wf_ext_a_exec:
  "i \<in> set (isaExtensionA c) \<Longrightarrow> keeps (cpu_wf c) (iexec i p)"
  unfolding isaExtensionA_def
  by (auto simp: mk_instr_def ext_a_defs intro!: keeps_intros)

lemma wf_ext_c_exec:
  "i \<in> set (isaExtensionC c) \<Longrightarrow> keeps (cpu_wf c) (iexec i p)"
  unfolding isaExtensionC_def
  by (auto simp: mk_instr16_def ext_c_defs intro!: keeps_intros)

lemma bitfield_le_3: "n \<le> 2 \<Longrightarrow> bitfield lo n w \<le> (3 :: u64)"
  using bitfield_lt [of n lo w] power_increasing [of n 2 "2 :: nat"]
  by (auto simp: word_le_nat_alt)

lemma wf_priv_exec:
  "i \<in> set (isaPrivilegedRV64I c) \<Longrightarrow> keeps (cpu_wf c) (iexec i p)"
  unfolding isaPrivilegedRV64I_def
  by (auto simp: mk_instr_def priv_defs intro!: keeps_intros wf_setPrvLevel bitfield_le_3)

lemma wf_iexec [keeps_intros]: "i \<in> set (isa_instructions c) \<Longrightarrow> keeps (cpu_wf c) (iexec i p)"
  using wf_user_exec wf_priv_exec wf_ext_m_exec wf_ext_a_exec wf_ext_c_exec
  by (auto simp: isa_instructions_def isa_extension_def split: if_splits)

section \<open>The pipeline\<close>

lemma keepsE: "run_state m s = (a, s') \<Longrightarrow> keeps P m \<Longrightarrow> P s \<Longrightarrow> P s'"
  using keepsD [of P m s] by simp

lemma wf_callback_loop: "cpu_wf c s \<Longrightarrow> cpu_wf c (callback_loop c s)"
proof (induction c s rule: callback_loop.induct)
  case (1 c s)
  obtain cb q where q: "q_getNext (step_cnt s) (queue s) = (cb, q)" by fastforce
  show ?case
  proof (cases cb)
    case None
    with q 1(2) show ?thesis by (simp add: callback_loop.simps [of c s] cpu_wf_def)
  next
    case (Some n)
    obtain b rqs where r: "stepCallback c n (step_cnt s) (devs s) = (b, rqs)" by fastforce
    from 1(2) have "cpu_wf c (s\<lparr>queue := clk_requests rqs q, devs := b\<rparr>)" by (simp add: cpu_wf_def)
    then have "cpu_wf c (callback_loop c (s\<lparr>queue := clk_requests rqs q, devs := b\<rparr>))"
      using 1(1) [OF q [symmetric] Some r [symmetric]] by simp
    with q Some r show ?thesis by (simp add: callback_loop.simps [of c s])
  qed
qed

lemma wf_updateQueue [keeps_intros]: "keeps (cpu_wf c) (updateQueue c)"
  unfolding updateQueue_def
  by (rule keeps_bind, rule keeps_modify_frame, simp, rule keeps_modify, rule wf_callback_loop)

lemma wf_debug [keeps_intros]:
  "keeps (cpu_wf c) (read_dcsr c)" "keeps (cpu_wf c) (isStepEnabled c)"
  "keeps (cpu_wf c) (enterDebugMode c v cause)" "keeps (cpu_wf c) resume" "keeps (cpu_wf c) (halt c cause)"
  "keeps (cpu_wf c) enterProgbufExec" "keeps (cpu_wf c) exitProgbufExec"
  "keeps (cpu_wf c) (isTriggerICount c)" "keeps (cpu_wf c) (isTriggerInstruction c)"
  unfolding read_dcsr_def isStepEnabled_def enterDebugMode_def resume_def halt_def enterProgbufExec_def
    exitProgbufExec_def isTriggerICount_def isTriggerInstruction_def
  by (intro keeps_intros; simp?)+

lemma wf_switchContext [keeps_intros]: "keeps (cpu_wf c) (switchContext c 3)"
  unfolding switchContext_def by (intro keeps_intros wf_setPrvLevel; simp)+

lemma keeps_case_option [keeps_intros]:
  "(x = None \<Longrightarrow> keeps P m) \<Longrightarrow> (\<And>a. x = Some a \<Longrightarrow> keeps P (f a)) \<Longrightarrow>
     keeps P (case x of None \<Rightarrow> m | Some a \<Rightarrow> f a)"
  by (cases x) simp_all

lemma wf_handleTrap [keeps_intros]: "keeps (cpu_wf c) (handleTrap c)"
  unfolding handleTrap_def checkStackProtection_def handleException_def handleInterrupts_def
    interrupt_cause_def poll_loc_def poll_ext_def getPendingLoc_def getPendingExt_def
  by (intro keeps_intros; simp?)+

lemma wf_updateState [keeps_intros]: "keeps (cpu_wf c) (updateState c)"
  unfolding updateState_def
  by (intro keeps_intros; (simp split: ECoreState.split)?) (intro conjI impI keeps_intros; simp)+

lemma wf_fetch_attempt [keeps_intros]: "keeps (cpu_wf c) (fetch_attempt c)"
  unfolding fetch_attempt_def by (intro keeps_intros; simp?)+

lemma wf_fetchILine: "fetchILine c s = Some s' \<Longrightarrow> cpu_wf c s \<Longrightarrow> cpu_wf c s'"
proof -
  have "cpu_wf c s \<longrightarrow> cpu_wf c s'" if "fetchILine c s = Some s'"
    using that
  proof (rule fetchILine.raw_induct [where P = "\<lambda>c s s'. cpu_wf c s \<longrightarrow> cpu_wf c s'", rotated])
    fix f :: "'a cpu_cfg \<Rightarrow> 'a cpu \<Rightarrow> 'a cpu option" and c s s'
    assume "\<And>c s s'. f c s = Some s' \<Longrightarrow> cpu_wf c s \<longrightarrow> cpu_wf c s'"
      and "(case run_state (fetch_attempt c) s of (ok, s') \<Rightarrow> if ok then Some s' else f c s') = Some s'"
    then show "cpu_wf c s \<longrightarrow> cpu_wf c s'"
      using keepsE [OF _ wf_fetch_attempt, of c s] by (auto split: prod.splits if_splits)
  qed
  then show "fetchILine c s = Some s' \<Longrightarrow> cpu_wf c s \<Longrightarrow> cpu_wf c s'" by simp
qed

lemma wf_steps [keeps_intros]:
  "keeps (cpu_wf c) (start_step c)" "keeps (cpu_wf c) (finish_step c)"
  unfolding start_step_def finish_step_def by (intro keeps_intros; simp?)+

lemma lookup_instr_in: "lookup_instr c p = Some i \<Longrightarrow> i \<in> set (isa_instructions c)"
  by (auto simp: lookup_instr_linear find_Some_iff)

lemma wf_decodeInstruction: "cpu_wf c s \<Longrightarrow> cpu_wf c (snd (run_state (decodeInstruction c) s))"
  by (auto simp: decodeInstruction_def cpu_wf_def)

lemma run_decodeInstruction:
  "fst (run_state (decodeInstruction c) s) = lookup_instr c (cacheline s)"
  by (simp add: decodeInstruction_def)

lemma wf_execute [keeps_intros]: "keeps (cpu_wf c) (execute c)"
proof (rule keepsI)
  fix s :: "'a cpu"
  assume wf: "cpu_wf c s"
  obtain i s1 where d: "run_state (decodeInstruction c) s = (i, s1)" by fastforce
  then have i: "i = lookup_instr c (cacheline s)" and wf1: "cpu_wf c s1"
    using run_decodeInstruction [of c s] wf_decodeInstruction [OF wf] by simp_all
  have "keeps (cpu_wf c) (case i of Some i \<Rightarrow> do { n \<leftarrow> iexec i p; modify (\<lambda>s. s\<lparr>oplen := n\<rparr>) }
          | None \<Rightarrow> generateIllegalOpcode c)" for p
    unfolding generateIllegalOpcode_def
    by (intro keeps_intros lookup_instr_in [of c]; simp add: i)
  then show "cpu_wf c (snd (run_state (execute c) s))"
    using wf1 d by (auto simp: execute_def split: prod.split dest!: keepsE simp: cpu_wf_def)
qed

lemma wf_updatePipeline:
  assumes "updatePipeline c s = Some s'" and "cpu_wf c s"
  shows "cpu_wf c s'"
proof -
  note steps = keepsE [OF _ wf_updateState] keepsE [OF _ wf_steps(1)] wf_fetchILine
    keepsD [OF wf_steps(2)] keepsD [OF keeps_bind [OF wf_execute wf_steps(2)]]
  show ?thesis
    using assms by (auto simp: updatePipeline_def split: prod.splits if_splits option.splits
        simp del: run_state_bind dest: steps)
qed

section \<open>Runs\<close>

text \<open>\<^verbatim>\<open>writeGPR\<close> does not protect register 0, so the debugger must not write it: \<open>writes_x0\<close> is the
  debug-port access that selects it.\<close>

definition writes_x0 :: "event \<Rightarrow> bool" where
  "writes_x0 e = (case e of Ev_WriteReg regno v \<Rightarrow> drop_bit 12 regno = 1 \<and> regno AND 0x3F = 0 | _ \<Rightarrow> False)"

lemma wf_writeGPR: "i \<noteq> 0 \<Longrightarrow> keeps (cpu_wf c) (writeGPR i v)"
  by (auto intro!: keepsI simp: cpu_wf_def)

lemma wf_dport_ops:
  "keeps (cpu_wf c) haltreq_op" "keeps (cpu_wf c) resumereq_op" "keeps (cpu_wf c) (executeProgbuf pb)"
  "keeps (cpu_wf c) (dportReadReg c r)" "keeps (cpu_wf c) (dportReadMem c a n p)"
  "keeps (cpu_wf c) (dportWriteMem c a n v)" "keeps (cpu_wf c) (power_op pw)"
  "keeps (cpu_wf c) (if b then setHaltOnReset else clrHaltOnReset)"
  unfolding haltreq_op_def resumereq_op_def executeProgbuf_def dportReadReg_def dportReadMem_def
    dportWriteMem_def power_op_def setHaltOnReset_def clrHaltOnReset_def
  by (intro keeps_intros; simp?)+

lemma wf_dportWriteReg:
  "\<not> writes_x0 (Ev_WriteReg r v) \<Longrightarrow> keeps (cpu_wf c) (dportWriteReg c r v)"
  unfolding dportWriteReg_def writes_x0_def
  by (intro keeps_intros wf_writeGPR) (auto simp: unat_eq_0)

lemma reset_establishes_wf: "cpu_wf c (snd (run_state (reset_op c) s))"
  by (simp add: reset_op_def reset_generic_def cpu_wf_def writeCSR_def csr_read_only_def)

lemma power_on_wf: "cpu_wf c (power_on c halted b)"
  using reset_establishes_wf
    [of c "(constructed c halted b)\<lparr>csr := (csr (constructed c halted b))(CSR_misa := misa_value c)\<rparr>"]
  by (auto simp: power_on_def postinitService_def cpu_wf_def split: prod.split)

lemma wf_step:
  assumes "cpu_step c e s s'" and "cpu_wf c s" and "\<not> writes_x0 e"
  shows "cpu_wf c s'"
  using assms
proof cases
  case step_pipeline
  then show ?thesis using assms(2) wf_updatePipeline by blast
next
  case (step_write_reg regno v r)
  then show ?thesis using assms keepsE wf_dportWriteReg by metis
next
  case (step_reset r)
  then show ?thesis using reset_establishes_wf [of c s] by simp
qed (use assms(2) wf_dport_ops keepsE in metis)+

lemma wf_run: "cpu_run c es s s' \<Longrightarrow> cpu_wf c s \<Longrightarrow> \<forall>e \<in> set es. \<not> writes_x0 e \<Longrightarrow> cpu_wf c s'"
  by (induction rule: cpu_run.induct) (auto dest: wf_step)

text \<open>C2. From power-on, whatever sequence of pipeline iterations, debug-port accesses, power switches and resets happens,
  with any instruction stream, memory, interrupts and callbacks: register 0 reads as 0, the LR/SC
  watchdog is at most 64, the stack trace stays within its buffer and the privilege level is at most 3. Only
  a debugger that writes register 0 itself can break this.\<close>

theorem run_invariant:
  assumes "cpu_run c es (power_on c halted b) s" and "\<forall>e \<in> set es. \<not> writes_x0 e"
  shows "regs s 0 = 0 \<and> mmuReservedAddrWatchdog s \<le> 64 \<and> unat (stackTraceCnt s) \<le> stackTraceSize c \<and> cur_prv_level s \<le> 3"
  using wf_run [OF assms(1) power_on_wf assms(2)] by (simp add: cpu_wf_def)

theorem run_invariant_witness:
  "let s = snd (run_state (dportWriteReg sample_cfg 0x1005 7) (power_on sample_cfg True ()))
   in regs s 0 = 0 \<and> mmuReservedAddrWatchdog s \<le> 64 \<and> unat (stackTraceCnt s) \<le> stackTraceSize (sample_cfg :: unit cpu_cfg) \<and>
      cur_prv_level s \<le> 3"
proof -
  let ?s = "snd (run_state (dportWriteReg sample_cfg 0x1005 7) (power_on sample_cfg True ()))"
  have "cpu_run sample_cfg [Ev_WriteReg 0x1005 7] (power_on sample_cfg True ()) ?s"
    by (auto simp: cpu_run_simps cpu_step_simps intro!: exI [of _ "fst (run_state (dportWriteReg sample_cfg 0x1005 7) (power_on sample_cfg True ()))"])
  moreover have "\<forall>e \<in> set [Ev_WriteReg 0x1005 7]. \<not> writes_x0 e" by (simp add: writes_x0_def)
  ultimately show ?thesis unfolding Let_def by (rule run_invariant)
qed

end
