(* ===== verification/Mem_Generic.thy ===== *)
theory Mem_Generic
  imports Axi4
begin

text \<open>
  The RAM/ROM model \<^verbatim>\<open>MemoryGeneric\<close> (\<^verbatim>\<open>common/generic/mem_generic.cpp\<close>) and the contract of a memory slave
  as a bus master relies on it: what a read returns, what a write changes and what it leaves alone.
  The contract is the locale \<open>memory_slave\<close>; its lemmas are the round trip of a write and a read and
  the independence of disjoint accesses. The DPI co-simulation client (\<^verbatim>\<open>idpi_\<close>) is left out: it is not
  connected unless a SystemVerilog simulator runs.
\<close>

section \<open>The contract\<close>

definition read_req :: "u64 \<Rightarrow> nat \<Rightarrow> axi4 \<Rightarrow> bool" where
  "read_req a n tr \<longleftrightarrow> action tr = MemAction_Read \<and> addr tr = a \<and> xsize tr = n"

definition write_req :: "u64 \<Rightarrow> nat \<Rightarrow> axi4 \<Rightarrow> bool" where
  "write_req a n tr \<longleftrightarrow>
     action tr = MemAction_Write \<and> addr tr = a \<and> xsize tr = n \<and> wstrb tr = of_nat (2 ^ n - 1)"

definition in_bytes :: "u64 \<Rightarrow> u64 \<Rightarrow> nat \<Rightarrow> bool" where
  "in_bytes x a n \<longleftrightarrow> unat (x - a) < n"

locale memory_slave =
  fixes transport :: "axi4 \<Rightarrow> 'm \<Rightarrow> (ETransStatus \<times> axi4) \<times> 'm"
    and mbyte :: "'m \<Rightarrow> u64 \<Rightarrow> u8"
    and ok :: "'m \<Rightarrow> u64 \<Rightarrow> nat \<Rightarrow> bool"
  assumes ok_size: "ok m a n \<Longrightarrow> n \<le> 8"
    and read_status: "ok m a n \<Longrightarrow> read_req a n tr \<Longrightarrow> fst (fst (transport tr m)) = TRANS_OK"
    and read_state: "ok m a n \<Longrightarrow> read_req a n tr \<Longrightarrow> snd (transport tr m) = m"
    and read_trans: "ok m a n \<Longrightarrow> read_req a n tr \<Longrightarrow> read_req a n (snd (fst (transport tr m)))"
    and read_bytes: "ok m a n \<Longrightarrow> read_req a n tr \<Longrightarrow> i < 8 \<Longrightarrow>
        b8 i (rpayload (snd (fst (transport tr m)))) = (if i < n then mbyte m (a + of_nat i) else 0)"
    and write_status: "ok m a n \<Longrightarrow> write_req a n tr \<Longrightarrow> fst (fst (transport tr m)) = TRANS_OK"
    and write_bytes: "ok m a n \<Longrightarrow> write_req a n tr \<Longrightarrow> ok m x 1 \<Longrightarrow>
        mbyte (snd (transport tr m)) x =
          (if in_bytes x a n then b8 (unat (x - a)) (wpayload tr) else mbyte m x)"
    and write_ok: "ok m a n \<Longrightarrow> write_req a n tr \<Longrightarrow> ok (snd (transport tr m)) x k = ok m x k"
    and ok_part: "ok m a n \<Longrightarrow> i < n \<Longrightarrow> ok m (a + of_nat i) 1"
begin

text \<open>The low \<open>n\<close> bytes of a word, as a load returns them.\<close>

lemma read_after_write:
  assumes "ok m a n" and "write_req a n w" and "read_req a n r"
  shows "rpayload (snd (fst (transport r (snd (transport w m))))) = take_bit (8 * n) (wpayload w)"
proof (rule bytes_eqI)
  fix i :: nat
  assume i: "i < 8"
  note n8 = ok_size [OF assms(1)]
  have okw: "ok (snd (transport w m)) a n" using assms write_ok by blast
  have "b8 i (rpayload (snd (fst (transport r (snd (transport w m)))))) =
      (if i < n then mbyte (snd (transport w m)) (a + of_nat i) else 0)"
    by (rule read_bytes [OF okw assms(3) i])
  also have "\<dots> = (if i < n then b8 i (wpayload w) else 0)"
  proof -
    have "unat (of_nat i :: u64) = i" using i by (simp add: unat_of_nat)
    then show ?thesis
      using write_bytes [OF assms(1,2) ok_part [OF assms(1)], of i] by (simp add: in_bytes_def)
  qed
  also have "\<dots> = b8 i (take_bit (8 * n) (wpayload w))"
    using i by (intro bit_word_eqI) (auto simp: bit_b8 bit_simps)
  finally show "b8 i (rpayload (snd (fst (transport r (snd (transport w m)))))) =
      b8 i (take_bit (8 * n) (wpayload w))" .
qed

lemma read_unaffected:
  assumes "ok m a n" and "write_req a n w" and "ok m b k" and "read_req b k r"
    and disj: "\<And>i. i < k \<Longrightarrow> \<not> in_bytes (b + of_nat i) a n"
  shows "rpayload (snd (fst (transport r (snd (transport w m))))) = rpayload (snd (fst (transport r m)))"
proof (rule bytes_eqI)
  fix i :: nat
  assume i: "i < 8"
  have okw: "ok (snd (transport w m)) b k" using assms write_ok by blast
  show "b8 i (rpayload (snd (fst (transport r (snd (transport w m)))))) =
      b8 i (rpayload (snd (fst (transport r m))))"
    using read_bytes [OF okw assms(4) i] read_bytes [OF assms(3,4) i]
      write_bytes [OF assms(1,2) ok_part [OF assms(3)], of i] disj by simp
qed

end

section \<open>MemoryGeneric\<close>

record mem_cfg =
  mem_base :: u64
  mem_length :: nat
  mem_readOnly :: bool

text \<open>\<open>mem_oob\<close> records an access outside the allocated array, or one whose size exceeds the payload:
  undefined behaviour of the program.\<close>

record memory =
  mem_data :: "nat \<Rightarrow> u8"
  mem_oob :: bool

definition mem_transport :: "mem_cfg \<Rightarrow> axi4 \<Rightarrow> memory \<Rightarrow> (ETransStatus \<times> axi4) \<times> memory" where
  "mem_transport cfg tr m =
    (let off = unat (addr tr - mem_base cfg) mod mem_length cfg;
         n = xsize tr;
         tr = tr\<lparr>response := MemResp_Valid\<rparr>
     in if action tr = MemAction_Write then
          if mem_readOnly cfg then ((TRANS_OK, tr\<lparr>response := MemResp_Error\<rparr>), m)
          else if mem_length cfg < off + n \<or> 8 < n then ((TRANS_OK, tr), m\<lparr>mem_oob := True\<rparr>)
          else if of_nat (2 ^ n - 1) = wstrb tr
          then ((TRANS_OK, tr), m\<lparr>mem_data := store_bytes off n (wpayload tr) (mem_data m)\<rparr>)
          else ((TRANS_OK, tr), m\<lparr>mem_data := store_strobed off n (wstrb tr) (wpayload tr) (mem_data m)\<rparr>)
        else
          if mem_length cfg < off + n \<or> 8 < n then ((TRANS_OK, tr\<lparr>rpayload := 0\<rparr>), m\<lparr>mem_oob := True\<rparr>)
          else ((TRANS_OK, tr\<lparr>rpayload := load_bytes (mem_data m) off n 0\<rparr>), m))"

definition mem_byte :: "mem_cfg \<Rightarrow> memory \<Rightarrow> u64 \<Rightarrow> u8" where
  "mem_byte cfg m a = mem_data m (unat (a - mem_base cfg))"

definition mem_ok :: "mem_cfg \<Rightarrow> memory \<Rightarrow> u64 \<Rightarrow> nat \<Rightarrow> bool" where
  "mem_ok cfg m a n \<longleftrightarrow>
     \<not> mem_readOnly cfg \<and> 0 < n \<and> n \<le> 8 \<and> unat (a - mem_base cfg) + n \<le> mem_length cfg \<and> mem_length cfg \<le> 2 ^ 31"

lemma b8_zero [simp]: "b8 i 0 = 0"
  by (simp add: b8_def)

lemma unat_add_small:
  fixes x :: u64
  assumes "unat x + n < 2 ^ 64"
  shows "unat (x + of_nat n) = unat x + n"
  using assms by (simp add: unat_word_ariths unat_of_nat)

lemma unat_diff_cases:
  fixes x y :: u64
  shows "unat (x - y) = (if y \<le> x then unat x - unat y else 2 ^ 64 + unat x - unat y)"
  using unat_sub_if_size [of x y] by (simp only: word_size word_le_nat_alt add.commute) simp

lemma mem_ok_offset: "mem_ok cfg m a n \<Longrightarrow> unat (a - mem_base cfg) mod mem_length cfg = unat (a - mem_base cfg)"
  by (simp add: mem_ok_def)

lemma mem_offset_add:
  assumes "mem_ok cfg m a n" and "i < n"
  shows "unat (a + of_nat i - mem_base cfg) = unat (a - mem_base cfg) + i"
  using assms unat_add_small [of "a - mem_base cfg" i] by (simp add: mem_ok_def algebra_simps)

lemma in_bytes_offset:
  assumes "mem_ok cfg m a n" and "mem_ok cfg m x 1"
  shows "in_bytes x a n \<longleftrightarrow>
      unat (a - mem_base cfg) \<le> unat (x - mem_base cfg) \<and> unat (x - mem_base cfg) < unat (a - mem_base cfg) + n"
    and "unat (a - mem_base cfg) \<le> unat (x - mem_base cfg) \<Longrightarrow>
      unat (x - a) = unat (x - mem_base cfg) - unat (a - mem_base cfg)"
proof -
  have d: "x - a = (x - mem_base cfg) - (a - mem_base cfg)" by simp
  have u: "unat (x - a) = (if unat (a - mem_base cfg) \<le> unat (x - mem_base cfg)
      then unat (x - mem_base cfg) - unat (a - mem_base cfg)
      else 2 ^ 64 + unat (x - mem_base cfg) - unat (a - mem_base cfg))"
    unfolding d unat_diff_cases [of "x - mem_base cfg"] by (simp add: word_le_nat_alt)
  then show "unat (a - mem_base cfg) \<le> unat (x - mem_base cfg) \<Longrightarrow>
      unat (x - a) = unat (x - mem_base cfg) - unat (a - mem_base cfg)" by simp
  show "in_bytes x a n \<longleftrightarrow>
      unat (a - mem_base cfg) \<le> unat (x - mem_base cfg) \<and> unat (x - mem_base cfg) < unat (a - mem_base cfg) + n"
    using assms u by (auto simp: in_bytes_def mem_ok_def)
qed

interpretation mg: memory_slave "mem_transport cfg" "mem_byte cfg" "mem_ok cfg" for cfg
proof
  fix m :: memory and a x :: u64 and n k i :: nat and tr :: axi4
  assume ok: "mem_ok cfg m a n"
  show "n \<le> 8" using ok by (simp add: mem_ok_def)
  show "i < n \<Longrightarrow> mem_ok cfg m (a + of_nat i) 1"
    using ok mem_offset_add [OF ok, of i] by (simp add: mem_ok_def)
  { assume r: "read_req a n tr"
    show "fst (fst (mem_transport cfg tr m)) = TRANS_OK" and "snd (mem_transport cfg tr m) = m"
      using ok r mem_ok_offset [OF ok]
      by (auto simp: mem_transport_def Let_def read_req_def mem_ok_def)
    show "read_req a n (snd (fst (mem_transport cfg tr m)))"
      using r by (auto simp: mem_transport_def Let_def read_req_def)
    assume "i < 8"
    then show "b8 i (rpayload (snd (fst (mem_transport cfg tr m)))) =
        (if i < n then mem_byte cfg m (a + of_nat i) else 0)"
      using ok r mem_ok_offset [OF ok] mem_offset_add [OF ok, of i]
      by (auto simp: mem_transport_def Let_def read_req_def mem_ok_def b8_load_bytes mem_byte_def b8_zero) }
  { assume w: "write_req a n tr"
    show "fst (fst (mem_transport cfg tr m)) = TRANS_OK"
      using ok w by (auto simp: mem_transport_def Let_def write_req_def mem_ok_def)
    show "mem_ok cfg (snd (mem_transport cfg tr m)) x k = mem_ok cfg m x k"
      by (simp add: mem_ok_def)
    assume okx: "mem_ok cfg m x 1"
    have st: "mem_data (snd (mem_transport cfg tr m)) = store_bytes (unat (a - mem_base cfg)) n (wpayload tr) (mem_data m)"
      using ok w mem_ok_offset [OF ok] by (auto simp: mem_transport_def Let_def write_req_def mem_ok_def)
    show "mem_byte cfg (snd (mem_transport cfg tr m)) x =
        (if in_bytes x a n then b8 (unat (x - a)) (wpayload tr) else mem_byte cfg m x)"
      using in_bytes_offset [OF ok okx] by (simp add: mem_byte_def st store_bytes_apply) }
qed

end
