(* ===== verification/Bus_Generic.thy ===== *)
theory Bus_Generic
  imports Mem_Generic Clock_Queue
begin

text \<open>
  The system bus \<^verbatim>\<open>BusGeneric\<close> (\<^verbatim>\<open>common/generic/bus_generic.cpp\<close>): the hash table over the upper address bits,
  the device lookup and the blocking transaction. Slaves are numbered by their position in the map;
  \<open>slaves i\<close> is the \<^verbatim>\<open>b_transport\<close> method of slave \<open>i\<close>. The non-blocking transaction performs the same lookup and
  is left out with the response callback it calls.
\<close>

section \<open>The hash table\<close>

record slave_map =
  bar :: u64
  barsz :: u64
  prio :: int

record hash_item =
  nxtlvlena :: bool
  idev :: "nat option"
  devlist :: "nat list"

record bus_cfg =
  addrWidth :: nat
  imap :: "slave_map list"

abbreviation (input) HASH_ADDR_WIDTH :: nat where "HASH_ADDR_WIDTH \<equiv> 14"

definition HASH_LVL1_OFFSET :: "bus_cfg \<Rightarrow> nat" where
  "HASH_LVL1_OFFSET c = addrWidth c - HASH_ADDR_WIDTH"

definition map_first :: "bus_cfg \<Rightarrow> slave_map \<Rightarrow> nat" where
  "map_first c d = unat (drop_bit (HASH_LVL1_OFFSET c) (bar d) AND mask HASH_ADDR_WIDTH)"

definition map_last :: "bus_cfg \<Rightarrow> slave_map \<Rightarrow> nat" where
  "map_last c d = unat (drop_bit (HASH_LVL1_OFFSET c) (bar d + barsz d) AND mask HASH_ADDR_WIDTH)"

definition map_item :: "nat \<Rightarrow> hash_item \<Rightarrow> hash_item" where
  "map_item i item =
    (if \<not> nxtlvlena item \<and> idev item = None then item\<lparr>idev := Some i\<rparr>
     else case idev item of
       Some d \<Rightarrow> item\<lparr>nxtlvlena := True, devlist := devlist item @ [d, i], idev := None\<rparr>
     | None \<Rightarrow> item\<lparr>devlist := devlist item @ [i]\<rparr>)"

definition map_device :: "bus_cfg \<Rightarrow> nat \<Rightarrow> (nat \<Rightarrow> hash_item) \<Rightarrow> nat \<Rightarrow> hash_item" where
  "map_device c i tbl n =
    (if map_first c (imap c ! i) \<le> n \<and> n \<le> map_last c (imap c ! i) then map_item i (tbl n) else tbl n)"

definition maphash :: "bus_cfg \<Rightarrow> nat \<Rightarrow> hash_item" where
  "maphash c = fold (map_device c) [0..<length (imap c)]
     (\<lambda>_. \<lparr>nxtlvlena = False, idev = None, devlist = []\<rparr>)"

section \<open>Lookup and transactions\<close>

definition dev_contains :: "bus_cfg \<Rightarrow> u64 \<Rightarrow> nat \<Rightarrow> bool" where
  "dev_contains c a i \<longleftrightarrow> bar (imap c ! i) \<le> a \<and> a < bar (imap c ! i) + barsz (imap c ! i)"

definition select_dev :: "bus_cfg \<Rightarrow> u64 \<Rightarrow> nat \<Rightarrow> nat option \<Rightarrow> nat option" where
  "select_dev c a i pdev =
    (if dev_contains c a i then
       case pdev of
         None \<Rightarrow> Some i
       | Some j \<Rightarrow> if prio (imap c ! j) < prio (imap c ! i) then Some i else Some j
     else pdev)"

definition hash_index :: "bus_cfg \<Rightarrow> u64 \<Rightarrow> nat" where
  "hash_index c a = unat (drop_bit (HASH_LVL1_OFFSET c) (a AND mask (addrWidth c)))"

definition getMapedDevice :: "bus_cfg \<Rightarrow> u64 \<Rightarrow> nat option" where
  "getMapedDevice c a =
    (let item = maphash c (hash_index c a) in
     case idev item of
       Some d \<Rightarrow> Some d
     | None \<Rightarrow> if nxtlvlena item then fold (select_dev c a) (devlist item) None else None)"

text \<open>An unmapped read returns ones in the requested bytes. The status of the slave is dropped.\<close>

definition bus_transport ::
  "bus_cfg \<Rightarrow> (nat \<Rightarrow> u64 \<Rightarrow> axi4 \<Rightarrow> 'b \<Rightarrow> (ETransStatus \<times> axi4) \<times> 'b \<times> nat clk_req list) \<Rightarrow>
   u64 \<Rightarrow> axi4 \<Rightarrow> 'b \<Rightarrow> (ETransStatus \<times> axi4) \<times> 'b \<times> nat clk_req list" where
  "bus_transport c slaves t tr b =
    (case getMapedDevice c (addr tr) of
       None \<Rightarrow> ((TRANS_ERROR, tr\<lparr>rpayload := set_bitfield 0 (8 * xsize tr) (- 1) (rpayload tr)\<rparr>), b, [])
     | Some d \<Rightarrow> (case slaves d t tr b of ((_, tr'), b', rqs) \<Rightarrow> ((TRANS_OK, tr'), b', rqs)))"

section \<open>What the table holds\<close>

definition covers :: "bus_cfg \<Rightarrow> nat \<Rightarrow> nat \<Rightarrow> bool" where
  "covers c n i \<longleftrightarrow> map_first c (imap c ! i) \<le> n \<and> n \<le> map_last c (imap c ! i)"

definition bucket :: "nat list \<Rightarrow> hash_item" where
  "bucket ds =
    (case ds of [] \<Rightarrow> \<lparr>nxtlvlena = False, idev = None, devlist = []\<rparr>
     | [d] \<Rightarrow> \<lparr>nxtlvlena = False, idev = Some d, devlist = []\<rparr>
     | _ \<Rightarrow> \<lparr>nxtlvlena = True, idev = None, devlist = ds\<rparr>)"

lemma map_item_bucket: "map_item i (bucket ds) = bucket (ds @ [i])"
  by (auto simp: map_item_def bucket_def split: list.splits)

lemma maphash_bucket: "maphash c n = bucket (filter (covers c n) [0..<length (imap c)])"
proof -
  have "fold (map_device c) is (\<lambda>n. bucket (ds n)) n = bucket (ds n @ filter (covers c n) is)" for "is" ds
  proof (induction "is" arbitrary: ds)
    case (Cons i "is")
    have "map_device c i (\<lambda>n. bucket (ds n)) = (\<lambda>n. bucket (ds n @ (if covers c n i then [i] else [])))"
      by (rule ext) (simp add: map_device_def covers_def map_item_bucket)
    with Cons show ?case by simp
  qed simp
  from this [of _ "\<lambda>_. []"] show ?thesis by (simp add: maphash_def bucket_def)
qed

text \<open>The selection loop returns a containing device of the highest priority, the first of equals.\<close>

definition best_of :: "bus_cfg \<Rightarrow> u64 \<Rightarrow> nat list \<Rightarrow> nat option \<Rightarrow> bool" where
  "best_of c a ds r = (case r of
      None \<Rightarrow> \<forall>i \<in> set ds. \<not> dev_contains c a i
    | Some d \<Rightarrow> d \<in> set ds \<and> dev_contains c a d \<and>
        (\<forall>i \<in> set ds. dev_contains c a i \<longrightarrow> prio (imap c ! i) \<le> prio (imap c ! d)))"

lemma select_dev_best: "best_of c a ds (fold (select_dev c a) ds None)"
proof (induction ds rule: rev_induct)
  case (snoc i ds)
  then show ?case by (auto simp: best_of_def select_dev_def split: option.splits)
qed (simp add: best_of_def)

lemma getMapedDevice_cases:
  "getMapedDevice c a =
    (let ds = filter (covers c (hash_index c a)) [0..<length (imap c)] in
     case ds of [] \<Rightarrow> None | [d] \<Rightarrow> Some d | _ \<Rightarrow> fold (select_dev c a) ds None)"
  by (auto simp: getMapedDevice_def maphash_bucket bucket_def Let_def split: list.split)

section \<open>The lookup is complete\<close>

text \<open>\<open>bus_wf\<close>: the address width is between the width of the hash and 63 bits, and every device ends below the
  top of the address space. (A device that ends exactly at the top has \<^verbatim>\<open>last = 0\<close> and is not
  entered.)\<close>

definition bus_wf :: "bus_cfg \<Rightarrow> bool" where
  "bus_wf c \<longleftrightarrow> 14 \<le> addrWidth c \<and> addrWidth c < 64 \<and>
     list_all (\<lambda>d. unat (bar d) + unat (barsz d) < 2 ^ addrWidth c) (imap c)"

lemma unat_hash:
  fixes x :: u64
  assumes "unat x < 2 ^ addrWidth c" and "14 \<le> addrWidth c"
  shows "unat (drop_bit (HASH_LVL1_OFFSET c) x AND mask 14) = unat x div 2 ^ HASH_LVL1_OFFSET c"
    and "unat (drop_bit (HASH_LVL1_OFFSET c) (x AND mask (addrWidth c))) = unat x div 2 ^ HASH_LVL1_OFFSET c"
proof -
  have e: "addrWidth c = 14 + HASH_LVL1_OFFSET c" using assms(2) by (simp add: HASH_LVL1_OFFSET_def)
  have d: "unat (drop_bit k x) = unat x div 2 ^ k" for k
    using unsigned_less [where 'a = nat, of x] unfolding unsigned_drop_bit_eq
    by (simp add: drop_bit_eq_div take_bit_nat_eq_self)
  have lt: "unat x div 2 ^ HASH_LVL1_OFFSET c < 2 ^ 14"
    using assms(1) unfolding e by (simp add: less_mult_imp_div_less power_add)
  show "unat (drop_bit (HASH_LVL1_OFFSET c) x AND mask 14) = unat x div 2 ^ HASH_LVL1_OFFSET c"
    using lt by (simp add: take_bit_eq_mask [symmetric] unsigned_take_bit_eq d take_bit_nat_eq_self)
  have "x AND mask (addrWidth c) = x"
    using assms(1) by (intro iffD2 [OF word_unat_eq_iff])
      (simp add: take_bit_eq_mask [symmetric] unsigned_take_bit_eq take_bit_nat_eq_self)
  then show "unat (drop_bit (HASH_LVL1_OFFSET c) (x AND mask (addrWidth c))) = unat x div 2 ^ HASH_LVL1_OFFSET c"
    by (simp add: d)
qed

lemma contains_covers:
  assumes wf: "bus_wf c" and i: "i < length (imap c)" and a: "dev_contains c a i"
  shows "covers c (hash_index c a) i"
proof -
  let ?d = "imap c ! i"
  from wf i have w: "14 \<le> addrWidth c" "addrWidth c < 64"
    and top: "unat (bar ?d) + unat (barsz ?d) < 2 ^ addrWidth c"
    by (auto simp: bus_wf_def list_all_length)
  have "(2 :: nat) ^ addrWidth c \<le> 2 ^ 64" using w(2) by (intro power_increasing) auto
  with top have e: "unat (bar ?d + barsz ?d) = unat (bar ?d) + unat (barsz ?d)"
    by (simp add: unat_word_ariths)
  from a e have r: "unat (bar ?d) \<le> unat a" "unat a \<le> unat (bar ?d + barsz ?d)"
    by (auto simp: dev_contains_def word_le_nat_alt word_less_nat_alt)
  show ?thesis
    using r top e w(1) unat_hash(1) [of "bar ?d" c] unat_hash(1) [of "bar ?d + barsz ?d" c] unat_hash(2) [of a c]
    by (simp add: covers_def map_first_def map_last_def hash_index_def div_le_mono)
qed

lemma lookup_complete:
  assumes wf: "bus_wf c" and i: "i < length (imap c)" "dev_contains c a i"
  shows "\<exists>d < length (imap c). getMapedDevice c a = Some d \<and> dev_contains c a d \<and>
      (\<forall>j < length (imap c). dev_contains c a j \<longrightarrow> prio (imap c ! j) \<le> prio (imap c ! d))"
proof -
  let ?ds = "filter (covers c (hash_index c a)) [0..<length (imap c)]"
  have cov: "j \<in> set ?ds" if "j < length (imap c)" "dev_contains c a j" for j
    using that contains_covers [OF wf that] by simp
  have sub: "j < length (imap c)" if "j \<in> set ?ds" for j using that by simp
  from cov [OF i] obtain d ds where ds: "?ds = d # ds" by (cases ?ds) auto
  show ?thesis
  proof (cases ds)
    case Nil
    with ds cov i show ?thesis
      by (intro exI [of _ i]) (auto simp: getMapedDevice_cases)
  next
    case (Cons d' ds')
    then have g: "getMapedDevice c a = fold (select_dev c a) ?ds None"
      using ds by (simp add: getMapedDevice_cases del: filter.simps)
    have best: "best_of c a ?ds (getMapedDevice c a)"
      unfolding g by (rule select_dev_best)
    then obtain r where r: "getMapedDevice c a = Some r"
      using cov [OF i] i(2) by (cases "getMapedDevice c a") (auto simp: best_of_def)
    with best have "r \<in> set ?ds" "dev_contains c a r"
      and m: "\<forall>j \<in> set ?ds. dev_contains c a j \<longrightarrow> prio (imap c ! j) \<le> prio (imap c ! r)"
      by (simp_all add: best_of_def)
    moreover have "\<forall>j < length (imap c). dev_contains c a j \<longrightarrow> prio (imap c ! j) \<le> prio (imap c ! r)"
      using m cov by blast
    ultimately show ?thesis using r sub by blast
  qed
qed

text \<open>A bucket with one device is not range-checked; otherwise a device that does not contain the address is
  never selected.\<close>

lemma lookup_sound:
  assumes "getMapedDevice c a = Some d"
  shows "dev_contains c a d \<or> filter (covers c (hash_index c a)) [0..<length (imap c)] = [d]"
proof -
  let ?ds = "filter (covers c (hash_index c a)) [0..<length (imap c)]"
  show ?thesis
    using assms select_dev_best [of c a ?ds]
    by (auto simp: getMapedDevice_cases Let_def best_of_def split: list.splits option.splits)
qed

section \<open>Properties\<close>

text \<open>A bus with a memory, a device and a second device of higher priority inside the first.\<close>

definition bus_sample :: bus_cfg where
  "bus_sample = \<lparr>addrWidth = 39,
     imap = [\<lparr>bar = 0x80000000, barsz = 0x10000000, prio = 0\<rparr>, \<lparr>bar = 0x02000000, barsz = 0x10000, prio = 0\<rparr>,
             \<lparr>bar = 0x02008000, barsz = 0x1000, prio = 1\<rparr>]\<rparr>"



text \<open>The single device of a bucket answers for addresses outside its range.\<close>

lemma bus_bucket_alias: "getMapedDevice bus_sample 0x91000000 = Some 0 \<and> \<not> dev_contains bus_sample 0x91000000 0"
  by code_simp

end
