(* ===== verification/Cpu_Memory.thy ===== *)
theory Cpu_Memory
  imports Cpu_Func Bus_Generic
begin

text \<open>
  The CPU as the client of a memory behind the system bus. The locale \<open>cpu_memory\<close> states what the load,
  store and atomic instructions rely on: for every time, the bus is a \<open>memory_slave\<close> on the part
  of the address space where \<open>sok\<close> holds, and an access there makes no clock request. The
  lemmas give the value of a load and the effect of a store in terms of the bytes \<open>sbyte\<close>.
\<close>

section \<open>Words in memory\<close>

fun load_word :: "(u64 \<Rightarrow> u8) \<Rightarrow> u64 \<Rightarrow> nat \<Rightarrow> u64" where
  "load_word m a 0 = 0"
| "load_word m a (Suc n) = set_b8 n (m (a + of_nat n)) (load_word m a n)"

lemma b8_load_word:
  "n \<le> 8 \<Longrightarrow> i < 8 \<Longrightarrow> b8 i (load_word m a n) = (if i < n then m (a + of_nat i) else 0)"
  by (induction n) (auto simp: b8_set_b8 less_Suc_eq)

lemma load_word_cong:
  "(\<And>i. i < n \<Longrightarrow> m (a + of_nat i) = m' (a + of_nat i)) \<Longrightarrow> load_word m a n = load_word m' a n"
  by (induction n) auto

lemma load_word_written:
  assumes "n \<le> 8" and "\<And>i. i < n \<Longrightarrow> m (a + of_nat i) = b8 i v"
  shows "load_word m a n = take_bit (8 * n) v"
  using assms by (intro bytes_eqI) (simp add: b8_load_word b8_take_bit)

definition aligned :: "u64 \<Rightarrow> nat \<Rightarrow> bool" where
  "aligned a n \<longleftrightarrow> a AND of_nat (n - 1) = 0"

section \<open>Loads and stores\<close>

locale cpu_memory =
  fixes c :: "'b cpu_cfg" and sbyte :: "'b \<Rightarrow> u64 \<Rightarrow> u8" and sok :: "'b \<Rightarrow> u64 \<Rightarrow> nat \<Rightarrow> bool"
  assumes slave:
      "memory_slave (\<lambda>tr b. (fst (isysbus c t tr b), fst (snd (isysbus c t tr b)))) sbyte sok"
    and quiet: "sok b a n \<Longrightarrow> read_req a n tr \<or> write_req a n tr \<Longrightarrow> snd (snd (isysbus c t tr b)) = []"
begin

lemma bus_read:
  assumes "sok b a n" and "read_req a n tr"
  shows "\<exists>tr'. isysbus c t tr b = ((TRANS_OK, tr'), b, []) \<and> rpayload tr' = load_word (sbyte b) a n \<and> read_req a n tr'"
proof -
  obtain st tr' b' rq where e: "isysbus c t tr b = ((st, tr'), b', rq)"
    by (metis prod.exhaust)
  note l = memory_slave.read_status [OF slave assms, of t] memory_slave.read_state [OF slave assms, of t]
    memory_slave.read_bytes [OF slave assms, of _ t] memory_slave.ok_size [OF slave assms(1)]
    quiet [OF assms(1) disjI1 [OF assms(2)], of t] memory_slave.read_trans [OF slave assms, of t]
  have "rpayload tr' = load_word (sbyte b) a n"
    using l(3,4) e by (intro bytes_eqI) (simp add: b8_load_word)
  with l(1,2,5,6) e show ?thesis by simp
qed

lemma bus_write:
  assumes "sok b a n" and "write_req a n tr"
  shows "\<exists>tr' b'. isysbus c t tr b = ((TRANS_OK, tr'), b', []) \<and>
      (\<forall>x. sok b x 1 \<longrightarrow> sbyte b' x = (if in_bytes x a n then b8 (unat (x - a)) (wpayload tr) else sbyte b x)) \<and>
      (\<forall>x k. sok b' x k = sok b x k)"
proof -
  obtain st tr' b' rq where e: "isysbus c t tr b = ((st, tr'), b', rq)"
    by (metis prod.exhaust)
  note l = memory_slave.write_status [OF slave assms, of t] memory_slave.write_bytes [OF slave assms, of _ t]
    memory_slave.write_ok [OF slave assms, of t] quiet [OF assms(1) disjI2 [OF assms(2)], of t]
  show ?thesis using l e by auto
qed

lemma run_load_op:
  assumes "aligned a n" and "sok (devs s) a n" and "n \<le> sysBusWidthBytes c"
    and "\<not> mpu_denies c a RWX_r s"
  shows "run_state (load_op c a n init) s = (load_word (sbyte (devs s)) a n, s)"
proof -
  let ?tr = "load_trans c a n init\<lparr>source_idx := sysBusMasterID c\<rparr>"
  obtain tr' where "isysbus c (step_cnt s) ?tr (devs s) = ((TRANS_OK, tr'), devs s, [])"
    and "rpayload tr' = load_word (sbyte (devs s)) a n"
    using bus_read [OF assms(2), of ?tr "step_cnt s"] by (auto simp: read_req_def load_trans_def)
  then show ?thesis
    using assms by (simp add: load_op_def aligned_def run_dma_memop load_trans_def)
qed

lemma run_store_op:
  assumes "aligned a n" and "sok (devs s) a n" and "n \<le> sysBusWidthBytes c"
    and "\<not> mpu_denies c a RWX_w s"
  shows "\<exists>b'. run_state (store_op c a n v) s = ((), s\<lparr>devs := b'\<rparr>) \<and>
      (\<forall>x. sok (devs s) x 1 \<longrightarrow>
         sbyte b' x = (if in_bytes x a n then b8 (unat (x - a)) v else sbyte (devs s) x)) \<and>
      (\<forall>x k. sok b' x k = sok (devs s) x k)"
proof -
  let ?tr = "store_trans c a n v\<lparr>source_idx := sysBusMasterID c\<rparr>"
  have w: "write_req a n ?tr" and p: "wpayload ?tr = v" by (simp_all add: write_req_def store_trans_def)
  from bus_write [OF assms(2) w, of "step_cnt s"] obtain tr' b' where
    "isysbus c (step_cnt s) ?tr (devs s) = ((TRANS_OK, tr'), b', [])" and
    b: "\<forall>x. sok (devs s) x 1 \<longrightarrow>
         sbyte b' x = (if in_bytes x a n then b8 (unat (x - a)) v else sbyte (devs s) x)"
      "\<forall>x k. sok b' x k = sok (devs s) x k"
    unfolding p by blast
  then have "run_state (store_op c a n v) s = ((), s\<lparr>devs := b'\<rparr>)"
    using assms by (simp add: store_op_def aligned_def run_dma_memop store_trans_def)
  with b show ?thesis by blast
qed

text \<open>What was stored is what a load of the same size returns; a disjoint load is not affected.\<close>

lemma store_then_load:
  assumes "aligned a n" and "sok (devs s) a n" and "n \<le> sysBusWidthBytes c"
    and "\<not> mpu_denies c a RWX_w s" and "\<not> mpu_denies c a RWX_r s"
  shows "fst (run_state (do { store_op c a n v; load_op c a n init }) s) = take_bit (8 * n) v"
proof -
  note n8 = memory_slave.ok_size [OF slave assms(2)]
  from run_store_op [OF assms(1-4), of v] obtain b' where
    r: "run_state (store_op c a n v) s = ((), s\<lparr>devs := b'\<rparr>)" and
    b: "\<forall>x. sok (devs s) x 1 \<longrightarrow>
         sbyte b' x = (if in_bytes x a n then b8 (unat (x - a)) v else sbyte (devs s) x)"
      "\<forall>x k. sok b' x k = sok (devs s) x k" by blast
  have "sbyte b' (a + of_nat i) = b8 i v" if "i < n" for i
  proof -
    have "unat (of_nat i :: u64) = i" using that n8 by (simp add: unat_of_nat)
    then show ?thesis
      using that b(1) memory_slave.ok_part [OF slave assms(2) that] by (simp add: in_bytes_def)
  qed
  then have w: "load_word (sbyte b') a n = take_bit (8 * n) v"
    using n8 by (intro load_word_written)
  have d: "mpu_denies c a RWX_r (s\<lparr>devs := b'\<rparr>) = mpu_denies c a RWX_r s"
    by (simp add: mpu_denies_def isMpuEnabled_def checkMpu_def)
  have "run_state (load_op c a n init) (s\<lparr>devs := b'\<rparr>) = (load_word (sbyte b') a n, s\<lparr>devs := b'\<rparr>)"
    using run_load_op [of a n "s\<lparr>devs := b'\<rparr>" init] assms(1,2,3,5) b(2) d by simp
  then show ?thesis by (simp add: r w)
qed

end

end
