(* ===== verification/Cpu_Traps.thy ===== *)
theory Cpu_Traps
  imports Cpu_Inv
begin

text \<open>
  Traps: what the CPU does when an exception or an interrupt is taken, and when \<open>MRET\<close> returns. The
  locale \<open>cpu_irq\<close> is the contract of the two interrupt controllers as the CPU relies on it; its lemma
  gives the interrupt that is taken as a function of the raised lines.
\<close>

section \<open>Trap entry\<close>

definition trap_mstatus :: "u64 \<Rightarrow> u64 \<Rightarrow> u64" where
  "trap_mstatus prv m =
    (let m = set_bitfield 11 2 prv m;
         m = set_bitfield 7 1 (drop_bit (unat prv) m AND 1) m
     in set_bitfield 3 1 0 m)"

lemma run_switchContext [simp]:
  "run_state (switchContext c 3) s =
     ((), s\<lparr>csr := (csr s)(CSR_mstatus := trap_mstatus (cur_prv_level s) (csr s CSR_mstatus), CSR_mepc := npc_of s),
           cur_prv_level := 3\<rparr>)"
  by (simp add: switchContext_def trap_mstatus_def Let_def)

lemma run_read_dcsr [simp]:
  "run_state (read_dcsr c) s = (ucast (ucast (csr s CSR_dcsr) :: u32), s)"
  by (simp add: read_dcsr_def)

lemma mcause_code: "set_bitfield 0 63 w (0 :: u64) = take_bit 63 w"
  by (rule bit_word_eqI) (auto simp: bit_simps)

lemma mcause_exception: "e < 64 \<Longrightarrow> set_bitfield 0 63 (of_nat e) (0 :: u64) = of_nat e"
  unfolding mcause_code word_unat_eq_iff
  by (simp add: unsigned_take_bit_eq unat_of_nat take_bit_nat_eq_self)

text \<open>The exceptions that are not turned into a halt or the end of the program buffer.\<close>

lemma run_handleException:
  assumes "e < 64" and "estate s \<noteq> CORE_ProgbufExec" and "e = EXCEPTION_Breakpoint \<longrightarrow> \<not> bit (csr s CSR_dcsr) 15"
  shows "run_state (handleException c e) s =
    ((), s\<lparr>csr := (csr s)(CSR_mcause := of_nat e,
             CSR_mstatus := trap_mstatus (cur_prv_level s) (csr s CSR_mstatus), CSR_mepc := npc_of s),
           cur_prv_level := 3,
           ctx_npc := (ctx_npc s)(cur_ctx s := csr s CSR_mtvec AND NOT 3)\<rparr>)"
  using assms by (auto simp: handleException_def bit_simps mcause_exception Let_def)

lemma run_handleException_ebreak:
  assumes "estate s = CORE_Normal" and "bit (csr s CSR_dcsr) 15"
  shows "run_state (handleException c EXCEPTION_Breakpoint) s =
    ((), s\<lparr>csr := (csr s)(CSR_mcause := 3, CSR_dcsr := set_bitfield 6 3 1 (ucast (ucast (csr s CSR_dcsr) :: u32)),
                          CSR_dpc := pc_of s),
           estate := CORE_Halted, ctx_npc := (ctx_npc s)(cur_ctx s := pc_of s)\<rparr>)"
  using assms by (auto simp: handleException_def bit_simps Let_def halt_def enterDebugMode_def mcause_code)

section \<open>The lowest exception\<close>

lemma lowest_exception_spec:
  "t \<noteq> 0 \<Longrightarrow> \<exists>k. lowest_exception t e = e + k \<and> bit t k \<and> (\<forall>j < k. \<not> bit t j)"
proof (induction t e rule: lowest_exception.induct)
  case (1 t e)
  show ?case
  proof (cases "t AND 1 = 0")
    case True
    then have b0: "\<not> bit t 0" by (simp add: and_one_eq bit_0 even_iff_mod_2_eq_zero)
    have "drop_bit 1 t \<noteq> 0"
    proof
      assume z: "drop_bit 1 t = 0"
      have "\<not> bit t (Suc n)" for n
      proof -
        have "bit t (Suc n) = bit (drop_bit 1 t) n" by (simp add: bit_simps)
        also have "\<dots> = False" unfolding z by simp
        finally show ?thesis by simp
      qed
      then have "\<not> bit t n" for n using b0 by (cases n) simp_all
      then have "t = 0" by (intro bit_word_eqI) simp
      with "1.prems" show False by simp
    qed
    from "1.IH" [OF _ this] True "1.prems" obtain k where
      k: "lowest_exception (drop_bit 1 t) (e + 1) = e + 1 + k" "bit t (Suc k)" "\<forall>j < k. \<not> bit t (Suc j)"
      by (auto simp: bit_simps)
    have "\<not> bit t j" if "j < Suc k" for j
      using that b0 k(3) by (cases j) auto
    then show ?thesis
      using k(1,2) True "1.prems" by (intro exI [of _ "Suc k"]) (simp add: lowest_exception.simps [of t e])
  next
    case False
    then have "bit t 0" by (simp add: and_one_eq bit_0 odd_iff_mod_2_eq_one)
    with False show ?thesis by (intro exI [of _ 0]) (simp add: lowest_exception.simps [of t e])
  qed
qed

section \<open>Return\<close>

definition mret_mstatus :: "u64 \<Rightarrow> u64" where
  "mret_mstatus m =
    (let m = set_bitfield 3 1 (bitfield 7 1 m) m; m = set_bitfield 7 1 1 m in set_bitfield 11 2 0 m)"

lemma run_MRET:
  assumes "cur_prv_level s = 3"
  shows "run_state (exec_MRET c p) s =
    (4, s\<lparr>csr := (csr s)(CSR_mstatus := mret_mstatus (csr s CSR_mstatus)),
          cur_prv_level := bitfield 11 2 (csr s CSR_mstatus), branch := True,
          ctx_npc := (ctx_npc s)(cur_ctx s := csr s CSR_mepc)\<rparr>)"
proof -
  have "bitfield 11 2 (set_bitfield 7 1 1 (set_bitfield 3 1 v m)) = bitfield 11 2 m" for v m :: u64
    by (simp add: bitfield_set_other)
  with assms show ?thesis by (simp add: exec_MRET_def mret_mstatus_def Let_def)
qed

lemma run_MRET_illegal:
  assumes "cur_prv_level s \<noteq> 3"
  shows "run_state (exec_MRET c p) s =
    (4, s\<lparr>csr := (csr s)(CSR_mtval := pc_of s), exceptions := exceptions s OR push_bit 2 1\<rparr>)"
  using assms by (simp add: exec_MRET_def)

text \<open>What a trap followed by a return leaves in \<open>mstatus\<close>.\<close>

lemma trap_mstatus_bits:
  "prv \<le> 3 \<Longrightarrow> bit (trap_mstatus prv m) i \<longleftrightarrow>
     i < 64 \<and> (if i = 3 then False
                else if i = 7 then bit m (unat prv)
                else if 11 \<le> i \<and> i < 13 then bit prv (i - 11) else bit m i)"
proof -
  assume "prv \<le> 3"
  then have p: "unat prv < 4" by (simp add: word_le_nat_alt)
  then have "bit (drop_bit (unat prv) (set_bitfield 11 2 prv m) AND 1) 0 = bit m (unat prv)"
    by (auto simp: bit_simps)
  then show ?thesis
    by (auto simp: trap_mstatus_def Let_def bit_simps)
qed

lemma mret_mstatus_bits:
  "bit (mret_mstatus m) i \<longleftrightarrow>
     i < 64 \<and> (if i = 3 then bit m 7 else if i = 7 then True else if 11 \<le> i \<and> i < 13 then False else bit m i)"
  by (auto simp: mret_mstatus_def Let_def bit_simps)

lemma trap_mstatus_MPP: "prv \<le> 3 \<Longrightarrow> bitfield 11 2 (trap_mstatus prv m) = prv"
proof -
  assume p: "prv \<le> 3"
  then have "prv = take_bit 2 prv"
    by (auto simp: word_unat_eq_iff unsigned_take_bit_eq word_le_nat_alt take_bit_nat_eq_self)
  then have "\<not> bit prv k" if "2 \<le> k" for k
    using that by (metis bit_take_bit_iff not_le)
  with p show ?thesis
    by (intro bit_word_eqI) (auto simp: bit_bitfield trap_mstatus_bits not_less)
qed

section \<open>Interrupts\<close>

text \<open>
  A controller: \<open>pend t k d\<close> is \<^verbatim>\<open>getPendingRequest(k)\<close> at time \<open>t\<close>. Where the invariant \<open>inv\<close> of the device
  holds, the answer tells whether line \<open>k\<close> is raised, and asking does not raise or drop a line.
\<close>

locale irq_lines =
  fixes pend :: "u64 \<Rightarrow> nat \<Rightarrow> 'd \<Rightarrow> u32 \<times> 'd" and raised :: "u64 \<Rightarrow> nat \<Rightarrow> 'd \<Rightarrow> bool" and inv :: "'d \<Rightarrow> bool"
  assumes pend_iff: "inv d \<Longrightarrow> fst (pend t k d) \<noteq> 0 \<longleftrightarrow> raised t k d"
    and pend_stable: "inv d \<Longrightarrow> raised t' k' (snd (pend t k d)) = raised t' k' d"
    and pend_inv: "inv d \<Longrightarrow> inv (snd (pend t k d))"

text \<open>The interrupt to take, from the lines that are raised: software before timer before external.\<close>

definition irq_choice ::
  "'b cpu_cfg \<Rightarrow> (u64 \<Rightarrow> nat \<Rightarrow> 'b \<Rightarrow> bool) \<Rightarrow> (u64 \<Rightarrow> nat \<Rightarrow> 'b \<Rightarrow> bool) \<Rightarrow> 'b cpu \<Rightarrow> u64 option" where
  "irq_choice c raised_loc raised_ext s =
    (let mie = csr s CSR_mie; t = step_cnt s; b = devs s in
     if bit mie 3 \<and> raised_loc t (2 * hartid c) b then Some 3
     else if bit mie 7 \<and> raised_loc t (2 * hartid c + 1) b then Some 7
     else if bit mie 11 \<and> raised_ext t 0 b then Some 11
     else None)"

definition irq_entry :: "u64 \<Rightarrow> 'b \<Rightarrow> 'b cpu \<Rightarrow> 'b cpu" where
  "irq_entry code b s =
     s\<lparr>devs := b,
       csr := (csr s)(CSR_mcause := 0x8000000000000000 OR code,
                CSR_mstatus := trap_mstatus (cur_prv_level s) (csr s CSR_mstatus), CSR_mepc := npc_of s),
       cur_prv_level := 3,
       ctx_npc := (ctx_npc s)(cur_ctx s :=
         (let mtvec = csr s CSR_mtvec
          in if mtvec AND 3 = 1 then (mtvec AND NOT 3) + 4 * code else mtvec AND NOT 3))\<rparr>"

lemma irq_mcause: "code < 64 \<Longrightarrow> set_bitfield 63 1 1 (set_bitfield 0 63 code 0) = (0x8000000000000000 :: u64) OR code"
proof -
  assume "code < 64"
  then have "take_bit 63 code = code"
    unfolding word_unat_eq_iff by (simp add: unsigned_take_bit_eq word_less_nat_alt take_bit_nat_eq_self)
  then have h: "bit code i \<Longrightarrow> i < 63" for i by (metis bit_take_bit_iff)
  have m: "bit (0x8000000000000000 :: u64) i \<longleftrightarrow> i = 63" for i
  proof -
    have "(0x8000000000000000 :: u64) = 2 ^ 63" by simp
    then show ?thesis by (simp only: bit_exp_iff) auto
  qed
  show ?thesis
    by (rule bit_word_eqI, simp only: bit_or_iff m bit_set_bitfield) (auto simp: bit_1_iff dest: h)
qed

locale cpu_irq =
  loc: irq_lines "iirqloc c" raised_loc inv + ext: irq_lines "iirqext c" raised_ext inv
  for c :: "'b cpu_cfg" and raised_loc raised_ext :: "u64 \<Rightarrow> nat \<Rightarrow> 'b \<Rightarrow> bool" and inv :: "'b \<Rightarrow> bool" +
  assumes loc_ext: "inv b \<Longrightarrow> raised_ext t' k' (snd (iirqloc c t k b)) = raised_ext t' k' b"
begin

definition same_lines :: "'b \<Rightarrow> 'b \<Rightarrow> bool" where
  "same_lines b b' \<longleftrightarrow> inv b' \<and> (\<forall>t k. raised_loc t k b' = raised_loc t k b \<and> raised_ext t k b' = raised_ext t k b)"

lemma run_poll_loc:
  assumes "inv (devs s)"
  shows "\<exists>b. run_state (poll_loc c en k code cause) s =
      (if cause = None \<and> en then if raised_loc (step_cnt s) k (devs s) then Some code else None else cause,
       s\<lparr>devs := b\<rparr>) \<and> same_lines (devs s) b"
proof (cases "cause = None \<and> en")
  case True
  obtain r b where e: "iirqloc c (step_cnt s) k (devs s) = (r, b)" by fastforce
  have "r \<noteq> 0 \<longleftrightarrow> raised_loc (step_cnt s) k (devs s)"
    using loc.pend_iff [OF assms, of "step_cnt s" k] e by simp
  moreover have "same_lines (devs s) b"
    using loc.pend_stable [OF assms, of _ _ "step_cnt s" k] loc.pend_inv [OF assms, of "step_cnt s" k]
      loc_ext [OF assms, of _ _ "step_cnt s" k] e by (simp add: same_lines_def)
  ultimately show ?thesis
    using True e by (intro exI [of _ b]) (auto simp: poll_loc_def getPendingLoc_def)
next
  case False
  then show ?thesis
    using assms by (intro exI [of _ "devs s"]) (auto simp: poll_loc_def same_lines_def)
qed

lemma run_poll_ext:
  assumes "inv (devs s)"
  shows "\<exists>b. run_state (poll_ext c en k code cause) s =
      (if cause = None \<and> en then if raised_ext (step_cnt s) k (devs s) then Some code else None else cause,
       s\<lparr>devs := b\<rparr>)"
proof (cases "cause = None \<and> en")
  case True
  obtain r b where e: "iirqext c (step_cnt s) k (devs s) = (r, b)" by fastforce
  have "r \<noteq> 0 \<longleftrightarrow> raised_ext (step_cnt s) k (devs s)"
    using ext.pend_iff [OF assms, of "step_cnt s" k] e by simp
  then show ?thesis
    using True e by (intro exI [of _ b]) (auto simp: poll_ext_def getPendingExt_def)
next
  case False
  then show ?thesis by (intro exI [of _ "devs s"]) (auto simp: poll_ext_def)
qed

lemma run_interrupt_cause:
  assumes "inv (devs s)"
  shows "\<exists>b. run_state (interrupt_cause c) s = (irq_choice c raised_loc raised_ext s, s\<lparr>devs := b\<rparr>)"
proof -
  let ?mie = "csr s CSR_mie" and ?t = "step_cnt s"
  define c1 where "c1 = (if bit ?mie 3 \<and> raised_loc ?t (2 * hartid c) (devs s) then Some 3 else None :: u64 option)"
  define c2 where "c2 = (if c1 = None \<and> bit ?mie 7 then
      if raised_loc ?t (Suc (2 * hartid c)) (devs s) then Some 7 else None else c1)"
  obtain b1 where 1: "run_state (poll_loc c (bit ?mie 3) (2 * hartid c) 3 None) s = (c1, s\<lparr>devs := b1\<rparr>)"
    and s1: "same_lines (devs s) b1"
    using run_poll_loc [OF assms, of "bit ?mie 3" "2 * hartid c" 3 None] unfolding c1_def by auto
  then have i1: "inv (devs (s\<lparr>devs := b1\<rparr>))" and r1: "raised_loc t k b1 = raised_loc t k (devs s)" for t k
    by (simp_all add: same_lines_def)
  obtain b2 where 2: "run_state (poll_loc c (bit ?mie 7) (Suc (2 * hartid c)) 7 c1) (s\<lparr>devs := b1\<rparr>) =
      (c2, s\<lparr>devs := b2\<rparr>)" and s2: "same_lines b1 b2"
    using run_poll_loc [OF i1, of "bit ?mie 7" "Suc (2 * hartid c)" 7 c1] by (auto simp: r1 c2_def cong: if_cong)
  then have i2: "inv (devs (s\<lparr>devs := b2\<rparr>))" and r2: "raised_ext t k b2 = raised_ext t k (devs s)" for t k
    using s1 by (simp_all add: same_lines_def)
  obtain b3 where 3: "run_state (poll_ext c (bit ?mie 11) 0 11 c2) (s\<lparr>devs := b2\<rparr>) =
      (if c2 = None \<and> bit ?mie 11 then if raised_ext ?t 0 (devs s) then Some 11 else None else c2,
       s\<lparr>devs := b3\<rparr>)"
    using run_poll_ext [OF i2, of "bit ?mie 11" 0 11 c2] by (auto simp: r2 cong: if_cong)
  have "run_state (interrupt_cause c) s =
      (if c2 = None \<and> bit ?mie 11 then if raised_ext ?t 0 (devs s) then Some 11 else None else c2,
       s\<lparr>devs := b3\<rparr>)"
    unfolding interrupt_cause_def Suc_eq_plus1 [symmetric]
    by (simp only: run_state_bind run_readCSR_plain csr_plain prod.case One_nat_def bitfield_bit 1 2 3)
  moreover have "irq_choice c raised_loc raised_ext s =
      (if c2 = None \<and> bit ?mie 11 then if raised_ext ?t 0 (devs s) then Some 11 else None else c2)"
    by (simp add: irq_choice_def Let_def c1_def c2_def)
  ultimately show ?thesis by (intro exI [of _ b3]) (simp only:)
qed

lemma run_handleInterrupts:
  assumes "inv (devs s)" and "bit (csr s CSR_mstatus) 3"
  shows "\<exists>b. run_state (handleInterrupts c) s =
     ((), case irq_choice c raised_loc raised_ext s of None \<Rightarrow> s\<lparr>devs := b\<rparr> | Some code \<Rightarrow> irq_entry code b s)"
proof -
  obtain b where b: "run_state (interrupt_cause c) s = (irq_choice c raised_loc raised_ext s, s\<lparr>devs := b\<rparr>)"
    using run_interrupt_cause [OF assms(1)] by blast
  have code: "irq_choice c raised_loc raised_ext s = Some code \<Longrightarrow> code < 64" for code
    by (auto simp: irq_choice_def Let_def split: if_splits)
  have mie: "bitfield 3 1 (csr s CSR_mstatus) \<noteq> 0" using assms(2) by simp
  show ?thesis
  proof (cases "irq_choice c raised_loc raised_ext s")
    case None
    with b mie show ?thesis by (intro exI [of _ b]) (simp add: handleInterrupts_def)
  next
    case (Some code)
    with b mie irq_mcause [OF code] show ?thesis
      by (intro exI [of _ b]) (simp add: handleInterrupts_def irq_entry_def Let_def)
  qed
qed

end

text \<open>With \<open>MIE\<close> clear no interrupt is taken and no controller is asked.\<close>

lemma handleInterrupts_masked:
  "\<not> bit (csr s CSR_mstatus) 3 \<Longrightarrow> run_state (handleInterrupts c) s = ((), s)"
  by (simp add: handleInterrupts_def)

section \<open>Properties\<close>

lemma lowest_exception_eq:
  assumes "bit t e" and "\<And>j. j < e \<Longrightarrow> \<not> bit t j"
  shows "lowest_exception t 0 = e"
proof -
  have "t \<noteq> 0" using assms(1) by auto
  from lowest_exception_spec [OF this, of 0] obtain k where
    k: "lowest_exception t 0 = k" "bit t k" "\<forall>j < k. \<not> bit t j" by auto
  then have "k = e" using assms by (metis linorder_neqE_nat)
  with k(1) show ?thesis by simp
qed

lemma run_checkStack_off:
  "csr s CSR_mstackovr = 0 \<Longrightarrow> csr s CSR_mstackund = 0 \<Longrightarrow> run_state (checkStackProtection c) s = ((), s)"
  by (simp add: checkStackProtection_def)

lemma run_handleTrap_exception:
  assumes "bit (exceptions s) e" and "\<And>j. j < e \<Longrightarrow> \<not> bit (exceptions s) j"
    and "estate s \<noteq> CORE_ProgbufExec" and "e = EXCEPTION_Breakpoint \<longrightarrow> \<not> bit (csr s CSR_dcsr) 15"
    and "csr s CSR_mstackovr = 0" and "csr s CSR_mstackund = 0"
  shows "run_state (handleTrap c) s =
    ((), s\<lparr>exceptions := exceptions s AND NOT (push_bit e 1),
           csr := (csr s)(CSR_mcause := of_nat e,
             CSR_mstatus := trap_mstatus (cur_prv_level s) (csr s CSR_mstatus), CSR_mepc := npc_of s),
           cur_prv_level := PRV_M,
           ctx_npc := (ctx_npc s)(cur_ctx s := csr s CSR_mtvec AND NOT 3)\<rparr>)"
proof -
  have "e < 64" using assms(1) bit_imp_le_length by fastforce
  moreover have "exceptions s \<noteq> 0" using assms(1) by auto
  ultimately show ?thesis
    using assms(3-) run_handleException [of e "s\<lparr>exceptions := exceptions s AND NOT (push_bit e 1)\<rparr>" c]
    by (simp add: handleTrap_def run_checkStack_off lowest_exception_eq [OF assms(1,2)])
qed



text \<open>C9. Taking an exception and returning with \<open>MRET\<close> restores the privilege level, the next program
  counter and the registers. Of \<open>mstatus\<close>, \<open>MPIE\<close> is set, \<open>MPP\<close> is cleared and \<open>MIE\<close> becomes the bit at the position of the
  interrupted privilege level: the old \<open>MIE\<close> in machine mode, but bit 0 in user mode.\<close>

theorem trap_return_restores:
  assumes "e < 64" and "estate s \<noteq> CORE_ProgbufExec" and "e = EXCEPTION_Breakpoint \<longrightarrow> \<not> bit (csr s CSR_dcsr) 15"
    and "cur_prv_level s \<le> 3"
  shows "let s' = snd (run_state (do { handleException c e; exec_MRET c p }) s) in
    cur_prv_level s' = cur_prv_level s \<and> npc_of s' = npc_of s \<and> regs s' = regs s \<and> devs s' = devs s \<and>
    (\<forall>i < 64. bit (csr s' CSR_mstatus) i \<longleftrightarrow>
       (if i = 3 then bit (csr s CSR_mstatus) (unat (cur_prv_level s))
        else if i = 7 then True else if 11 \<le> i \<and> i < 13 then False else bit (csr s CSR_mstatus) i))"
  using assms
  by (simp add: run_handleException [OF assms(1-3)] run_MRET mret_mstatus_bits trap_mstatus_bits trap_mstatus_MPP Let_def)


theorem trap_return_restores_witness:
  "let s = (sample_cpu ())\<lparr>cur_prv_level := PRV_U\<rparr>;
       s' = snd (run_state (do { handleException sample_cfg 8; exec_MRET sample_cfg 0 }) s) in
    cur_prv_level s' = cur_prv_level s \<and> npc_of s' = npc_of s \<and> regs s' = regs s \<and> devs s' = devs s \<and>
    (\<forall>i < 64. bit (csr s' CSR_mstatus) i \<longleftrightarrow>
       (if i = 3 then bit (csr s CSR_mstatus) (unat (cur_prv_level s))
        else if i = 7 then True else if 11 \<le> i \<and> i < 13 then False else bit (csr s CSR_mstatus) i))"
  unfolding Let_def by (rule trap_return_restores [unfolded Let_def]) (simp_all add: sample_cpu_def)

text \<open>With \<open>dcsr.ebreakm\<close> set, a breakpoint halts the core instead of trapping: \<open>dcsr.cause\<close> says so, \<open>dpc\<close> and the next
  program counter are the address of the breakpoint.\<close>

lemma ebreak_halts:
  assumes "estate s = CORE_Normal" and "bit (csr s CSR_dcsr) 15"
  shows "run_state (handleException c EXCEPTION_Breakpoint) s =
    ((), s\<lparr>csr := (csr s)(CSR_mcause := 3, CSR_dcsr := set_bitfield 6 3 1 (ucast (ucast (csr s CSR_dcsr) :: u32)),
                          CSR_dpc := pc_of s),
           estate := CORE_Halted, ctx_npc := (ctx_npc s)(cur_ctx s := pc_of s)\<rparr>)"
  using assms by (rule run_handleException_ebreak)


end
