(* ===== verification/Run_Control.thy ===== *)
theory Run_Control
  imports Cpu_Traps
begin

text \<open>
  The run-control state machine seen from the debug module: halt requests, single steps, resuming and
  the program buffer, each as an equation for one iteration of the pipeline (\<^verbatim>\<open>CpuGeneric::updatePipeline\<close>).
\<close>

section \<open>What the clock queue leaves alone\<close>

lemma callback_loop_frame: "\<exists>q b. callback_loop c s = s\<lparr>queue := q, devs := b\<rparr>"
proof (induction c s rule: callback_loop.induct)
  case (1 c s)
  obtain r q where g: "q_getNext (step_cnt s) (queue s) = (r, q)" by fastforce
  show ?case
  proof (cases r)
    case None
    with g show ?thesis by (intro exI [of _ q] exI [of _ "devs s"]) (simp add: callback_loop.simps [of c s])
  next
    case (Some cb)
    obtain b rqs where r: "stepCallback c cb (step_cnt s) (devs s) = (b, rqs)" by fastforce
    from "1.IH" [OF g [symmetric] Some r [symmetric]] g Some r show ?thesis
      by (auto simp: callback_loop.simps [of c s])
  qed
qed

lemma run_updateQueue_frame: "\<exists>q b. run_state (updateQueue c) s = ((), s\<lparr>queue := q, devs := b\<rparr>)"
proof -
  let ?s = "s\<lparr>queue := q_pushPreQueued (q_initProc (queue s))\<rparr>"
  obtain q b where "callback_loop c ?s = ?s\<lparr>queue := q, devs := b\<rparr>" using callback_loop_frame [of c ?s] by auto
  then show ?thesis by (intro exI [of _ q] exI [of _ b]) (simp add: updateQueue_def)
qed

lemma run_isStepEnabled: "run_state (isStepEnabled c) s = (bit (csr s CSR_dcsr) 2, s)"
  by (simp add: isStepEnabled_def read_dcsr_def bit_simps)

section \<open>Properties\<close>

text \<open>A halt request stops a running core in the next iteration, before another instruction is fetched: \<open>dcsr.cause\<close> is
  3 and \<open>dpc\<close> the address of the next instruction.\<close>

lemma halt_request_served:
  assumes "estate s = CORE_Normal" and "haltreq s"
  shows "updatePipeline c s = Some (s\<lparr>haltreq := False, estate := CORE_Halted,
      csr := (csr s)(CSR_dcsr := set_bitfield 6 3 3 (ucast (ucast (csr s CSR_dcsr) :: u32)), CSR_dpc := npc_of s)\<rparr>)"
  using assms by (simp add: updatePipeline_def updateState_def halt_def enterDebugMode_def)

lemma halt_request_served_witness:
  "updatePipeline sample_cfg ((sample_cpu ())\<lparr>haltreq := True\<rparr>) =
    Some ((sample_cpu ())\<lparr>estate := CORE_Halted,
      csr := (csr (sample_cpu ()))(CSR_dcsr := set_bitfield 6 3 3 (ucast (ucast (csr (sample_cpu ()) CSR_dcsr) :: u32)),
                                   CSR_dpc := 0x10000)\<rparr>)"
  using halt_request_served [of "(sample_cpu ())\<lparr>haltreq := True\<rparr>" sample_cfg] by (simp add: sample_cpu_def)

text \<open>A halted core without a request only serves the clock queue: an iteration changes the devices and the queue
  and nothing else.\<close>

lemma halted_core_stands:
  assumes "isHalted s" and "\<not> procbufexecreq s" and "\<not> resumereq s"
  shows "\<exists>q b. updatePipeline c s = Some (s\<lparr>queue := q, devs := b\<rparr>)"
proof -
  obtain q b where "run_state (updateQueue c) s = ((), s\<lparr>queue := q, devs := b\<rparr>)" using run_updateQueue_frame [of c s] by auto
  then show ?thesis
    using assms
    by (intro exI [of _ q] exI [of _ b]) (auto simp: updatePipeline_def updateState_def isHalted_def split: ECoreState.split)
qed

text \<open>Halting and resuming is transparent: after a halt request, an iteration, and a resume request, the core runs on
  with the state it had, except for \<open>dcsr\<close>, \<open>dpc\<close>, the request flags and the step counter.\<close>

lemma halt_resume_roundtrip:
  assumes "estate s = CORE_Normal" and "\<not> procbufexecreq s"
  shows "\<exists>s1. run_state haltreq_op s = (0, s\<lparr>haltreq := True\<rparr>) \<and> updatePipeline c (s\<lparr>haltreq := True\<rparr>) = Some s1 \<and> isHalted s1 \<and>
    fst (run_state resumereq_op s1) = 0 \<and>
    run_state (updateState c) (snd (run_state resumereq_op s1)) =
      (True, s\<lparr>haltreq := False, resumereq := False, resumeack := True, step_cnt := step_cnt s + 1,
        csr := (csr s)(CSR_dcsr := set_bitfield 6 3 3 (ucast (ucast (csr s CSR_dcsr) :: u32)), CSR_dpc := npc_of s)\<rparr>)"
  using assms
  by (simp add: updatePipeline_def updateState_def halt_def enterDebugMode_def haltreq_op_def resumereq_op_def isHalted_def resume_def)

lemma halt_resume_roundtrip_witness:
  "\<exists>s1. run_state haltreq_op (sample_cpu ()) = (0, (sample_cpu ())\<lparr>haltreq := True\<rparr>) \<and>
    updatePipeline sample_cfg ((sample_cpu ())\<lparr>haltreq := True\<rparr>) = Some s1 \<and> isHalted s1 \<and>
    fst (run_state resumereq_op s1) = 0 \<and>
    run_state (updateState sample_cfg) (snd (run_state resumereq_op s1)) =
      (True, (sample_cpu ())\<lparr>haltreq := False, resumereq := False, resumeack := True, step_cnt := step_cnt (sample_cpu ()) + 1,
        csr := (csr (sample_cpu ()))(CSR_dcsr := set_bitfield 6 3 3 (ucast (ucast (csr (sample_cpu ()) CSR_dcsr) :: u32)),
                                     CSR_dpc := npc_of (sample_cpu ()))\<rparr>)"
  by (rule halt_resume_roundtrip) (simp_all add: sample_cpu_def)

text \<open>With \<open>dcsr.step\<close> set, a running core halts in the next iteration with cause 4; so a resumed core, whose first
  iteration does not look at \<open>step\<close>, executes exactly one instruction.\<close>

lemma single_step_halts:
  assumes "estate s = CORE_Normal" and "\<not> haltreq s" and "triggersTotal c = 0" and "bit (csr s CSR_dcsr) 2"
  shows "updatePipeline c s = Some (s\<lparr>estate := CORE_Halted,
      csr := (csr s)(CSR_dcsr := set_bitfield 6 3 4 (ucast (ucast (csr s CSR_dcsr) :: u32)), CSR_dpc := npc_of s)\<rparr>)"
  using assms
  by (simp add: updatePipeline_def updateState_def halt_def enterDebugMode_def isTriggerICount_def run_isStepEnabled)

lemma single_step_halts_witness:
  "updatePipeline (sample_cfg\<lparr>triggersTotal := 0\<rparr>) ((sample_cpu ())\<lparr>csr := (\<lambda>_. 0)(CSR_dcsr := 4)\<rparr>) =
    Some ((sample_cpu ())\<lparr>estate := CORE_Halted,
      csr := (\<lambda>_. 0)(CSR_dcsr := set_bitfield 6 3 4 (ucast (ucast (4 :: u64) :: u32)), CSR_dpc := 0x10000)\<rparr>)"
proof -
  have "bit (4 :: u64) 2" by simp
  then show ?thesis
    using single_step_halts [of "(sample_cpu ())\<lparr>csr := (\<lambda>_. 0)(CSR_dcsr := 4)\<rparr>" "sample_cfg\<lparr>triggersTotal := 0\<rparr>"]
    by (simp add: sample_cpu_def)
qed

text \<open>The program buffer runs in a context of its own: a halted core that was asked to execute it switches to the
  second pair of program counters, and a breakpoint there switches back and halts, so that the program
  counters of the interrupted program are those from before.\<close>

lemma progbuf_context:
  assumes "isHalted s" and "procbufexecreq s" and "cur_ctx s = Ctx_Normal"
  shows "\<exists>s1. updatePipeline c s = Some s1 \<and> estate s1 = CORE_ProgbufExec \<and> pc_of s1 = ctx_pc s Ctx_ProgbufExec \<and>
    npc_of s1 = 0 \<and> regs s1 = regs s \<and> csr s1 = csr s \<and>
    (\<forall>s2. estate s2 = CORE_ProgbufExec \<and> ctx_pc s2 Ctx_Normal = ctx_pc s1 Ctx_Normal \<and>
          ctx_npc s2 Ctx_Normal = ctx_npc s1 Ctx_Normal \<longrightarrow>
      (let s3 = snd (run_state (handleException c EXCEPTION_Breakpoint) s2)
       in isHalted s3 \<and> pc_of s3 = pc_of s \<and> npc_of s3 = npc_of s \<and> regs s3 = regs s2 \<and> csr s3 = csr s2))"
  using assms
  by (auto simp: updatePipeline_def updateState_def isHalted_def enterProgbufExec_def handleException_def
      exitProgbufExec_def Let_def split: ECoreState.split)

lemma progbuf_context_witness:
  "\<exists>s1. updatePipeline sample_cfg ((sample_cpu ())\<lparr>estate := CORE_Halted, procbufexecreq := True\<rparr>) = Some s1 \<and>
    estate s1 = CORE_ProgbufExec \<and>
    pc_of s1 = ctx_pc ((sample_cpu ())\<lparr>estate := CORE_Halted, procbufexecreq := True\<rparr>) Ctx_ProgbufExec \<and>
    npc_of s1 = 0 \<and> regs s1 = regs ((sample_cpu ())\<lparr>estate := CORE_Halted, procbufexecreq := True\<rparr>) \<and>
    csr s1 = csr ((sample_cpu ())\<lparr>estate := CORE_Halted, procbufexecreq := True\<rparr>) \<and>
    (\<forall>s2 :: unit cpu. estate s2 = CORE_ProgbufExec \<and> ctx_pc s2 Ctx_Normal = ctx_pc s1 Ctx_Normal \<and>
          ctx_npc s2 Ctx_Normal = ctx_npc s1 Ctx_Normal \<longrightarrow>
      (let s3 = snd (run_state (handleException sample_cfg EXCEPTION_Breakpoint) s2)
       in isHalted s3 \<and> pc_of s3 = pc_of ((sample_cpu ())\<lparr>estate := CORE_Halted, procbufexecreq := True\<rparr>) \<and>
          npc_of s3 = npc_of ((sample_cpu ())\<lparr>estate := CORE_Halted, procbufexecreq := True\<rparr>) \<and>
          regs s3 = regs s2 \<and> csr s3 = csr s2))"
  by (rule progbuf_context) (simp_all add: isHalted_def sample_cpu_def)

end
