(* ===== verification/Pipeline_Step.thy ===== *)
theory Pipeline_Step
  imports Cpu_Memory Run_Control
begin

text \<open>
  One iteration of \<^verbatim>\<open>updatePipeline\<close> on a running core, from the fetch to the update of the program counter, over
  a memory that meets the contract \<open>cpu_memory\<close>: a fetched word that decodes is executed, one that does not
  traps. The end of the step is followed for a core that has nothing else to do (\<open>quiet\<close>).
\<close>

section \<open>The states of a step\<close>

text \<open>\<open>fetch_state s tr w\<close> is the state after the fetch of \<open>w\<close>; \<open>tick_watchdog\<close> is what the decoder does to the LR/SC
  watchdog.\<close>

definition fetch_state :: "'b cpu \<Rightarrow> axi4 \<Rightarrow> u64 \<Rightarrow> 'b cpu" where
  "fetch_state s tr w =
     s\<lparr>step_cnt := step_cnt s + 1, ctx_pc := (ctx_pc s)(cur_ctx s := npc_of s), branch := False, oplen := 0,
       trans_fetch := tr, cacheline := w\<rparr>"

definition running :: "'b cpu_cfg \<Rightarrow> 'b cpu \<Rightarrow> bool" where
  "running c s \<longleftrightarrow> estate s = CORE_Normal \<and> \<not> haltreq s \<and> triggersTotal c = 0 \<and> \<not> bit (csr s CSR_dcsr) 2"

definition quiet :: "'b cpu \<Rightarrow> bool" where
  "quiet s \<longleftrightarrow> q_items (queue s) = [] \<and> q_pre (queue s) = [] \<and> exceptions s = 0 \<and> \<not> bit (csr s CSR_mstatus) 3 \<and>
     csr s CSR_mstackovr = 0 \<and> csr s CSR_mstackund = 0"

lemma run_updateQueue_empty:
  "q_items (queue s) = [] \<Longrightarrow> q_pre (queue s) = [] \<Longrightarrow> run_state (updateQueue c) s = ((), s\<lparr>queue := (queue s)\<lparr>q_cnt := 0\<rparr>\<rparr>)"
  by (simp add: updateQueue_def q_initProc_def q_pushPreQueued_def callback_loop.simps q_getNext.simps)

lemma run_finish_quiet:
  assumes "quiet s"
  shows "run_state (finish_step c) s =
    ((), s\<lparr>ctx_npc := (if branch s then ctx_npc s else (ctx_npc s)(cur_ctx s := pc_of s + of_nat (oplen s))),
           queue := (queue s)\<lparr>q_cnt := 0\<rparr>\<rparr>)"
  using assms
  by (simp add: quiet_def finish_step_def run_updateQueue_empty handleTrap_def checkStackProtection_def handleInterrupts_masked)

definition tick_watchdog :: "'b cpu \<Rightarrow> 'b cpu" where
  "tick_watchdog s = (if mmuReservedAddrWatchdog s \<noteq> 0
                   then s\<lparr>mmuReservedAddrWatchdog := mmuReservedAddrWatchdog s - 1\<rparr> else s)"

lemma run_execute_Some:
  assumes "lookup_instr c (cacheline s) = Some i" and "run_state (iexec i (cacheline s)) (tick_watchdog s) = (n, s')"
  shows "run_state (execute c) s = ((), s'\<lparr>oplen := n, do_not_cache := False, pc_z := pc_of s'\<rparr>)"
  using assms by (simp add: execute_def decodeInstruction_def tick_watchdog_def split: if_splits)

lemma run_execute_None:
  assumes "lookup_instr c (cacheline s) = None"
  shows "run_state (execute c) s =
    ((), (tick_watchdog s)\<lparr>csr := (csr s)(CSR_mtval := pc_of s), exceptions := exceptions s OR push_bit EXCEPTION_InstrIllegal 1,
         do_not_cache := False, pc_z := pc_of s\<rparr>)"
  using assms by (simp add: execute_def decodeInstruction_def tick_watchdog_def generateIllegalOpcode_def)

lemma parse_ADD: "parse_pattern ''0000000??????????000?????0110011'' w \<longleftrightarrow> w AND NOT 0x01FF8F80 = 0x33"
  by (simp add: parse_pattern_def pattern_mask_def pattern_opcode_def)

lemma lookup_ADD:
  assumes "buf32_0 w AND NOT 0x01FF8F80 = 0x33"
  shows "lookup_instr c w = Some (mk_instr ''ADD'' ''0000000??????????000?????0110011'' (exec_ADD c))"
  using assms unfolding lookup_instr_linear isa_instructions_def isaUserRV64I_def append_Cons find.simps
  by (simp add: mk_instr_def parse_ADD)

section \<open>Fetch, decode, execute\<close>

context cpu_memory
begin

lemma run_fetch:
  assumes "estate s = CORE_Normal" and "sok (devs s) (pc_of s) 4" and "4 \<le> sysBusWidthBytes c" and "\<not> mpu_denies c (pc_of s) RWX_x s"
  shows "\<exists>tr. fetchILine c s = Some (s\<lparr>trans_fetch := tr, cacheline := load_word (sbyte (devs s)) (pc_of s) 4\<rparr>)"
proof -
  let ?tr = "(trans_fetch s)\<lparr>action := MemAction_Read, addr := pc_of s, xsize := 4, wstrb := 0, source_idx := sysBusMasterID c\<rparr>"
  have "read_req (pc_of s) 4 ?tr" by (simp add: read_req_def)
  from bus_read [OF assms(2) this, of "step_cnt s"] obtain tr where
    "isysbus c (step_cnt s) ?tr (devs s) = ((TRANS_OK, tr), devs s, [])" "rpayload tr = load_word (sbyte (devs s)) (pc_of s) 4"
    by blast
  then have "run_state (fetch_attempt c) s = (True, s\<lparr>trans_fetch := tr, cacheline := load_word (sbyte (devs s)) (pc_of s) 4\<rparr>)"
    using assms by (simp add: fetch_attempt_def run_dma_memop)
  then show ?thesis by (intro exI [of _ tr]) (simp add: fetchILine.simps)
qed

lemma pipeline_step:
  assumes "running c s" and "sok (devs s) (npc_of s) 4" and "4 \<le> sysBusWidthBytes c" and "\<not> mpu_denies c (npc_of s) RWX_x s"
  shows "\<exists>tr. updatePipeline c s =
     Some (snd (run_state (do { execute c; finish_step c }) (fetch_state s tr (load_word (sbyte (devs s)) (npc_of s) 4))))"
proof -
  let ?s = "s\<lparr>step_cnt := step_cnt s + 1, ctx_pc := (ctx_pc s)(cur_ctx s := npc_of s), branch := False, oplen := 0\<rparr>"
  have no: "(\<lambda>i. if i < triggersTotal c then f i else g i) = g" for f g :: "nat \<Rightarrow> trigger"
    using assms(1) by (simp add: running_def)
  have 1: "run_state (updateState c) s = (True, s\<lparr>step_cnt := step_cnt s + 1\<rparr>)"
    using assms(1) by (simp add: updateState_def running_def isTriggerICount_def run_isStepEnabled)
  have 2: "run_state (start_step c) (s\<lparr>step_cnt := step_cnt s + 1\<rparr>) = (False, ?s)"
    using assms(1) by (simp add: start_step_def isTriggerInstruction_def running_def)
  have "mpu_denies c (npc_of s) RWX_x ?s = mpu_denies c (npc_of s) RWX_x s"
    by (simp add: mpu_denies_def isMpuEnabled_def checkMpu_def)
  then obtain tr where 3: "fetchILine c ?s = Some (fetch_state s tr (load_word (sbyte (devs s)) (npc_of s) 4))"
    using run_fetch [of ?s] assms by (auto simp: running_def fetch_state_def)
  show ?thesis
    by (intro exI [of _ tr]) (simp add: updatePipeline_def 1 2 3 del: run_state_bind)
qed

lemma add_step:
  assumes run: "running c s" and mem: "sok (devs s) (npc_of s) 4" "4 \<le> sysBusWidthBytes c" "\<not> mpu_denies c (npc_of s) RWX_x s"
    and quiet: "quiet s" and w: "buf32_0 w AND NOT 0x01FF8F80 = 0x33" "w = load_word (sbyte (devs s)) (npc_of s) 4"
  shows "\<exists>s'. updatePipeline c s = Some s' \<and>
     regs s' = (if ISA_rd (buf32_0 w) = 0 then regs s
                else (regs s)(ISA_rd (buf32_0 w) := regs s (ISA_rs1 (buf32_0 w)) + regs s (ISA_rs2 (buf32_0 w)))) \<and>
     pc_of s' = npc_of s \<and> npc_of s' = npc_of s + 4 \<and> csr s' = csr s \<and> devs s' = devs s \<and>
     estate s' = CORE_Normal \<and> step_cnt s' = step_cnt s + 1"
proof -
  obtain tr where u: "updatePipeline c s = Some (snd (run_state (do { execute c; finish_step c }) (fetch_state s tr w)))"
    using pipeline_step [OF run mem] w(2) by blast
  let ?s = "tick_watchdog (fetch_state s tr w)"
  have c: "cacheline (fetch_state s tr w) = w" by (simp add: fetch_state_def)
  define s2 where "s2 = (if ISA_rd (buf32_0 w) = 0 then ?s else ?s\<lparr>regs := (regs s)(ISA_rd (buf32_0 w) := regs s (ISA_rs1 (buf32_0 w)) + regs s (ISA_rs2 (buf32_0 w)))\<rparr>)"
  have "run_state (exec_ADD c w) ?s = (4, s2)"
    by (simp add: exec_ADD_def s2_def tick_watchdog_def fetch_state_def)
  then have x: "run_state (execute c) (fetch_state s tr w) = ((), s2\<lparr>oplen := 4, do_not_cache := False, pc_z := pc_of s2\<rparr>)"
    using run_execute_Some [of c "fetch_state s tr w", unfolded c, OF lookup_ADD [OF w(1)]] by (simp add: mk_instr_def)
  have q: "quiet (s2\<lparr>oplen := 4, do_not_cache := False, pc_z := pc_of s2\<rparr>)"
    using quiet by (simp add: quiet_def s2_def tick_watchdog_def fetch_state_def)
  show ?thesis
    using run unfolding u by (simp add: x run_finish_quiet [OF q]) (simp add: s2_def tick_watchdog_def fetch_state_def running_def)
qed

lemma illegal_step:
  assumes run: "running c s" and mem: "sok (devs s) (npc_of s) 4" "4 \<le> sysBusWidthBytes c" "\<not> mpu_denies c (npc_of s) RWX_x s"
    and quiet: "quiet s" and w: "lookup_instr c (load_word (sbyte (devs s)) (npc_of s) 4) = None"
  shows "\<exists>s'. updatePipeline c s = Some s' \<and> regs s' = regs s \<and> cur_prv_level s' = PRV_M \<and>
     npc_of s' = csr s CSR_mtvec AND NOT 3 \<and> csr s' CSR_mcause = of_nat EXCEPTION_InstrIllegal \<and>
     csr s' CSR_mtval = npc_of s \<and> csr s' CSR_mepc = npc_of s \<and> exceptions s' = 0 \<and> devs s' = devs s"
proof -
  let ?w = "load_word (sbyte (devs s)) (npc_of s) 4"
  obtain tr where u: "updatePipeline c s = Some (snd (run_state (do { execute c; finish_step c }) (fetch_state s tr ?w)))"
    using pipeline_step [OF run mem] by blast
  let ?f = "fetch_state s tr ?w"
  define s1 where "s1 = (tick_watchdog ?f)\<lparr>csr := (csr s)(CSR_mtval := npc_of s), exceptions := push_bit EXCEPTION_InstrIllegal 1,
     do_not_cache := False, pc_z := npc_of s\<rparr>"
  have x: "run_state (execute c) ?f = ((), s1)"
    using quiet run_execute_None [of c ?f] w by (simp add: s1_def fetch_state_def tick_watchdog_def quiet_def)
  define s2 where "s2 = s1\<lparr>ctx_npc := (ctx_npc s)(cur_ctx s := npc_of s), queue := (queue s)\<lparr>q_cnt := 0\<rparr>\<rparr>"
  have y: "run_state (finish_step c) s1 = run_state (handleTrap c) s2"
    using quiet by (simp add: finish_step_def s1_def s2_def fetch_state_def tick_watchdog_def quiet_def run_updateQueue_empty)
  have e: "exceptions s2 = push_bit 2 1" by (simp add: s2_def s1_def)
  have "run_state (handleTrap c) s2 =
    ((), s2\<lparr>exceptions := exceptions s2 AND NOT (push_bit 2 1),
           csr := (csr s2)(CSR_mcause := of_nat 2,
             CSR_mstatus := trap_mstatus (cur_prv_level s2) (csr s2 CSR_mstatus), CSR_mepc := npc_of s2),
           cur_prv_level := PRV_M,
           ctx_npc := (ctx_npc s2)(cur_ctx s2 := csr s2 CSR_mtvec AND NOT 3)\<rparr>)"
  proof (rule run_handleTrap_exception)
    show "bit (exceptions s2) 2" "\<And>j. j < 2 \<Longrightarrow> \<not> bit (exceptions s2) j" unfolding e by (simp_all only: bit_push_bit_iff) (auto simp: bit_1_iff)
    show "estate s2 \<noteq> CORE_ProgbufExec" "csr s2 CSR_mstackovr = 0" "csr s2 CSR_mstackund = 0"
      using run quiet by (simp_all add: s2_def s1_def fetch_state_def tick_watchdog_def running_def quiet_def)
  qed simp
  then show ?thesis
    unfolding u by (simp add: x y) (simp add: s2_def s1_def fetch_state_def tick_watchdog_def)
qed

end

end
