(* ===== verification/Cpu_Atomics.thy ===== *)
theory Cpu_Atomics
  imports Cpu_Memory
begin

text \<open>
  The atomic instructions over a memory that meets the contract \<open>cpu_memory\<close>: the read-modify-write of the
  AMO classes, and the reservation of \<open>LR\<close> and \<open>SC\<close>.
\<close>

section \<open>Read-modify-write\<close>

lemma ucast_ucast_u32: "ucast (ucast w :: u32) = take_bit 32 (w :: u64)"
  by (rule bit_word_eqI) (auto simp: bit_simps)

context cpu_memory
begin

lemma load_word_after_write:
  assumes "sok b a n" and w: "\<forall>x. sok b x 1 \<longrightarrow> sbyte b' x = (if in_bytes x a n then b8 (unat (x - a)) v else sbyte b x)"
  shows "load_word (sbyte b') a n = take_bit (8 * n) v"
proof (rule load_word_written)
  show "n \<le> 8" by (rule memory_slave.ok_size [OF slave assms(1)])
  then show "sbyte b' (a + of_nat i) = b8 i v" if "i < n" for i
    using that w memory_slave.ok_part [OF slave assms(1) that] by (simp add: in_bytes_def unat_of_nat)
qed

lemma run_amo:
  assumes "aligned a n" and "sok (devs s) a n" and "n \<le> sysBusWidthBytes c"
    and "\<not> mpu_denies c a RWX_r s" and "\<not> mpu_denies c a RWX_w s"
    and a: "a = regs s (ISA_rs1 (buf32_0 p))"
    and t: "t = (let m = load_word (sbyte (devs s)) a n in if n = 4 then sext32 m else m)"
  shows "\<exists>b'. run_state (amo_exec c n f p) s = (4, write_rd (buf32_0 p) t (s\<lparr>devs := b'\<rparr>)) \<and>
     load_word (sbyte b') a n = take_bit (8 * n) (f (regs s (ISA_rs2 (buf32_0 p))) t) \<and>
     (\<forall>x. sok (devs s) x 1 \<and> \<not> in_bytes x a n \<longrightarrow> sbyte b' x = sbyte (devs s) x)"
proof -
  let ?b = "devs s" and ?tr = "load_trans c a n (uninit c)\<lparr>source_idx := sysBusMasterID c\<rparr>"
    and ?v = "f (regs s (ISA_rs2 (buf32_0 p))) t"
  obtain tr where r: "isysbus c (step_cnt s) ?tr ?b = ((TRANS_OK, tr), ?b, [])"
    and pay: "rpayload tr = load_word (sbyte ?b) a n" and req: "read_req a n tr"
    using bus_read [OF assms(2), of ?tr "step_cnt s"] by (auto simp: read_req_def load_trans_def)
  let ?wr = "tr\<lparr>action := MemAction_Write, wstrb := of_nat (2 ^ xsize tr - 1), wpayload := ?v, source_idx := sysBusMasterID c\<rparr>"
  have w: "write_req a n ?wr" using req by (simp add: write_req_def read_req_def)
  obtain tr' b' where wr: "isysbus c (step_cnt s) ?wr ?b = ((TRANS_OK, tr'), b', [])"
    and b': "\<forall>x. sok ?b x 1 \<longrightarrow> sbyte b' x = (if in_bytes x a n then b8 (unat (x - a)) ?v else sbyte ?b x)"
    using bus_write [OF assms(2) w, of "step_cnt s"] by auto
  have tv: "(if n = 4 then let t = b32_0 (rpayload tr) in if t AND 0x80000000 \<noteq> 0 then t OR EXT_SIGN_32 else t
      else rpayload tr) = t"
    unfolding t pay Let_def sext32_def b32_0_def
    by (simp add: and_mask32 ucast_ucast_u32)
  have "run_state (amo_exec c n f p) s = (4, write_rd (buf32_0 p) t (s\<lparr>devs := b'\<rparr>))"
  proof -
    have al: "a AND of_nat (n - 1) = 0" using assms(1) by (simp add: aligned_def)
    have 1: "run_state (dma_memop c (load_trans c a n (uninit c)) False) s = ((TRANS_OK, tr), s)"
      using assms(3,4) r by (simp add: run_dma_memop load_trans_def)
    have 2: "run_state (dma_memop c (tr\<lparr>action := MemAction_Write, wstrb := of_nat (2 ^ xsize tr - 1), wpayload := ?v\<rparr>) False) s =
        ((TRANS_OK, tr'), s\<lparr>devs := b'\<rparr>)"
      using assms(3,5) wr req by (simp add: run_dma_memop read_req_def)
    show ?thesis
      unfolding amo_exec_def write_rd_def
      by (simp only: run_state_bind run_primitives prod.case Let_def a [symmetric] al 1 if_False simp_thms
          ETransStatus.distinct tv [unfolded Let_def] 2 run_whenM run_state_return fst_conv snd_conv cpu.select_convs run_if)
  qed
  moreover note load_word_after_write [OF assms(2) b']
  ultimately show ?thesis using b' by (intro exI [of _ b'] conjI) (assumption, assumption, simp)
qed

lemma run_LR_W:
  assumes "aligned a 4" and "sok (devs s) a 4" and "4 \<le> sysBusWidthBytes c" and "\<not> mpu_denies c a RWX_r s"
    and a: "a = regs s (ISA_rs1 (buf32_0 p))"
  shows "run_state (exec_LR_W c p) s =
    (4, write_rd (buf32_0 p) (sext32 (load_word (sbyte (devs s)) a 4))
          (s\<lparr>mmuReservatedAddr := a, mmuReservedAddrWatchdog := 64\<rparr>))"
proof -
  let ?tr = "load_trans c a 4 (uninit c)\<lparr>source_idx := sysBusMasterID c\<rparr>"
  obtain tr where r: "isysbus c (step_cnt s) ?tr (devs s) = ((TRANS_OK, tr), devs s, [])"
    and pay: "rpayload tr = load_word (sbyte (devs s)) a 4" and req: "read_req a 4 tr"
    using bus_read [OF assms(2), of ?tr "step_cnt s"] by (auto simp: read_req_def load_trans_def)
  have 1: "run_state (dma_memop c (load_trans c a 4 (uninit c)) False) s = ((TRANS_OK, tr), s)"
    using assms(3,4) r by (simp add: run_dma_memop load_trans_def)
  have tv: "(let t = b32_0 (rpayload tr) in if t AND 0x80000000 \<noteq> 0 then t OR EXT_SIGN_32 else t) =
      sext32 (load_word (sbyte (devs s)) a 4)"
    unfolding pay Let_def sext32_def b32_0_def by (simp add: and_mask32 ucast_ucast_u32)
  have al: "a AND 3 = 0" using assms(1) by (simp add: aligned_def)
  have "addr tr = a" using req by (simp add: read_req_def)
  then show ?thesis
    unfolding exec_LR_W_def write_rd_def
    by (simp only: run_state_bind run_primitives prod.case Let_def a [symmetric] al 1 if_False simp_thms
          ETransStatus.distinct tv [unfolded Let_def] run_whenM run_state_return fst_conv snd_conv cpu.select_convs run_if)
qed

lemma run_SC_W_fail:
  assumes "mmuReservedAddrWatchdog s = 0 \<or> mmuReservatedAddr s \<noteq> regs s (ISA_rs1 (buf32_0 p))"
  shows "run_state (exec_SC_W c p) s = (4, write_rd (buf32_0 p) 1 s)"
  using assms by (auto simp: exec_SC_W_def mmuAddrRelease_def write_rd_def)

lemma run_SC_W:
  assumes "aligned a 4" and "sok (devs s) a 4" and "4 \<le> sysBusWidthBytes c" and "\<not> mpu_denies c a RWX_w s"
    and a: "a = regs s (ISA_rs1 (buf32_0 p))" and "mmuReservedAddrWatchdog s \<noteq> 0" and "mmuReservatedAddr s = a"
  shows "\<exists>b'. run_state (exec_SC_W c p) s = (4, write_rd (buf32_0 p) 0 (s\<lparr>mmuReservedAddrWatchdog := 0, devs := b'\<rparr>)) \<and>
     load_word (sbyte b') a 4 = take_bit 32 (regs s (ISA_rs2 (buf32_0 p))) \<and>
     (\<forall>x. sok (devs s) x 1 \<and> \<not> in_bytes x a 4 \<longrightarrow> sbyte b' x = sbyte (devs s) x)"
proof -
  let ?v = "regs s (ISA_rs2 (buf32_0 p))"
  let ?wr = "store_trans c a 4 ?v\<lparr>source_idx := sysBusMasterID c\<rparr>"
  let ?s = "s\<lparr>mmuReservedAddrWatchdog := 0\<rparr>"
  have w: "write_req a 4 ?wr" by (simp add: write_req_def store_trans_def)
  have p: "wpayload ?wr = ?v" by (simp add: store_trans_def)
  obtain tr' b' where wr: "isysbus c (step_cnt s) ?wr (devs s) = ((TRANS_OK, tr'), b', [])"
    and b': "\<forall>x. sok (devs s) x 1 \<longrightarrow> sbyte b' x = (if in_bytes x a 4 then b8 (unat (x - a)) ?v else sbyte (devs s) x)"
    using bus_write [OF assms(2) w, of "step_cnt s"] unfolding p by auto
  have d: "mpu_denies c a RWX_w ?s = mpu_denies c a RWX_w s"
    by (simp add: mpu_denies_def isMpuEnabled_def checkMpu_def)
  have 1: "run_state (dma_memop c (store_trans c a 4 ?v) False) ?s = ((TRANS_OK, tr'), ?s\<lparr>devs := b'\<rparr>)"
    using assms(3,4) wr d by (simp add: run_dma_memop store_trans_def)
  have al: "a AND 3 = 0" using assms(1) by (simp add: aligned_def)
  have rel: "run_state (mmuAddrRelease a) s = (True, ?s)" using assms(6,7) by (simp add: mmuAddrRelease_def)
  have "run_state (exec_SC_W c p) s = (4, write_rd (buf32_0 p) 0 (?s\<lparr>devs := b'\<rparr>))"
    unfolding exec_SC_W_def write_rd_def
    by (simp only: run_state_bind run_primitives prod.case Let_def a [symmetric] rel al 1 if_False simp_thms
          ETransStatus.distinct run_whenM run_state_return fst_conv snd_conv cpu.select_convs run_if)
  moreover have "load_word (sbyte b') a 4 = take_bit 32 ?v"
    using load_word_after_write [OF assms(2) b'] by simp
  ultimately show ?thesis using b' by auto
qed

end

end
