(* ===== verification/Reg_Bank.thy ===== *)
theory Reg_Bank
  imports Axi4
begin

text \<open>
  Memory-mapped registers: the register types of \<^verbatim>\<open>common/generic/mapreg.cpp\<close> and the bank \<^verbatim>\<open>RegMemBankGeneric\<close>
  (\<^verbatim>\<open>common/generic/rmembank_gen1.cpp\<close>) that decodes an access byte by byte and hands it to the register mapped there.
  A register is a record of its place in the bank and its \<^verbatim>\<open>b_transport\<close>, a function of the clock, the transaction and the
  state of the device that owns it. \<open>None\<close> is a copy outside the register, undefined behaviour of the program.
\<close>

section \<open>Registers\<close>

record 's mreg =
  mreg_base :: u64
  mreg_length :: nat
  mreg_prio :: int
  mreg_trans :: "u64 \<Rightarrow> axi4 \<Rightarrow> 's \<Rightarrow> (axi4 \<times> 's) option"

text \<open>\<open>put_bytes off n w v\<close> is \<^verbatim>\<open>memcpy(&v.buf[off], w.b8, n)\<close>.\<close>

fun put_bytes :: "nat \<Rightarrow> nat \<Rightarrow> u64 \<Rightarrow> u64 \<Rightarrow> u64" where
  "put_bytes off 0 w v = v"
| "put_bytes off (Suc n) w v = set_b8 (off + n) (b8 n w) (put_bytes off n w v)"

text \<open>The side effects \<^verbatim>\<open>aboutToRead\<close> and \<^verbatim>\<open>aboutToWrite\<close> of a register are the arguments \<open>rd\<close> and \<open>wr\<close>, its value the pair
  \<open>get\<close> and \<open>put\<close>.\<close>

definition mapped64_transport ::
  "u64 \<Rightarrow> ('s \<Rightarrow> u64) \<Rightarrow> (u64 \<Rightarrow> 's \<Rightarrow> 's) \<Rightarrow> (u64 \<Rightarrow> u64 \<Rightarrow> 's \<Rightarrow> u64 \<times> 's) \<Rightarrow> (u64 \<Rightarrow> u64 \<Rightarrow> 's \<Rightarrow> u64 \<times> 's) \<Rightarrow>
   u64 \<Rightarrow> axi4 \<Rightarrow> 's \<Rightarrow> (axi4 \<times> 's) option" where
  "mapped64_transport base get put rd wr now tr s =
    (let off = unat (addr tr - base) in
     if 8 < off + xsize tr then None
     else if action tr = MemAction_Read then
       let (cur, s) = rd now (get s) s
       in Some (tr\<lparr>rpayload := load_bytes (\<lambda>i. b8 i cur) off (xsize tr) (rpayload tr)\<rparr>, s)
     else
       let new_val = put_bytes off (xsize tr) (wpayload tr) (get s);
           (new_val, s) = wr now new_val s
       in Some (tr, put new_val s))"

text \<open>The size that \<^verbatim>\<open>MappedReg32Type\<close> copies is the access size less the offset in the register; a negative one is a
  copy of nearly the whole address space.\<close>

definition mapped32_transport ::
  "u64 \<Rightarrow> ('s \<Rightarrow> u32) \<Rightarrow> (u32 \<Rightarrow> 's \<Rightarrow> 's) \<Rightarrow> (u64 \<Rightarrow> u32 \<Rightarrow> 's \<Rightarrow> u32 \<times> 's) \<Rightarrow> (u64 \<Rightarrow> u32 \<Rightarrow> 's \<Rightarrow> u32 \<times> 's) \<Rightarrow>
   u64 \<Rightarrow> axi4 \<Rightarrow> 's \<Rightarrow> (axi4 \<times> 's) option" where
  "mapped32_transport base get put rd wr now tr s =
    (let off = addr tr - base;
         xsz = (if 4 \<le> xsize tr then 4 else xsize tr);
         roff = unat (off AND 3)
     in if xsz < roff then None
        else let rsz = xsz - roff in
          if action tr = MemAction_Read then
            let (cur, s) = rd now (get s) s
            in Some (tr\<lparr>rpayload := load_bytes (\<lambda>i. b8 i (ucast cur)) roff rsz (rpayload tr AND NOT (mask 32))\<rparr>, s)
          else
            let cur = ucast (put_bytes roff rsz (wpayload tr) (ucast (get s)));
                (cur, s) = wr now cur s
            in Some (tr, put cur s))"

definition mapped16_transport ::
  "u64 \<Rightarrow> ('s \<Rightarrow> u16) \<Rightarrow> (u16 \<Rightarrow> 's \<Rightarrow> 's) \<Rightarrow> (u64 \<Rightarrow> u16 \<Rightarrow> 's \<Rightarrow> u16 \<times> 's) \<Rightarrow> (u64 \<Rightarrow> u16 \<Rightarrow> 's \<Rightarrow> u16 \<times> 's) \<Rightarrow>
   u64 \<Rightarrow> axi4 \<Rightarrow> 's \<Rightarrow> (axi4 \<times> 's) option" where
  "mapped16_transport base get put rd wr now tr s =
    (let off = unat (addr tr - base) in
     if action tr = MemAction_Read then
       let (cur, s) = rd now (get s) s; cur = ucast cur in
       if bit (addr tr) 0 then
         if 2 \<le> off then None
         else Some (tr\<lparr>rpayload := set_b8 1 0 (set_b8 0 (b8 off cur) (rpayload tr))\<rparr>, s)
       else
         if 2 \<le> off + 1 then None
         else Some (tr\<lparr>rpayload := set_b8 1 (b8 (off + 1) cur) (set_b8 0 (b8 off cur) (rpayload tr))\<rparr>, s)
     else
       let new_val = (if xsize tr = 1
                      then ucast (set_b8 (if bit (addr tr) 0 then 1 else 0) (b8 0 (wpayload tr)) (ucast (get s)))
                      else ucast (wpayload tr));
           (new_val, s) = wr now new_val s
       in Some (tr, put new_val s))"

definition mapped8_transport ::
  "('s \<Rightarrow> u8) \<Rightarrow> (u8 \<Rightarrow> 's \<Rightarrow> 's) \<Rightarrow> (u64 \<Rightarrow> u8 \<Rightarrow> 's \<Rightarrow> u8 \<times> 's) \<Rightarrow> (u64 \<Rightarrow> u8 \<Rightarrow> 's \<Rightarrow> u8 \<times> 's) \<Rightarrow>
   u64 \<Rightarrow> axi4 \<Rightarrow> 's \<Rightarrow> (axi4 \<times> 's) option" where
  "mapped8_transport get put rd wr now tr s =
    (if action tr = MemAction_Read then
       let (cur, s) = rd now (get s) s in Some (tr\<lparr>rpayload := set_b8 0 cur (rpayload tr)\<rparr>, s)
     else
       let (new_val, s) = wr now (b8 0 (wpayload tr)) s in Some (tr, put new_val s))"

text \<open>So an access of one byte works for the first byte of the register only: at the second it copies nothing, beyond it the
  size is negative.\<close>

lemma mapped32_byte_access:
  assumes "xsize tr = 1" and "action tr = MemAction_Write" and "addr tr = base + o'"
  shows "o' = 1 \<Longrightarrow> mapped32_transport base get put rd wr now tr s = Some (tr, put (fst (wr now (get s) s)) (snd (wr now (get s) s)))"
    and "o' = 2 \<or> o' = 3 \<Longrightarrow> mapped32_transport base get put rd wr now tr s = None"
proof -
  have u: "ucast (ucast x :: u64) = x" for x :: u32 by (rule bit_word_eqI) (simp add: bit_simps)
  show "o' = 1 \<Longrightarrow> mapped32_transport base get put rd wr now tr s = Some (tr, put (fst (wr now (get s) s)) (snd (wr now (get s) s)))"
    "o' = 2 \<or> o' = 3 \<Longrightarrow> mapped32_transport base get put rd wr now tr s = None"
    using assms by (auto simp: mapped32_transport_def Let_def u split: prod.split)
qed

section \<open>Arrays of registers\<close>

text \<open>The banks of equal registers take the index from the address and ignore the size of the access.\<close>

definition bank64_transport ::
  "u64 \<Rightarrow> nat \<Rightarrow> (nat \<Rightarrow> 's \<Rightarrow> u64) \<Rightarrow> (nat \<Rightarrow> u64 \<Rightarrow> 's \<Rightarrow> 's) \<Rightarrow> u64 \<Rightarrow> axi4 \<Rightarrow> 's \<Rightarrow> (axi4 \<times> 's) option" where
  "bank64_transport base len rd wr now tr s =
    (let idx = unat (drop_bit 3 (addr tr - base)) in
     if len \<le> idx then None
     else if action tr = MemAction_Read then Some (tr\<lparr>rpayload := rd idx s\<rparr>, s)
     else Some (tr, wr idx (wpayload tr) s))"

definition bank32_transport ::
  "u64 \<Rightarrow> nat \<Rightarrow> (nat \<Rightarrow> 's \<Rightarrow> u32) \<Rightarrow> (nat \<Rightarrow> u32 \<Rightarrow> 's \<Rightarrow> 's) \<Rightarrow> u64 \<Rightarrow> axi4 \<Rightarrow> 's \<Rightarrow> (axi4 \<times> 's) option" where
  "bank32_transport base len rd wr now tr s =
    (let idx = unat (drop_bit 2 (addr tr - base)) in
     if len \<le> idx then None
     else if action tr = MemAction_Read then Some (tr\<lparr>rpayload := ucast (rd idx s)\<rparr>, s)
     else Some (tr, wr idx (ucast (wpayload tr)) s))"

definition bank16_transport ::
  "u64 \<Rightarrow> nat \<Rightarrow> (nat \<Rightarrow> 's \<Rightarrow> u16) \<Rightarrow> (nat \<Rightarrow> u16 \<Rightarrow> 's \<Rightarrow> 's) \<Rightarrow>
   (nat \<Rightarrow> u16 \<Rightarrow> u16) \<Rightarrow> (nat \<Rightarrow> u16 \<Rightarrow> u16) \<Rightarrow> u64 \<Rightarrow> axi4 \<Rightarrow> 's \<Rightarrow> (axi4 \<times> 's) option" where
  "bank16_transport base len rd wr aboutRd aboutWr now tr s =
    (let off = addr tr - base; idx = unat (drop_bit 1 off) in
     if len \<le> idx then None
     else if action tr = MemAction_Read then Some (tr\<lparr>rpayload := ucast (aboutRd idx (rd idx s))\<rparr>, s)
     else if xsize tr = 1 then
       let t = ucast (set_b8 (if bit off 0 then 1 else 0) (b8 0 (wpayload tr)) (ucast (rd idx s)))
       in Some (tr, wr idx (aboutWr idx t) s)
     else Some (tr, wr idx (aboutWr idx (ucast (wpayload tr))) s))"

section \<open>The bank\<close>

record 's bank_cfg =
  bank_base :: u64
  bank_length :: nat
  bank_regs :: "'s mreg list"

record 's bank =
  stubmem :: "nat \<Rightarrow> u8"
  bank_dev :: 's

datatype bank_error = Bank_oob | Bank_fuel

text \<open>One iteration of the loop of \<^verbatim>\<open>maphash\<close>, and the whole table over the mapped registers in their order.\<close>

definition map_byte :: "'s mreg list \<Rightarrow> nat \<Rightarrow> nat \<Rightarrow> (nat \<Rightarrow> nat option) \<Rightarrow> nat \<Rightarrow> nat option" where
  "map_byte regs i a h =
    (case h a of
       Some j \<Rightarrow> if mreg_prio (regs ! i) < mreg_prio (regs ! j) then h else h(a \<mapsto> i)
     | None \<Rightarrow> h(a \<mapsto> i))"

definition map_reg :: "nat \<Rightarrow> 's mreg list \<Rightarrow> nat \<Rightarrow> (nat \<Rightarrow> nat option) \<Rightarrow> nat \<Rightarrow> nat option" where
  "map_reg len regs i h =
    (let off = unat (mreg_base (regs ! i)) in
     if len \<le> off then h
     else fold (map_byte regs i) [off..<off + mreg_length (regs ! i)] h)"

definition bank_hash :: "'s bank_cfg \<Rightarrow> nat \<Rightarrow> nat option" where
  "bank_hash c = fold (map_reg (bank_length c) (bank_regs c)) [0..<length (bank_regs c)] (\<lambda>_. None)"

text \<open>The loop of \<^verbatim>\<open>b_transport\<close>. \<open>mtr\<close> is the transaction of the master, \<open>tr\<close> the copy passed to the registers. The fuel is
  the number of bytes of the access: every iteration handles at least one.\<close>

fun bank_loop ::
  "'s bank_cfg \<Rightarrow> u64 \<Rightarrow> nat \<Rightarrow> nat \<Rightarrow> nat \<Rightarrow> nat \<Rightarrow> axi4 \<Rightarrow> axi4 \<Rightarrow> 's bank \<Rightarrow> bank_error + axi4 \<times> 's bank" where
  "bank_loop c now off0 fuel off 0 tr mtr b = Inr (mtr, b)"
| "bank_loop c now off0 0 off (Suc n) tr mtr b = Inl Bank_fuel"
| "bank_loop c now off0 (Suc fuel) off (Suc n) tr mtr b =
    (let tsz = Suc n in
     if bank_length c \<le> off then Inl Bank_oob
     else case bank_hash c off of
       Some i \<Rightarrow>
         let imem = bank_regs c ! i;
             xs = (if mreg_length imem < tsz then mreg_length imem else tsz);
             tr = tr\<lparr>addr := of_nat off, xsize := xs\<rparr>
         in if action mtr = MemAction_Read then
              if 8 < off - off0 + xs then Inl Bank_oob
              else case mreg_trans imem now tr (bank_dev b) of
                None \<Rightarrow> Inl Bank_oob
              | Some (tr, d) \<Rightarrow>
                  bank_loop c now off0 fuel (off + xs) (tsz - xs) tr
                    (mtr\<lparr>rpayload := put_bytes (off - off0) xs (rpayload tr) (rpayload mtr)\<rparr>) (b\<lparr>bank_dev := d\<rparr>)
            else if wstrb tr AND (2 ^ xs - 1) \<noteq> 0 then
              case mreg_trans imem now tr (bank_dev b) of
                None \<Rightarrow> Inl Bank_oob
              | Some (tr, d) \<Rightarrow>
                  bank_loop c now off0 fuel (off + xs) (tsz - xs)
                    (tr\<lparr>wstrb := drop_bit xs (wstrb tr), wpayload := drop_bit (8 * xs) (wpayload tr)\<rparr>) mtr
                    (b\<lparr>bank_dev := d\<rparr>)
            else bank_loop c now off0 fuel (off + xs) (tsz - xs) tr mtr b
     | None \<Rightarrow>
         if 8 \<le> off - off0 then Inl Bank_oob
         else
           let mtr' = (if action mtr = MemAction_Read
                         then mtr\<lparr>rpayload := set_b8 (off - off0) (stubmem b off) (rpayload mtr)\<rparr> else mtr);
               b' = (if action mtr \<noteq> MemAction_Read \<and> bit (wstrb tr) 0
                     then b\<lparr>stubmem := (stubmem b)(off := b8 (off - off0) (wpayload mtr))\<rparr> else b)
           in bank_loop c now off0 fuel (off + 1) (tsz - 1)
                (tr\<lparr>wstrb := drop_bit 1 (wstrb tr), wpayload := drop_bit 8 (wpayload tr)\<rparr>) mtr' b')"

definition bank_transport :: "'s bank_cfg \<Rightarrow> u64 \<Rightarrow> axi4 \<Rightarrow> 's bank \<Rightarrow> bank_error + axi4 \<times> 's bank" where
  "bank_transport c now mtr b =
    (let off = unat (addr mtr - bank_base c)
     in bank_loop c now off (xsize mtr) off (xsize mtr) mtr mtr b)"

lemma b8_put_bytes:
  "off + n \<le> 8 \<Longrightarrow> i < 8 \<Longrightarrow> b8 i (put_bytes off n w v) = (if off \<le> i \<and> i < off + n then b8 (i - off) w else b8 i v)"
  by (induction n) (auto simp: b8_set_b8 less_Suc_eq)

lemma put_bytes_all [simp]: "put_bytes 0 8 w v = w"
  by (rule bytes_eqI) (simp add: b8_put_bytes)

lemma put_bytes_low: "n \<le> 8 \<Longrightarrow> take_bit (8 * n) (put_bytes 0 n w v) = take_bit (8 * n) w"
  by (rule bytes_eqI) (simp add: b8_take_bit b8_put_bytes)

lemma load_bytes_low: "n \<le> 8 \<Longrightarrow> take_bit (8 * n) (load_bytes (\<lambda>i. b8 i v) 0 n w) = take_bit (8 * n) v"
  by (rule bytes_eqI) (simp add: b8_take_bit b8_load_bytes)

section \<open>The table\<close>

definition in_reg :: "'s bank_cfg \<Rightarrow> nat \<Rightarrow> nat \<Rightarrow> bool" where
  "in_reg c a i \<longleftrightarrow> i < length (bank_regs c) \<and> unat (mreg_base (bank_regs c ! i)) \<le> a \<and>
     a < unat (mreg_base (bank_regs c ! i)) + mreg_length (bank_regs c ! i) \<and> unat (mreg_base (bank_regs c ! i)) < bank_length c"

lemma map_byte_other: "a \<noteq> x \<Longrightarrow> map_byte regs i a h x = h x"
  by (auto simp: map_byte_def split: option.split)

lemma map_bytes_apply:
  "distinct as \<Longrightarrow> fold (map_byte regs i) as h a = (if a \<in> set as then map_byte regs i a h a else h a)"
proof (induction as arbitrary: h)
  case (Cons x as)
  have "map_byte regs i a (map_byte regs i x h) a = map_byte regs i a h a" if "a \<noteq> x"
    using that by (simp add: map_byte_def map_byte_other split: option.split)
  with Cons show ?case by (auto simp: map_byte_other)
qed simp

lemma map_reg_apply:
  "map_reg len regs i h a =
    (if unat (mreg_base (regs ! i)) < len \<and> unat (mreg_base (regs ! i)) \<le> a \<and> a < unat (mreg_base (regs ! i)) + mreg_length (regs ! i)
     then map_byte regs i a h a else h a)"
  by (auto simp: map_reg_def Let_def map_bytes_apply)

text \<open>The table holds a register that contains the byte, of the highest priority among them.\<close>

definition hash_best :: "'s bank_cfg \<Rightarrow> nat \<Rightarrow> nat \<Rightarrow> nat option \<Rightarrow> bool" where
  "hash_best c k a r = (case r of
      None \<Rightarrow> \<forall>i < k. \<not> in_reg c a i
    | Some i \<Rightarrow> i < k \<and> in_reg c a i \<and>
        (\<forall>j < k. in_reg c a j \<longrightarrow> mreg_prio (bank_regs c ! j) \<le> mreg_prio (bank_regs c ! i)))"

lemma hash_best_step:
  assumes "hash_best c k a (h a)" and "k < length (bank_regs c)"
  shows "hash_best c (Suc k) a (map_reg (bank_length c) (bank_regs c) k h a)"
  using assms
  by (auto simp: hash_best_def map_reg_apply map_byte_def in_reg_def less_Suc_eq split: option.splits if_splits)

lemma bank_hash_best: "hash_best c (length (bank_regs c)) a (bank_hash c a)"
proof -
  have "hash_best c k a (fold (map_reg (bank_length c) (bank_regs c)) [0..<k] (\<lambda>_. None) a)"
    if "k \<le> length (bank_regs c)" for k
    using that
  proof (induction k)
    case (Suc k)
    then show ?case using hash_best_step [of c k a] by simp
  qed (simp add: hash_best_def)
  then show ?thesis by (simp add: bank_hash_def)
qed

lemma bank_hash_in_reg: "bank_hash c a = Some i \<Longrightarrow> in_reg c a i"
  using bank_hash_best [of c a] by (simp add: hash_best_def)

lemma bank_hash_unique:
  assumes "in_reg c a i" and "\<And>j. in_reg c a j \<Longrightarrow> j = i"
  shows "bank_hash c a = Some i"
proof (cases "bank_hash c a")
  case None
  then have "\<not> in_reg c a i" using bank_hash_best [of c a] by (simp add: hash_best_def in_reg_def)
  with assms(1) show ?thesis by simp
next
  case (Some j)
  with assms(2) [OF bank_hash_in_reg [OF Some]] show ?thesis by simp
qed

section \<open>Termination\<close>

text \<open>One iteration that reaches a register.\<close>

lemma bank_loop_reg:
  assumes "bank_hash c off = Some i" and "off < bank_length c" and xs: "xs = min (mreg_length (bank_regs c ! i)) (Suc n)"
  shows "bank_loop c now off0 (Suc fuel) off (Suc n) tr mtr b =
    (let r = mreg_trans (bank_regs c ! i) now (tr\<lparr>addr := of_nat off, xsize := xs\<rparr>) (bank_dev b) in
     if action mtr = MemAction_Read then
       if 8 < off - off0 + xs then Inl Bank_oob
       else case r of None \<Rightarrow> Inl Bank_oob
         | Some (tr, d) \<Rightarrow> bank_loop c now off0 fuel (off + xs) (Suc n - xs) tr
             (mtr\<lparr>rpayload := put_bytes (off - off0) xs (rpayload tr) (rpayload mtr)\<rparr>) (b\<lparr>bank_dev := d\<rparr>)
     else if wstrb tr AND (2 ^ xs - 1) \<noteq> 0 then
       case r of None \<Rightarrow> Inl Bank_oob
         | Some (tr, d) \<Rightarrow> bank_loop c now off0 fuel (off + xs) (Suc n - xs)
             (tr\<lparr>wstrb := drop_bit xs (wstrb tr), wpayload := drop_bit (8 * xs) (wpayload tr)\<rparr>) mtr (b\<lparr>bank_dev := d\<rparr>)
     else bank_loop c now off0 fuel (off + xs) (Suc n - xs) (tr\<lparr>addr := of_nat off, xsize := xs\<rparr>) mtr b)"
proof -
  have "(if mreg_length (bank_regs c ! i) < Suc n then mreg_length (bank_regs c ! i) else Suc n) = xs"
    by (simp add: xs)
  then show ?thesis using assms(1,2) by (simp only: bank_loop.simps Let_def option.case) simp
qed

lemma bank_loop_fuel: "tsz \<le> fuel \<Longrightarrow> bank_loop c now off0 fuel off tsz tr mtr b \<noteq> Inl Bank_fuel"
proof (induction fuel arbitrary: off tsz tr mtr b)
  case (Suc fuel)
  show ?case
  proof (cases tsz)
    case (Suc n)
    have le: "Suc n - xs \<le> fuel" if "0 < xs" for xs using that Suc Suc.prems by simp
    consider "bank_length c \<le> off" | "off < bank_length c" "bank_hash c off = None"
      | i where "off < bank_length c" "bank_hash c off = Some i" by fastforce
    then show ?thesis
    proof cases
      case 3
      define xs where "xs = min (mreg_length (bank_regs c ! i)) (Suc n)"
      have "0 < xs" using bank_hash_in_reg [OF 3(2)] by (simp add: in_reg_def xs_def)
      note IH = Suc.IH [OF le [OF this]]
      show ?thesis
        unfolding Suc bank_loop_reg [OF 3(2,1) xs_def] by (simp add: Let_def IH split: option.split prod.split)
    qed (use Suc le [of 1] Suc.IH in \<open>simp_all add: Let_def\<close>)
  qed simp
qed simp

text \<open>C37. An access to a register bank always returns, for every set of mapped registers: as many iterations as the access
  has bytes are enough.\<close>

theorem bank_transport_returns: "bank_transport c now tr b \<noteq> Inl Bank_fuel"
  by (simp add: bank_transport_def Let_def bank_loop_fuel)

section \<open>Invariants of the device\<close>

definition reg_keeps :: "('s \<Rightarrow> bool) \<Rightarrow> 's mreg \<Rightarrow> bool" where
  "reg_keeps I r \<longleftrightarrow> (\<forall>now tr s tr' s'. mreg_trans r now tr s = Some (tr', s') \<longrightarrow> I s \<longrightarrow> I s')"

lemma bank_loop_inv:
  assumes "\<And>a i. off \<le> a \<Longrightarrow> a < off + tsz \<Longrightarrow> bank_hash c a = Some i \<Longrightarrow> reg_keeps I (bank_regs c ! i)"
    and "I (bank_dev b)" and "bank_loop c now off0 fuel off tsz tr mtr b = Inr (mtr', b')"
  shows "I (bank_dev b')"
  using assms
proof (induction fuel arbitrary: off tsz tr mtr b)
  case 0
  then show ?case by (cases tsz) auto
next
  case (Suc fuel)
  show ?case
  proof (cases tsz)
    case (Suc n)
    have keep: "reg_keeps I (bank_regs c ! i)" if "off \<le> a" "a \<le> off + n" "bank_hash c a = Some i" for a i
      using Suc.prems(1) [of a i] that Suc by simp
    consider "bank_length c \<le> off" | "off < bank_length c" "bank_hash c off = None"
      | i where "off < bank_length c" "bank_hash c off = Some i" by fastforce
    then show ?thesis
    proof cases
      case 2
      have IH: "I (bank_dev b')" if "bank_loop c now off0 fuel (Suc off) n tr1 mtr1 b1 = Inr (mtr', b')" "I (bank_dev b1)" for tr1 mtr1 b1
        by (rule Suc.IH [OF _ that(2,1)]) (erule keep [rotated 2], simp_all)
      show ?thesis using 2 Suc Suc.prems(2,3) by (auto simp: Let_def split: if_splits elim!: IH)
    next
      case 3
      define xs where "xs = min (mreg_length (bank_regs c ! i)) (Suc n)"
      have k: "reg_keeps I (bank_regs c ! i)" using keep [OF _ _ 3(2)] by simp
      have IH: "I (bank_dev b')"
        if "bank_loop c now off0 fuel (off + xs) (Suc n - xs) tr1 mtr1 b1 = Inr (mtr', b')" "I (bank_dev b1)" for tr1 mtr1 b1
        by (rule Suc.IH [OF _ that(2,1)]) (erule keep [rotated 2], simp_all add: xs_def)
      from Suc.prems(2,3) k show ?thesis
        unfolding Suc bank_loop_reg [OF 3(2,1) xs_def]
        by (auto simp: Let_def reg_keeps_def split: option.splits if_splits elim!: IH)
    qed (use Suc Suc.prems in simp)
  qed (use Suc.prems in simp)
qed

section \<open>Accesses to one register\<close>

locale register_bank =
  fixes c :: "'s bank_cfg"
  assumes fits: "i < length (bank_regs c) \<Longrightarrow>
      unat (mreg_base (bank_regs c ! i)) + mreg_length (bank_regs c ! i) \<le> bank_length c"
    and disjoint: "in_reg c a i \<Longrightarrow> in_reg c a j \<Longrightarrow> i = j"
begin

lemma hash_reg: "in_reg c a i \<Longrightarrow> bank_hash c a = Some i"
  using bank_hash_unique disjoint by blast

text \<open>An access inside a register is that register's transaction at the offset in the bank.\<close>

lemma access_reg:
  assumes i: "in_reg c off i" "off + n \<le> unat (mreg_base (bank_regs c ! i)) + mreg_length (bank_regs c ! i)"
    and n: "0 < n" "n \<le> 8" and tr: "off = unat (addr tr - bank_base c)" "xsize tr = n"
    and strb: "action tr = MemAction_Write \<Longrightarrow> wstrb tr AND (2 ^ n - 1) \<noteq> 0"
  shows "bank_transport c now tr b =
    (case mreg_trans (bank_regs c ! i) now (tr\<lparr>addr := addr tr - bank_base c\<rparr>) (bank_dev b) of
       None \<Rightarrow> Inl Bank_oob
     | Some (tr', d) \<Rightarrow> Inr (if action tr = MemAction_Read then tr\<lparr>rpayload := put_bytes 0 n (rpayload tr') (rpayload tr)\<rparr> else tr,
         b\<lparr>bank_dev := d\<rparr>))"
proof -
  from n obtain k where k: "n = Suc k" by (cases n) auto
  have len: "off < bank_length c" using i fits [of i] by (simp add: in_reg_def)
  have xs: "Suc k = min (mreg_length (bank_regs c ! i)) (Suc k)" using i k by (simp add: in_reg_def)
  have same: "tr\<lparr>addr := a, xsize := Suc k\<rparr> = tr\<lparr>addr := a\<rparr>" for a using tr(2) k by (cases tr) simp
  have a: "(of_nat off :: u64) = addr tr - bank_base c" by (simp add: tr(1))
  have "action tr \<noteq> MemAction_Read \<Longrightarrow> action tr = MemAction_Write" by (cases "action tr") auto
  then show ?thesis
    using strb n unfolding bank_transport_def Let_def tr(1) [symmetric] tr(2) k
      bank_loop_reg [OF hash_reg [OF i(1)] len xs] same a
    by (simp split: option.split)
qed

end

end
