(* ===== verification/Clint.thy ===== *)
theory Clint
  imports Reg_Bank Mem_Generic
begin

text \<open>
  The core-local interruptor of the functional SoC (\<^verbatim>\<open>socsim_plugin/clint.cpp\<close>): software interrupt
  bits, the timer and its compare registers. \<open>mtime\<close> is advanced lazily from the CPU's step
  counter, which the operations take as \<open>now\<close>; the abstraction \<open>clint_time\<close> is the timer as
  software sees it. \<open>clint_bank\<close> maps the registers as the constructor and the platform description place them;
  \<open>mtime_read\<close> and \<open>mtime_write\<close> are the side effects of an access to the timer register.
\<close>

section \<open>Model\<close>

record clint =
  msip :: "nat \<Rightarrow> u32"
  mtimecmp :: "nat \<Rightarrow> u64"
  mtime :: u64
  update_time :: u64

definition setTimer :: "u64 \<Rightarrow> u64 \<Rightarrow> clint \<Rightarrow> clint" where
  "setTimer now v s = s\<lparr>update_time := now, mtime := v\<rparr>"

definition updateTimer :: "u64 \<Rightarrow> clint \<Rightarrow> clint" where
  "updateTimer now s =
    (let dt = now - update_time s in s\<lparr>update_time := now, mtime := mtime s + dt\<rparr>)"

definition clint_getPendingRequest :: "u64 \<Rightarrow> nat \<Rightarrow> clint \<Rightarrow> u32 \<times> clint" where
  "clint_getPendingRequest now ctxid s =
    (let hart = ctxid div 2 in
     if ctxid mod 2 = 0 then (msip s hart AND 1, s)
     else let s = updateTimer now s
          in (if mtimecmp s hart \<le> mtime s then 1 else 0, s))"

definition mtime_read :: "u64 \<Rightarrow> clint \<Rightarrow> u64 \<times> clint" where
  "mtime_read now s = (let s = updateTimer now s in (mtime s, s))"

definition mtime_write :: "u64 \<Rightarrow> u64 \<Rightarrow> clint \<Rightarrow> clint" where
  "mtime_write now v s = setTimer now v s"

text \<open>The registers and their addresses. The compare registers are one fewer than the harts, so that the timer fits
  after them.\<close>

abbreviation (input) CLINT_HART_MAX :: nat where "CLINT_HART_MAX \<equiv> 4096"

definition clint_msip :: "clint mreg" where
  "clint_msip =
    \<lparr>mreg_base = 0, mreg_length = 4 * CLINT_HART_MAX, mreg_prio = 0,
     mreg_trans = bank32_transport 0 CLINT_HART_MAX (\<lambda>i s. msip s i) (\<lambda>i v s. s\<lparr>msip := (msip s)(i := v)\<rparr>)\<rparr>"

definition clint_mtimecmp :: "clint mreg" where
  "clint_mtimecmp =
    \<lparr>mreg_base = 0x4000, mreg_length = 8 * (CLINT_HART_MAX - 1), mreg_prio = 0,
     mreg_trans = bank64_transport 0x4000 (CLINT_HART_MAX - 1) (\<lambda>i s. mtimecmp s i)
       (\<lambda>i v s. s\<lparr>mtimecmp := (mtimecmp s)(i := v)\<rparr>)\<rparr>"

definition clint_mtime :: "clint mreg" where
  "clint_mtime =
    \<lparr>mreg_base = 0xBFF8, mreg_length = 8, mreg_prio = 1,
     mreg_trans = mapped64_transport 0xBFF8 mtime (\<lambda>v s. s\<lparr>mtime := v\<rparr>)
       (\<lambda>now _ s. mtime_read now s) (\<lambda>now v s. (v, mtime_write now v s))\<rparr>"

definition clint_bank :: "u64 \<Rightarrow> clint bank_cfg" where
  "clint_bank base =
    \<lparr>bank_base = base, bank_length = 0x10000, bank_regs = [clint_msip, clint_mtimecmp, clint_mtime]\<rparr>"

section \<open>The timer as software sees it\<close>

definition clint_time :: "u64 \<Rightarrow> clint \<Rightarrow> u64" where
  "clint_time now s = mtime s + (now - update_time s)"

lemma clint_time_updateTimer [simp]: "clint_time now' (updateTimer now s) = clint_time now' s"
  by (simp add: clint_time_def updateTimer_def Let_def)

lemma clint_time_setTimer [simp]: "clint_time now' (setTimer now v s) = v + (now' - now)"
  by (simp add: clint_time_def setTimer_def)

lemma mtime_updateTimer: "mtime (updateTimer now s) = clint_time now s"
  by (simp add: clint_time_def updateTimer_def Let_def)

lemma clint_time_advances: "clint_time (now + n) s = clint_time now s + n"
  by (simp add: clint_time_def)

lemma updateTimer_frame [simp]:
  "msip (updateTimer now s) = msip s" "mtimecmp (updateTimer now s) = mtimecmp s"
  by (simp_all add: updateTimer_def Let_def)

lemma clint_pending_timer:
  "clint_getPendingRequest now (2 * h + 1) s =
     (if mtimecmp s h \<le> clint_time now s then 1 else 0, updateTimer now s)"
  by (simp add: clint_getPendingRequest_def Let_def mtime_updateTimer)

lemma clint_pending_software:
  "clint_getPendingRequest now (2 * h) s = (msip s h AND 1, s)"
  by (simp add: clint_getPendingRequest_def)

section \<open>The register map\<close>

lemma clint_in_reg:
  "in_reg (clint_bank base) a i \<longleftrightarrow>
     i = 0 \<and> a < 0x4000 \<or> i = 1 \<and> 0x4000 \<le> a \<and> a < 0xBFF8 \<or> i = 2 \<and> 0xBFF8 \<le> a \<and> a < 0xC000"
  by (auto simp: in_reg_def clint_bank_def clint_msip_def clint_mtimecmp_def clint_mtime_def less_Suc_eq numeral_3_eq_3)

interpretation clint_rb: register_bank "clint_bank base" for base
proof
  show "unat (mreg_base (bank_regs (clint_bank base) ! i)) + mreg_length (bank_regs (clint_bank base) ! i) \<le> bank_length (clint_bank base)"
    if "i < length (bank_regs (clint_bank base))" for i
    using that by (auto simp: clint_bank_def clint_msip_def clint_mtimecmp_def clint_mtime_def less_Suc_eq numeral_3_eq_3)
  show "i = j" if "in_reg (clint_bank base) a i" "in_reg (clint_bank base) a j" for a i j
    using that by (auto simp: clint_in_reg)
qed

lemma clint_access:
  assumes "in_reg (clint_bank base) off i" and "in_reg (clint_bank base) (off + n - 1) i" and "n = 4 \<or> n = 8"
    and "read_req (base + of_nat off) n tr \<or> write_req (base + of_nat off) n tr"
  shows "bank_transport (clint_bank base) now tr b =
    (case mreg_trans (bank_regs (clint_bank base) ! i) now (tr\<lparr>addr := of_nat off\<rparr>) (bank_dev b) of
       None \<Rightarrow> Inl Bank_oob
     | Some (tr', d) \<Rightarrow> Inr (if action tr = MemAction_Read then tr\<lparr>rpayload := put_bytes 0 n (rpayload tr') (rpayload tr)\<rparr> else tr,
         b\<lparr>bank_dev := d\<rparr>))"
proof -
  have tr: "xsize tr = n" "addr tr - bank_base (clint_bank base) = of_nat off"
    "action tr = MemAction_Write \<Longrightarrow> wstrb tr = of_nat (2 ^ n - 1)"
    using assms(4) by (auto simp: clint_bank_def read_req_def write_req_def)
  have "off < 2 ^ 64" using assms(1) by (auto simp: clint_in_reg)
  then have off: "off = unat (addr tr - bank_base (clint_bank base))" by (simp add: tr(2) unat_of_nat)
  have len: "off + n \<le> unat (mreg_base (bank_regs (clint_bank base) ! i)) + mreg_length (bank_regs (clint_bank base) ! i)"
    using assms(2,3) by (auto simp: in_reg_def)
  have "action tr = MemAction_Write \<Longrightarrow> wstrb tr AND (2 ^ n - 1) \<noteq> 0" using tr(3) assms(3) by auto
  from clint_rb.access_reg [OF assms(1) len _ _ off tr(1) this, of now b, unfolded tr(2)] assms(3) show ?thesis by auto
qed

lemma clint_write_msip:
  assumes "h < 4096" and w: "write_req (base + 4 * of_nat h) 4 tr"
  shows "bank_transport (clint_bank base) now tr b =
     Inr (tr, b\<lparr>bank_dev := (bank_dev b)\<lparr>msip := (msip (bank_dev b))(h := ucast (wpayload tr))\<rparr>\<rparr>)"
proof -
  have idx: "unat (drop_bit 2 (4 * of_nat h :: u64)) = h"
    using assms(1) by (simp add: unat_drop_bit_eq drop_bit_eq_div unat_word_ariths unat_of_nat)
  have r: "bank_regs (clint_bank base) ! 0 = clint_msip" by (simp add: clint_bank_def)
  show ?thesis
    using clint_access [of base "4 * h" 0 4 tr now b, unfolded r] assms idx
    by (simp add: clint_in_reg write_req_def clint_msip_def bank32_transport_def)
qed

lemma clint_write_mtimecmp:
  assumes "h < 4095" and w: "write_req (base + 0x4000 + 8 * of_nat h) 8 tr"
  shows "bank_transport (clint_bank base) now tr b =
     Inr (tr, b\<lparr>bank_dev := (bank_dev b)\<lparr>mtimecmp := (mtimecmp (bank_dev b))(h := wpayload tr)\<rparr>\<rparr>)"
proof -
  have idx: "unat (drop_bit 3 (8 * of_nat h :: u64)) = h"
    using assms(1) by (simp add: unat_drop_bit_eq drop_bit_eq_div unat_word_ariths unat_of_nat)
  have r: "bank_regs (clint_bank base) ! 1 = clint_mtimecmp" by (simp add: clint_bank_def)
  show ?thesis
    using clint_access [of base "0x4000 + 8 * h" 1 8 tr now b, unfolded r] assms idx
    by (simp add: clint_in_reg write_req_def clint_mtimecmp_def bank64_transport_def add.assoc)
qed

lemma clint_access_mtime:
  assumes "read_req (base + 0xBFF8) 8 tr \<or> write_req (base + 0xBFF8) 8 tr"
  shows "bank_transport (clint_bank base) now tr b =
     (if action tr = MemAction_Read
      then Inr (tr\<lparr>rpayload := clint_time now (bank_dev b)\<rparr>, b\<lparr>bank_dev := updateTimer now (bank_dev b)\<rparr>)
      else Inr (tr, b\<lparr>bank_dev := setTimer now (wpayload tr) (bank_dev b)\<rparr>))"
proof -
  have r: "bank_regs (clint_bank base) ! 2 = clint_mtime" by (simp add: clint_bank_def)
  have x: "xsize tr = 8" using assms by (auto simp: read_req_def write_req_def)
  have l: "load_bytes (\<lambda>i. b8 i v) 0 8 w = v" for v w by (rule bytes_eqI) (simp add: b8_load_bytes)
  show ?thesis
    using clint_access [of base "0xBFF8" 2 8 tr now b, unfolded r] assms x
    by (simp add: clint_in_reg clint_mtime_def mapped64_transport_def mtime_read_def mtime_write_def Let_def
        mtime_updateTimer l setTimer_def)
qed

section \<open>Properties\<close>

text \<open>The registers of the CLINT behind the bus: a software-interrupt register and a compare register hold what is
  written to them and raise the requests of their hart accordingly, the timer reads as the time since it was last set,
  and no access changes another register.\<close>

lemma clint_register_map:
  assumes "h < 4095"
  shows "(write_req (base + 4 * of_nat h) 4 tr \<longrightarrow>
      (\<exists>b'. bank_transport (clint_bank base) now tr b = Inr (tr, b') \<and>
        msip (bank_dev b') = (msip (bank_dev b))(h := ucast (wpayload tr)) \<and> mtimecmp (bank_dev b') = mtimecmp (bank_dev b) \<and>
        fst (clint_getPendingRequest t (2 * h) (bank_dev b')) = (if bit (wpayload tr) 0 then 1 else 0))) \<and>
    (write_req (base + 0x4000 + 8 * of_nat h) 8 tr \<longrightarrow>
      (\<exists>b'. bank_transport (clint_bank base) now tr b = Inr (tr, b') \<and>
        mtimecmp (bank_dev b') = (mtimecmp (bank_dev b))(h := wpayload tr) \<and> msip (bank_dev b') = msip (bank_dev b) \<and>
        (fst (clint_getPendingRequest t (2 * h + 1) (bank_dev b')) = 1 \<longleftrightarrow> wpayload tr \<le> clint_time t (bank_dev b)))) \<and>
    (read_req (base + 0xBFF8) 8 tr \<longrightarrow>
      (\<exists>b'. bank_transport (clint_bank base) now tr b = Inr (tr\<lparr>rpayload := clint_time now (bank_dev b)\<rparr>, b') \<and>
        clint_time t (bank_dev b') = clint_time t (bank_dev b))) \<and>
    (write_req (base + 0xBFF8) 8 tr \<longrightarrow>
      (\<exists>b'. bank_transport (clint_bank base) now tr b = Inr (tr, b') \<and> clint_time (now + n) (bank_dev b') = wpayload tr + n))"
proof (intro conjI impI, goal_cases)
  case 1
  have "(ucast (wpayload tr) :: u32) AND 1 = (if bit (wpayload tr) 0 then 1 else 0)"
    by (rule bit_word_eqI) (auto simp: bit_simps intro!: gr0I)
  then show ?case
    using clint_write_msip [OF _ 1, of now b] assms by (simp add: clint_pending_software del: One_nat_def)
next
  case 2
  then show ?case
    using clint_write_mtimecmp [OF assms, of base tr now b]
    by (simp add: clint_pending_timer clint_time_def del: One_nat_def add_Suc_right)
next
  case 3
  then have "action tr = MemAction_Read" by (simp add: read_req_def)
  then show ?case using clint_access_mtime [OF disjI1, OF 3, of now b] by simp
next
  case 4
  then have "action tr = MemAction_Write" by (simp add: write_req_def)
  then show ?case using clint_access_mtime [OF disjI2, OF 4, of now b] by simp
qed

lemma clint_register_map_witness:
  "\<exists>b'. bank_transport (clint_bank 0x2000000) 7
      \<lparr>action = MemAction_Write, response = MemResp_Valid, xsize = 8, wstrb = 0xFF, addr = 0x2004008, rpayload = 0, wpayload = 10,
       source_idx = 0\<rparr> \<lparr>stubmem = (\<lambda>_. 0xFF), bank_dev = \<lparr>msip = (\<lambda>_. 0), mtimecmp = (\<lambda>_. 0), mtime = 5, update_time = 2\<rparr>\<rparr> = Inr
      (\<lparr>action = MemAction_Write, response = MemResp_Valid, xsize = 8, wstrb = 0xFF, addr = 0x2004008, rpayload = 0, wpayload = 10,
       source_idx = 0\<rparr>, b') \<and> mtimecmp (bank_dev b') 1 = 10 \<and> fst (clint_getPendingRequest 8 3 (bank_dev b')) = 1"
  using clint_register_map [THEN conjunct2, THEN conjunct1, of 1 "0x2000000" "\<lparr>action = MemAction_Write, response = MemResp_Valid, xsize = 8, wstrb = 0xFF,
      addr = 0x2004008, rpayload = 0, wpayload = 10, source_idx = 0\<rparr>" 7
     "\<lparr>stubmem = (\<lambda>_. 0xFF), bank_dev = \<lparr>msip = (\<lambda>_. 0), mtimecmp = (\<lambda>_. 0), mtime = 5, update_time = 2\<rparr>\<rparr>" 8]
  by (auto simp: write_req_def clint_time_def numeral_3_eq_3)

end
