(* ===== verification/Plic.thy ===== *)
theory Plic
  imports Reg_Bank Mem_Generic
begin

text \<open>
  The platform-level interrupt controller of the functional SoC (\<^verbatim>\<open>socsim_plugin/plic.cpp\<close>). The pending
  interrupts are kept twice, as bits of the register bank and as a list. An interrupt number is below
  1024. \<open>plic_bank\<close> maps the registers of \<open>n\<close> contexts; \<open>src_priority_write\<close> is the overridden write method of the
  priority bank and \<open>claim\<close> the side effect of reading the claim register.
\<close>

section \<open>Model\<close>

record plic =
  src_priority :: "nat \<Rightarrow> u32"
  pending :: "nat \<Rightarrow> u32"
  ctx_enable :: "nat \<Rightarrow> nat \<Rightarrow> u32"
  ctx_priority_th :: "nat \<Rightarrow> u32"
  ctx_claim :: "nat \<Rightarrow> u32"
  pendingList :: "nat list"

definition isEnabled :: "plic \<Rightarrow> nat \<Rightarrow> bool" where
  "isEnabled p irqidx \<longleftrightarrow> src_priority p irqidx \<noteq> 0"

definition isUnmasked :: "plic \<Rightarrow> nat \<Rightarrow> nat \<Rightarrow> bool" where
  "isUnmasked p ctxid irqidx \<longleftrightarrow>
     drop_bit (irqidx mod 32) (ctx_enable p ctxid (irqidx div 32)) AND 1 \<noteq> 0 \<and>
     (ctx_priority_th p ctxid AND 7) < src_priority p irqidx"

text \<open>The two loops of \<^verbatim>\<open>getPendingRequest\<close>. The first reads the priority at the list position \<open>i\<close> and
  takes the first list entry, the second filters by the priority at the list position: the code
  uses \<open>i\<close> and \<open>0\<close> where the number of the interrupt is meant.\<close>

definition first_scan :: "plic \<Rightarrow> nat \<Rightarrow> nat \<Rightarrow> u32 \<times> nat \<Rightarrow> u32 \<times> nat" where
  "first_scan p ctxid i acc =
    (let tidx = pendingList p ! i; (pr, irqidx) = acc in
     if isEnabled p tidx \<and> isUnmasked p ctxid tidx \<and> pr \<le> src_priority p tidx
     then (src_priority p i, pendingList p ! 0) else acc)"

definition second_scan :: "plic \<Rightarrow> nat \<Rightarrow> u32 \<Rightarrow> nat \<Rightarrow> nat \<Rightarrow> nat" where
  "second_scan p ctxid pr i irqidx =
    (let tidx = pendingList p ! i in
     if src_priority p i = pr \<and> isEnabled p tidx \<and> isUnmasked p ctxid tidx \<and> tidx < irqidx
     then tidx else irqidx)"

definition plic_getPendingRequest :: "nat \<Rightarrow> plic \<Rightarrow> nat" where
  "plic_getPendingRequest ctxid p =
    (let n = length (pendingList p);
         (pr, irqidx) = fold (first_scan p ctxid) [0..<n] (0, 0)
     in if irqidx \<noteq> 0 then fold (second_scan p ctxid pr) [0..<n] irqidx else irqidx)"

definition setPendingBit :: "nat \<Rightarrow> plic \<Rightarrow> plic" where
  "setPendingBit idx p =
    (let p = p\<lparr>pending := (pending p)(idx div 32 := set_bit (idx mod 32) (pending p (idx div 32)))\<rparr>
     in if idx \<in> set (pendingList p) then p else p\<lparr>pendingList := pendingList p @ [idx]\<rparr>)"

text \<open>The position of the first entry equal to \<open>idx\<close>, if any.\<close>

fun list_pos :: "nat \<Rightarrow> nat list \<Rightarrow> nat option" where
  "list_pos idx [] = None"
| "list_pos idx (x # xs) = (if x = idx then Some 0 else map_option Suc (list_pos idx xs))"

definition clearPendingBit :: "nat \<Rightarrow> plic \<Rightarrow> plic" where
  "clearPendingBit idx p =
    (if idx = 0 then p
     else let p = p\<lparr>pending := (pending p)(idx div 32 := unset_bit (idx mod 32) (pending p (idx div 32)))\<rparr>
          in case list_pos idx (pendingList p) of
               None \<Rightarrow> p
             | Some i \<Rightarrow> p\<lparr>pendingList := swap_remove i (pendingList p)\<rparr>)"

definition requestInterrupt :: "nat \<Rightarrow> plic \<Rightarrow> plic" where
  "requestInterrupt idx p = setPendingBit idx p"

definition claim :: "nat \<Rightarrow> plic \<Rightarrow> nat \<times> plic" where
  "claim ctxid p = (let irqidx = plic_getPendingRequest ctxid p in (irqidx, clearPendingBit irqidx p))"

definition src_priority_write :: "nat \<Rightarrow> u32 \<Rightarrow> plic \<Rightarrow> plic" where
  "src_priority_write idx val p = p\<lparr>src_priority := (src_priority p)(idx := val AND 7)\<rparr>"

text \<open>The registers. Enabling and disabling an interrupt has no effect beyond the enable bits, completion has none.\<close>

definition plic_src_priority :: "plic mreg" where
  "plic_src_priority =
    \<lparr>mreg_base = 0, mreg_length = 4 * 1024, mreg_prio = 0,
     mreg_trans = bank32_transport 0 1024 (\<lambda>i s. src_priority s i) src_priority_write\<rparr>"

definition plic_pending :: "plic mreg" where
  "plic_pending =
    \<lparr>mreg_base = 0x1000, mreg_length = 4 * 1024, mreg_prio = 0,
     mreg_trans = bank32_transport 0x1000 1024 (\<lambda>i s. pending s i) (\<lambda>i v s. s\<lparr>pending := (pending s)(i := v)\<rparr>)\<rparr>"

definition plic_enable :: "nat \<Rightarrow> plic mreg" where
  "plic_enable k =
    \<lparr>mreg_base = of_nat (0x2000 + 0x80 * k), mreg_length = 4 * 32, mreg_prio = 0,
     mreg_trans = bank32_transport (of_nat (0x2000 + 0x80 * k)) 32 (\<lambda>i s. ctx_enable s k i)
       (\<lambda>i v s. s\<lparr>ctx_enable := (ctx_enable s)(k := (ctx_enable s k)(i := v))\<rparr>)\<rparr>"

definition plic_priority_th :: "nat \<Rightarrow> plic mreg" where
  "plic_priority_th k =
    \<lparr>mreg_base = of_nat (0x200000 + 0x1000 * k), mreg_length = 4, mreg_prio = 1,
     mreg_trans = mapped32_transport (of_nat (0x200000 + 0x1000 * k)) (\<lambda>s. ctx_priority_th s k)
       (\<lambda>v s. s\<lparr>ctx_priority_th := (ctx_priority_th s)(k := v)\<rparr>) (\<lambda>_ v s. (v, s)) (\<lambda>_ v s. (v, s))\<rparr>"

definition plic_claim_complete :: "nat \<Rightarrow> plic mreg" where
  "plic_claim_complete k =
    \<lparr>mreg_base = of_nat (0x200004 + 0x1000 * k), mreg_length = 4, mreg_prio = 1,
     mreg_trans = mapped32_transport (of_nat (0x200004 + 0x1000 * k)) (\<lambda>s. ctx_claim s k)
       (\<lambda>v s. s\<lparr>ctx_claim := (ctx_claim s)(k := v)\<rparr>)
       (\<lambda>_ _ s. let (irq, s) = claim k s in (of_nat irq, s)) (\<lambda>_ v s. (v, s))\<rparr>"

definition plic_context :: "nat \<Rightarrow> plic mreg list" where
  "plic_context k = [plic_enable k, plic_priority_th k, plic_claim_complete k]"

definition plic_bank :: "u64 \<Rightarrow> nat \<Rightarrow> plic bank_cfg" where
  "plic_bank base n =
    \<lparr>bank_base = base, bank_length = 0x4000000,
     bank_regs = [plic_src_priority, plic_pending] @ concat (map plic_context [0..<n])\<rparr>"

section \<open>Invariant\<close>

definition pending_bit :: "plic \<Rightarrow> nat \<Rightarrow> bool" where
  "pending_bit p i \<longleftrightarrow> bit (pending p (i div 32)) (i mod 32)"

definition plic_wf :: "plic \<Rightarrow> bool" where
  "plic_wf p \<longleftrightarrow> distinct (pendingList p) \<and> (\<forall>i. i \<in> set (pendingList p) \<longleftrightarrow> pending_bit p i)"

lemma list_pos_None: "list_pos idx xs = None \<longleftrightarrow> idx \<notin> set xs"
  by (induction xs) auto

lemma list_pos_Some: "list_pos idx xs = Some i \<Longrightarrow> i < length xs \<and> xs ! i = idx"
  by (induction xs arbitrary: i) (auto split: if_splits)

lemma pending_bit_set:
  "pending_bit (setPendingBit idx p) i \<longleftrightarrow> i = idx \<or> pending_bit p i"
proof -
  have "i div 32 = idx div 32 \<and> i mod 32 = idx mod 32 \<longleftrightarrow> i = idx" by (metis div_mult_mod_eq)
  then show ?thesis by (auto simp: pending_bit_def setPendingBit_def Let_def bit_simps)
qed

lemma pending_bit_clear:
  "idx \<noteq> 0 \<Longrightarrow> pending_bit (clearPendingBit idx p) i \<longleftrightarrow> i \<noteq> idx \<and> pending_bit p i"
proof -
  have "i div 32 = idx div 32 \<and> i mod 32 = idx mod 32 \<longleftrightarrow> i = idx" by (metis div_mult_mod_eq)
  then show "idx \<noteq> 0 \<Longrightarrow> ?thesis"
    by (auto simp: pending_bit_def clearPendingBit_def Let_def bit_simps split: option.split)
qed

lemma setPendingBit_wf: "plic_wf p \<Longrightarrow> plic_wf (setPendingBit idx p)"
  by (auto simp: plic_wf_def pending_bit_set) (auto simp: setPendingBit_def Let_def plic_wf_def split: if_splits)

lemma pendingList_clear:
  assumes "plic_wf p" and "idx \<noteq> 0"
  shows "distinct (pendingList (clearPendingBit idx p))"
    and "set (pendingList (clearPendingBit idx p)) = set (pendingList p) - {idx}"
proof -
  have d: "distinct (pendingList p)" using assms(1) by (simp add: plic_wf_def)
  have "mset (pendingList (clearPendingBit idx p)) = mset (pendingList p) - {#idx#}"
  proof (cases "list_pos idx (pendingList p)")
    case None
    then have "idx \<notin> set (pendingList p)" by (simp add: list_pos_None)
    with None show ?thesis using assms(2)
      by (simp add: clearPendingBit_def Let_def diff_single_trivial)
  next
    case (Some i)
    then show ?thesis using assms(2) list_pos_Some [OF Some] mset_swap_remove [of i "pendingList p"]
      by (simp add: clearPendingBit_def Let_def)
  qed
  also have "mset (pendingList p) - {#idx#} = mset (remove1 idx (pendingList p))" by simp
  finally have m: "mset (pendingList (clearPendingBit idx p)) = mset (remove1 idx (pendingList p))" .
  have "distinct (remove1 idx (pendingList p))" using d by (rule distinct_remove1)
  then show "distinct (pendingList (clearPendingBit idx p))"
    using mset_eq_imp_distinct_iff [OF m] by simp
  show "set (pendingList (clearPendingBit idx p)) = set (pendingList p) - {idx}"
    using mset_eq_setD [OF m] d by simp
qed

lemma clearPendingBit_wf: "plic_wf p \<Longrightarrow> plic_wf (clearPendingBit idx p)"
proof (cases "idx = 0")
  case False
  assume wf: "plic_wf p"
  show ?thesis
    unfolding plic_wf_def using pendingList_clear [OF wf False] pending_bit_clear [OF False] wf
    by (auto simp: plic_wf_def)
qed (simp add: clearPendingBit_def)

section \<open>Selection\<close>

definition deliverable :: "plic \<Rightarrow> nat \<Rightarrow> nat \<Rightarrow> bool" where
  "deliverable p ctxid i \<longleftrightarrow> i \<in> set (pendingList p) \<and> isEnabled p i \<and> isUnmasked p ctxid i"

lemma first_scan_head:
  "snd acc \<in> {0, pendingList p ! 0} \<Longrightarrow> snd (first_scan p ctxid i acc) \<in> {0, pendingList p ! 0}"
  by (auto simp: first_scan_def Let_def split: prod.splits)

lemma first_scan_result: "snd (fold (first_scan p ctxid) is (0, 0)) \<in> {0, pendingList p ! 0}"
  by (induction "is" rule: rev_induct) (use first_scan_head in auto)

lemma first_scan_none:
  "\<forall>i \<in> set is. \<not> (isEnabled p (pendingList p ! i) \<and> isUnmasked p ctxid (pendingList p ! i)) \<Longrightarrow>
     fold (first_scan p ctxid) is acc = acc"
  by (induction "is" arbitrary: acc) (auto simp: first_scan_def Let_def split: prod.split)

lemma first_scan_keeps:
  "snd acc = pendingList p ! 0 \<Longrightarrow> snd (fold (first_scan p ctxid) is acc) = pendingList p ! 0"
proof (induction "is" arbitrary: acc)
  case (Cons i "is")
  have "snd (first_scan p ctxid i acc) = pendingList p ! 0"
    using Cons.prems by (auto simp: first_scan_def Let_def split: prod.splits)
  with Cons.IH show ?case by simp
qed simp

lemma first_scan_finds:
  assumes "i \<in> set is" and "isEnabled p (pendingList p ! i)" "isUnmasked p ctxid (pendingList p ! i)"
  shows "snd (fold (first_scan p ctxid) is (0, 0)) = pendingList p ! 0"
  using assms(1)
proof (induction "is")
  case (Cons j "is")
  show ?case
  proof (cases "isEnabled p (pendingList p ! j) \<and> isUnmasked p ctxid (pendingList p ! j)")
    case True
    then have "first_scan p ctxid j (0, 0) = (src_priority p j, pendingList p ! 0)"
      by (simp add: first_scan_def)
    then show ?thesis by (simp add: first_scan_keeps)
  next
    case False
    then have "first_scan p ctxid j (0, 0) = (0, 0)" by (auto simp: first_scan_def Let_def)
    moreover have "j \<noteq> i" using False assms by auto
    ultimately show ?thesis using Cons by simp
  qed
qed simp

lemma second_scan_mem:
  "irqidx \<in> set (pendingList p) \<Longrightarrow> \<forall>i \<in> set is. i < length (pendingList p) \<Longrightarrow>
     fold (second_scan p ctxid pr) is irqidx \<in> set (pendingList p)"
proof (induction "is" arbitrary: irqidx)
  case (Cons i "is")
  have "second_scan p ctxid pr i irqidx \<in> set (pendingList p)"
    using Cons.prems by (auto simp: second_scan_def Let_def)
  with Cons show ?case by simp
qed simp

text \<open>A reported number is that of a pending interrupt; one is reported iff one can be delivered.\<close>

lemma getPendingRequest_pending:
  assumes "plic_getPendingRequest ctxid p \<noteq> 0"
  shows "plic_getPendingRequest ctxid p \<in> set (pendingList p)"
proof -
  let ?n = "length (pendingList p)"
  obtain pr irq where f: "fold (first_scan p ctxid) [0..<?n] (0, 0) = (pr, irq)" by fastforce
  have irq: "irq \<in> {0, pendingList p ! 0}" using first_scan_result [of p ctxid "[0..<?n]"] f by simp
  have ne: "irq \<noteq> 0" using assms f by (auto simp: plic_getPendingRequest_def Let_def split: if_splits)
  then have "pendingList p \<noteq> []" using f by auto
  then have "pendingList p ! 0 \<in> set (pendingList p)" by (auto intro: nth_mem)
  then show ?thesis using irq ne f second_scan_mem [of irq p "[0..<?n]" ctxid pr]
    by (auto simp: plic_getPendingRequest_def Let_def)
qed

lemma getPendingRequest_iff:
  assumes "0 \<notin> set (pendingList p)"
  shows "plic_getPendingRequest ctxid p \<noteq> 0 \<longleftrightarrow> (\<exists>i. deliverable p ctxid i)"
proof
  let ?n = "length (pendingList p)"
  assume "\<exists>i. deliverable p ctxid i"
  then obtain k where k: "k < ?n" "isEnabled p (pendingList p ! k)" "isUnmasked p ctxid (pendingList p ! k)"
    by (auto simp: deliverable_def in_set_conv_nth)
  obtain pr irq where f: "fold (first_scan p ctxid) [0..<?n] (0, 0) = (pr, irq)" by fastforce
  then have irq: "irq = pendingList p ! 0" using first_scan_finds [of k "[0..<?n]" p ctxid] k by simp
  have "0 < ?n" using k(1) by (rule le_less_trans [OF le0])
  then have m: "irq \<in> set (pendingList p)" using irq by simp
  then have "irq \<noteq> 0" using assms by metis
  moreover have "fold (second_scan p ctxid pr) [0..<?n] irq \<in> set (pendingList p)"
    by (rule second_scan_mem [OF m]) simp
  then have "fold (second_scan p ctxid pr) [0..<?n] irq \<noteq> 0" using assms by metis
  ultimately show "plic_getPendingRequest ctxid p \<noteq> 0"
    using f by (simp add: plic_getPendingRequest_def)
next
  assume r: "plic_getPendingRequest ctxid p \<noteq> 0"
  show "\<exists>i. deliverable p ctxid i"
  proof (rule ccontr)
    assume "\<not> ?thesis"
    then have "fold (first_scan p ctxid) [0..<length (pendingList p)] (0, 0) = (0, 0)"
      by (intro first_scan_none) (auto simp: deliverable_def)
    with r show False by (simp add: plic_getPendingRequest_def)
  qed
qed

section \<open>The register map\<close>

text \<open>The registers by their index: two global banks, then three registers per context.\<close>

lemma concat_triples_nth:
  assumes "\<And>k. length (f k) = 3" and "i < n" and "j < 3"
  shows "concat (map f [0..<n]) ! (3 * i + j) = f i ! j"
  using assms(2)
proof (induction n)
  case (Suc n)
  have len: "length (concat (map f [0..<n])) = 3 * n" by (induction n) (simp_all add: assms(1))
  show ?case
  proof (cases "i = n")
    case True
    then show ?thesis by (simp add: nth_append len)
  next
    case False
    then have "3 * i + j < 3 * n" "i < n" using Suc.prems assms(3) by simp_all
    then show ?thesis using Suc.IH by (simp add: nth_append len)
  qed
qed simp

lemma plic_regs_length: "length (bank_regs (plic_bank base n)) = 2 + 3 * n"
  by (induction n) (simp_all add: plic_bank_def plic_context_def)

lemma plic_regs_nth:
  "bank_regs (plic_bank base n) ! 0 = plic_src_priority"
  "bank_regs (plic_bank base n) ! 1 = plic_pending"
  "k < n \<Longrightarrow> bank_regs (plic_bank base n) ! (2 + 3 * k) = plic_enable k"
  "k < n \<Longrightarrow> bank_regs (plic_bank base n) ! (3 + 3 * k) = plic_priority_th k"
  "k < n \<Longrightarrow> bank_regs (plic_bank base n) ! (4 + 3 * k) = plic_claim_complete k"
proof -
  have c: "bank_regs (plic_bank base n) ! (2 + x) = concat (map plic_context [0..<n]) ! x" for x
    by (simp add: plic_bank_def)
  have t: "concat (map plic_context [0..<n]) ! (3 * k + j) = plic_context k ! j" if "k < n" "j < 3" for j
    using that by (intro concat_triples_nth) (simp_all add: plic_context_def)
  show "bank_regs (plic_bank base n) ! 0 = plic_src_priority" "bank_regs (plic_bank base n) ! 1 = plic_pending"
    by (simp_all add: plic_bank_def)
  show "k < n \<Longrightarrow> bank_regs (plic_bank base n) ! (2 + 3 * k) = plic_enable k"
    using t [of 0] c [of "3 * k"] by (simp add: plic_context_def)
  show "k < n \<Longrightarrow> bank_regs (plic_bank base n) ! (3 + 3 * k) = plic_priority_th k"
    using t [of 1] c [of "3 * k + 1"] by (simp add: plic_context_def numeral_3_eq_3)
  show "k < n \<Longrightarrow> bank_regs (plic_bank base n) ! (4 + 3 * k) = plic_claim_complete k"
    using t [of 2] c [of "3 * k + 2"] by (simp add: plic_context_def eval_nat_numeral)
qed

lemma plic_bank_simps [simp]:
  "bank_base (plic_bank base n) = base" "bank_length (plic_bank base n) = 0x4000000"
  by (simp_all add: plic_bank_def)

lemma plic_ctx_place:
  assumes "k < n" and "n \<le> 15872"
  shows "unat (mreg_base (plic_enable k)) = 0x2000 + 0x80 * k" and "mreg_length (plic_enable k) = 0x80"
    and "unat (mreg_base (plic_priority_th k)) = 0x200000 + 0x1000 * k" and "mreg_length (plic_priority_th k) = 4"
    and "unat (mreg_base (plic_claim_complete k)) = 0x200004 + 0x1000 * k" and "mreg_length (plic_claim_complete k) = 4"
proof -
  have u: "unat (of_nat m :: u64) = m" if "m < 0x10000000" for m using that by (simp add: unat_of_nat)
  show "unat (mreg_base (plic_enable k)) = 0x2000 + 0x80 * k" "unat (mreg_base (plic_priority_th k)) = 0x200000 + 0x1000 * k"
    "unat (mreg_base (plic_claim_complete k)) = 0x200004 + 0x1000 * k"
    using assms u [of "0x2000 + 0x80 * k"] u [of "0x200000 + 0x1000 * k"] u [of "0x200004 + 0x1000 * k"]
    by (simp_all add: plic_enable_def plic_priority_th_def plic_claim_complete_def)
qed (simp_all add: plic_enable_def plic_priority_th_def plic_claim_complete_def)

lemma plic_in_reg:
  assumes n: "n \<le> 15872"
  shows "in_reg (plic_bank base n) a 0 \<longleftrightarrow> a < 0x1000"
    and "in_reg (plic_bank base n) a 1 \<longleftrightarrow> 0x1000 \<le> a \<and> a < 0x2000"
    and "k < n \<Longrightarrow> in_reg (plic_bank base n) a (2 + 3 * k) \<longleftrightarrow> 0x2000 + 0x80 * k \<le> a \<and> a < 0x2080 + 0x80 * k"
    and "k < n \<Longrightarrow> in_reg (plic_bank base n) a (3 + 3 * k) \<longleftrightarrow> 0x200000 + 0x1000 * k \<le> a \<and> a < 0x200004 + 0x1000 * k"
    and "k < n \<Longrightarrow> in_reg (plic_bank base n) a (4 + 3 * k) \<longleftrightarrow> 0x200004 + 0x1000 * k \<le> a \<and> a < 0x200008 + 0x1000 * k"
proof -
  show "in_reg (plic_bank base n) a 0 \<longleftrightarrow> a < 0x1000" "in_reg (plic_bank base n) a 1 \<longleftrightarrow> 0x1000 \<le> a \<and> a < 0x2000"
    unfolding in_reg_def plic_regs_length plic_regs_nth by (simp_all add: plic_src_priority_def plic_pending_def)
  assume k: "k < n"
  show "in_reg (plic_bank base n) a (2 + 3 * k) \<longleftrightarrow> 0x2000 + 0x80 * k \<le> a \<and> a < 0x2080 + 0x80 * k"
    unfolding in_reg_def plic_regs_length plic_regs_nth(3) [OF k] plic_ctx_place [OF k n] using k n by auto
  show "in_reg (plic_bank base n) a (3 + 3 * k) \<longleftrightarrow> 0x200000 + 0x1000 * k \<le> a \<and> a < 0x200004 + 0x1000 * k"
    unfolding in_reg_def plic_regs_length plic_regs_nth(4) [OF k] plic_ctx_place [OF k n] using k n by auto
  show "in_reg (plic_bank base n) a (4 + 3 * k) \<longleftrightarrow> 0x200004 + 0x1000 * k \<le> a \<and> a < 0x200008 + 0x1000 * k"
    unfolding in_reg_def plic_regs_length plic_regs_nth(5) [OF k] plic_ctx_place [OF k n] using k n by auto
qed

lemma plic_index_cases:
  assumes "in_reg (plic_bank base n) a i"
  obtains "i = 0" | "i = 1" | k where "k < n" "i = 2 + 3 * k" | k where "k < n" "i = 3 + 3 * k"
    | k where "k < n" "i = 4 + 3 * k"
proof -
  have "i < 2 + 3 * n" using assms by (simp add: in_reg_def plic_regs_length)
  then have "i = 0 \<or> i = 1 \<or> (\<exists>k < n. i = 2 + 3 * k \<or> i = 3 + 3 * k \<or> i = 4 + 3 * k)" by presburger
  then show ?thesis using that by blast
qed

text \<open>Where an address lies determines its register.\<close>

definition plic_index :: "nat \<Rightarrow> nat" where
  "plic_index a =
    (if a < 0x1000 then 0 else if a < 0x2000 then 1
     else if a < 0x200000 then 2 + 3 * ((a - 0x2000) div 0x80)
     else let k = (a - 0x200000) div 0x1000 in if a < 0x200004 + 0x1000 * k then 3 + 3 * k else 4 + 3 * k)"

lemma plic_index_reg:
  assumes n: "n \<le> 15872" and i: "in_reg (plic_bank base n) a i"
  shows "i = plic_index a"
proof -
  have d: "(a - m) div w = k" if "m + w * k \<le> a" "a < m + w + w * k" for m w k :: nat
  proof -
    have "w * k \<le> a - m" "a - m < w * Suc k" using that by auto
    then show ?thesis by (intro div_nat_eqI) (simp_all add: mult.commute)
  qed
  from i show ?thesis
  proof (cases rule: plic_index_cases)
    case (3 k)
    with i plic_in_reg(3) [OF n 3(1), of base a] n d [where m = "0x2000" and w = "0x80" and k = k] show ?thesis by (simp add: plic_index_def)
  next
    case (4 k)
    with i plic_in_reg(4) [OF n 4(1), of base a] n d [where m = "0x200000" and w = "0x1000" and k = k] show ?thesis by (simp add: plic_index_def)
  next
    case (5 k)
    with i plic_in_reg(5) [OF n 5(1), of base a] n d [where m = "0x200000" and w = "0x1000" and k = k] show ?thesis by (simp add: plic_index_def)
  qed (use i plic_in_reg(1,2) [OF n, of base a] in \<open>simp_all add: plic_index_def\<close>)
qed

lemma plic_register_bank:
  assumes "n \<le> 15872"
  shows "register_bank (plic_bank base n)"
proof
  fix a i j
  show "i = j" if "in_reg (plic_bank base n) a i" "in_reg (plic_bank base n) a j"
    using plic_index_reg [OF assms that(1)] plic_index_reg [OF assms that(2)] by simp
next
  fix i
  let ?r = "bank_regs (plic_bank base n) ! i"
  assume "i < length (bank_regs (plic_bank base n))"
  then have "i = 0 \<or> i = 1 \<or> (\<exists>k < n. i = 2 + 3 * k \<or> i = 3 + 3 * k \<or> i = 4 + 3 * k)"
    unfolding plic_regs_length by presburger
  then show "unat (mreg_base ?r) + mreg_length ?r \<le> bank_length (plic_bank base n)"
    using assms
    by (elim disjE exE conjE)
      (simp_all only: plic_regs_nth plic_ctx_place plic_bank_simps, simp_all add: plic_src_priority_def plic_pending_def)
qed

text \<open>The platform has two contexts, machine and supervisor mode of one hart.\<close>

interpretation plic_rb: register_bank "plic_bank base 2" for base
  by (rule plic_register_bank) simp

section \<open>Claiming and the invariant\<close>

definition plic_inv :: "plic \<Rightarrow> bool" where
  "plic_inv p \<longleftrightarrow> plic_wf p \<and> list_all (\<lambda>i. 0 < i \<and> i < 1024) (pendingList p)"

lemma plic_inv_claim:
  assumes "plic_inv p"
  shows "plic_inv (snd (claim k p))"
proof (cases "plic_getPendingRequest k p = 0")
  case False
  then show ?thesis
    using assms pendingList_clear [of p "plic_getPendingRequest k p"]
    by (auto simp: plic_inv_def claim_def Let_def clearPendingBit_wf list_all_iff)
qed (use assms in \<open>simp add: claim_def clearPendingBit_def\<close>)

lemma claim_keeps: "claim k p = (i, p') \<Longrightarrow> plic_inv p \<Longrightarrow> plic_inv p'"
  using plic_inv_claim [of p k] by simp

lemma plic_inv_request: "plic_inv p \<Longrightarrow> 0 < i \<Longrightarrow> i < 1024 \<Longrightarrow> plic_inv (requestInterrupt i p)"
  using setPendingBit_wf [of p i] by (auto simp: plic_inv_def requestInterrupt_def) (auto simp: setPendingBit_def Let_def)

lemma plic_inv_frame [simp]:
  "plic_inv (p\<lparr>ctx_enable := e\<rparr>) = plic_inv p" "plic_inv (p\<lparr>ctx_priority_th := th\<rparr>) = plic_inv p"
  "plic_inv (p\<lparr>ctx_claim := cc\<rparr>) = plic_inv p" "plic_inv (src_priority_write i v p) = plic_inv p"
  by (simp_all add: plic_inv_def plic_wf_def pending_bit_def src_priority_write_def)

lemma plic_regs_keep:
  "reg_keeps plic_inv plic_src_priority" "reg_keeps plic_inv (plic_enable k)"
  "reg_keeps plic_inv (plic_priority_th k)" "reg_keeps plic_inv (plic_claim_complete k)"
proof -
  show "reg_keeps plic_inv (plic_claim_complete k)"
    by (auto simp: reg_keeps_def plic_claim_complete_def mapped32_transport_def Let_def split: if_splits prod.splits dest: claim_keeps)
qed (auto simp: reg_keeps_def plic_src_priority_def plic_enable_def plic_priority_th_def bank32_transport_def
    mapped32_transport_def Let_def split: if_splits)

text \<open>The states that requests and bus accesses lead to. Software that writes the pending registers, which hardware makes
  read-only, is excluded.\<close>

definition plic_init :: plic where
  "plic_init = \<lparr>src_priority = (\<lambda>_. 0), pending = (\<lambda>_. 0), ctx_enable = (\<lambda>_ _. 0), ctx_priority_th = (\<lambda>_. 0),
     ctx_claim = (\<lambda>_. 0), pendingList = []\<rparr>"

inductive plic_reach :: "u64 \<Rightarrow> nat \<Rightarrow> plic bank \<Rightarrow> bool" for base n where
  init: "plic_reach base n \<lparr>stubmem = (\<lambda>_. 0xFF), bank_dev = plic_init\<rparr>"
| request: "plic_reach base n b \<Longrightarrow> 0 < i \<Longrightarrow> i < 1024 \<Longrightarrow> plic_reach base n (b\<lparr>bank_dev := requestInterrupt i (bank_dev b)\<rparr>)"
| access: "plic_reach base n b \<Longrightarrow> bank_transport (plic_bank base n) now tr b = Inr (tr', b') \<Longrightarrow>
    unat (addr tr - base) + xsize tr \<le> 0x1000 \<or> 0x2000 \<le> unat (addr tr - base) \<Longrightarrow> plic_reach base n b'"

lemma plic_reach_inv:
  assumes "plic_reach base n b" and n: "n \<le> 15872"
  shows "plic_inv (bank_dev b)"
  using assms(1)
proof induction
  case init
  show ?case by (simp add: plic_inv_def plic_wf_def pending_bit_def plic_init_def)
next
  case (request b i)
  then show ?case by (simp add: plic_inv_request)
next
  case (access b now tr tr' b')
  let ?off = "unat (addr tr - base)"
  have "reg_keeps plic_inv (bank_regs (plic_bank base n) ! i)"
    if a: "?off \<le> a" "a < ?off + xsize tr" and h: "bank_hash (plic_bank base n) a = Some i" for a i
  proof -
    have r: "in_reg (plic_bank base n) a i" by (rule bank_hash_in_reg [OF h])
    moreover have "i \<noteq> 1"
    proof
      assume "i = 1"
      then show False using r plic_in_reg(2) [OF n, of base a] a access.hyps(3) by auto
    qed
    ultimately show ?thesis
      by (cases rule: plic_index_cases) (simp_all only: plic_regs_nth plic_regs_keep)
  qed
  then show ?case
    using bank_loop_inv [of ?off "xsize tr" "plic_bank base n" plic_inv b] access unfolding bank_transport_def Let_def
    by (metis plic_bank_simps(1))
qed

lemma plic_read_claim:
  assumes n: "n \<le> 15872" and k: "k < n" and tr: "read_req (base + of_nat (0x200004 + 0x1000 * k)) 4 tr"
  shows "\<exists>tr'. bank_transport (plic_bank base n) now tr b = Inr (tr', b\<lparr>bank_dev := snd (claim k (bank_dev b))\<rparr>) \<and>
     take_bit 32 (rpayload tr') = take_bit 32 (of_nat (fst (claim k (bank_dev b))))"
proof -
  let ?off = "0x200004 + 0x1000 * k" and ?r = "plic_claim_complete k"
  have a: "addr tr - base = of_nat ?off" "xsize tr = 4" "action tr = MemAction_Read" using tr by (simp_all add: read_req_def)
  have r: "bank_regs (plic_bank base n) ! (4 + 3 * k) = ?r" using k by (simp only: plic_regs_nth)
  have u: "unat (of_nat m :: u64) = m" if "m < 2 ^ 64" for m using that by (simp add: unat_of_nat)
  have off: "?off = unat (addr tr - bank_base (plic_bank base n))"
    unfolding plic_bank_simps a(1) by (rule u [symmetric]) (use n k in simp)
  have inr: "in_reg (plic_bank base n) ?off (4 + 3 * k)" using plic_in_reg(5) [OF n k] by simp
  have len: "?off + 4 \<le> unat (mreg_base (bank_regs (plic_bank base n) ! (4 + 3 * k))) + mreg_length (bank_regs (plic_bank base n) ! (4 + 3 * k))"
    unfolding r plic_ctx_place [OF k n] by simp
  obtain i p' where c: "claim k (bank_dev b) = (i, p')" by fastforce
  have t: "mreg_trans ?r now (tr\<lparr>addr := of_nat ?off\<rparr>) (bank_dev b) =
     Some (tr\<lparr>addr := of_nat ?off, rpayload := load_bytes (\<lambda>j. b8 j (ucast (of_nat i :: u32))) 0 4 (rpayload tr AND NOT (mask 32))\<rparr>, p')"
    using a(2,3) by (simp add: plic_claim_complete_def mapped32_transport_def Let_def c)
  have "bank_transport (plic_bank base n) now tr b =
      Inr (tr\<lparr>rpayload := put_bytes 0 4 (load_bytes (\<lambda>j. b8 j (ucast (of_nat i :: u32))) 0 4 (rpayload tr AND NOT (mask 32))) (rpayload tr)\<rparr>,
           b\<lparr>bank_dev := p'\<rparr>)"
    using register_bank.access_reg [OF plic_register_bank [OF n] inr len _ _ off a(2), of now b] a(3)
    unfolding plic_bank_simps a(1) r t by simp
  moreover have "take_bit 32 (ucast (of_nat i :: u32) :: u64) = take_bit 32 (of_nat i)"
    by (rule bit_word_eqI) (simp add: bit_simps)
  ultimately show ?thesis
    using put_bytes_low [of 4] load_bytes_low [of 4] c by simp
qed

section \<open>Properties\<close>



end
