(* ===== verification/Soc.thy ===== *)
theory Soc
  imports Pipeline_Step Cpu_Atomics Clint Plic
begin

text \<open>
  The functional system: the CPU wired to the bus, the bus to its memories, and the interrupt
  inputs of the CPU to the CLINT and the PLIC, as \<^verbatim>\<open>postinitService\<close> connects them. \<open>soc_mems\<close> says
  which slaves of the map are memories; the other slaves are a parameter. The interpretations show that
  the memories behind the bus meet the contract the CPU relies on.
\<close>

section \<open>The system\<close>

record soc =
  soc_mem :: "nat \<Rightarrow> memory"
  soc_clint :: clint
  soc_plic :: plic
  soc_stub :: "nat \<Rightarrow> nat \<Rightarrow> u8"
  soc_oob :: bool

text \<open>The register banks among the slaves, with their base address and, for the PLIC, the number of contexts.\<close>

datatype soc_bank = Bank_Clint u64 | Bank_Plic u64 nat

record soc_cfg =
  soc_map :: bus_cfg
  soc_mems :: "nat \<Rightarrow> mem_cfg option"
  soc_banks :: "nat \<Rightarrow> soc_bank option"
  soc_other :: "nat \<Rightarrow> u64 \<Rightarrow> axi4 \<Rightarrow> soc \<Rightarrow> (ETransStatus \<times> axi4) \<times> soc \<times> nat clk_req list"

text \<open>A bank access that leaves a register sets \<open>soc_oob\<close>.\<close>

definition soc_bank_transport :: "nat \<Rightarrow> soc_bank \<Rightarrow> u64 \<Rightarrow> axi4 \<Rightarrow> soc \<Rightarrow> (ETransStatus \<times> axi4) \<times> soc \<times> nat clk_req list" where
  "soc_bank_transport d bk t tr b =
    (case bk of
       Bank_Clint base \<Rightarrow>
         (case bank_transport (clint_bank base) t tr \<lparr>stubmem = soc_stub b d, bank_dev = soc_clint b\<rparr> of
            Inl _ \<Rightarrow> ((TRANS_OK, tr), b\<lparr>soc_oob := True\<rparr>, [])
          | Inr (tr', s) \<Rightarrow> ((TRANS_OK, tr'), b\<lparr>soc_stub := (soc_stub b)(d := stubmem s), soc_clint := bank_dev s\<rparr>, []))
     | Bank_Plic base n \<Rightarrow>
         (case bank_transport (plic_bank base n) t tr \<lparr>stubmem = soc_stub b d, bank_dev = soc_plic b\<rparr> of
            Inl _ \<Rightarrow> ((TRANS_OK, tr), b\<lparr>soc_oob := True\<rparr>, [])
          | Inr (tr', s) \<Rightarrow> ((TRANS_OK, tr'), b\<lparr>soc_stub := (soc_stub b)(d := stubmem s), soc_plic := bank_dev s\<rparr>, [])))"

definition soc_slaves ::
  "soc_cfg \<Rightarrow> nat \<Rightarrow> u64 \<Rightarrow> axi4 \<Rightarrow> soc \<Rightarrow> (ETransStatus \<times> axi4) \<times> soc \<times> nat clk_req list" where
  "soc_slaves sc d t tr b =
    (case soc_mems sc d of
       Some cfg \<Rightarrow> (case mem_transport cfg tr (soc_mem b d) of
                      (r, m) \<Rightarrow> (r, b\<lparr>soc_mem := (soc_mem b)(d := m)\<rparr>, []))
     | None \<Rightarrow>
         (case soc_banks sc d of
            Some bk \<Rightarrow> soc_bank_transport d bk t tr b
          | None \<Rightarrow> soc_other sc d t tr b))"

definition soc_bus ::
  "soc_cfg \<Rightarrow> u64 \<Rightarrow> axi4 \<Rightarrow> soc \<Rightarrow> (ETransStatus \<times> axi4) \<times> soc \<times> nat clk_req list" where
  "soc_bus sc = bus_transport (soc_map sc) (soc_slaves sc)"

definition soc_irqloc :: "u64 \<Rightarrow> nat \<Rightarrow> soc \<Rightarrow> u32 \<times> soc" where
  "soc_irqloc t ctxid b =
    (case clint_getPendingRequest t ctxid (soc_clint b) of (r, cl) \<Rightarrow> (r, b\<lparr>soc_clint := cl\<rparr>))"

definition soc_irqext :: "u64 \<Rightarrow> nat \<Rightarrow> soc \<Rightarrow> u32 \<times> soc" where
  "soc_irqext t ctxid b = (of_nat (plic_getPendingRequest ctxid (soc_plic b)), b)"

definition soc_cpu :: "soc_cfg \<Rightarrow> soc cpu_cfg \<Rightarrow> soc cpu_cfg" where
  "soc_cpu sc k = k\<lparr>isysbus := soc_bus sc, iirqloc := soc_irqloc, iirqext := soc_irqext\<rparr>"

section \<open>The memories behind the bus\<close>

definition soc_dev :: "soc_cfg \<Rightarrow> u64 \<Rightarrow> (nat \<times> mem_cfg) option" where
  "soc_dev sc a =
    (case getMapedDevice (soc_map sc) a of
       None \<Rightarrow> None
     | Some d \<Rightarrow> map_option (Pair d) (soc_mems sc d))"

definition soc_byte :: "soc_cfg \<Rightarrow> soc \<Rightarrow> u64 \<Rightarrow> u8" where
  "soc_byte sc b a =
    (case soc_dev sc a of None \<Rightarrow> 0 | Some (d, cfg) \<Rightarrow> mem_byte cfg (soc_mem b d) a)"

definition soc_ok :: "soc_cfg \<Rightarrow> soc \<Rightarrow> u64 \<Rightarrow> nat \<Rightarrow> bool" where
  "soc_ok sc b a n \<longleftrightarrow>
    (case soc_dev sc a of
       None \<Rightarrow> False
     | Some (d, cfg) \<Rightarrow> mem_ok cfg (soc_mem b d) a n \<and> (\<forall>i < n. soc_dev sc (a + of_nat i) = Some (d, cfg)))"

lemma soc_bus_mem:
  "soc_dev sc (addr tr) = Some (d, cfg) \<Longrightarrow>
     soc_bus sc t tr b =
       (case mem_transport cfg tr (soc_mem b d) of
          ((_, tr'), m) \<Rightarrow> ((TRANS_OK, tr'), b\<lparr>soc_mem := (soc_mem b)(d := m)\<rparr>, []))"
  by (auto simp: soc_dev_def soc_bus_def bus_transport_def soc_slaves_def split: option.splits prod.splits)

lemma in_bytes_nat:
  assumes "in_bytes x a n"
  obtains i where "i < n" "x = a + of_nat i"
proof
  show "unat (x - a) < n" using assms by (simp add: in_bytes_def)
  show "x = a + of_nat (unat (x - a))" by simp
qed

lemma soc_read:
  assumes ok: "soc_ok sc b a n" and r: "read_req a n tr"
  shows "\<exists>tr'. soc_bus sc t tr b = ((TRANS_OK, tr'), b, []) \<and> read_req a n tr' \<and>
      (\<forall>i < 8. b8 i (rpayload tr') = (if i < n then soc_byte sc b (a + of_nat i) else 0))"
proof -
  from ok obtain d cfg where d: "soc_dev sc a = Some (d, cfg)" and m: "mem_ok cfg (soc_mem b d) a n"
    and all: "\<And>i. i < n \<Longrightarrow> soc_dev sc (a + of_nat i) = Some (d, cfg)"
    by (auto simp: soc_ok_def split: option.splits)
  have a: "addr tr = a" using r by (simp add: read_req_def)
  obtain st tr' m' where e: "mem_transport cfg tr (soc_mem b d) = ((st, tr'), m')"
    by (metis prod.exhaust)
  have "m' = soc_mem b d" using mg.read_state [OF m r] e by simp
  then have "soc_bus sc t tr b = ((TRANS_OK, tr'), b, [])"
    using soc_bus_mem [of sc tr d cfg t b] d a e by simp
  moreover have "read_req a n tr'" using mg.read_trans [OF m r] e by simp
  moreover have "b8 i (rpayload tr') = (if i < n then soc_byte sc b (a + of_nat i) else 0)" if "i < 8" for i
    using mg.read_bytes [OF m r that] e all by (simp add: soc_byte_def)
  ultimately show ?thesis by blast
qed

lemma soc_write:
  assumes ok: "soc_ok sc b a n" and w: "write_req a n tr"
  shows "\<exists>tr' b'. soc_bus sc t tr b = ((TRANS_OK, tr'), b', []) \<and>
      (\<forall>x. soc_ok sc b x 1 \<longrightarrow>
         soc_byte sc b' x = (if in_bytes x a n then b8 (unat (x - a)) (wpayload tr) else soc_byte sc b x)) \<and>
      (\<forall>x k. soc_ok sc b' x k = soc_ok sc b x k)"
proof -
  from ok obtain d cfg where d: "soc_dev sc a = Some (d, cfg)" and m: "mem_ok cfg (soc_mem b d) a n"
    and all: "\<And>i. i < n \<Longrightarrow> soc_dev sc (a + of_nat i) = Some (d, cfg)"
    by (auto simp: soc_ok_def split: option.splits)
  have a: "addr tr = a" using w by (simp add: write_req_def)
  obtain st tr' m' where e: "mem_transport cfg tr (soc_mem b d) = ((st, tr'), m')"
    by (metis prod.exhaust)
  let ?b = "b\<lparr>soc_mem := (soc_mem b)(d := m')\<rparr>"
  have "soc_bus sc t tr b = ((TRANS_OK, tr'), ?b, [])"
    using soc_bus_mem [of sc tr d cfg t b] d a e by simp
  moreover have "soc_byte sc ?b x = (if in_bytes x a n then b8 (unat (x - a)) (wpayload tr) else soc_byte sc b x)"
    if x: "soc_ok sc b x 1" for x
  proof -
    from x obtain d' cfg' where d': "soc_dev sc x = Some (d', cfg')" and m': "mem_ok cfg' (soc_mem b d') x 1"
      by (auto simp: soc_ok_def split: option.splits)
    have same: "d' = d \<and> cfg' = cfg" if "in_bytes x a n"
      using that all d' by (elim in_bytes_nat) auto
    show ?thesis
    proof (cases "d' = d")
      case True
      then have "cfg' = cfg" using d d' by (auto simp: soc_dev_def split: option.splits)
      with True show ?thesis using mg.write_bytes [OF m w, of x] m' e d' by (simp add: soc_byte_def)
    next
      case False
      with same d' show ?thesis by (auto simp: soc_byte_def)
    qed
  qed
  moreover have "soc_ok sc ?b x k = soc_ok sc b x k" for x k
    by (auto simp: soc_ok_def mem_ok_def split: option.split)
  ultimately show ?thesis by blast
qed

lemma soc_memory_slave:
  "memory_slave (\<lambda>tr b. (fst (soc_bus sc t tr b), fst (snd (soc_bus sc t tr b)))) (soc_byte sc) (soc_ok sc)"
proof (unfold_locales, goal_cases)
  case (1 b a n)
  then show ?case by (auto simp: soc_ok_def mem_ok_def split: option.splits)
next
  case (2 b a n tr)
  then show ?case using soc_read [of sc b a n tr t] by auto
next
  case (3 b a n tr)
  then show ?case using soc_read [of sc b a n tr t] by auto
next
  case (4 b a n tr)
  then show ?case using soc_read [of sc b a n tr t] by auto
next
  case (5 b a n tr i)
  then show ?case using soc_read [of sc b a n tr t] by auto
next
  case (6 b a n tr)
  then show ?case using soc_write [of sc b a n tr t] by auto
next
  case (7 b a n tr x)
  then show ?case using soc_write [of sc b a n tr t] by auto
next
  case (8 b a n tr x k)
  then show ?case using soc_write [of sc b a n tr t] by auto
next
  case (9 b a n i)
  then show ?case using mg.ok_part by (fastforce simp: soc_ok_def split: option.splits)
qed

interpretation soc: cpu_memory "soc_cpu sc k" "soc_byte sc" "soc_ok sc" for sc k
proof (rule cpu_memory.intro)
  show "memory_slave (\<lambda>tr b. (fst (isysbus (soc_cpu sc k) t tr b), fst (snd (isysbus (soc_cpu sc k) t tr b))))
      (soc_byte sc) (soc_ok sc)" for t
    using soc_memory_slave [of sc t] by (simp add: soc_cpu_def)
  show "snd (snd (isysbus (soc_cpu sc k) t tr b)) = []"
    if "soc_ok sc b a n" "read_req a n tr \<or> write_req a n tr" for b a n tr t
    using that soc_read [of sc b a n tr t] soc_write [of sc b a n tr t] by (auto simp: soc_cpu_def)
qed

section \<open>The interrupt lines\<close>

definition soc_inv :: "soc \<Rightarrow> bool" where
  "soc_inv b \<longleftrightarrow> plic_wf (soc_plic b) \<and> list_all (\<lambda>i. 0 < i \<and> i < 1024) (pendingList (soc_plic b))"

definition loc_raised :: "u64 \<Rightarrow> nat \<Rightarrow> soc \<Rightarrow> bool" where
  "loc_raised t k b =
    (if k mod 2 = 0 then bit (msip (soc_clint b) (k div 2)) 0
     else mtimecmp (soc_clint b) (k div 2) \<le> clint_time t (soc_clint b))"

definition ext_raised :: "u64 \<Rightarrow> nat \<Rightarrow> soc \<Rightarrow> bool" where
  "ext_raised t k b \<longleftrightarrow>
     list_ex (\<lambda>i. isEnabled (soc_plic b) i \<and> isUnmasked (soc_plic b) k i) (pendingList (soc_plic b))"

lemma soc_irqloc_pend:
  "fst (soc_irqloc t k b) \<noteq> 0 \<longleftrightarrow> loc_raised t k b"
  "soc_plic (snd (soc_irqloc t k b)) = soc_plic b"
  "loc_raised t' k' (snd (soc_irqloc t k b)) = loc_raised t' k' b"
proof -
  show "fst (soc_irqloc t k b) \<noteq> 0 \<longleftrightarrow> loc_raised t k b"
    by (simp add: soc_irqloc_def clint_getPendingRequest_def loc_raised_def Let_def mtime_updateTimer
        and_one_eq odd_iff_mod_2_eq_one [symmetric] bit_0)
  show "soc_plic (snd (soc_irqloc t k b)) = soc_plic b"
    by (simp add: soc_irqloc_def split: prod.split)
  show "loc_raised t' k' (snd (soc_irqloc t k b)) = loc_raised t' k' b"
    by (simp add: soc_irqloc_def clint_getPendingRequest_def loc_raised_def Let_def)
qed

lemma soc_irqext_pend:
  assumes "soc_inv b"
  shows "fst (soc_irqext t k b) \<noteq> 0 \<longleftrightarrow> ext_raised t k b"
proof -
  let ?p = "soc_plic b" and ?r = "plic_getPendingRequest k (soc_plic b)"
  have pos: "\<And>i. i \<in> set (pendingList ?p) \<Longrightarrow> 0 < i \<and> i < 1024"
    using assms by (simp add: soc_inv_def list_all_iff)
  then have z: "0 \<notin> set (pendingList ?p)" by fastforce
  have "?r < 1024" using getPendingRequest_pending [of k ?p] pos by (cases "?r = 0") auto
  then have "fst (soc_irqext t k b) \<noteq> 0 \<longleftrightarrow> ?r \<noteq> 0"
    by (simp add: soc_irqext_def word_unat_eq_iff unat_of_nat)
  also have "\<dots> \<longleftrightarrow> ext_raised t k b"
    unfolding getPendingRequest_iff [OF z] by (auto simp: ext_raised_def deliverable_def list_ex_iff)
  finally show ?thesis .
qed

lemma soc_irq_frame [simp]:
  "snd (soc_irqext t k b) = b"
  "soc_inv (snd (soc_irqloc t k b)) = soc_inv b"
  "ext_raised t' k' (snd (soc_irqloc t k b)) = ext_raised t' k' b"
  by (simp_all add: soc_irqext_def soc_inv_def ext_raised_def soc_irqloc_pend)

interpretation soc_irq: cpu_irq "soc_cpu sc k" loc_raised ext_raised soc_inv for sc k
  by unfold_locales (simp_all add: soc_cpu_def soc_irqloc_pend soc_irqext_pend)

section \<open>Properties\<close>

text \<open>A small system for the concrete instances: one memory of four KB at \<open>0x80000000\<close>.\<close>

definition soc_sample :: soc_cfg where
  "soc_sample =
    \<lparr>soc_map = \<lparr>addrWidth = 39, imap = [\<lparr>bar = 0x80000000, barsz = 0x1000, prio = 0\<rparr>, \<lparr>bar = 0x2000000, barsz = 0x10000, prio = 0\<rparr>]\<rparr>,
     soc_mems = [0 \<mapsto> \<lparr>mem_base = 0x80000000, mem_length = 0x1000, mem_readOnly = False\<rparr>],
     soc_banks = [1 \<mapsto> Bank_Clint 0x2000000],
     soc_other = (\<lambda>d t tr b. ((TRANS_ERROR, tr), b, []))\<rparr>"

definition soc_blank :: soc where
  "soc_blank =
    \<lparr>soc_mem = (\<lambda>_. \<lparr>mem_data = (\<lambda>_. 0), mem_oob = False\<rparr>),
     soc_clint = \<lparr>msip = (\<lambda>_. 0), mtimecmp = (\<lambda>_. 0), mtime = 0, update_time = 0\<rparr>,
     soc_plic = \<lparr>src_priority = (\<lambda>_. 0), pending = (\<lambda>_. 0), ctx_enable = (\<lambda>_ _. 0), ctx_priority_th = (\<lambda>_. 0), ctx_claim = (\<lambda>_. 0),
                 pendingList = []\<rparr>,
     soc_stub = (\<lambda>_ _. 0xFF), soc_oob = False\<rparr>"

lemma sample_device:
  assumes "unat a < 2 ^ 39" "unat a div 2 ^ 25 = 64"
  shows "soc_dev soc_sample a = Some (0, \<lparr>mem_base = 0x80000000, mem_length = 0x1000, mem_readOnly = False\<rparr>)"
proof -
  have "hash_index (soc_map soc_sample) a = 64"
    using assms unat_hash(2) [of a "soc_map soc_sample"] by (simp add: hash_index_def soc_sample_def HASH_LVL1_OFFSET_def)
  moreover have "map_first (soc_map soc_sample) (imap (soc_map soc_sample) ! 0) = 64"
    "map_last (soc_map soc_sample) (imap (soc_map soc_sample) ! 0) = 64"
    "map_last (soc_map soc_sample) (imap (soc_map soc_sample) ! 1) = 1" by code_simp+
  ultimately show ?thesis
    by (simp add: soc_dev_def getMapedDevice_cases covers_def) (simp add: soc_sample_def covers_def)
qed

lemma soc_sample_ok: "soc_ok soc_sample b 0x80000100 8" "soc_ok soc_sample b 0x80000100 4"
proof -
  have d: "soc_dev soc_sample (0x80000100 + of_nat i) =
      Some (0, \<lparr>mem_base = 0x80000000, mem_length = 0x1000, mem_readOnly = False\<rparr>)" if "i < 8" for i
  proof (rule sample_device)
    have "unat (0x80000100 + of_nat i :: u64) = 0x80000100 + i"
      using unat_add_small [of "0x80000100" i] that by simp
    with that show "unat (0x80000100 + of_nat i :: u64) < 2 ^ 39" "unat (0x80000100 + of_nat i :: u64) div 2 ^ 25 = 64"
      by simp_all
  qed
  from d [of 0] d show "soc_ok soc_sample b 0x80000100 8" "soc_ok soc_sample b 0x80000100 4"
    by (simp_all add: soc_ok_def mem_ok_def)
qed

text \<open>The sample system with the word \<open>w\<close> at the sample address, and a core about to fetch it.\<close>

definition soc_with :: "u64 \<Rightarrow> soc" where
  "soc_with w = soc_blank\<lparr>soc_mem := (\<lambda>_. \<lparr>mem_data = (\<lambda>i. b8 (i - 0x100) w), mem_oob = False\<rparr>)\<rparr>"

definition sample_core :: "u64 \<Rightarrow> soc cpu" where
  "sample_core w = (sample_cpu (soc_with w))\<lparr>ctx_npc := (\<lambda>_. 0x80000100), regs := (\<lambda>i. if i = 1 then 0x80000100 else of_nat i)\<rparr>"

lemma soc_sample_word: "n \<le> 8 \<Longrightarrow> load_word (soc_byte soc_sample (soc_with w)) 0x80000100 n = take_bit (8 * n) w"
proof (rule load_word_written)
  fix i assume "n \<le> 8" "i < n"
  then have i: "i < 8" by simp
  then have u: "unat (0x80000100 + of_nat i :: u64) = 0x80000100 + i" using unat_add_small [of "0x80000100" i] by simp
  have o: "unat (0x100 + of_nat i :: u64) = 0x100 + i" using unat_add_small [of "0x100" i] i by simp
  have "soc_dev soc_sample (0x80000100 + of_nat i) = Some (0, \<lparr>mem_base = 0x80000000, mem_length = 0x1000, mem_readOnly = False\<rparr>)"
    by (rule sample_device) (use u i in simp_all)
  then show "soc_byte soc_sample (soc_with w) (0x80000100 + of_nat i) = b8 i w"
    by (simp add: soc_byte_def mem_byte_def soc_with_def o)
qed simp

lemma sample_core_simps [simp]:
  "devs (sample_core w) = soc_with w" "npc_of (sample_core w) = 0x80000100" "quiet (sample_core w)"
  "running (sample_cfg\<lparr>triggersTotal := 0\<rparr>) (sample_core w)" "\<not> mpu_denies c a x (sample_core w)"
  "sysBusWidthBytes sample_cfg = 8" "regs (sample_core w) i = (if i = 1 then 0x80000100 else of_nat i)"
  by (simp_all add: sample_core_def sample_cpu_def quiet_def running_def q_hardReset_def mpu_denies_def isMpuEnabled_def sample_cfg_def)

text \<open>C29. \<^verbatim>\<open>SW\<close> followed by \<^verbatim>\<open>LW\<close> from the same address puts the sign-extended low word of the stored register into the
  destination and changes no other register.\<close>

theorem soc_sw_lw:
  assumes a: "a = regs s (ISA_rs1 (buf32_0 p)) + sext_imm12 (ISA_S_off (buf32_0 p))"
    and b: "a = regs s (ISA_rs1 (buf32_0 q)) + sext_imm12 (ISA_I_imm (buf32_0 q))"
    and ok: "aligned a 4" "soc_ok sc (devs s) a 4" "4 \<le> sysBusWidthBytes k"
      "\<not> mpu_denies (soc_cpu sc k) a RWX_w s" "\<not> mpu_denies (soc_cpu sc k) a RWX_r s"
    and rd: "ISA_rd (buf32_0 q) \<noteq> 0"
  shows "regs (snd (run_state (do { exec_SW (soc_cpu sc k) p; exec_LW (soc_cpu sc k) q }) s)) =
    (regs s)(ISA_rd (buf32_0 q) := sext32 (regs s (ISA_rs2 (buf32_0 p))))"
proof -
  let ?c = "soc_cpu sc k" and ?v = "regs s (ISA_rs2 (buf32_0 p))"
  have wd: "4 \<le> sysBusWidthBytes ?c" using ok(3) by (simp add: soc_cpu_def)
  obtain b' where st: "run_state (store_op ?c a 4 ?v) s = ((), s\<lparr>devs := b'\<rparr>)"
    using soc.run_store_op [OF ok(1,2) wd ok(4)] by blast
  have "fst (run_state (do { store_op ?c a 4 ?v; load_op ?c a 4 0 }) s) = take_bit (8 * 4) ?v"
    by (rule soc.store_then_load [OF ok(1,2) wd ok(4,5)])
  then have ld: "fst (run_state (load_op ?c a 4 0) (s\<lparr>devs := b'\<rparr>)) = take_bit 32 ?v"
    using st by simp
  have fr: "regs (snd (run_state (load_op ?c a 4 0) t)) = regs t" for t
    using wd by (auto simp: load_op_def run_dma_memop load_trans_def split: prod.split)
  have sx: "(if take_bit 32 ?v AND 0x80000000 \<noteq> 0 then take_bit 32 ?v OR EXT_SIGN_32 else take_bit 32 ?v) = sext32 ?v"
    unfolding sext32_def Let_def and_mask32 ..
  obtain r t where l: "run_state (load_op ?c a 4 0) (s\<lparr>devs := b'\<rparr>) = (r, t)" by fastforce
  then have "r = take_bit 32 ?v" "regs t = regs s" using ld fr [of "s\<lparr>devs := b'\<rparr>"] by simp_all
  then show ?thesis
    using rd sx by (simp add: exec_SW_def exec_LW_def a [symmetric] b [symmetric] st l)
qed

theorem soc_sw_lw_witness:
  "regs (snd (run_state (do { exec_SW (soc_cpu soc_sample sample_cfg) 0x0020A023; exec_LW (soc_cpu soc_sample sample_cfg) 0x0000A183 })
     (sample_core 0))) = (regs (sample_core 0))(3 := sext32 2)"
proof -
  have f: "ISA_rs1 (buf32_0 0x0020A023) = 1" "ISA_rs2 (buf32_0 0x0020A023) = 2" "sext_imm12 (ISA_S_off (buf32_0 0x0020A023)) = 0"
    "ISA_rs1 (buf32_0 0x0000A183) = 1" "ISA_rd (buf32_0 0x0000A183) = 3" "sext_imm12 (ISA_I_imm (buf32_0 0x0000A183)) = 0"
    by code_simp+
  have "regs (snd (run_state (do { exec_SW (soc_cpu soc_sample sample_cfg) 0x0020A023; exec_LW (soc_cpu soc_sample sample_cfg) 0x0000A183 })
     (sample_core 0))) = (regs (sample_core 0))(ISA_rd (buf32_0 0x0000A183) := sext32 (regs (sample_core 0) (ISA_rs2 (buf32_0 0x0020A023))))"
    by (rule soc_sw_lw [where a = "0x80000100"]) (simp_all add: f aligned_def soc_sample_ok)
  then show ?thesis by (simp add: f)
qed





text \<open>C6. With interrupts enabled, \<^verbatim>\<open>handleInterrupts\<close> takes the enabled interrupt of highest priority that the CLINT or the PLIC
  raises, and takes none when none is raised.\<close>

theorem soc_interrupt_taken:
  assumes "soc_inv (devs s)" and "bit (csr s CSR_mstatus) 3"
  shows "\<exists>b. run_state (handleInterrupts (soc_cpu sc k)) s =
     ((), case irq_choice (soc_cpu sc k) loc_raised ext_raised s of
            None \<Rightarrow> s\<lparr>devs := b\<rparr> | Some code \<Rightarrow> irq_entry code b s)"
  using assms by (rule soc_irq.run_handleInterrupts)

theorem soc_interrupt_taken_witness:
  "\<exists>b. run_state (handleInterrupts (soc_cpu soc_sample sample_cfg)) ((sample_cpu soc_blank)\<lparr>csr := (\<lambda>_. 0)(CSR_mstatus := 8, CSR_mie := 0x80)\<rparr>) =
     ((), case irq_choice (soc_cpu soc_sample sample_cfg) loc_raised ext_raised ((sample_cpu soc_blank)\<lparr>csr := (\<lambda>_. 0)(CSR_mstatus := 8, CSR_mie := 0x80)\<rparr>) of
            None \<Rightarrow> (sample_cpu soc_blank)\<lparr>csr := (\<lambda>_. 0)(CSR_mstatus := 8, CSR_mie := 0x80), devs := b\<rparr>
          | Some code \<Rightarrow> irq_entry code b ((sample_cpu soc_blank)\<lparr>csr := (\<lambda>_. 0)(CSR_mstatus := 8, CSR_mie := 0x80)\<rparr>))"
  by (rule soc_interrupt_taken) (simp_all add: sample_cpu_def soc_blank_def soc_inv_def plic_wf_def pending_bit_def)

text \<open>C31. An atomic memory operation reads the old value into \<^verbatim>\<open>rd\<close>, stores the result of its function on the register and the
  old value, and changes no other byte.\<close>

theorem soc_amo:
  assumes "aligned a n" and "soc_ok sc (devs s) a n" and "n \<le> sysBusWidthBytes k"
    and "\<not> mpu_denies (soc_cpu sc k) a RWX_r s" and "\<not> mpu_denies (soc_cpu sc k) a RWX_w s"
    and "a = regs s (ISA_rs1 (buf32_0 p))"
    and "t = (let m = load_word (soc_byte sc (devs s)) a n in if n = 4 then sext32 m else m)"
  shows "\<exists>b'. run_state (amo_exec (soc_cpu sc k) n f p) s = (4, write_rd (buf32_0 p) t (s\<lparr>devs := b'\<rparr>)) \<and>
     load_word (soc_byte sc b') a n = take_bit (8 * n) (f (regs s (ISA_rs2 (buf32_0 p))) t) \<and>
     (\<forall>x. soc_ok sc (devs s) x 1 \<and> \<not> in_bytes x a n \<longrightarrow> soc_byte sc b' x = soc_byte sc (devs s) x)"
proof (rule soc.run_amo)
  show "n \<le> sysBusWidthBytes (soc_cpu sc k)" using assms(3) by (simp add: soc_cpu_def)
qed (use assms in auto)

theorem soc_amo_witness:
  "\<exists>b'. run_state (amo_exec (soc_cpu soc_sample sample_cfg) 4 (+) 0x0020A1AF) (sample_core 5) =
      (4, write_rd (buf32_0 0x0020A1AF) (sext32 5) ((sample_core 5)\<lparr>devs := b'\<rparr>)) \<and>
     load_word (soc_byte soc_sample b') 0x80000100 4 = take_bit (8 * 4) (regs (sample_core 5) (ISA_rs2 (buf32_0 0x0020A1AF)) + sext32 5) \<and>
     (\<forall>x. soc_ok soc_sample (devs (sample_core 5)) x 1 \<and> \<not> in_bytes x 0x80000100 4 \<longrightarrow>
        soc_byte soc_sample b' x = soc_byte soc_sample (devs (sample_core 5)) x)"
proof -
  have f: "ISA_rs1 (buf32_0 0x0020A1AF) = 1" by code_simp
  show ?thesis
    by (rule soc_amo) (simp_all add: soc_sample_ok soc_sample_word aligned_def f)
qed

text \<open>C30. \<^verbatim>\<open>SC.W\<close> after \<^verbatim>\<open>LR.W\<close> of the same address succeeds: it stores the word and returns zero; a second \<^verbatim>\<open>SC.W\<close> fails with
  one and stores nothing.\<close>

theorem soc_lr_sc:
  assumes ok: "aligned a 4" "soc_ok sc (devs s) a 4" "4 \<le> sysBusWidthBytes k"
      "\<not> mpu_denies (soc_cpu sc k) a RWX_r s" "\<not> mpu_denies (soc_cpu sc k) a RWX_w s"
    and p: "a = regs s (ISA_rs1 (buf32_0 p))" and q: "ISA_rs1 (buf32_0 q) = ISA_rs1 (buf32_0 p)"
    and rd: "ISA_rd (buf32_0 p) \<noteq> ISA_rs1 (buf32_0 p)" "ISA_rd (buf32_0 p) \<noteq> ISA_rs2 (buf32_0 q)"
    and "ISA_rd (buf32_0 q) \<noteq> 0" and "ISA_rd (buf32_0 q) \<noteq> ISA_rs1 (buf32_0 q)"
  shows "\<exists>s1 s2. run_state (exec_LR_W (soc_cpu sc k) p) s = (4, s1) \<and> run_state (exec_SC_W (soc_cpu sc k) q) s1 = (4, s2) \<and>
     regs s2 (ISA_rd (buf32_0 q)) = 0 \<and>
     load_word (soc_byte sc (devs s2)) a 4 = take_bit 32 (regs s (ISA_rs2 (buf32_0 q))) \<and>
     run_state (exec_SC_W (soc_cpu sc k) q) s2 = (4, s2\<lparr>regs := (regs s2)(ISA_rd (buf32_0 q) := 1)\<rparr>)"
proof -
  let ?c = "soc_cpu sc k"
  have wd: "4 \<le> sysBusWidthBytes ?c" using ok(3) by (simp add: soc_cpu_def)
  define s1 where "s1 = write_rd (buf32_0 p) (sext32 (load_word (soc_byte sc (devs s)) a 4))
          (s\<lparr>mmuReservatedAddr := a, mmuReservedAddrWatchdog := 64\<rparr>)"
  have 1: "run_state (exec_LR_W ?c p) s = (4, s1)"
    unfolding s1_def by (rule soc.run_LR_W [OF ok(1,2) wd ok(4) p])
  have s1: "devs s1 = devs s" "regs s1 (ISA_rs1 (buf32_0 q)) = a" "regs s1 (ISA_rs2 (buf32_0 q)) = regs s (ISA_rs2 (buf32_0 q))"
    "mmuReservedAddrWatchdog s1 \<noteq> 0" "mmuReservatedAddr s1 = a" "mpu_denies ?c a RWX_w s1 = mpu_denies ?c a RWX_w s"
    using p q rd by (simp_all add: s1_def write_rd_def mpu_denies_def isMpuEnabled_def checkMpu_def)
  obtain b' where 2: "run_state (exec_SC_W ?c q) s1 = (4, write_rd (buf32_0 q) 0 (s1\<lparr>mmuReservedAddrWatchdog := 0, devs := b'\<rparr>))"
    and m: "load_word (soc_byte sc b') a 4 = take_bit 32 (regs s (ISA_rs2 (buf32_0 q)))"
    using soc.run_SC_W [OF ok(1) _ wd _ s1(2) [symmetric] s1(4,5)] ok(2,5) unfolding s1(1,3,6) by blast
  show ?thesis
    using 1 2 m assms(10) soc.run_SC_W_fail [of "write_rd (buf32_0 q) 0 (s1\<lparr>mmuReservedAddrWatchdog := 0, devs := b'\<rparr>)" q sc k]
    by (simp add: write_rd_def)
qed

theorem soc_lr_sc_witness:
  "\<exists>s1 s2. run_state (exec_LR_W (soc_cpu soc_sample sample_cfg) 0x1000A2AF) (sample_core 5) = (4, s1) \<and>
     run_state (exec_SC_W (soc_cpu soc_sample sample_cfg) 0x1820A1AF) s1 = (4, s2) \<and>
     regs s2 (ISA_rd (buf32_0 0x1820A1AF)) = 0 \<and>
     load_word (soc_byte soc_sample (devs s2)) 0x80000100 4 = take_bit 32 (regs (sample_core 5) (ISA_rs2 (buf32_0 0x1820A1AF))) \<and>
     run_state (exec_SC_W (soc_cpu soc_sample sample_cfg) 0x1820A1AF) s2 = (4, s2\<lparr>regs := (regs s2)(ISA_rd (buf32_0 0x1820A1AF) := 1)\<rparr>)"
proof -
  have f: "ISA_rs1 (buf32_0 0x1000A2AF) = 1" "ISA_rd (buf32_0 0x1000A2AF) = 5"
    "ISA_rs1 (buf32_0 0x1820A1AF) = 1" "ISA_rs2 (buf32_0 0x1820A1AF) = 2" "ISA_rd (buf32_0 0x1820A1AF) = 3" by code_simp+
  show ?thesis
    by (rule soc_lr_sc [where p = "0x1000A2AF"]) (simp_all add: soc_sample_ok aligned_def f)
qed

text \<open>C7. A hart programs its timer: \<^verbatim>\<open>SD\<close> to the compare register of hart \<open>h\<close> in the CLINT makes the timer line of that hart
  raised from the moment the timer reaches the stored value, and changes no other line, no memory and nothing else of the
  core.\<close>

theorem soc_timer_programmed:
  assumes dev: "getMapedDevice (soc_map sc) a = Some d" "soc_mems sc d = None" "soc_banks sc d = Some (Bank_Clint base)"
    and a: "a = base + 0x4000 + 8 * of_nat h" "h < 4095" "a = regs s (ISA_rs1 (buf32_0 p)) + sext_imm12 (ISA_S_off (buf32_0 p))"
    and ok: "aligned a 8" "8 \<le> sysBusWidthBytes k" "\<not> mpu_denies (soc_cpu sc k) a RWX_w s"
  shows "\<exists>b. run_state (exec_SD (soc_cpu sc k) p) s = (4, s\<lparr>devs := b\<rparr>) \<and>
     (\<forall>t. loc_raised t (2 * h + 1) b \<longleftrightarrow> regs s (ISA_rs2 (buf32_0 p)) \<le> clint_time t (soc_clint (devs s))) \<and>
     (\<forall>t j. j \<noteq> 2 * h + 1 \<longrightarrow> loc_raised t j b = loc_raised t j (devs s)) \<and>
     soc_mem b = soc_mem (devs s) \<and> soc_plic b = soc_plic (devs s)"
proof -
  let ?v = "regs s (ISA_rs2 (buf32_0 p))" and ?b = "devs s"
  let ?tr = "store_trans (soc_cpu sc k) a 8 ?v\<lparr>source_idx := sysBusMasterID (soc_cpu sc k)\<rparr>"
  have w: "write_req (base + 0x4000 + 8 * of_nat h) 8 ?tr" using a(1) by (simp add: write_req_def store_trans_def)
  define b where "b = ?b\<lparr>soc_stub := (soc_stub ?b)(d := soc_stub ?b d), soc_clint := (soc_clint ?b)\<lparr>mtimecmp := (mtimecmp (soc_clint ?b))(h := ?v)\<rparr>\<rparr>"
  have "soc_bus sc (step_cnt s) ?tr ?b = ((TRANS_OK, ?tr), b, [])"
    using dev clint_write_mtimecmp [OF a(2) w, of "step_cnt s" "\<lparr>stubmem = soc_stub ?b d, bank_dev = soc_clint ?b\<rparr>"]
    by (simp add: soc_bus_def bus_transport_def soc_slaves_def soc_bank_transport_def store_trans_def b_def)
  then have "run_state (store_op (soc_cpu sc k) a 8 ?v) s = ((), s\<lparr>devs := b\<rparr>)"
    using ok by (simp add: store_op_def aligned_def run_dma_memop store_trans_def soc_cpu_def)
  then have "run_state (exec_SD (soc_cpu sc k) p) s = (4, s\<lparr>devs := b\<rparr>)"
    by (simp add: exec_SD_def a(3) [symmetric])
  moreover have "loc_raised t (2 * h + 1) b \<longleftrightarrow> ?v \<le> clint_time t (soc_clint ?b)" for t
    by (simp add: loc_raised_def b_def clint_time_def)
  moreover have "loc_raised t j b = loc_raised t j ?b" if "j \<noteq> 2 * h + 1" for t j
  proof -
    have "j mod 2 \<noteq> 0 \<Longrightarrow> j div 2 \<noteq> h" using that by presburger
    then show ?thesis by (simp add: loc_raised_def b_def clint_time_def)
  qed
  ultimately show ?thesis by (intro exI [of _ b]) (auto simp: b_def)
qed

theorem soc_timer_programmed_witness:
  "\<exists>b. run_state (exec_SD (soc_cpu soc_sample sample_cfg) 0x0020B023) ((sample_core 0)\<lparr>regs := (\<lambda>i. if i = 1 then 0x2004000 else 9)\<rparr>) =
      (4, (sample_core 0)\<lparr>regs := (\<lambda>i. if i = 1 then 0x2004000 else 9), devs := b\<rparr>) \<and>
     (\<forall>t. loc_raised t 1 b \<longleftrightarrow> 9 \<le> clint_time t (soc_clint (soc_with 0)))"
proof -
  let ?s = "(sample_core 0)\<lparr>regs := (\<lambda>i. if i = 1 then 0x2004000 else 9)\<rparr>"
  have f: "ISA_rs1 (buf32_0 0x0020B023) = 1" "ISA_rs2 (buf32_0 0x0020B023) = 2" "sext_imm12 (ISA_S_off (buf32_0 0x0020B023)) = 0"
    by code_simp+
  have "hash_index (soc_map soc_sample) 0x2004000 = 1" by code_simp
  moreover have "map_first (soc_map soc_sample) (imap (soc_map soc_sample) ! 0) = 64"
    "map_first (soc_map soc_sample) (imap (soc_map soc_sample) ! 1) = 1"
    "map_last (soc_map soc_sample) (imap (soc_map soc_sample) ! 1) = 1" by code_simp+
  ultimately have d: "getMapedDevice (soc_map soc_sample) 0x2004000 = Some 1"
    by (simp add: getMapedDevice_cases covers_def) (simp add: soc_sample_def covers_def)
  have m: "\<not> mpu_denies (soc_cpu soc_sample sample_cfg) 0x2004000 RWX_w ?s"
    by (simp add: sample_core_def sample_cpu_def mpu_denies_def isMpuEnabled_def)
  show ?thesis
    using soc_timer_programmed [where h = 0 and a = "0x2004000" and sc = soc_sample and k = sample_cfg and s = ?s and p = "0x0020B023",
        OF d _ _ _ _ _ _ _ m]
    by (auto simp: f aligned_def soc_sample_def)
qed

end
