(* ===== verification/Rtl_Decoder.thy ===== *)
theory Rtl_Decoder
  imports Decoder
begin

text \<open>
  The decoder of 32-bit instructions of the RTL core (\<^verbatim>\<open>core/dec_rv.cpp\<close>). The vector \<^verbatim>\<open>instr_vec\<close> has at most one bit set: it is
  the optional index of that bit, with the indices of \<^verbatim>\<open>river_cfg.h\<close>.
\<close>

section \<open>Indices of instructions\<close>

abbreviation (input) Instr_ADD :: nat where "Instr_ADD \<equiv> 0"
abbreviation (input) Instr_ADDI :: nat where "Instr_ADDI \<equiv> 1"
abbreviation (input) Instr_ADDIW :: nat where "Instr_ADDIW \<equiv> 2"
abbreviation (input) Instr_ADDW :: nat where "Instr_ADDW \<equiv> 3"
abbreviation (input) Instr_AND :: nat where "Instr_AND \<equiv> 4"
abbreviation (input) Instr_ANDI :: nat where "Instr_ANDI \<equiv> 5"
abbreviation (input) Instr_AUIPC :: nat where "Instr_AUIPC \<equiv> 6"
abbreviation (input) Instr_BEQ :: nat where "Instr_BEQ \<equiv> 7"
abbreviation (input) Instr_BGE :: nat where "Instr_BGE \<equiv> 8"
abbreviation (input) Instr_BGEU :: nat where "Instr_BGEU \<equiv> 9"
abbreviation (input) Instr_BLT :: nat where "Instr_BLT \<equiv> 10"
abbreviation (input) Instr_BLTU :: nat where "Instr_BLTU \<equiv> 11"
abbreviation (input) Instr_BNE :: nat where "Instr_BNE \<equiv> 12"
abbreviation (input) Instr_JAL :: nat where "Instr_JAL \<equiv> 13"
abbreviation (input) Instr_JALR :: nat where "Instr_JALR \<equiv> 14"
abbreviation (input) Instr_LB :: nat where "Instr_LB \<equiv> 15"
abbreviation (input) Instr_LH :: nat where "Instr_LH \<equiv> 16"
abbreviation (input) Instr_LW :: nat where "Instr_LW \<equiv> 17"
abbreviation (input) Instr_LD :: nat where "Instr_LD \<equiv> 18"
abbreviation (input) Instr_LBU :: nat where "Instr_LBU \<equiv> 19"
abbreviation (input) Instr_LHU :: nat where "Instr_LHU \<equiv> 20"
abbreviation (input) Instr_LWU :: nat where "Instr_LWU \<equiv> 21"
abbreviation (input) Instr_LUI :: nat where "Instr_LUI \<equiv> 22"
abbreviation (input) Instr_OR :: nat where "Instr_OR \<equiv> 23"
abbreviation (input) Instr_ORI :: nat where "Instr_ORI \<equiv> 24"
abbreviation (input) Instr_SLLI :: nat where "Instr_SLLI \<equiv> 25"
abbreviation (input) Instr_SLT :: nat where "Instr_SLT \<equiv> 26"
abbreviation (input) Instr_SLTI :: nat where "Instr_SLTI \<equiv> 27"
abbreviation (input) Instr_SLTU :: nat where "Instr_SLTU \<equiv> 28"
abbreviation (input) Instr_SLTIU :: nat where "Instr_SLTIU \<equiv> 29"
abbreviation (input) Instr_SLL :: nat where "Instr_SLL \<equiv> 30"
abbreviation (input) Instr_SLLW :: nat where "Instr_SLLW \<equiv> 31"
abbreviation (input) Instr_SLLIW :: nat where "Instr_SLLIW \<equiv> 32"
abbreviation (input) Instr_SRA :: nat where "Instr_SRA \<equiv> 33"
abbreviation (input) Instr_SRAW :: nat where "Instr_SRAW \<equiv> 34"
abbreviation (input) Instr_SRAI :: nat where "Instr_SRAI \<equiv> 35"
abbreviation (input) Instr_SRAIW :: nat where "Instr_SRAIW \<equiv> 36"
abbreviation (input) Instr_SRL :: nat where "Instr_SRL \<equiv> 37"
abbreviation (input) Instr_SRLI :: nat where "Instr_SRLI \<equiv> 38"
abbreviation (input) Instr_SRLIW :: nat where "Instr_SRLIW \<equiv> 39"
abbreviation (input) Instr_SRLW :: nat where "Instr_SRLW \<equiv> 40"
abbreviation (input) Instr_SB :: nat where "Instr_SB \<equiv> 41"
abbreviation (input) Instr_SH :: nat where "Instr_SH \<equiv> 42"
abbreviation (input) Instr_SW :: nat where "Instr_SW \<equiv> 43"
abbreviation (input) Instr_SD :: nat where "Instr_SD \<equiv> 44"
abbreviation (input) Instr_SUB :: nat where "Instr_SUB \<equiv> 45"
abbreviation (input) Instr_SUBW :: nat where "Instr_SUBW \<equiv> 46"
abbreviation (input) Instr_XOR :: nat where "Instr_XOR \<equiv> 47"
abbreviation (input) Instr_XORI :: nat where "Instr_XORI \<equiv> 48"
abbreviation (input) Instr_CSRRW :: nat where "Instr_CSRRW \<equiv> 49"
abbreviation (input) Instr_CSRRS :: nat where "Instr_CSRRS \<equiv> 50"
abbreviation (input) Instr_CSRRC :: nat where "Instr_CSRRC \<equiv> 51"
abbreviation (input) Instr_CSRRWI :: nat where "Instr_CSRRWI \<equiv> 52"
abbreviation (input) Instr_CSRRCI :: nat where "Instr_CSRRCI \<equiv> 53"
abbreviation (input) Instr_CSRRSI :: nat where "Instr_CSRRSI \<equiv> 54"
abbreviation (input) Instr_URET :: nat where "Instr_URET \<equiv> 55"
abbreviation (input) Instr_SRET :: nat where "Instr_SRET \<equiv> 56"
abbreviation (input) Instr_HRET :: nat where "Instr_HRET \<equiv> 57"
abbreviation (input) Instr_MRET :: nat where "Instr_MRET \<equiv> 58"
abbreviation (input) Instr_FENCE :: nat where "Instr_FENCE \<equiv> 59"
abbreviation (input) Instr_FENCE_I :: nat where "Instr_FENCE_I \<equiv> 60"
abbreviation (input) Instr_WFI :: nat where "Instr_WFI \<equiv> 61"
abbreviation (input) Instr_SFENCE_VMA :: nat where "Instr_SFENCE_VMA \<equiv> 62"
abbreviation (input) Instr_DIV :: nat where "Instr_DIV \<equiv> 63"
abbreviation (input) Instr_DIVU :: nat where "Instr_DIVU \<equiv> 64"
abbreviation (input) Instr_DIVW :: nat where "Instr_DIVW \<equiv> 65"
abbreviation (input) Instr_DIVUW :: nat where "Instr_DIVUW \<equiv> 66"
abbreviation (input) Instr_MUL :: nat where "Instr_MUL \<equiv> 67"
abbreviation (input) Instr_MULW :: nat where "Instr_MULW \<equiv> 68"
abbreviation (input) Instr_MULH :: nat where "Instr_MULH \<equiv> 69"
abbreviation (input) Instr_MULHSU :: nat where "Instr_MULHSU \<equiv> 70"
abbreviation (input) Instr_MULHU :: nat where "Instr_MULHU \<equiv> 71"
abbreviation (input) Instr_REM :: nat where "Instr_REM \<equiv> 72"
abbreviation (input) Instr_REMU :: nat where "Instr_REMU \<equiv> 73"
abbreviation (input) Instr_REMW :: nat where "Instr_REMW \<equiv> 74"
abbreviation (input) Instr_REMUW :: nat where "Instr_REMUW \<equiv> 75"
abbreviation (input) Instr_AMOADD_W :: nat where "Instr_AMOADD_W \<equiv> 76"
abbreviation (input) Instr_AMOXOR_W :: nat where "Instr_AMOXOR_W \<equiv> 77"
abbreviation (input) Instr_AMOOR_W :: nat where "Instr_AMOOR_W \<equiv> 78"
abbreviation (input) Instr_AMOAND_W :: nat where "Instr_AMOAND_W \<equiv> 79"
abbreviation (input) Instr_AMOMIN_W :: nat where "Instr_AMOMIN_W \<equiv> 80"
abbreviation (input) Instr_AMOMAX_W :: nat where "Instr_AMOMAX_W \<equiv> 81"
abbreviation (input) Instr_AMOMINU_W :: nat where "Instr_AMOMINU_W \<equiv> 82"
abbreviation (input) Instr_AMOMAXU_W :: nat where "Instr_AMOMAXU_W \<equiv> 83"
abbreviation (input) Instr_AMOSWAP_W :: nat where "Instr_AMOSWAP_W \<equiv> 84"
abbreviation (input) Instr_LR_W :: nat where "Instr_LR_W \<equiv> 85"
abbreviation (input) Instr_SC_W :: nat where "Instr_SC_W \<equiv> 86"
abbreviation (input) Instr_AMOADD_D :: nat where "Instr_AMOADD_D \<equiv> 87"
abbreviation (input) Instr_AMOXOR_D :: nat where "Instr_AMOXOR_D \<equiv> 88"
abbreviation (input) Instr_AMOOR_D :: nat where "Instr_AMOOR_D \<equiv> 89"
abbreviation (input) Instr_AMOAND_D :: nat where "Instr_AMOAND_D \<equiv> 90"
abbreviation (input) Instr_AMOMIN_D :: nat where "Instr_AMOMIN_D \<equiv> 91"
abbreviation (input) Instr_AMOMAX_D :: nat where "Instr_AMOMAX_D \<equiv> 92"
abbreviation (input) Instr_AMOMINU_D :: nat where "Instr_AMOMINU_D \<equiv> 93"
abbreviation (input) Instr_AMOMAXU_D :: nat where "Instr_AMOMAXU_D \<equiv> 94"
abbreviation (input) Instr_AMOSWAP_D :: nat where "Instr_AMOSWAP_D \<equiv> 95"
abbreviation (input) Instr_LR_D :: nat where "Instr_LR_D \<equiv> 96"
abbreviation (input) Instr_SC_D :: nat where "Instr_SC_D \<equiv> 97"
abbreviation (input) Instr_ECALL :: nat where "Instr_ECALL \<equiv> 98"
abbreviation (input) Instr_EBREAK :: nat where "Instr_EBREAK \<equiv> 99"
abbreviation (input) Instr_FADD_D :: nat where "Instr_FADD_D \<equiv> 100"
abbreviation (input) Instr_FCVT_D_W :: nat where "Instr_FCVT_D_W \<equiv> 101"
abbreviation (input) Instr_FCVT_D_WU :: nat where "Instr_FCVT_D_WU \<equiv> 102"
abbreviation (input) Instr_FCVT_D_L :: nat where "Instr_FCVT_D_L \<equiv> 103"
abbreviation (input) Instr_FCVT_D_LU :: nat where "Instr_FCVT_D_LU \<equiv> 104"
abbreviation (input) Instr_FCVT_W_D :: nat where "Instr_FCVT_W_D \<equiv> 105"
abbreviation (input) Instr_FCVT_WU_D :: nat where "Instr_FCVT_WU_D \<equiv> 106"
abbreviation (input) Instr_FCVT_L_D :: nat where "Instr_FCVT_L_D \<equiv> 107"
abbreviation (input) Instr_FCVT_LU_D :: nat where "Instr_FCVT_LU_D \<equiv> 108"
abbreviation (input) Instr_FDIV_D :: nat where "Instr_FDIV_D \<equiv> 109"
abbreviation (input) Instr_FEQ_D :: nat where "Instr_FEQ_D \<equiv> 110"
abbreviation (input) Instr_FLD :: nat where "Instr_FLD \<equiv> 111"
abbreviation (input) Instr_FLE_D :: nat where "Instr_FLE_D \<equiv> 112"
abbreviation (input) Instr_FLT_D :: nat where "Instr_FLT_D \<equiv> 113"
abbreviation (input) Instr_FMAX_D :: nat where "Instr_FMAX_D \<equiv> 114"
abbreviation (input) Instr_FMIN_D :: nat where "Instr_FMIN_D \<equiv> 115"
abbreviation (input) Instr_FMOV_D_X :: nat where "Instr_FMOV_D_X \<equiv> 116"
abbreviation (input) Instr_FMOV_X_D :: nat where "Instr_FMOV_X_D \<equiv> 117"
abbreviation (input) Instr_FMUL_D :: nat where "Instr_FMUL_D \<equiv> 118"
abbreviation (input) Instr_FSD :: nat where "Instr_FSD \<equiv> 119"
abbreviation (input) Instr_FSUB_D :: nat where "Instr_FSUB_D \<equiv> 120"

datatype isa_type = ISA_None | ISA_R_type | ISA_I_type | ISA_S_type | ISA_SB_type | ISA_U_type | ISA_UJ_type

abbreviation (input) OPCODE_LB :: u32 where "OPCODE_LB \<equiv> 0x00"
abbreviation (input) OPCODE_FPU_LD :: u32 where "OPCODE_FPU_LD \<equiv> 0x01"
abbreviation (input) OPCODE_FENCE :: u32 where "OPCODE_FENCE \<equiv> 0x03"
abbreviation (input) OPCODE_ADDI :: u32 where "OPCODE_ADDI \<equiv> 0x04"
abbreviation (input) OPCODE_AUIPC :: u32 where "OPCODE_AUIPC \<equiv> 0x05"
abbreviation (input) OPCODE_ADDIW :: u32 where "OPCODE_ADDIW \<equiv> 0x06"
abbreviation (input) OPCODE_SB :: u32 where "OPCODE_SB \<equiv> 0x08"
abbreviation (input) OPCODE_FPU_SD :: u32 where "OPCODE_FPU_SD \<equiv> 0x09"
abbreviation (input) OPCODE_AMO :: u32 where "OPCODE_AMO \<equiv> 0x0B"
abbreviation (input) OPCODE_ADD :: u32 where "OPCODE_ADD \<equiv> 0x0C"
abbreviation (input) OPCODE_LUI :: u32 where "OPCODE_LUI \<equiv> 0x0D"
abbreviation (input) OPCODE_ADDW :: u32 where "OPCODE_ADDW \<equiv> 0x0E"
abbreviation (input) OPCODE_FPU_OP :: u32 where "OPCODE_FPU_OP \<equiv> 0x14"
abbreviation (input) OPCODE_BEQ :: u32 where "OPCODE_BEQ \<equiv> 0x18"
abbreviation (input) OPCODE_JALR :: u32 where "OPCODE_JALR \<equiv> 0x19"
abbreviation (input) OPCODE_JAL :: u32 where "OPCODE_JAL \<equiv> 0x1B"
abbreviation (input) OPCODE_CSRR :: u32 where "OPCODE_CSRR \<equiv> 0x1C"

section \<open>The instruction\<close>

definition dec_amo :: "u32 \<Rightarrow> nat option" where
  "dec_amo w =
    (let f5 = bitfield 27 5 w; f3 = bitfield 12 3 w;
         sized = (\<lambda>w_instr d_instr. if f3 = 2 then Some w_instr else if f3 = 3 then Some d_instr else None)
     in if f5 = 0x00 then sized Instr_AMOADD_W Instr_AMOADD_D
        else if f5 = 0x01 then sized Instr_AMOSWAP_W Instr_AMOSWAP_D
        else if f5 = 0x02 then if bitfield 20 5 w = 0 then sized Instr_LR_W Instr_LR_D else None
        else if f5 = 0x03 then sized Instr_SC_W Instr_SC_D
        else if f5 = 0x04 then sized Instr_AMOXOR_W Instr_AMOXOR_D
        else if f5 = 0x08 then sized Instr_AMOOR_W Instr_AMOOR_D
        else if f5 = 0x0C then sized Instr_AMOAND_W Instr_AMOAND_D
        else if f5 = 0x10 then sized Instr_AMOMIN_W Instr_AMOMIN_D
        else if f5 = 0x14 then sized Instr_AMOMAX_W Instr_AMOMAX_D
        else if f5 = 0x18 then sized Instr_AMOMINU_W Instr_AMOMINU_D
        else if f5 = 0x1C then sized Instr_AMOMAXU_W Instr_AMOMAXU_D
        else None)"

definition dec_add :: "u32 \<Rightarrow> nat option" where
  "dec_add w =
    (let f3 = bitfield 12 3 w; f7 = bitfield 25 7 w
     in if f3 = 0 then if f7 = 0x00 then Some Instr_ADD else if f7 = 0x01 then Some Instr_MUL else if f7 = 0x20 then Some Instr_SUB else None
        else if f3 = 1 then if f7 = 0x00 then Some Instr_SLL else if f7 = 0x01 then Some Instr_MULH else None
        else if f3 = 2 then if f7 = 0x00 then Some Instr_SLT else if f7 = 0x01 then Some Instr_MULHSU else None
        else if f3 = 3 then if f7 = 0x00 then Some Instr_SLTU else if f7 = 0x01 then Some Instr_MULHU else None
        else if f3 = 4 then if f7 = 0x00 then Some Instr_XOR else if f7 = 0x01 then Some Instr_DIV else None
        else if f3 = 5 then if f7 = 0x00 then Some Instr_SRL else if f7 = 0x01 then Some Instr_DIVU else if f7 = 0x20 then Some Instr_SRA else None
        else if f3 = 6 then if f7 = 0x00 then Some Instr_OR else if f7 = 0x01 then Some Instr_REM else None
        else if f3 = 7 then if f7 = 0x00 then Some Instr_AND else if f7 = 0x01 then Some Instr_REMU else None
        else None)"

definition dec_addi :: "u32 \<Rightarrow> nat option" where
  "dec_addi w =
    (let f3 = bitfield 12 3 w; f6 = bitfield 26 6 w
     in if f3 = 0 then Some Instr_ADDI
        else if f3 = 1 then Some Instr_SLLI
        else if f3 = 2 then Some Instr_SLTI
        else if f3 = 3 then Some Instr_SLTIU
        else if f3 = 4 then Some Instr_XORI
        else if f3 = 5 then if f6 = 0x00 then Some Instr_SRLI else if f6 = 0x10 then Some Instr_SRAI else None
        else if f3 = 6 then Some Instr_ORI
        else if f3 = 7 then Some Instr_ANDI
        else None)"

definition dec_addiw :: "u32 \<Rightarrow> nat option" where
  "dec_addiw w =
    (let f3 = bitfield 12 3 w; f7 = bitfield 25 7 w
     in if f3 = 0 then Some Instr_ADDIW
        else if f3 = 1 then Some Instr_SLLIW
        else if f3 = 5 then if f7 = 0x00 then Some Instr_SRLIW else if f7 = 0x20 then Some Instr_SRAIW else None
        else None)"

definition dec_addw :: "u32 \<Rightarrow> nat option" where
  "dec_addw w =
    (let f3 = bitfield 12 3 w; f7 = bitfield 25 7 w
     in if f3 = 0 then if f7 = 0x00 then Some Instr_ADDW else if f7 = 0x01 then Some Instr_MULW else if f7 = 0x20 then Some Instr_SUBW else None
        else if f3 = 1 then Some Instr_SLLW
        else if f3 = 4 then if f7 = 0x01 then Some Instr_DIVW else None
        else if f3 = 5 then if f7 = 0x00 then Some Instr_SRLW else if f7 = 0x01 then Some Instr_DIVUW else if f7 = 0x20 then Some Instr_SRAW else None
        else if f3 = 6 then if f7 = 0x01 then Some Instr_REMW else None
        else if f3 = 7 then if f7 = 0x01 then Some Instr_REMUW else None
        else None)"

definition dec_branch :: "u32 \<Rightarrow> nat option" where
  "dec_branch w =
    (let f3 = bitfield 12 3 w
     in if f3 = 0 then Some Instr_BEQ
        else if f3 = 1 then Some Instr_BNE
        else if f3 = 4 then Some Instr_BLT
        else if f3 = 5 then Some Instr_BGE
        else if f3 = 6 then Some Instr_BLTU
        else if f3 = 7 then Some Instr_BGEU
        else None)"

definition dec_load :: "u32 \<Rightarrow> nat option" where
  "dec_load w =
    (let f3 = bitfield 12 3 w
     in if f3 = 0 then Some Instr_LB
        else if f3 = 1 then Some Instr_LH
        else if f3 = 2 then Some Instr_LW
        else if f3 = 3 then Some Instr_LD
        else if f3 = 4 then Some Instr_LBU
        else if f3 = 5 then Some Instr_LHU
        else if f3 = 6 then Some Instr_LWU
        else None)"

definition dec_store :: "u32 \<Rightarrow> nat option" where
  "dec_store w =
    (let f3 = bitfield 12 3 w
     in if f3 = 0 then Some Instr_SB
        else if f3 = 1 then Some Instr_SH
        else if f3 = 2 then Some Instr_SW
        else if f3 = 3 then Some Instr_SD
        else None)"

definition dec_system :: "u32 \<Rightarrow> nat option" where
  "dec_system w =
    (let f3 = bitfield 12 3 w
     in if f3 = 0 then
          if w = 0x00000073 then Some Instr_ECALL
          else if w = 0x00100073 then Some Instr_EBREAK
          else if w = 0x00200073 then Some Instr_URET
          else if w = 0x10200073 then Some Instr_SRET
          else if w = 0x10500073 then Some Instr_WFI
          else if w = 0x20200073 then Some Instr_HRET
          else if w = 0x30200073 then Some Instr_MRET
          else if bitfield 25 7 w = 0x09 \<and> bitfield 7 5 w = 0 then Some Instr_SFENCE_VMA
          else None
        else if f3 = 1 then Some Instr_CSRRW
        else if f3 = 2 then Some Instr_CSRRS
        else if f3 = 3 then Some Instr_CSRRC
        else if f3 = 5 then Some Instr_CSRRWI
        else if f3 = 6 then Some Instr_CSRRSI
        else if f3 = 7 then Some Instr_CSRRCI
        else None)"

definition dec_fpu_op :: "u32 \<Rightarrow> nat option" where
  "dec_fpu_op w =
    (let f7 = bitfield 25 7 w; f3 = bitfield 12 3 w; rs2 = bitfield 20 5 w
     in if f7 = 0x01 then Some Instr_FADD_D
        else if f7 = 0x05 then Some Instr_FSUB_D
        else if f7 = 0x09 then Some Instr_FMUL_D
        else if f7 = 0x0D then Some Instr_FDIV_D
        else if f7 = 0x15 then if f3 = 0 then Some Instr_FMIN_D else if f3 = 1 then Some Instr_FMAX_D else None
        else if f7 = 0x51 then
          if f3 = 0 then Some Instr_FLE_D else if f3 = 1 then Some Instr_FLT_D else if f3 = 2 then Some Instr_FEQ_D else None
        else if f7 = 0x61 then
          if rs2 = 0 then Some Instr_FCVT_W_D else if rs2 = 1 then Some Instr_FCVT_WU_D
          else if rs2 = 2 then Some Instr_FCVT_L_D else if rs2 = 3 then Some Instr_FCVT_LU_D else None
        else if f7 = 0x69 then
          if rs2 = 0 then Some Instr_FCVT_D_W else if rs2 = 1 then Some Instr_FCVT_D_WU
          else if rs2 = 2 then Some Instr_FCVT_D_L else if rs2 = 3 then Some Instr_FCVT_D_LU else None
        else if f7 = 0x71 then if rs2 = 0 \<and> f3 = 0 then Some Instr_FMOV_X_D else None
        else if f7 = 0x79 then if rs2 = 0 \<and> f3 = 0 then Some Instr_FMOV_D_X else None
        else None)"

text \<open>\<open>None\<close> is \<^verbatim>\<open>v_error\<close>. The two low bits are not looked at: compressed words go to another decoder.\<close>

definition vb_dec :: "bool \<Rightarrow> u32 \<Rightarrow> nat option" where
  "vb_dec fpu_ena w =
    (let opcode1 = bitfield 2 5 w; f3 = bitfield 12 3 w
     in if opcode1 = OPCODE_AMO then dec_amo w
        else if opcode1 = OPCODE_ADD then dec_add w
        else if opcode1 = OPCODE_ADDI then dec_addi w
        else if opcode1 = OPCODE_ADDIW then dec_addiw w
        else if opcode1 = OPCODE_ADDW then dec_addw w
        else if opcode1 = OPCODE_AUIPC then Some Instr_AUIPC
        else if opcode1 = OPCODE_BEQ then dec_branch w
        else if opcode1 = OPCODE_JAL then Some Instr_JAL
        else if opcode1 = OPCODE_JALR then if f3 = 0 then Some Instr_JALR else None
        else if opcode1 = OPCODE_LB then dec_load w
        else if opcode1 = OPCODE_LUI then Some Instr_LUI
        else if opcode1 = OPCODE_SB then dec_store w
        else if opcode1 = OPCODE_CSRR then dec_system w
        else if opcode1 = OPCODE_FENCE then if f3 = 0 then Some Instr_FENCE else if f3 = 1 then Some Instr_FENCE_I else None
        else if fpu_ena then
          if opcode1 = OPCODE_FPU_LD then if f3 = 3 then Some Instr_FLD else None
          else if opcode1 = OPCODE_FPU_SD then if f3 = 3 then Some Instr_FSD else None
          else if opcode1 = OPCODE_FPU_OP then dec_fpu_op w
          else None
        else None)"

section \<open>The operands\<close>

definition vb_isa_type :: "bool \<Rightarrow> u32 \<Rightarrow> isa_type" where
  "vb_isa_type fpu_ena w =
    (let opcode1 = bitfield 2 5 w
     in if opcode1 \<in> {OPCODE_AMO, OPCODE_ADD, OPCODE_ADDW} then ISA_R_type
        else if opcode1 \<in> {OPCODE_ADDI, OPCODE_ADDIW, OPCODE_JALR, OPCODE_LB, OPCODE_CSRR} then ISA_I_type
        else if opcode1 \<in> {OPCODE_AUIPC, OPCODE_LUI} then ISA_U_type
        else if opcode1 = OPCODE_BEQ then ISA_SB_type
        else if opcode1 = OPCODE_JAL then ISA_UJ_type
        else if opcode1 = OPCODE_SB then ISA_S_type
        else if fpu_ena then
          if opcode1 = OPCODE_FPU_LD then ISA_I_type
          else if opcode1 = OPCODE_FPU_SD then ISA_S_type
          else if opcode1 = OPCODE_FPU_OP then ISA_R_type
          else ISA_None
        else ISA_None)"

text \<open>The register addresses have six bits: the floating-point registers have bit 5 set.\<close>

definition vb_radr1 :: "bool \<Rightarrow> u32 \<Rightarrow> 6 word" where
  "vb_radr1 fpu_ena w =
    (let opcode1 = bitfield 2 5 w; rs1 = ucast (bitfield 15 5 w)
     in if vb_isa_type fpu_ena w \<in> {ISA_None, ISA_U_type, ISA_UJ_type} then 0
        else if opcode1 = OPCODE_FPU_OP then if bitfield 25 7 w \<in> {0x69, 0x79} then rs1 else 32 OR rs1
        else rs1)"

definition vb_radr2 :: "bool \<Rightarrow> u32 \<Rightarrow> 6 word" where
  "vb_radr2 fpu_ena w =
    (let opcode1 = bitfield 2 5 w; rs2 = ucast (bitfield 20 5 w)
     in if vb_isa_type fpu_ena w \<in> {ISA_R_type, ISA_SB_type, ISA_S_type}
        then if opcode1 \<in> {OPCODE_FPU_SD, OPCODE_FPU_OP} then 32 OR rs2 else rs2
        else 0)"

definition vb_waddr :: "bool \<Rightarrow> u32 \<Rightarrow> 6 word" where
  "vb_waddr fpu_ena w =
    (let opcode1 = bitfield 2 5 w; rd = ucast (bitfield 7 5 w)
     in if vb_isa_type fpu_ena w \<in> {ISA_R_type, ISA_I_type, ISA_U_type, ISA_UJ_type}
        then if opcode1 = OPCODE_FPU_LD \<or> opcode1 = OPCODE_FPU_OP \<and> bitfield 25 7 w \<notin> {0x51, 0x61, 0x71} then 32 OR rd else rd
        else 0)"

definition vb_csr_addr :: "u32 \<Rightarrow> 12 word" where
  "vb_csr_addr w = (if bitfield 2 5 w = OPCODE_CSRR then ucast (bitfield 20 12 w) else 0)"

text \<open>The immediate: the bits of the format with ones above them when bit 31 of the instruction is set.\<close>

definition vb_imm :: "bool \<Rightarrow> u32 \<Rightarrow> u64" where
  "vb_imm fpu_ena w =
    (let f = (\<lambda>lo n. ucast (bitfield lo n w) :: u64);
         ext = (\<lambda>n x. if bit w 31 then x OR push_bit n (- 1) else x)
     in case vb_isa_type fpu_ena w of
          ISA_I_type \<Rightarrow> ext 12 (f 20 12)
        | ISA_S_type \<Rightarrow> ext 12 (push_bit 5 (f 25 7) OR f 7 5)
        | ISA_SB_type \<Rightarrow> ext 12 (push_bit 11 (f 7 1) OR push_bit 5 (f 25 6) OR push_bit 1 (f 8 4))
        | ISA_U_type \<Rightarrow> ext 32 (push_bit 12 (f 12 20))
        | ISA_UJ_type \<Rightarrow> ext 20 (push_bit 12 (f 12 8) OR push_bit 11 (f 20 1) OR push_bit 1 (f 21 10))
        | _ \<Rightarrow> 0)"

section \<open>Flags of the instruction\<close>

definition dec_in :: "nat set \<Rightarrow> nat option \<Rightarrow> bool" where
  "dec_in S d \<longleftrightarrow> (case d of Some i \<Rightarrow> i \<in> S | None \<Rightarrow> False)"

definition v_amo :: "nat option \<Rightarrow> bool" where
  "v_amo = dec_in
    {Instr_AMOADD_W, Instr_AMOXOR_W, Instr_AMOOR_W, Instr_AMOAND_W, Instr_AMOMIN_W, Instr_AMOMAX_W, 
     Instr_AMOMINU_W, Instr_AMOMAXU_W, Instr_AMOSWAP_W, Instr_AMOADD_D, Instr_AMOXOR_D, Instr_AMOOR_D, 
     Instr_AMOAND_D, Instr_AMOMIN_D, Instr_AMOMAX_D, Instr_AMOMINU_D, Instr_AMOMAXU_D, Instr_AMOSWAP_D}"

definition v_memop_store :: "nat option \<Rightarrow> bool" where
  "v_memop_store = dec_in
    {Instr_SD, Instr_SW, Instr_SH, Instr_SB, Instr_FSD, Instr_SC_W, Instr_SC_D}"

definition v_memop_load :: "nat option \<Rightarrow> bool" where
  "v_memop_load = dec_in
    {Instr_LD, Instr_LW, Instr_LH, Instr_LB, Instr_LWU, Instr_LHU, Instr_LBU, Instr_FLD, Instr_AMOADD_W, 
     Instr_AMOXOR_W, Instr_AMOOR_W, Instr_AMOAND_W, Instr_AMOMIN_W, Instr_AMOMAX_W, Instr_AMOMINU_W, 
     Instr_AMOMAXU_W, Instr_AMOSWAP_W, Instr_LR_W, Instr_AMOADD_D, Instr_AMOXOR_D, Instr_AMOOR_D, 
     Instr_AMOAND_D, Instr_AMOMIN_D, Instr_AMOMAX_D, Instr_AMOMINU_D, Instr_AMOMAXU_D, Instr_AMOSWAP_D, 
     Instr_LR_D}"

definition v_memop_sign_ext :: "nat option \<Rightarrow> bool" where
  "v_memop_sign_ext = dec_in
    {Instr_LD, Instr_LW, Instr_LH, Instr_LB, Instr_AMOADD_W, Instr_AMOXOR_W, Instr_AMOOR_W, 
     Instr_AMOAND_W, Instr_AMOMIN_W, Instr_AMOMAX_W, Instr_AMOMINU_W, Instr_AMOMAXU_W, Instr_AMOSWAP_W, 
     Instr_LR_W}"

definition v_unsigned_op :: "nat option \<Rightarrow> bool" where
  "v_unsigned_op = dec_in
    {Instr_DIVU, Instr_REMU, Instr_DIVUW, Instr_REMUW, Instr_MULHU, Instr_FCVT_WU_D, Instr_FCVT_LU_D, 
     Instr_AMOMINU_W, Instr_AMOMAXU_W, Instr_AMOMINU_D, Instr_AMOMAXU_D}"

definition v_rv32 :: "nat option \<Rightarrow> bool" where
  "v_rv32 = dec_in
    {Instr_ADDW, Instr_ADDIW, Instr_SLLW, Instr_SLLIW, Instr_SRAW, Instr_SRAIW, Instr_SRLW, Instr_SRLIW, 
     Instr_SUBW, Instr_DIVW, Instr_DIVUW, Instr_MULW, Instr_REMW, Instr_REMUW, Instr_AMOADD_W, 
     Instr_AMOXOR_W, Instr_AMOOR_W, Instr_AMOAND_W, Instr_AMOMIN_W, Instr_AMOMAX_W, Instr_AMOMINU_W, 
     Instr_AMOMAXU_W, Instr_AMOSWAP_W, Instr_LR_W, Instr_SC_W}"

definition v_f64 :: "nat option \<Rightarrow> bool" where
  "v_f64 = dec_in
    {Instr_FADD_D, Instr_FSUB_D, Instr_FMUL_D, Instr_FDIV_D, Instr_FMIN_D, Instr_FMAX_D, Instr_FLE_D, 
     Instr_FLT_D, Instr_FEQ_D, Instr_FCVT_W_D, Instr_FCVT_WU_D, Instr_FCVT_L_D, Instr_FCVT_LU_D, 
     Instr_FMOV_X_D, Instr_FCVT_D_W, Instr_FCVT_D_WU, Instr_FCVT_D_L, Instr_FCVT_D_LU, Instr_FMOV_D_X, 
     Instr_FLD, Instr_FSD}"

definition vb_memop_size :: "nat option \<Rightarrow> 2 word" where
  "vb_memop_size d =
    (if dec_in
       {Instr_LD, Instr_SD, Instr_FLD, Instr_FSD, Instr_AMOADD_D, Instr_AMOXOR_D, Instr_AMOOR_D, 
     Instr_AMOAND_D, Instr_AMOMIN_D, Instr_AMOMAX_D, Instr_AMOMINU_D, Instr_AMOMAXU_D, Instr_AMOSWAP_D, 
     Instr_LR_D, Instr_SC_D} d then 3
     else if dec_in
       {Instr_LW, Instr_LWU, Instr_SW, Instr_AMOADD_W, Instr_AMOXOR_W, Instr_AMOOR_W, Instr_AMOAND_W, 
     Instr_AMOMIN_W, Instr_AMOMAX_W, Instr_AMOMINU_W, Instr_AMOMAXU_W, Instr_AMOSWAP_W, Instr_LR_W, 
     Instr_SC_W} d then 2
     else if dec_in {Instr_LH, Instr_LHU, Instr_SH} d then 1
     else 0)"

section \<open>The registers\<close>

record decoder_rv =
  dr_pc :: u64
  dr_isa_type :: isa_type
  dr_instr_vec :: "nat option"
  dr_instr :: u32
  dr_memop_store :: bool
  dr_memop_load :: bool
  dr_memop_sign_ext :: bool
  dr_memop_size :: "2 word"
  dr_unsigned_op :: bool
  dr_rv32 :: bool
  dr_f64 :: bool
  dr_compressed :: bool
  dr_amo :: bool
  dr_instr_load_fault :: bool
  dr_instr_page_fault_x :: bool
  dr_instr_unimplemented :: bool
  dr_radr1 :: "6 word"
  dr_radr2 :: "6 word"
  dr_waddr :: "6 word"
  dr_csr_addr :: "12 word"
  dr_imm :: u64
  dr_progbuf_ena :: bool

record decoder_in =
  fi_nrst :: bool
  fi_flush_pipeline :: bool
  fi_f_pc :: u64
  fi_f_instr :: u32
  fi_instr_load_fault :: bool
  fi_instr_page_fault_x :: bool
  fi_progbuf_ena :: bool

definition DecoderRv_r_reset :: decoder_rv where
  "DecoderRv_r_reset =
    \<lparr>dr_pc = - 1, dr_isa_type = ISA_None, dr_instr_vec = None, dr_instr = - 1, dr_memop_store = False, dr_memop_load = False,
     dr_memop_sign_ext = False, dr_memop_size = 0, dr_unsigned_op = False, dr_rv32 = False, dr_f64 = False,
     dr_compressed = False, dr_amo = False, dr_instr_load_fault = False, dr_instr_page_fault_x = False,
     dr_instr_unimplemented = False, dr_radr1 = 0, dr_radr2 = 0, dr_waddr = 0, dr_csr_addr = 0, dr_imm = 0,
     dr_progbuf_ena = False\<rparr>"

definition DecoderRv_comb :: "bool \<Rightarrow> decoder_in \<Rightarrow> decoder_rv" where
  "DecoderRv_comb fpu_ena i =
    (let w = fi_f_instr i; d = vb_dec fpu_ena w
     in \<lparr>dr_pc = fi_f_pc i, dr_isa_type = vb_isa_type fpu_ena w, dr_instr_vec = d, dr_instr = w,
         dr_memop_store = v_memop_store d, dr_memop_load = v_memop_load d, dr_memop_sign_ext = v_memop_sign_ext d,
         dr_memop_size = vb_memop_size d, dr_unsigned_op = v_unsigned_op d, dr_rv32 = v_rv32 d, dr_f64 = v_f64 d,
         dr_compressed = (bitfield 0 2 w \<noteq> 3), dr_amo = v_amo d, dr_instr_load_fault = fi_instr_load_fault i,
         dr_instr_page_fault_x = fi_instr_page_fault_x i, dr_instr_unimplemented = (d = None),
         dr_radr1 = vb_radr1 fpu_ena w, dr_radr2 = vb_radr2 fpu_ena w, dr_waddr = vb_waddr fpu_ena w,
         dr_csr_addr = vb_csr_addr w, dr_imm = vb_imm fpu_ena w, dr_progbuf_ena = fi_progbuf_ena i\<rparr>)"

definition DecoderRv_clock :: "bool \<Rightarrow> decoder_in \<Rightarrow> decoder_rv" where
  "DecoderRv_clock fpu_ena i =
    (if \<not> fi_nrst i \<or> fi_flush_pipeline i then DecoderRv_r_reset else DecoderRv_comb fpu_ena i)"

section \<open>Agreement with the simulator\<close>

text \<open>The index of an instruction of the simulator's tables, by its name.\<close>

definition rtl_index :: "string \<Rightarrow> nat option" where
  "rtl_index nm =
    (if nm = ''ADD'' then Some Instr_ADD else if nm = ''ADDI'' then Some Instr_ADDI
     else if nm = ''ADDIW'' then Some Instr_ADDIW else if nm = ''ADDW'' then Some Instr_ADDW
     else if nm = ''AND'' then Some Instr_AND else if nm = ''ANDI'' then Some Instr_ANDI
     else if nm = ''AUIPC'' then Some Instr_AUIPC else if nm = ''BEQ'' then Some Instr_BEQ
     else if nm = ''BGE'' then Some Instr_BGE else if nm = ''BGEU'' then Some Instr_BGEU
     else if nm = ''BLT'' then Some Instr_BLT else if nm = ''BLTU'' then Some Instr_BLTU
     else if nm = ''BNE'' then Some Instr_BNE else if nm = ''JAL'' then Some Instr_JAL
     else if nm = ''JALR'' then Some Instr_JALR else if nm = ''LD'' then Some Instr_LD else if nm = ''LW'' then Some Instr_LW
     else if nm = ''LWU'' then Some Instr_LWU else if nm = ''LH'' then Some Instr_LH else if nm = ''LHU'' then Some Instr_LHU
     else if nm = ''LB'' then Some Instr_LB else if nm = ''LBU'' then Some Instr_LBU else if nm = ''LUI'' then Some Instr_LUI
     else if nm = ''OR'' then Some Instr_OR else if nm = ''ORI'' then Some Instr_ORI else if nm = ''SLL'' then Some Instr_SLL
     else if nm = ''SLLI'' then Some Instr_SLLI else if nm = ''SLLIW'' then Some Instr_SLLIW
     else if nm = ''SLLW'' then Some Instr_SLLW else if nm = ''SLT'' then Some Instr_SLT
     else if nm = ''SLTI'' then Some Instr_SLTI else if nm = ''SLTU'' then Some Instr_SLTU
     else if nm = ''SLTIU'' then Some Instr_SLTIU else if nm = ''SRA'' then Some Instr_SRA
     else if nm = ''SRAI'' then Some Instr_SRAI else if nm = ''SRAIW'' then Some Instr_SRAIW
     else if nm = ''SRAW'' then Some Instr_SRAW else if nm = ''SRL'' then Some Instr_SRL
     else if nm = ''SRLI'' then Some Instr_SRLI else if nm = ''SRLIW'' then Some Instr_SRLIW
     else if nm = ''SRLW'' then Some Instr_SRLW else if nm = ''SUB'' then Some Instr_SUB
     else if nm = ''SUBW'' then Some Instr_SUBW else if nm = ''SD'' then Some Instr_SD else if nm = ''SW'' then Some Instr_SW
     else if nm = ''SH'' then Some Instr_SH else if nm = ''SB'' then Some Instr_SB else if nm = ''XOR'' then Some Instr_XOR
     else if nm = ''XORI'' then Some Instr_XORI else if nm = ''CSRRC'' then Some Instr_CSRRC
     else if nm = ''CSRRCI'' then Some Instr_CSRRCI else if nm = ''CSRRS'' then Some Instr_CSRRS
     else if nm = ''CSRRSI'' then Some Instr_CSRRSI else if nm = ''CSRRW'' then Some Instr_CSRRW
     else if nm = ''CSRRWI'' then Some Instr_CSRRWI else if nm = ''URET'' then Some Instr_URET
     else if nm = ''SRET'' then Some Instr_SRET else if nm = ''HRET'' then Some Instr_HRET
     else if nm = ''MRET'' then Some Instr_MRET else if nm = ''FENCE'' then Some Instr_FENCE
     else if nm = ''FENCE_I'' then Some Instr_FENCE_I else if nm = ''SFENCE_VMA'' then Some Instr_SFENCE_VMA
     else if nm = ''ECALL'' then Some Instr_ECALL else if nm = ''EBREAK'' then Some Instr_EBREAK
     else if nm = ''DIV'' then Some Instr_DIV else if nm = ''DIVU'' then Some Instr_DIVU
     else if nm = ''DIVUW'' then Some Instr_DIVUW else if nm = ''DIVW'' then Some Instr_DIVW
     else if nm = ''MUL'' then Some Instr_MUL else if nm = ''MULH'' then Some Instr_MULH
     else if nm = ''MULHSU'' then Some Instr_MULHSU else if nm = ''MULHU'' then Some Instr_MULHU
     else if nm = ''MULW'' then Some Instr_MULW else if nm = ''REM'' then Some Instr_REM
     else if nm = ''REMU'' then Some Instr_REMU else if nm = ''REMW'' then Some Instr_REMW
     else if nm = ''REMUW'' then Some Instr_REMUW else if nm = ''AMOADD_W'' then Some Instr_AMOADD_W
     else if nm = ''AMOXOR_W'' then Some Instr_AMOXOR_W else if nm = ''AMOOR_W'' then Some Instr_AMOOR_W
     else if nm = ''AMOAND_W'' then Some Instr_AMOAND_W else if nm = ''AMOMIN_W'' then Some Instr_AMOMIN_W
     else if nm = ''AMOMAX_W'' then Some Instr_AMOMAX_W else if nm = ''AMOMINU_W'' then Some Instr_AMOMINU_W
     else if nm = ''AMOMAXU_W'' then Some Instr_AMOMAXU_W else if nm = ''AMOSWAP_W'' then Some Instr_AMOSWAP_W
     else if nm = ''LR_W'' then Some Instr_LR_W else if nm = ''SC_W'' then Some Instr_SC_W
     else if nm = ''AMOADD_D'' then Some Instr_AMOADD_D else if nm = ''AMOXOR_D'' then Some Instr_AMOXOR_D
     else if nm = ''AMOOR_D'' then Some Instr_AMOOR_D else if nm = ''AMOAND_D'' then Some Instr_AMOAND_D
     else if nm = ''AMOMIN_D'' then Some Instr_AMOMIN_D else if nm = ''AMOMAX_D'' then Some Instr_AMOMAX_D
     else if nm = ''AMOMINU_D'' then Some Instr_AMOMINU_D else if nm = ''AMOMAXU_D'' then Some Instr_AMOMAXU_D
     else if nm = ''AMOSWAP_D'' then Some Instr_AMOSWAP_D else if nm = ''LR_D'' then Some Instr_LR_D
     else if nm = ''SC_D'' then Some Instr_SC_D
     else None)"

definition bits_value :: "string \<Rightarrow> u32" where
  "bits_value cs = horner_sum of_bool 2 (rev (map (\<lambda>ch. ch = CHR ''1'') cs))"

lemma bits_value_simps [simp]:
  "bits_value [] = 0"
  "bits_value (ch # cs) = of_bool (ch = CHR ''1'') * 2 ^ length cs + bits_value cs"
  by (simp_all add: bits_value_def horner_sum_append)

lemma bit_bits_value: "k < 32 \<Longrightarrow> bit (bits_value cs) k \<longleftrightarrow> k < length cs \<and> cs ! (length cs - Suc k) = CHR ''1''"
  by (auto simp: bits_value_def bit_horner_sum_bit_word_iff rev_map rev_nth)

definition field_chars :: "nat \<Rightarrow> nat \<Rightarrow> string \<Rightarrow> string" where
  "field_chars lo n bits = take n (drop (32 - lo - n) bits)"

lemma pattern_field:
  assumes len: "length bits = 32" and parse: "parse_pattern bits w" and fit: "lo + n \<le> 32"
    and known: "CHR ''?'' \<notin> set (field_chars lo n bits)"
  shows "bitfield lo n w = bits_value (field_chars lo n bits)"
proof (rule bit_word_eqI)
  fix k :: nat assume k: "k < LENGTH(32)"
  have l: "length (field_chars lo n bits) = n" using len fit by (simp add: field_chars_def)
  show "bit (bitfield lo n w) k = bit (bits_value (field_chars lo n bits)) k"
  proof (cases "k < n")
    case True
    define p where "p = 31 - (lo + k)"
    have p: "p < 32" "31 - p = lo + k" using True fit by (auto simp: p_def)
    have ch: "field_chars lo n bits ! (n - Suc k) = bits ! p"
      using True fit len by (simp add: field_chars_def p_def)
    then have "bits ! p \<noteq> CHR ''?''" using known True l by (metis diff_Suc_less gr_implies_not0 neq0_conv nth_mem)
    then have "bit w (lo + k) \<longleftrightarrow> bits ! p = CHR ''1''"
      using parse p by (metis parse_pattern_iff len)
    with True k l ch show ?thesis by (simp add: bit_bitfield bit_bits_value)
  qed (use k l in \<open>simp add: bit_bitfield bit_bits_value\<close>)
qed

definition rtl_agrees :: "bool \<Rightarrow> 'b riscv_instr \<Rightarrow> bool" where
  "rtl_agrees fpu_ena i \<longleftrightarrow>
     (\<forall>w. iparse i w \<longrightarrow> (case rtl_index (iname i) of None \<Rightarrow> False | Some d \<Rightarrow> vb_dec fpu_ena w = Some d))"

text \<open>What a pattern fixes of the fields the decoder looks at; the decoder is evaluated on these.\<close>

definition fixed_fields :: "string \<Rightarrow> (nat \<times> nat) list" where
  "fixed_fields bits = filter (\<lambda>(lo, n). CHR ''?'' \<notin> set (field_chars lo n bits))
     [(2, 5), (12, 3), (25, 7), (26, 6), (27, 5), (20, 5), (7, 5), (0, 32)]"

definition has_fields :: "string \<Rightarrow> u32 \<Rightarrow> bool" where
  "has_fields bits w \<longleftrightarrow> list_all (\<lambda>(lo, n). bitfield lo n w = bits_value (field_chars lo n bits)) (fixed_fields bits)"

lemma rtl_agreesI:
  assumes "length bits = 32" and "\<And>w. has_fields bits w \<Longrightarrow> case rtl_index nm of None \<Rightarrow> False | Some d \<Rightarrow> vb_dec fpu_ena w = Some d"
  shows "rtl_agrees fpu_ena (mk_instr nm bits ex)"
proof -
  have "has_fields bits w" if "parse_pattern bits w" for w
    using pattern_field [OF assms(1) that] by (auto simp: has_fields_def fixed_fields_def)
  with assms(2) show ?thesis by (simp add: rtl_agrees_def mk_instr_def)
qed

lemma bitfield_all [simp]: "bitfield 0 32 (w :: u32) = w"
  by (simp add: bitfield_def take_bit_word_eq_self)

lemmas rtl_eval = has_fields_def fixed_fields_def field_chars_def vb_dec_def rtl_index_def Let_def

lemma M_agrees: "list_all (rtl_agrees f) (isaExtensionM c)"
  unfolding isaExtensionM_def list.pred_inject
  by (intro conjI rtl_agreesI TrueI; simp add: rtl_eval dec_add_def dec_addw_def)

lemma A_agrees: "list_all (rtl_agrees f) (isaExtensionA c)"
  unfolding isaExtensionA_def list.pred_inject
  by (intro conjI rtl_agreesI TrueI; simp add: rtl_eval dec_amo_def)

lemma priv_agrees: "list_all (rtl_agrees f) (isaPrivilegedRV64I c)"
  unfolding isaPrivilegedRV64I_def list.pred_inject
  by (intro conjI rtl_agreesI TrueI; simp add: rtl_eval dec_system_def; auto simp: bitfield_def)

lemma user_agrees: "list_all (rtl_agrees f) (isaUserRV64I c)"
  unfolding isaUserRV64I_def list.pred_inject
  by (intro conjI rtl_agreesI TrueI; simp add: rtl_eval dec_add_def dec_addi_def dec_addiw_def dec_addw_def
      dec_branch_def dec_load_def dec_store_def)

lemma wide_agrees:
  assumes "i \<in> set (isa_instructions c)" and "wide i"
  shows "rtl_agrees f i"
proof -
  have "\<not> narrow i" if "iparse i w" for w
    using wide_hash(2) [OF assms(2) that] narrow_hash(2) [OF _ that] by blast
  moreover have "rtl_agrees f i" if "narrow i" and "\<And>w. \<not> iparse i w" using that by (simp add: rtl_agrees_def)
  ultimately have "i \<in> set (isaExtensionC c) \<Longrightarrow> rtl_agrees f i"
    using table_narrow [of c] by (auto simp: list_all_iff)
  with assms(1) M_agrees [of f c] A_agrees [of f c] priv_agrees [of f c] user_agrees [of f c] show ?thesis
    by (auto simp: isa_instructions_def isa_extension_def list_all_iff split: if_splits)
qed

text \<open>The immediates bit by bit.\<close>

lemmas imm_bits = bit_ucast_iff bit_or_iff bit_push_bit_iff bit_bitfield possible_bit_word bit_minus_1_iff

lemma vb_imm_I:
  assumes "vb_isa_type f w = ISA_I_type"
  shows "vb_imm f w = sext_imm12 (ISA_I_imm w)"
proof (rule bit_word_eqI)
  fix k :: nat assume k: "k < LENGTH(64)"
  have imm: "bit (ISA_I_imm w) i \<longleftrightarrow> i < 12 \<and> bit w (20 + i)" for i by (auto simp: ISA_I_imm_def bit_simps)
  have "bit (sext_imm12 (ISA_I_imm w)) k \<longleftrightarrow> (if k < 12 then bit w (20 + k) else k < 64 \<and> bit w 31)"
    by (subst bit_sext_imm12) (simp_all add: imm)
  with k show "bit (vb_imm f w) k = bit (sext_imm12 (ISA_I_imm w)) k"
    unfolding vb_imm_def assms Let_def isa_type.case
    by (cases "bit w 31") (simp_all only: imm_bits if_True if_False, auto)
qed

lemma vb_imm_S:
  assumes "vb_isa_type f w = ISA_S_type"
  shows "vb_imm f w = sext_imm12 (ISA_S_off w)"
proof (rule bit_word_eqI)
  fix k :: nat assume k: "k < LENGTH(64)"
  have "bit (sext_imm12 (ISA_S_off w)) k \<longleftrightarrow>
      (if k < 5 then bit w (7 + k) else if k < 12 then bit w (20 + k) else k < 64 \<and> bit w 31)"
    by (subst bit_sext_imm12) (simp_all add: bit_ISA_S_off)
  with k show "bit (vb_imm f w) k = bit (sext_imm12 (ISA_S_off w)) k"
    unfolding vb_imm_def assms Let_def isa_type.case
    by (cases "bit w 31") (simp_all only: imm_bits if_True if_False, auto)
qed

lemma vb_imm_SB:
  assumes "vb_isa_type f w = ISA_SB_type"
  shows "vb_imm f w = ISA_SB_off w"
proof (rule bit_word_eqI)
  fix k :: nat assume "k < LENGTH(64)"
  then show "bit (vb_imm f w) k = bit (ISA_SB_off w) k"
    unfolding vb_imm_def assms Let_def isa_type.case bit_ISA_SB_off
    by (cases "bit w 31") (simp_all only: imm_bits if_True if_False, auto)
qed

lemma vb_imm_UJ:
  assumes "vb_isa_type f w = ISA_UJ_type"
  shows "vb_imm f w = ISA_UJ_off w"
proof (rule bit_word_eqI)
  fix k :: nat assume "k < LENGTH(64)"
  then show "bit (vb_imm f w) k = bit (ISA_UJ_off w) k"
    unfolding vb_imm_def assms Let_def isa_type.case bit_ISA_UJ_off
    by (cases "bit w 31") (simp_all only: imm_bits if_True if_False, auto)
qed

lemma vb_imm_U:
  assumes "vb_isa_type f w = ISA_U_type"
  shows "vb_imm f w = ISA_U_off w"
proof (rule bit_word_eqI)
  fix k :: nat assume k: "k < LENGTH(64)"
  have off: "bit (scast (push_bit 12 (bitfield 12 20 w)) :: u64) i \<longleftrightarrow>
      i < 64 \<and> (if i < 12 then False else if i < 32 then bit w i else bit w 31)" for i
    by (cases "i = 31") (auto simp: bit_signed_iff bit_push_bit_iff bit_bitfield min_def)
  have "bit (ISA_U_off w) k \<longleftrightarrow> (if k < 12 then False else if k < 32 then bit w k else bit w 31)"
    using k unfolding ISA_U_off_def Let_def and_bit_tests ext_sign_masks
    by (auto simp: off bit_or_iff bit_not_iff bit_mask_iff)
  with k show "bit (vb_imm f w) k = bit (ISA_U_off w) k"
    unfolding vb_imm_def assms Let_def isa_type.case
    by (cases "bit w 31") (simp_all only: imm_bits if_True if_False, auto)
qed

text \<open>The register numbers, without a floating-point unit.\<close>

lemma reg_address: "unat (ucast (bitfield lo 5 (w :: u32)) :: 6 word) = unat (bitfield lo 5 w)"
  using bitfield_lt [of 5 lo w] by (simp add: unsigned_ucast_eq take_bit_nat_eq_self)

lemma no_fpu_opcode:
  "vb_isa_type False w \<noteq> ISA_None \<Longrightarrow> bitfield 2 5 w \<notin> {OPCODE_FPU_LD, OPCODE_FPU_SD, OPCODE_FPU_OP}"
  by (auto simp: vb_isa_type_def Let_def)

lemma vb_regs:
  "unat (vb_radr1 False w) =
     (if vb_isa_type False w \<in> {ISA_R_type, ISA_I_type, ISA_S_type, ISA_SB_type} then ISA_rs1 w else 0)"
  "unat (vb_radr2 False w) = (if vb_isa_type False w \<in> {ISA_R_type, ISA_S_type, ISA_SB_type} then ISA_rs2 w else 0)"
  "unat (vb_waddr False w) =
     (if vb_isa_type False w \<in> {ISA_R_type, ISA_I_type, ISA_U_type, ISA_UJ_type} then ISA_rd w else 0)"
  using no_fpu_opcode [of w]
  by (cases "vb_isa_type False w";
      simp add: vb_radr1_def vb_radr2_def vb_waddr_def ISA_rs1_def ISA_rs2_def ISA_rd_def reg_address Let_def)+

text \<open>The converse does not hold: shifts with bits of the upper field set, which no pattern of the simulator matches, are decoded.\<close>

lemma rtl_accepts_reserved:
  "vb_dec f 0x40101093 = Some Instr_SLLI" "vb_dec f 0x4010103B = Some Instr_SLLW"
  "\<not> parse_pattern ''000000???????????001?????0010011'' 0x40101093" "\<not> parse_pattern ''0000000??????????001?????0111011'' 0x4010103B"
  by (simp_all add: vb_dec_def dec_addi_def dec_addw_def bitfield_def parse_pattern_def pattern_mask_def pattern_opcode_def)

section \<open>Properties\<close>



text \<open>The operands of the RTL decoder without a floating-point unit are the fields the simulator reads: the immediate
  of every format is the simulator's sign-extended offset of that format, and the register numbers are its register
  numbers wherever the format has the register, zero where it has not.\<close>

lemma rtl_operands_are_fields:
  "vb_imm False w =
     (case vb_isa_type False w of
        ISA_I_type \<Rightarrow> sext_imm12 (ISA_I_imm w) | ISA_S_type \<Rightarrow> sext_imm12 (ISA_S_off w)
      | ISA_SB_type \<Rightarrow> ISA_SB_off w | ISA_U_type \<Rightarrow> ISA_U_off w | ISA_UJ_type \<Rightarrow> ISA_UJ_off w | _ \<Rightarrow> 0) \<and>
   unat (vb_radr1 False w) =
     (if vb_isa_type False w \<in> {ISA_R_type, ISA_I_type, ISA_S_type, ISA_SB_type} then ISA_rs1 w else 0) \<and>
   unat (vb_radr2 False w) = (if vb_isa_type False w \<in> {ISA_R_type, ISA_S_type, ISA_SB_type} then ISA_rs2 w else 0) \<and>
   unat (vb_waddr False w) =
     (if vb_isa_type False w \<in> {ISA_R_type, ISA_I_type, ISA_U_type, ISA_UJ_type} then ISA_rd w else 0)"
proof (intro conjI)
  show "vb_imm False w =
     (case vb_isa_type False w of
        ISA_I_type \<Rightarrow> sext_imm12 (ISA_I_imm w) | ISA_S_type \<Rightarrow> sext_imm12 (ISA_S_off w)
      | ISA_SB_type \<Rightarrow> ISA_SB_off w | ISA_U_type \<Rightarrow> ISA_U_off w | ISA_UJ_type \<Rightarrow> ISA_UJ_off w | _ \<Rightarrow> 0)"
    using vb_imm_I [of False w] vb_imm_S [of False w] vb_imm_SB [of False w] vb_imm_U [of False w] vb_imm_UJ [of False w]
    by (auto split: isa_type.split) (simp_all add: vb_imm_def)
qed (rule vb_regs)+

end
