(* ===== verification/Rtl_Alu.thy ===== *)
theory Rtl_Alu
  imports Rv64i_User
begin

text \<open>
  The single-cycle arithmetic units of the RTL core: \<^verbatim>\<open>arith/alu_logic.cpp\<close>, \<^verbatim>\<open>arith/int_addsub.cpp\<close> and \<^verbatim>\<open>arith/shift.cpp\<close>.
  Each has one register, the result, which it computes again on every clock.
\<close>

section \<open>The units\<close>

definition vec_of :: "bool list \<Rightarrow> 'a :: len word" where
  "vec_of bs = horner_sum of_bool 2 bs"

lemma bit_vec_of [simp]: "n < LENGTH('a) \<Longrightarrow> bit (vec_of bs :: 'a :: len word) n \<longleftrightarrow> n < length bs \<and> bs ! n"
  by (auto simp: vec_of_def bit_horner_sum_bit_word_iff)

text \<open>The assignment of all ones or of zero to the range \<^verbatim>\<open>(63, 32)\<close>.\<close>

definition upper32 :: "bool \<Rightarrow> u64 \<Rightarrow> u64" where
  "upper32 b x = (if b then take_bit 32 x OR push_bit 32 (- 1) else take_bit 32 x)"

definition AluLogic_res :: "3 word \<Rightarrow> u64 \<Rightarrow> u64 \<Rightarrow> u64" where
  "AluLogic_res mode a1 a2 = (if bit mode 1 then a1 OR a2 else if bit mode 2 then a1 XOR a2 else a1 AND a2)"

definition AluLogic_clock :: "bool \<Rightarrow> 3 word \<Rightarrow> u64 \<Rightarrow> u64 \<Rightarrow> u64" where
  "AluLogic_clock nrst mode a1 a2 = (if nrst then AluLogic_res mode a1 a2 else 0)"

definition IntAddSub_res :: "7 word \<Rightarrow> u64 \<Rightarrow> u64 \<Rightarrow> u64" where
  "IntAddSub_res mode a1 a2 =
    (let vb_rdata1 = (if bit mode 0 then upper32 (bit a1 31) a1 else a1);
         vb_rdata2 = (if bit mode 0 then upper32 (bit a2 31) a2 else a2);
         vb_add = vb_rdata1 + vb_rdata2;
         vb_sub = vb_rdata1 - vb_rdata2;
         vb_res =
           (if bit mode 2 then vb_add
            else if bit mode 3 then vb_sub
            else if bit mode 4 then
              if bit mode 1 then of_bool (vb_rdata1 < vb_rdata2) else of_bool (bit vb_sub 63)
            else if bit mode 5 then
              if bit mode 1 then if vb_rdata1 < vb_rdata2 then vb_rdata1 else vb_rdata2
              else if bit vb_sub 63 then vb_rdata1 else vb_rdata2
            else if bit mode 6 then
              if bit mode 1 then if vb_rdata1 < vb_rdata2 then vb_rdata2 else vb_rdata1
              else if bit vb_sub 63 then vb_rdata2 else vb_rdata1
            else 0)
     in if bit mode 0 then upper32 (bit vb_res 31) vb_res else vb_res)"

definition IntAddSub_clock :: "bool \<Rightarrow> 7 word \<Rightarrow> u64 \<Rightarrow> u64 \<Rightarrow> u64" where
  "IntAddSub_clock nrst mode a1 a2 = (if nrst then IntAddSub_res mode a1 a2 else 0)"

text \<open>
  The two \<^verbatim>\<open>switch\<close> statements of the shifter list every shift amount; the cases are instances of one expression, apart
  from the amount 0 of the 64-bit shifts. The arithmetic shifts are concatenations of a slice of
  the sign mask with a slice of the operand.
\<close>

definition wb_sra :: "u64 \<Rightarrow> nat \<Rightarrow> u64" where
  "wb_sra v64 k =
    (let msk64 = (if bit v64 63 then - 1 else 0)
     in if k = 0 then v64 else push_bit (64 - k) (bitfield (64 - k) k msk64) OR bitfield k (64 - k) v64)"

definition wb_sraw :: "u64 \<Rightarrow> nat \<Rightarrow> u64" where
  "wb_sraw a1 k =
    (let v32 = take_bit 32 a1; msk32 = (if bit a1 31 then - 1 else 0)
     in push_bit (32 - k) (bitfield (32 - k) (32 + k) msk32) OR bitfield k (32 - k) v32)"

definition Shifter_res :: "4 word \<Rightarrow> u64 \<Rightarrow> 6 word \<Rightarrow> u64" where
  "Shifter_res mode a1 a2 =
    (let v32 = take_bit 32 a1; k = unat a2; kw = unat (bitfield 0 5 a2);
         wb_sll = push_bit k a1;
         wb_srl = bitfield k (64 - k) a1;
         wb_sllw = push_bit kw v32;
         wb_sllw = upper32 (bit wb_sllw 31) wb_sllw;
         wb_srlw = bitfield kw (32 - kw) v32;
         wb_srlw = (if bit wb_srlw 31 then upper32 True wb_srlw else wb_srlw)
     in if bit mode 0 then
          if bit mode 1 then wb_sllw else if bit mode 2 then wb_srlw else wb_sraw a1 kw
        else
          if bit mode 1 then wb_sll else if bit mode 2 then wb_srl else wb_sra a1 k)"

definition Shifter_clock :: "bool \<Rightarrow> 4 word \<Rightarrow> u64 \<Rightarrow> 6 word \<Rightarrow> u64" where
  "Shifter_clock nrst mode a1 a2 = (if nrst then Shifter_res mode a1 a2 else 0)"

section \<open>What they compute\<close>

lemma bit_upper32: "bit (upper32 b x) n \<longleftrightarrow> n < 64 \<and> (if n < 32 then bit x n else b)"
  by (auto simp: upper32_def bit_simps)

lemma upper32_sext: "upper32 (bit x 31) x = scast (ucast x :: u32)"
proof (rule bit_word_eqI)
  fix n assume "n < LENGTH(64)"
  then show "bit (upper32 (bit x 31) x) n = bit (scast (ucast x :: u32) :: u64) n"
    using bit_min_cases [of "ucast x :: u32" n] by (auto simp: bit_upper32 bit_simps)
qed

lemma ucast_scast_32: "ucast (scast (x :: u32) :: u64) = x"
proof (rule bit_word_eqI)
  fix n assume "n < LENGTH(32)"
  then show "bit (ucast (scast x :: u64) :: u32) n = bit x n"
    using bit_min_cases [of x n] by (auto simp: bit_simps)
qed

lemma add_32: "upper32 (bit r 31) r = scast (ucast a1 + ucast a2 :: u32)"
  if "r = upper32 (bit a1 31) a1 + upper32 (bit a2 31) a2"
  unfolding that upper32_sext ucast_u32_add ucast_scast_32 ..

lemma sub_32: "upper32 (bit r 31) r = scast (ucast a1 - ucast a2 :: u32)"
  if "r = upper32 (bit a1 31) a1 - upper32 (bit a2 31) a2"
  unfolding that upper32_sext ucast_u32_sub ucast_scast_32 ..

lemma IntAddSub_modes:
  "bit m 2 \<Longrightarrow> \<not> bit m 0 \<Longrightarrow> IntAddSub_res m a b = a + b"
  "\<not> bit m 2 \<Longrightarrow> bit m 3 \<Longrightarrow> \<not> bit m 0 \<Longrightarrow> IntAddSub_res m a b = a - b"
  "bit m 2 \<Longrightarrow> bit m 0 \<Longrightarrow> IntAddSub_res m a b = sext32 (a + b)"
  "\<not> bit m 2 \<Longrightarrow> bit m 3 \<Longrightarrow> bit m 0 \<Longrightarrow> IntAddSub_res m a b = sext32 (a - b)"
  "\<not> bit m 2 \<Longrightarrow> \<not> bit m 3 \<Longrightarrow> bit m 4 \<Longrightarrow> bit m 1 \<Longrightarrow> \<not> bit m 0 \<Longrightarrow> IntAddSub_res m a b = of_bool (a < b)"
  "\<not> bit m 2 \<Longrightarrow> \<not> bit m 3 \<Longrightarrow> bit m 4 \<Longrightarrow> \<not> bit m 1 \<Longrightarrow> \<not> bit m 0 \<Longrightarrow> IntAddSub_res m a b = of_bool (bit (a - b) 63)"
  using add_32 [OF refl, of a b] sub_32 [OF refl, of a b]
  by (simp_all add: IntAddSub_res_def sext32_scast ucast_u32_add ucast_u32_sub Let_def)

text \<open>The sign of the difference is the comparison as long as the difference does not overflow.\<close>

definition sub_fits :: "u64 \<Rightarrow> u64 \<Rightarrow> bool" where
  "sub_fits a b \<longleftrightarrow> - (2 ^ 63) \<le> sint a - sint b \<and> sint a - sint b < 2 ^ 63"

lemma sub_sign:
  assumes "sub_fits a b"
  shows "bit (a - b) 63 \<longleftrightarrow> sint a < sint b"
proof -
  have "sint (a - b) = sint a - sint b"
    using assms by (simp add: sub_fits_def sint_word_ariths signed_take_bit_int_eq_self)
  then show ?thesis using bit_last_iff [of "a - b"] by simp
qed

lemma srl_slice: "k < 64 \<Longrightarrow> bitfield k (64 - k) (a :: u64) = drop_bit k a"
  by (rule bit_word_eqI) (auto simp: bit_simps dest: bit_imp_le_length)

lemma sra_slice: "k < 64 \<Longrightarrow> wb_sra a k = signed_drop_bit k a"
  by (rule bit_word_eqI) (auto simp: wb_sra_def bit_simps bit_signed_drop_bit_iff min_def)
  

lemma sllw_slice: "upper32 (bit (push_bit k (take_bit 32 a)) 31) (push_bit k (take_bit 32 a)) = sext32 (push_bit k a)"
  unfolding sext32_scast upper32_sext by (rule arg_cong [where f = scast], rule bit_word_eqI) (auto simp: bit_simps)

lemma srlw_slice:
  fixes a :: u64
  assumes "k < 32"
  defines "x \<equiv> bitfield k (32 - k) (take_bit 32 a) :: u64"
  shows "(if bit x 31 then upper32 True x else x) = scast (drop_bit k (ucast a :: u32))"
proof -
  have x: "bit x n \<longleftrightarrow> n + k < 32 \<and> bit a (k + n)" for n
    using assms(1) by (auto simp: x_def bit_simps)
  have "(if bit x 31 then upper32 True x else x) = upper32 (bit x 31) x"
    by (rule bit_word_eqI) (auto simp: bit_upper32 x)
  moreover have "ucast x = drop_bit k (ucast a :: u32)"
    by (rule bit_word_eqI) (auto simp: x bit_simps)
  ultimately show ?thesis by (simp add: upper32_sext)
qed

lemma sraw_slice: "k < 32 \<Longrightarrow> wb_sraw a k = scast (signed_drop_bit k (ucast a :: u32))"
proof (rule bit_word_eqI)
  fix n assume k: "k < 32" and n: "n < LENGTH(64)"
  have "bit (wb_sraw a k) n \<longleftrightarrow> (if n + k < 32 then bit a (k + n) else bit a 31)"
    using k n by (auto simp: wb_sraw_def bit_simps)
  moreover have "bit (scast (signed_drop_bit k (ucast a :: u32)) :: u64) n \<longleftrightarrow> (if n + k < 32 then bit a (k + n) else bit a 31)"
    using k n by (cases "k = 0"; cases "n = 31") (auto simp: bit_simps bit_signed_drop_bit_iff min_def)
  ultimately show "bit (wb_sraw a k) n = bit (scast (signed_drop_bit k (ucast a :: u32)) :: u64) n" by simp
qed

end
