(* ===== verification/Rtl_Mul.thy ===== *)
theory Rtl_Mul
  imports Ext_M
begin

text \<open>
  The integer multiplier of the RTL core (\<^verbatim>\<open>arith/int_mul.cpp\<close>): a radix-4 adder tree cut into three pipeline stages. The
  sums of a level are kept at the width the source gives them: 66, 69, 74, 83, 100 and 128 bits. The registers kept for the
  trace only (\<^verbatim>\<open>reference_mul\<close>, \<^verbatim>\<open>a1_dbg\<close>, \<^verbatim>\<open>a2_dbg\<close>) are left out.
\<close>

section \<open>The unit\<close>

record int_mul =
  ml_busy :: bool
  ml_ena :: "4 word"
  ml_a1 :: u64
  ml_a2 :: u64
  ml_unsign :: bool
  ml_high :: bool
  ml_rv32 :: bool
  ml_zero :: bool
  ml_inv :: bool
  ml_result :: u128
  ml_lvl1 :: "69 word list"
  ml_lvl3 :: "83 word list"

record int_mul_in =
  mi_nrst :: bool
  mi_ena :: bool
  mi_unsigned :: bool
  mi_hsu :: bool
  mi_high :: bool
  mi_rv32 :: bool
  mi_a1 :: u64
  mi_a2 :: u64

definition IntMul_r_reset :: int_mul where
  "IntMul_r_reset =
    \<lparr>ml_busy = False, ml_ena = 0, ml_a1 = 0, ml_a2 = 0, ml_unsign = False, ml_high = False, ml_rv32 = False,
     ml_zero = False, ml_inv = False, ml_result = 0, ml_lvl1 = replicate 16 0, ml_lvl3 = replicate 4 0\<rparr>"

text \<open>One digit of the second factor selects 0, 1, 2 or 3 times the first one.\<close>

definition wb_lvl0 :: "u64 \<Rightarrow> u64 \<Rightarrow> nat \<Rightarrow> 66 word" where
  "wb_lvl0 a1 a2 i =
    (let wb_mux_lvl0 = take_bit 2 (drop_bit (2 * i) a2)
     in if wb_mux_lvl0 = 0 then 0
        else if wb_mux_lvl0 = 1 then ucast a1
        else if wb_mux_lvl0 = 2 then push_bit 1 (ucast a1)
        else ucast a1 + push_bit 1 (ucast a1))"

text \<open>A level adds the neighbours of the level before it, the upper one shifted.\<close>

definition lvl_join :: "nat \<Rightarrow> nat \<Rightarrow> (nat \<Rightarrow> 'a :: len word) \<Rightarrow> 'b :: len word list" where
  "lvl_join n w x = map (\<lambda>i. push_bit w (ucast (x (2 * i + 1))) + ucast (x (2 * i))) [0..<n]"

definition mul_operand32 :: "bool \<Rightarrow> u64 \<Rightarrow> u64" where
  "mul_operand32 uns a = (if \<not> uns \<and> bit a 31 then take_bit 32 a OR push_bit 32 (- 1) else take_bit 32 a)"

text \<open>The operands and the flags of a request.\<close>

definition IntMul_load :: "int_mul_in \<Rightarrow> int_mul \<Rightarrow> int_mul" where
  "IntMul_load i v =
    (let v_a1s_nzero = (take_bit 63 (mi_a1 i) \<noteq> 0);
         vb_a1s = (if v_a1s_nzero \<and> bit (mi_a1 i) 63 then NOT (mi_a1 i) + 1 else mi_a1 i);
         v_a2s_nzero = (take_bit 63 (mi_a2 i) \<noteq> 0);
         vb_a2s = (if v_a2s_nzero \<and> bit (mi_a2 i) 63 then NOT (mi_a2 i) + 1 else mi_a2 i);
         v = v\<lparr>ml_busy := True, ml_inv := False, ml_zero := False\<rparr>;
         v = (if mi_rv32 i then
                v\<lparr>ml_a1 := mul_operand32 (mi_unsigned i) (mi_a1 i), ml_a2 := mul_operand32 (mi_unsigned i) (mi_a2 i)\<rparr>
              else if mi_high i then
                if mi_hsu i then
                  v\<lparr>ml_zero := (\<not> v_a1s_nzero \<or> mi_a2 i = 0), ml_inv := bit (mi_a1 i) 63, ml_a1 := vb_a1s, ml_a2 := mi_a2 i\<rparr>
                else if mi_unsigned i then v\<lparr>ml_a1 := mi_a1 i, ml_a2 := mi_a2 i\<rparr>
                else v\<lparr>ml_zero := (\<not> v_a1s_nzero \<or> \<not> v_a2s_nzero), ml_inv := (bit (mi_a1 i) 63 \<noteq> bit (mi_a2 i) 63),
                       ml_a1 := vb_a1s, ml_a2 := vb_a2s\<rparr>
              else v\<lparr>ml_a1 := mi_a1 i, ml_a2 := mi_a2 i\<rparr>)
     in v\<lparr>ml_rv32 := mi_rv32 i, ml_unsign := mi_unsigned i, ml_high := mi_high i\<rparr>)"

text \<open>The last stage. The range \<^verbatim>\<open>wb_res32(127, 32)\<close> is assigned a 64-bit constant, so its upper 32 bits are zero.\<close>

definition wb_lvl5 :: "83 word list \<Rightarrow> u128" where
  "wb_lvl5 lvl3 =
    (let wb_lvl4 = (lvl_join 2 16 (\<lambda>i. lvl3 ! i) :: 100 word list)
     in push_bit 32 (ucast (wb_lvl4 ! 1)) + ucast (wb_lvl4 ! 0))"

definition IntMul_result :: "int_mul \<Rightarrow> u128" where
  "IntMul_result r =
    (let lvl5 = wb_lvl5 (ml_lvl3 r)
     in if ml_rv32 r then
          if ml_unsign r \<or> \<not> bit lvl5 31 then take_bit 32 lvl5 else take_bit 32 lvl5 OR push_bit 32 (ucast (- 1 :: u64))
        else if ml_high r then if ml_zero r then 0 else if ml_inv r then NOT lvl5 else lvl5
        else lvl5)"

definition IntMul_comb :: "int_mul_in \<Rightarrow> int_mul \<Rightarrow> int_mul" where
  "IntMul_comb i r =
    (let v_ena = (mi_ena i \<and> \<not> ml_busy r);
         v = r\<lparr>ml_ena := push_bit 1 (ml_ena r) OR (if v_ena then 1 else 0)\<rparr>;
         v = (if mi_ena i then IntMul_load i v else v);
         v = (if bit (ml_ena r) 0 then v\<lparr>ml_lvl1 := lvl_join 16 2 (wb_lvl0 (ml_a1 r) (ml_a2 r))\<rparr> else v);
         v = (if bit (ml_ena r) 1 then
                v\<lparr>ml_lvl3 := (let wb_lvl2 = (lvl_join 8 4 (\<lambda>k. ml_lvl1 r ! k) :: 74 word list)
                              in lvl_join 4 8 (\<lambda>k. wb_lvl2 ! k))\<rparr>
              else v)
     in if bit (ml_ena r) 2 then v\<lparr>ml_busy := False, ml_result := IntMul_result r\<rparr> else v)"

definition IntMul_clock :: "int_mul_in \<Rightarrow> int_mul \<Rightarrow> int_mul" where
  "IntMul_clock i r = (if mi_nrst i then IntMul_comb i r else IntMul_r_reset)"

definition IntMul_o_res :: "int_mul \<Rightarrow> u64" where
  "IntMul_o_res r = ucast (if ml_high r then drop_bit 64 (ml_result r) else ml_result r)"

definition IntMul_o_valid :: "int_mul \<Rightarrow> bool" where
  "IntMul_o_valid r = bit (ml_ena r) 3"

section \<open>The adder tree\<close>

text \<open>\<open>part w n m x\<close>: element \<open>i\<close> of a level is \<open>n\<close> times the digit \<open>i\<close> of \<open>m\<close> to the base \<open>2 ^ w\<close>.\<close>

definition part :: "nat \<Rightarrow> nat \<Rightarrow> nat \<Rightarrow> nat \<Rightarrow> nat" where
  "part w n m i = n * (m div 2 ^ (w * i) mod 2 ^ w)"

lemma part_join: "part (2 * w) n m i = 2 ^ w * part w n m (2 * i + 1) + part w n m (2 * i)"
proof -
  let ?q = "m div 2 ^ (2 * w * i)"
  have "m div 2 ^ (w * (2 * i + 1)) = ?q div 2 ^ w"
    by (simp add: div_mult2_eq [symmetric] power_add [symmetric] algebra_simps)
  moreover have "m div 2 ^ (w * (2 * i)) = ?q" by (simp add: algebra_simps)
  moreover have "?q mod 2 ^ (2 * w) = 2 ^ w * (?q div 2 ^ w mod 2 ^ w) + ?q mod 2 ^ w"
    by (simp add: mod_mult2_eq [symmetric] power_add [symmetric] mult_2)
  ultimately show ?thesis by (simp add: part_def algebra_simps)
qed

lemma part_less: "n < 2 ^ 64 \<Longrightarrow> part w n m i < 2 ^ (64 + w)"
  unfolding part_def power_add by (intro mult_strict_mono) simp_all

lemma unat_ucast_le:
  fixes x :: "'a :: len word"
  assumes "unat x < 2 ^ LENGTH('b)"
  shows "unat (ucast x :: 'b :: len word) = unat x"
  using assms by (simp only: unsigned_ucast_eq take_bit_nat_eq_self)

lemma lvl_join_part:
  fixes x :: "nat \<Rightarrow> 'a :: len word"
  assumes "\<And>k. k < 2 * l \<Longrightarrow> unat (x k) = part w n m k" and "n < 2 ^ 64" and "64 + 2 * w \<le> LENGTH('b)" and "i < l"
  shows "unat ((lvl_join l w x :: 'b :: len word list) ! i) = part (2 * w) n m i"
proof -
  have b: "part (2 * w) n m i < 2 ^ LENGTH('b)"
    using part_less [OF assms(2), of "2 * w" m i] power_increasing [OF assms(3), of "2 :: nat"] by (simp only: less_le_trans)
  have u: "part w n m (2 * i + 1) = unat (x (2 * i + 1))" "part w n m (2 * i) = unat (x (2 * i))"
    using assms(1,4) by simp_all
  have "(lvl_join l w x :: 'b word list) ! i = of_nat (part (2 * w) n m i)"
    using assms(4) unfolding part_join u by (simp add: lvl_join_def push_bit_eq_mult mult.commute)
  then show ?thesis using b by (simp only: unat_of_nat mod_less)
qed

lemma unat_wb_lvl0: "unat (wb_lvl0 a b i) = part 2 (unat a) (unat b) i"
proof -
  let ?q = "take_bit 2 (drop_bit (2 * i) b)"
  have q: "unat ?q = unat b div 2 ^ (2 * i) mod 4"
    by (simp only: unsigned_take_bit_eq unat_drop_bit_eq) (simp add: take_bit_eq_mod drop_bit_eq_div)
  have a: "unat a < 2 ^ 64" using unsigned_less [where 'a = nat, of a] by simp
  have e: "?q = 0 \<longleftrightarrow> unat ?q = 0" "?q = 1 \<longleftrightarrow> unat ?q = 1" "?q = 2 \<longleftrightarrow> unat ?q = 2"
    by (simp_all add: word_unat_eq_iff)
  have "unat ?q < 4" unfolding q by simp
  then consider "unat ?q = 0" | "unat ?q = 1" | "unat ?q = 2" | "unat ?q = 3" by linarith
  then have "wb_lvl0 a b i = of_nat (unat a * unat ?q)"
    unfolding wb_lvl0_def Let_def e by cases (simp_all add: push_bit_eq_mult)
  moreover have "unat a * unat ?q < 2 ^ 66" using part_less [OF a, of 2 "unat b" i] by (simp add: part_def q)
  ultimately show ?thesis by (simp only: unat_of_nat mod_less part_def q) simp
qed

lemma unat_wb_lvl5:
  fixes a b :: u64
  assumes "\<And>k. k < 4 \<Longrightarrow> unat (l3 ! k) = part 16 (unat a) (unat b) k"
  shows "wb_lvl5 l3 = ucast a * ucast b"
proof -
  have a: "unat a < 2 ^ 64" "unat b < 2 ^ 64"
    using unsigned_less [where 'a = nat, of a] unsigned_less [where 'a = nat, of b] by simp_all
  have l4: "unat ((lvl_join 2 16 ((!) l3) :: 100 word list) ! k) = part 32 (unat a) (unat b) k" if "k < 2" for k
    using lvl_join_part [of 2 "(!) l3" 16 "unat a" "unat b" k, where 'b = 100] assms a that by simp
  have "unat ((lvl_join 1 32 (\<lambda>k. (lvl_join 2 16 ((!) l3) :: 100 word list) ! k) :: u128 list) ! 0) = part 64 (unat a) (unat b) 0"
    using lvl_join_part [of 1 "\<lambda>k. (lvl_join 2 16 ((!) l3) :: 100 word list) ! k" 32 "unat a" "unat b" 0, where 'b = 128] l4 a by simp
  then have "unat (wb_lvl5 l3) = unat a * unat b"
    using a by (simp add: wb_lvl5_def lvl_join_def part_def Let_def)
  then have "wb_lvl5 l3 = of_nat (unat a * unat b)" by (metis of_nat_unat ucast_id)
  then show ?thesis by simp
qed

section \<open>A whole multiplication\<close>

text \<open>Whatever the inputs, the unit is busy exactly while one of the first three enable bits is set.\<close>

definition mul_inv :: "int_mul \<Rightarrow> bool" where
  "mul_inv r \<longleftrightarrow> (if ml_busy r then ml_ena r \<in> {1, 2, 4} else ml_ena r \<in> {0, 8})"

lemma IntMul_load_simps [simp]:
  "ml_busy (IntMul_load i v)" "ml_ena (IntMul_load i v) = ml_ena v" "ml_lvl1 (IntMul_load i v) = ml_lvl1 v"
  "ml_lvl3 (IntMul_load i v) = ml_lvl3 v" "ml_rv32 (IntMul_load i v) = mi_rv32 i" "ml_high (IntMul_load i v) = mi_high i"
  "ml_unsign (IntMul_load i v) = mi_unsigned i"
  by (simp_all add: IntMul_load_def Let_def)

lemma mul_inv_step: "mul_inv r \<Longrightarrow> mul_inv (IntMul_clock i r)"
  by (cases "ml_busy r")
    (auto simp: mul_inv_def IntMul_clock_def IntMul_comb_def IntMul_r_reset_def Let_def)

lemma mul_inv_run: "mul_inv (fold IntMul_clock h IntMul_r_reset)"
proof -
  have "mul_inv r \<Longrightarrow> mul_inv (fold IntMul_clock h r)" for r
    by (induction h arbitrary: r) (simp_all add: mul_inv_step)
  moreover have "mul_inv IntMul_r_reset" by (simp add: mul_inv_def IntMul_r_reset_def)
  ultimately show ?thesis .
qed

definition mul_quiet :: "int_mul_in \<Rightarrow> bool" where
  "mul_quiet i \<longleftrightarrow> mi_nrst i \<and> \<not> mi_ena i"

lemma IntMul_run:
  assumes "mul_inv r" and "\<not> ml_busy r" and "mi_nrst i" and "mi_ena i" and "list_all mul_quiet is" and "length is = 3"
    and "v = IntMul_load i (r\<lparr>ml_ena := 1\<rparr>)" and "rr = fold IntMul_clock is (IntMul_clock i r)"
  obtains q where "wb_lvl5 (ml_lvl3 q) = ucast (ml_a1 v) * ucast (ml_a2 v)"
    and "rr = q\<lparr>ml_ena := 8, ml_busy := False, ml_result := IntMul_result q\<rparr>"
    and "ml_rv32 q = ml_rv32 v" "ml_high q = ml_high v" "ml_unsign q = ml_unsign v" "ml_zero q = ml_zero v" "ml_inv q = ml_inv v"
proof -
  obtain x y z where l: "is = [x, y, z]" using assms(6) by (auto simp: length_Suc_conv numeral_3_eq_3)
  have n: "mi_nrst x" "mi_nrst y" "mi_nrst z" "\<not> mi_ena x" "\<not> mi_ena y" "\<not> mi_ena z"
    using assms(5) by (simp_all add: l mul_quiet_def)
  have "ml_ena r \<in> {0, 8}" using assms(1,2) by (simp add: mul_inv_def)
  then have "push_bit 1 (ml_ena r) OR 1 = 1" "\<not> bit (ml_ena r) 0" "\<not> bit (ml_ena r) 1" "\<not> bit (ml_ena r) 2" by auto
  then have s0: "IntMul_clock i r = v"
    using assms(2-4) unfolding assms(7) IntMul_clock_def IntMul_comb_def Let_def by (simp del: One_nat_def)
  have v: "ml_ena v = 1" by (simp add: assms(7))
  define l1 where "l1 = (lvl_join 16 2 (wb_lvl0 (ml_a1 v) (ml_a2 v)) :: 69 word list)"
  define l2 where "l2 = (lvl_join 8 4 (\<lambda>k. l1 ! k) :: 74 word list)"
  define l3 where "l3 = (lvl_join 4 8 (\<lambda>k. l2 ! k) :: 83 word list)"
  have s1: "IntMul_clock x v = v\<lparr>ml_ena := 2, ml_lvl1 := l1\<rparr>"
    using n v by (simp add: IntMul_clock_def IntMul_comb_def Let_def l1_def)
  let ?q = "v\<lparr>ml_ena := 4, ml_lvl1 := l1, ml_lvl3 := l3\<rparr>"
  have s2: "IntMul_clock y (v\<lparr>ml_ena := 2, ml_lvl1 := l1\<rparr>) = ?q"
    using n by (simp add: IntMul_clock_def IntMul_comb_def Let_def l2_def l3_def)
  have s3: "IntMul_clock z ?q = ?q\<lparr>ml_ena := 8, ml_busy := False, ml_result := IntMul_result ?q\<rparr>"
    using n by (simp add: IntMul_clock_def IntMul_comb_def Let_def)
  have a: "unat (ml_a1 v) < 2 ^ 64" using unsigned_less [where 'a = nat, of "ml_a1 v"] by simp
  have p1: "unat (l1 ! k) = part 4 (unat (ml_a1 v)) (unat (ml_a2 v)) k" if "k < 16" for k
    unfolding l1_def using lvl_join_part [OF unat_wb_lvl0 a, where 'b = 69] that by simp
  have p2: "unat (l2 ! k) = part 8 (unat (ml_a1 v)) (unat (ml_a2 v)) k" if "k < 8" for k
    unfolding l2_def using lvl_join_part [OF p1 a, where 'b = 74 and l = 8] that by simp
  have p3: "unat (l3 ! k) = part 16 (unat (ml_a1 v)) (unat (ml_a2 v)) k" if "k < 4" for k
    unfolding l3_def using lvl_join_part [OF p2 a, where 'b = 83 and l = 4] that by simp
  show ?thesis
  proof (rule that [of ?q])
    show "wb_lvl5 (ml_lvl3 ?q) = ucast (ml_a1 v) * ucast (ml_a2 v)" using unat_wb_lvl5 [OF p3] by simp
    show "rr = ?q\<lparr>ml_ena := 8, ml_busy := False, ml_result := IntMul_result ?q\<rparr>"
      unfolding assms(8) l by (simp only: fold.simps comp_apply id_apply s0 s1 s2 s3)
  qed simp_all
qed

section \<open>Agreement with the functional model\<close>

lemma ucast_down_mult:
  "LENGTH('b) \<le> LENGTH('a) \<Longrightarrow> (ucast (x * y :: 'a :: len word) :: 'b :: len word) = ucast x * ucast y"
proof transfer
  fix x y :: int
  assume "LENGTH('b) \<le> LENGTH('a)"
  then have t: "take_bit LENGTH('b) (take_bit LENGTH('a) z) = take_bit LENGTH('b) z" for z :: int
    by (simp add: min_absorb1)
  show "take_bit LENGTH('b) (take_bit LENGTH('a) (x * y)) = take_bit LENGTH('b) (take_bit LENGTH('a) x * take_bit LENGTH('a) y)"
    unfolding t using take_bit_mult [of "LENGTH('b)" "take_bit LENGTH('a) x" "take_bit LENGTH('a) y"]
    by (simp only: t take_bit_mult)
qed

lemma ucast_up_down:
  "LENGTH('a) \<le> LENGTH('b) \<Longrightarrow> LENGTH('c) \<le> LENGTH('b) \<Longrightarrow> (ucast (ucast x :: 'b :: len word) :: 'c :: len word) = ucast (x :: 'a :: len word)"
  by (rule bit_word_eqI) (auto simp: bit_simps dest: bit_imp_le_length)

lemma product_low: "ucast (ucast a * ucast b :: u128) = (a * b :: u64)"
  by (simp add: ucast_down_mult ucast_up_down)

lemma product_high: "ucast (drop_bit 64 (ucast a * ucast b :: u128)) = snd (mul_tree a b)"
proof -
  have "uint (ucast (drop_bit 64 (word128 p)) :: u64) = uint (snd p)" for p
  proof -
    have "uint (drop_bit 64 (word128 p)) = uint (snd p)"
      using uint_lt2p [of "fst p"] by (simp only: unsigned_drop_bit_eq bintr_uint [OF order_refl]) (simp only: uint_word128 drop_bit_eq_div, simp)
    then show ?thesis using uint_lt2p [of "snd p"] by (simp only: unsigned_ucast_eq) (simp add: take_bit_int_eq_self)
  qed
  then show ?thesis unfolding word128_mul_tree [symmetric] by (simp add: word_uint_eq_iff)
qed

lemma product_high_not: "ucast (drop_bit 64 (NOT x :: u128)) = (NOT (ucast (drop_bit 64 x)) :: u64)"
  by (rule bit_word_eqI) (simp add: bit_ucast_iff bit_drop_bit_eq bit_not_iff)

lemma product_32:
  assumes "p = (ucast (mul_operand32 u a) * ucast (mul_operand32 u b) :: u128)"
  shows "(ucast p :: u32) = ucast a * ucast b"
proof -
  have "(ucast (mul_operand32 u x) :: u32) = ucast x" for x
    by (rule bit_word_eqI) (auto simp: mul_operand32_def bit_simps)
  moreover have "(ucast p :: u32) = ucast (mul_operand32 u a) * ucast (mul_operand32 u b)"
    unfolding assms by (simp add: ucast_down_mult ucast_up_down)
  ultimately show ?thesis by simp
qed

lemma word_result:
  fixes p :: u128
  shows "ucast (take_bit 32 p) = (ucast (ucast p :: u32) :: u64)"
    and "bit p 31 \<Longrightarrow> ucast (take_bit 32 p OR push_bit 32 (ucast (- 1 :: u64))) = (scast (ucast p :: u32) :: u64)"
    and "\<not> bit p 31 \<Longrightarrow> (ucast (ucast p :: u32) :: u64) = scast (ucast p :: u32)"
proof -
  have n: "n = 31" if "31 \<le> n" "\<not> 32 \<le> n" for n :: nat using that by simp
  show "ucast (take_bit 32 p) = (ucast (ucast p :: u32) :: u64)" by (rule bit_word_eqI) (auto simp: bit_simps)
  show "bit p 31 \<Longrightarrow> ucast (take_bit 32 p OR push_bit 32 (ucast (- 1 :: u64))) = (scast (ucast p :: u32) :: u64)"
    by (rule bit_word_eqI) (auto simp: bit_simps min_def dest: n split: if_splits)
  show "\<not> bit p 31 \<Longrightarrow> (ucast (ucast p :: u32) :: u64) = scast (ucast p :: u32)"
    by (rule bit_word_eqI) (auto simp: bit_simps min_def dest: n split: if_splits)
qed

lemma magnitude_load: "(if take_bit 63 a \<noteq> 0 \<and> bit a 63 then NOT a + 1 else a) = magnitude a"
  by (auto simp: magnitude_def neg_not_min_iff take63_zero)

lemma magnitude_zero: "magnitude a = 0 \<longleftrightarrow> a = 0"
  by (auto simp: magnitude_def simp flip: minus_eq_not_plus_1)

lemma IntMul_load_high:
  assumes "mi_high i" and "\<not> mi_rv32 i"
  shows "mi_hsu i \<Longrightarrow> ml_a1 (IntMul_load i v) = magnitude (mi_a1 i) \<and> ml_a2 (IntMul_load i v) = mi_a2 i \<and>
      ml_zero (IntMul_load i v) = (take_bit 63 (mi_a1 i) = 0 \<or> mi_a2 i = 0) \<and> ml_inv (IntMul_load i v) = bit (mi_a1 i) 63"
    and "\<not> mi_hsu i \<Longrightarrow> \<not> mi_unsigned i \<Longrightarrow>
      ml_a1 (IntMul_load i v) = magnitude (mi_a1 i) \<and> ml_a2 (IntMul_load i v) = magnitude (mi_a2 i) \<and>
      ml_zero (IntMul_load i v) = (take_bit 63 (mi_a1 i) = 0 \<or> take_bit 63 (mi_a2 i) = 0) \<and>
      ml_inv (IntMul_load i v) = (bit (mi_a1 i) 63 \<noteq> bit (mi_a2 i) 63)"
  using assms unfolding magnitude_load [symmetric] by (simp_all add: IntMul_load_def Let_def) blast+

text \<open>C27. Whatever was computed before, a request to an idle RTL multiplier raises \<^verbatim>\<open>o_valid\<close> four clocks later with the
  result that the functional model's \<^verbatim>\<open>MUL\<close>, \<^verbatim>\<open>MULW\<close>, \<^verbatim>\<open>MULHU\<close>, \<^verbatim>\<open>MULHSU\<close> or \<^verbatim>\<open>MULH\<close> writes, except that a high half with
  the smallest number as a signed operand is zero.\<close>

theorem rtl_mul:
  assumes "r = fold IntMul_clock h IntMul_r_reset" and "\<not> ml_busy r" and "mi_nrst i" and "mi_ena i"
    and "list_all mul_quiet is" and "length is = 3" and "\<not> (mi_rv32 i \<and> mi_high i)"
    and "rr = fold IntMul_clock is (IntMul_clock i r)" and "a = mi_a1 i" and "b = mi_a2 i"
  shows "IntMul_o_valid rr \<and> \<not> ml_busy rr \<and> IntMul_o_res rr =
    (if mi_rv32 i then
       if mi_unsigned i then ucast ((ucast a :: u32) * ucast b) else scast ((ucast a :: u32) * ucast b)
     else if mi_high i then
       if mi_hsu i then if a = 0x8000000000000000 then 0 else mulhsu a b
       else if mi_unsigned i then snd (mul_tree a b)
       else if a = 0x8000000000000000 \<or> b = 0x8000000000000000 then 0 else mulh a b
     else a * b)"
proof -
  define v where "v = IntMul_load i (r\<lparr>ml_ena := 1\<rparr>)"
  obtain q where q: "wb_lvl5 (ml_lvl3 q) = ucast (ml_a1 v) * ucast (ml_a2 v)"
    "rr = q\<lparr>ml_ena := 8, ml_busy := False, ml_result := IntMul_result q\<rparr>"
    "ml_rv32 q = mi_rv32 i" "ml_high q = mi_high i" "ml_unsign q = mi_unsigned i" "ml_zero q = ml_zero v" "ml_inv q = ml_inv v"
    using IntMul_run [OF mul_inv_run assms(2)[unfolded assms(1)] assms(3-6) refl refl, folded assms(1), folded v_def assms(8)]
    by (metis IntMul_load_simps(5-7) v_def)
  have "IntMul_o_valid rr \<and> \<not> ml_busy rr" by (simp add: q(2) IntMul_o_valid_def)
  moreover have "IntMul_o_res rr = ucast (if mi_high i then drop_bit 64 (IntMul_result q) else IntMul_result q)"
    by (simp add: q IntMul_o_res_def)
  moreover have "ucast (IntMul_result q) =
      (if mi_unsigned i then ucast ((ucast a :: u32) * ucast b) else scast ((ucast a :: u32) * ucast b) :: u64)" if "mi_rv32 i"
  proof -
    have "(ucast (wb_lvl5 (ml_lvl3 q)) :: u32) = ucast a * ucast b"
      using q(1) that assms(9,10) by (intro product_32 [of _ "mi_unsigned i"]) (simp add: v_def IntMul_load_def Let_def)
    then show ?thesis
      using that word_result [of "wb_lvl5 (ml_lvl3 q)"] by (simp add: IntMul_result_def Let_def q)
  qed
  moreover have "ucast (IntMul_result q) = a * b" if "\<not> mi_rv32 i" "\<not> mi_high i"
    using that assms(9,10) by (simp add: IntMul_result_def Let_def q product_low) (simp add: v_def IntMul_load_def Let_def)
  moreover have "ucast (drop_bit 64 (IntMul_result q)) = snd (mul_tree a b)" if "mi_high i" "mi_unsigned i" "\<not> mi_hsu i"
    using that assms(7,9,10)
    by (simp add: IntMul_result_def Let_def q product_high product_high_not) (simp add: v_def IntMul_load_def Let_def)
  moreover have "ucast (drop_bit 64 (IntMul_result q)) = (if a = 0x8000000000000000 then 0 else mulhsu a b)" if "mi_high i" "mi_hsu i"
    using that assms(7) IntMul_load_high(1) [of i "r\<lparr>ml_ena := 1\<rparr>", folded v_def] unfolding assms(9,10)
    by (auto simp: IntMul_result_def Let_def q product_high product_high_not mulhsu_def take63_zero neg_not_min_iff magnitude_zero)
  moreover have "ucast (drop_bit 64 (IntMul_result q)) = (if a = 0x8000000000000000 \<or> b = 0x8000000000000000 then 0 else mulh a b)"
    if "mi_high i" "\<not> mi_hsu i" "\<not> mi_unsigned i"
    using that assms(7) IntMul_load_high(2) [of i "r\<lparr>ml_ena := 1\<rparr>", folded v_def] unfolding assms(9,10)
    by (auto simp: IntMul_result_def Let_def q product_high product_high_not mulh_def take63_zero neg_not_min_iff magnitude_zero)
  ultimately show ?thesis using assms(7) by (cases "mi_high i"; cases "mi_rv32 i") simp_all
qed

text \<open>Two multiplications after a reset: the first leaves the unit idle, the second is the upper half of -3 times 2 to the 62.\<close>

definition mul_request :: "bool \<Rightarrow> u64 \<Rightarrow> u64 \<Rightarrow> int_mul_in" where
  "mul_request high a b =
    \<lparr>mi_nrst = True, mi_ena = True, mi_unsigned = False, mi_hsu = False, mi_high = high, mi_rv32 = False, mi_a1 = a, mi_a2 = b\<rparr>"

theorem rtl_mul_witness:
  "let q = (mul_request True 0 0)\<lparr>mi_ena := False\<rparr>;
       r = fold IntMul_clock (mul_request False 5 7 # replicate 3 q) IntMul_r_reset;
       rr = fold IntMul_clock (replicate 3 q) (IntMul_clock (mul_request True (- 3) (2 ^ 62)) r)
   in \<not> ml_busy r \<and> IntMul_o_res r = 35 \<and> IntMul_o_valid rr \<and> IntMul_o_res rr = mulh (- 3) (2 ^ 62)"
proof -
  define q where "q = (mul_request True 0 0)\<lparr>mi_ena := False\<rparr>"
  define r where "r = fold IntMul_clock (mul_request False 5 7 # replicate 3 q) IntMul_r_reset"
  have q: "list_all mul_quiet (replicate 3 q)" by (simp add: q_def mul_request_def mul_quiet_def list_all_length)
  have m: "mi_nrst (mul_request x a b)" "mi_ena (mul_request x a b)" "mi_high (mul_request x a b) = x" "\<not> mi_rv32 (mul_request x a b)"
    "mi_a1 (mul_request x a b) = a" "mi_a2 (mul_request x a b) = b" "\<not> mi_unsigned (mul_request x a b)" "\<not> mi_hsu (mul_request x a b)"
    for x a b by (simp_all add: mul_request_def)
  have r: "IntMul_o_valid r \<and> \<not> ml_busy r \<and> IntMul_o_res r = 35"
    using rtl_mul [of IntMul_r_reset "[]" "mul_request False 5 7" "replicate 3 q", OF _ _ _ _ q _ _ refl refl refl]
    by (simp add: m r_def) (simp add: IntMul_r_reset_def)
  moreover have "IntMul_o_valid (fold IntMul_clock (replicate 3 q) (IntMul_clock (mul_request True (- 3) (2 ^ 62)) r)) \<and>
      IntMul_o_res (fold IntMul_clock (replicate 3 q) (IntMul_clock (mul_request True (- 3) (2 ^ 62)) r)) = mulh (- 3) (2 ^ 62)"
    using rtl_mul [OF r_def _ _ _ q _ _ refl refl refl, of "mul_request True (- 3) (2 ^ 62)"] r by (simp add: m)
  ultimately show ?thesis unfolding Let_def q_def [symmetric] r_def [symmetric] by simp
qed

end
