(* ===== verification/Rtl_Div.thy ===== *)
theory Rtl_Div
  imports Ext_M
begin

text \<open>
  The integer divider of the RTL core: one combinational stage of a radix-16 division (\<^verbatim>\<open>arith/divstage64.cpp\<close>) and the
  sequential divider \<^verbatim>\<open>IntDiv\<close> (\<^verbatim>\<open>arith/int_div.cpp\<close>) that runs two stages per clock. A SystemC module is modelled by
  the record of its registers and a function for one clock edge; a signal of \<open>n\<close> bits is an \<open>n\<close>-bit word. The registers
  kept for the trace only (\<^verbatim>\<open>reference_div\<close>, \<^verbatim>\<open>a1_dbg\<close>, \<^verbatim>\<open>a2_dbg\<close>) are left out.
\<close>

section \<open>One stage\<close>

text \<open>\<open>with_top b x\<close> is \<open>x\<close> with bit 64 replaced by \<open>b\<close>, \<open>lo64 x\<close> is \<^verbatim>\<open>(0, x(63,0))\<close>.\<close>

definition with_top :: "bool \<Rightarrow> 65 word \<Rightarrow> 65 word" where
  "with_top b x = take_bit 64 x + (if b then 2 ^ 64 else 0)"

definition lo64 :: "65 word \<Rightarrow> 65 word" where
  "lo64 x = take_bit 64 x"

text \<open>The multiples 1 to 15 of the divisor on 65 bits. Bit 64 says that the multiple does not fit 64 bits.\<close>

definition divx :: "124 word \<Rightarrow> nat \<Rightarrow> 65 word" where
  "divx divisor =
    (let any = (\<lambda>i. drop_bit i divisor \<noteq> 0);
         divx1 = with_top (any 64) (ucast divisor);
         divx2 = with_top (any 63) (ucast (push_bit 1 divisor));
         sum3 = lo64 divx2 + lo64 divx1; divx3 = with_top (bit sum3 64 \<or> bit divx2 64) sum3;
         divx4 = with_top (any 62) (ucast (push_bit 2 divisor));
         sum5 = lo64 divx4 + lo64 divx1; divx5 = with_top (bit sum5 64 \<or> bit divx4 64) sum5;
         divx6 = with_top (bit divx3 64 \<or> bit divx3 63) (push_bit 1 divx3);
         divx8 = with_top (any 61) (ucast (push_bit 3 divisor));
         dif7 = divx8 - lo64 divx1; divx7 = with_top (bit dif7 64 \<or> any 62) dif7;
         sum9 = lo64 divx8 + lo64 divx1; divx9 = with_top (bit sum9 64 \<or> any 61) sum9;
         sum10 = lo64 divx8 + lo64 divx2; divx10 = with_top (bit sum10 64 \<or> any 61) sum10;
         sum11 = lo64 divx8 + lo64 divx3; divx11 = with_top (bit sum11 64 \<or> any 61) sum11;
         divx12 = with_top (bit divx3 64 \<or> bit divx3 63 \<or> bit divx3 62) (push_bit 2 divx3);
         divx16 = with_top (any 60) (ucast (push_bit 4 divisor));
         dif13 = divx16 - lo64 divx3; divx13 = with_top (bit dif13 64 \<or> any 61) dif13;
         divx14 = with_top (bit divx7 64 \<or> bit divx7 63) (push_bit 1 divx7);
         dif15 = divx16 - lo64 divx1; divx15 = with_top (bit dif15 64 \<or> any 61) dif15
     in (\<lambda>k. [0, divx1, divx2, divx3, divx4, divx5, divx6, divx7, divx8, divx9, divx10, divx11, divx12, divx13, divx14,
              divx15] ! k))"

text \<open>The differences on 66 bits, their sign in bit 65, and the selection of the largest multiple that can be subtracted.\<close>

definition wb_thresh :: "u64 \<Rightarrow> 124 word \<Rightarrow> nat \<Rightarrow> 66 word" where
  "wb_thresh divident divisor k = ucast divident - ucast (divx divisor k)"

definition divstage64 :: "u64 \<Rightarrow> 124 word \<Rightarrow> u64 \<times> 4 word" where
  "divstage64 divident divisor =
    (case find (\<lambda>k. \<not> bit (wb_thresh divident divisor k) 65) (rev [1..<16]) of
       Some k \<Rightarrow> (ucast (wb_thresh divident divisor k), of_nat k)
     | None \<Rightarrow> (divident, 0))"

section \<open>The multiples\<close>

text \<open>\<open>sat m d x\<close>: \<open>x\<close> is the number \<open>m\<close>, or beyond 64 bits when \<open>m\<close> is.\<close>

definition sat :: "nat \<Rightarrow> 65 word \<Rightarrow> bool" where
  "sat m x \<longleftrightarrow> (if m < 2 ^ 64 then unat x = m else 2 ^ 64 \<le> unat x)"

lemma unat_lt65: "unat (x :: 65 word) < 2 * 2 ^ 64"
  using unsigned_less [where 'a = nat, of x] by simp

lemma unat_lt124: "unat (x :: 124 word) < 2 ^ 124"
  using unsigned_less [where 'a = nat, of x] by simp

lemma unat_take64: "unat (take_bit 64 x) = unat (x :: 65 word) mod 2 ^ 64"
  by (simp only: unsigned_take_bit_eq) (simp only: take_bit_eq_mod)

lemma unat_lo64: "unat (lo64 x) = unat x mod 2 ^ 64"
  by (simp only: lo64_def unat_take64)

lemma unat_with_top: "unat (with_top b x) = unat x mod 2 ^ 64 + (if b then 2 ^ 64 else 0)"
proof -
  have m: "unat x mod 2 ^ 64 < 2 ^ 64" by simp
  have p: "unat (2 ^ 64 :: 65 word) = 2 ^ 64" by simp
  have "(unat x mod 2 ^ 64 + 2 ^ 64) mod 2 ^ LENGTH(65) = unat x mod 2 ^ 64 + 2 ^ 64"
    using m by (intro mod_less) simp
  then show ?thesis
    unfolding with_top_def by (simp only: if_split unat_word_ariths(1) unat_take64 p split: if_split) (simp add: unat_take64)
qed

lemma bit64_iff: "bit (x :: 65 word) 64 \<longleftrightarrow> 2 ^ 64 \<le> unat x"
proof -
  have "bit x 64 \<longleftrightarrow> bit (unat x) 64" by (simp add: bit_unsigned_iff)
  also have "\<dots> \<longleftrightarrow> odd (unat x div 2 ^ 64)" by (simp only: bit_iff_odd)
  finally have "bit x 64 \<longleftrightarrow> odd (unat x div 2 ^ 64)" .
  moreover have "unat x div 2 ^ 64 < 2" using unat_lt65 [of x] by (simp add: less_mult_imp_div_less)
  ultimately show ?thesis using div_greater_zero_iff [of "unat x" "2 ^ 64"] by (cases "unat x div 2 ^ 64") auto
qed

lemma any_iff: "drop_bit i (d :: 124 word) \<noteq> 0 \<longleftrightarrow> 2 ^ i \<le> unat d"
proof -
  have "drop_bit i d = 0 \<longleftrightarrow> unat (drop_bit i d) = 0" by (simp only: unat_eq_0)
  also have "unat (drop_bit i d) = unat d div 2 ^ i" by (simp only: unat_drop_bit_eq) (simp only: drop_bit_eq_div)
  finally show ?thesis by (simp add: div_eq_0_iff not_less)
qed

lemma unat_shifted: "unat (ucast (push_bit j (d :: 124 word)) :: 65 word) mod 2 ^ 64 = (2 ^ j * unat d) mod 2 ^ 64"
proof -
  have "unat (push_bit j d) = take_bit 124 (push_bit j (unat d))"
    by (simp only: unsigned_push_bit_eq) simp
  moreover have "unat (ucast (push_bit j d) :: 65 word) = take_bit 65 (unat (push_bit j d))"
    by (simp only: unsigned_ucast_eq) simp
  ultimately have "unat (ucast (push_bit j d) :: 65 word) = ((2 ^ j * unat d) mod 2 ^ 124) mod 2 ^ 65"
    by (simp only: take_bit_eq_mod push_bit_eq_mult mult.commute)
  moreover have "(x mod 2 ^ 124) mod 2 ^ 65 mod 2 ^ 64 = x mod 2 ^ 64" for x :: nat
    by (simp only: mod_mod_cancel le_imp_power_dvd)
  ultimately show ?thesis by simp
qed

lemma sat_shift:
  fixes d :: "124 word"
  assumes "j \<le> 64"
  shows "sat (2 ^ j * unat d) (with_top (drop_bit (64 - j) d \<noteq> 0) (ucast (push_bit j d)))"
proof -
  have e: "(2::nat) ^ 64 = 2 ^ j * 2 ^ (64 - j)" using assms by (simp flip: power_add)
  then have "2 ^ (64 - j) \<le> unat d \<longleftrightarrow> 2 ^ 64 \<le> 2 ^ j * unat d" by (simp only: e) simp
  then show ?thesis unfolding sat_def unat_with_top unat_shifted any_iff by (simp add: not_less)
qed

lemma sat_add:
  assumes x: "sat m x" and y: "sat n y" and "n \<le> m" and t: "2 ^ 64 \<le> m \<Longrightarrow> t" "t \<Longrightarrow> 2 ^ 64 \<le> m + n"
  shows "sat (m + n) (with_top (bit (lo64 x + lo64 y) 64 \<or> t) (lo64 x + lo64 y))"
proof -
  have s: "unat (lo64 x + lo64 y) = unat x mod 2 ^ 64 + unat y mod 2 ^ 64"
  proof -
    have "unat x mod 2 ^ 64 < 2 ^ 64" "unat y mod 2 ^ 64 < 2 ^ 64" by simp_all
    then have "unat x mod 2 ^ 64 + unat y mod 2 ^ 64 < 2 ^ 65" by simp
    then show ?thesis by (simp add: unat_word_ariths unat_lo64)
  qed
  consider "2 ^ 64 \<le> m" | "m < 2 ^ 64" "n < 2 ^ 64" using assms(3) by linarith
  then show ?thesis
  proof cases
    case 1
    with t show ?thesis by (simp add: sat_def unat_with_top)
  next
    case 2
    with x y have "unat (lo64 x + lo64 y) = m + n" by (simp add: sat_def s)
    with t 2 show ?thesis by (cases "2 ^ 64 \<le> m + n") (auto simp: sat_def unat_with_top bit64_iff)
  qed
qed

lemma sat_sub:
  assumes "n \<le> m" and y: "sat n y" and x: "m < 2 ^ 65 \<Longrightarrow> unat x = m"
    and t: "\<not> t \<Longrightarrow> m < 2 ^ 65 \<and> n < 2 ^ 64" "t \<Longrightarrow> 2 ^ 64 \<le> m - n"
  shows "sat (m - n) (with_top (bit (x - lo64 y) 64 \<or> t) (x - lo64 y))"
proof (cases t)
  case True
  with t(2) show ?thesis by (simp add: sat_def unat_with_top)
next
  case False
  with t(1) x y have "unat x = m" "unat (lo64 y) = n" by (simp_all add: sat_def unat_lo64)
  then have "unat (x - lo64 y) = m - n" using assms(1) by (simp add: unat_sub word_le_nat_alt)
  then show ?thesis using False t(1) by (auto simp: sat_def unat_with_top bit64_iff)
qed

lemma shift_exact:
  fixes d :: "124 word"
  assumes "j \<le> 64" and "2 ^ j * unat d < 2 ^ 65"
  shows "unat (with_top (drop_bit (64 - j) d \<noteq> 0) (ucast (push_bit j d))) = 2 ^ j * unat d"
proof -
  have e: "(2::nat) ^ 64 = 2 ^ j * 2 ^ (64 - j)" using assms by (simp flip: power_add)
  have "2 ^ (64 - j) \<le> unat d \<longleftrightarrow> 2 ^ 64 \<le> 2 ^ j * unat d" by (simp only: e) simp
  moreover have "x mod 2 ^ 64 + (if 2 ^ 64 \<le> x then 2 ^ 64 else 0) = x" if "x < 2 ^ 65" for x :: nat
    using that by (auto simp: le_mod_geq)
  ultimately show ?thesis using assms(2) unfolding unat_with_top unat_shifted any_iff by simp
qed

lemma sat_double:
  assumes "sat m x"
  shows "sat (2 * m) (with_top (bit x 64 \<or> bit x 63) (push_bit 1 x))"
    and "sat (4 * m) (with_top (bit x 64 \<or> bit x 63 \<or> bit x 62) (push_bit 2 x))"
proof -
  have p: "unat (push_bit j x) mod 2 ^ 64 = (2 ^ j * unat x) mod 2 ^ 64" for j
  proof -
    have "unat (push_bit j x) = (2 ^ j * unat x) mod 2 ^ 65"
      by (simp only: unsigned_push_bit_eq) (simp add: take_bit_eq_mod push_bit_eq_mult mult.commute)
    then show ?thesis by (simp add: mod_mod_cancel)
  qed
  have b: "bit x i \<longleftrightarrow> odd (unat x div 2 ^ i)" if "i < 65" for i
    using that by (simp only: bit_iff_odd [symmetric] bit_unsigned_iff) simp
  have "sat (2 * m) (with_top (bit x 64 \<or> bit x 63) (push_bit 1 x)) \<and>
        sat (4 * m) (with_top (bit x 64 \<or> bit x 63 \<or> bit x 62) (push_bit 2 x))"
  proof (cases "m < 2 ^ 64")
    case True
    then have u: "unat x = m" and t: "\<not> bit x 64" using assms by (auto simp: sat_def bit64_iff)
    define q where "q = m div 2 ^ 62"
    have q3: "m div 2 ^ 63 = q div 2" by (simp add: q_def flip: div_mult2_eq)
    have "q < 4" using True by (simp add: q_def less_mult_imp_div_less)
    then have q: "q = 0 \<or> q = 1 \<or> q = 2 \<or> q = 3" by auto
    have "bit x 63 \<longleftrightarrow> odd (q div 2)" "bit x 62 \<longleftrightarrow> odd q"
      using b [of 63] b [of 62] unfolding u q3 by (simp_all add: q_def)
    then have "bit x 63 \<longleftrightarrow> 2 \<le> q" "bit x 63 \<or> bit x 62 \<longleftrightarrow> 1 \<le> q" using q by auto
    moreover have "2 \<le> q \<longleftrightarrow> 2 ^ 64 \<le> 2 * m" "1 \<le> q \<longleftrightarrow> 2 ^ 64 \<le> 4 * m"
      by (simp_all add: q_def less_eq_div_iff_mult_less_eq)
    ultimately show ?thesis using t p [of 1] p [of 2] by (simp add: sat_def unat_with_top u)
  next
    case False
    then show ?thesis using assms by (simp add: sat_def unat_with_top bit64_iff)
  qed
  then show "sat (2 * m) (with_top (bit x 64 \<or> bit x 63) (push_bit 1 x))"
    "sat (4 * m) (with_top (bit x 64 \<or> bit x 63 \<or> bit x 62) (push_bit 2 x))" by blast+
qed

lemma divx_sat:
  assumes "1 \<le> k" and "k \<le> 15"
  shows "sat (k * unat d) (divx d k)"
proof -
  let ?D = "unat d"
  let ?any = "\<lambda>i. drop_bit i d \<noteq> 0"
  define d1 where "d1 = with_top (?any 64) (ucast d)"
  define d2 where "d2 = with_top (?any 63) (ucast (push_bit 1 d))"
  define d3 where "d3 = with_top (bit (lo64 d2 + lo64 d1) 64 \<or> bit d2 64) (lo64 d2 + lo64 d1)"
  define d4 where "d4 = with_top (?any 62) (ucast (push_bit 2 d))"
  define d8 where "d8 = with_top (?any 61) (ucast (push_bit 3 d))"
  define d16 where "d16 = with_top (?any 60) (ucast (push_bit 4 d))"
  define d7 where "d7 = with_top (bit (d8 - lo64 d1) 64 \<or> ?any 62) (d8 - lo64 d1)"
  have s1: "sat (1 * ?D) d1" using sat_shift [of 0 d] by (simp add: d1_def)
  have s2: "sat (2 * ?D) d2" using sat_shift [of 1 d] by (simp add: d2_def)
  have s4: "sat (4 * ?D) d4" using sat_shift [of 2 d] by (simp add: d4_def)
  have s8: "sat (8 * ?D) d8" using sat_shift [of 3 d] by (simp add: d8_def)
  have s3: "sat (3 * ?D) d3"
    using sat_add [OF s2 s1, of "bit d2 64"] s2 unfolding d3_def by (simp add: bit64_iff sat_def split: if_splits)
  have s5: "sat (5 * ?D) (with_top (bit (lo64 d4 + lo64 d1) 64 \<or> bit d4 64) (lo64 d4 + lo64 d1))"
    using sat_add [OF s4 s1, of "bit d4 64"] s4 by (simp add: bit64_iff sat_def split: if_splits)
  have s9: "sat (9 * ?D) (with_top (bit (lo64 d8 + lo64 d1) 64 \<or> ?any 61) (lo64 d8 + lo64 d1))"
    using sat_add [OF s8 s1, of "?any 61"] by (simp add: any_iff)
  have s10: "sat (10 * ?D) (with_top (bit (lo64 d8 + lo64 d2) 64 \<or> ?any 61) (lo64 d8 + lo64 d2))"
    using sat_add [OF s8 s2, of "?any 61"] by (simp add: any_iff)
  have s11: "sat (11 * ?D) (with_top (bit (lo64 d8 + lo64 d3) 64 \<or> ?any 61) (lo64 d8 + lo64 d3))"
    using sat_add [OF s8 s3, of "?any 61"] by (simp add: any_iff)
  have s7: "sat (7 * ?D) d7"
    using sat_sub [of "1 * ?D" "8 * ?D" d1 d8 "?any 62"] s1 shift_exact [of 3 d] unfolding d7_def by (simp add: any_iff d8_def)
  have s13: "sat (13 * ?D) (with_top (bit (d16 - lo64 d3) 64 \<or> ?any 61) (d16 - lo64 d3))"
    using sat_sub [of "3 * ?D" "16 * ?D" d3 d16 "?any 61"] s3 shift_exact [of 4 d] by (simp add: any_iff d16_def)
  have s15: "sat (15 * ?D) (with_top (bit (d16 - lo64 d1) 64 \<or> ?any 61) (d16 - lo64 d1))"
    using sat_sub [of "1 * ?D" "16 * ?D" d1 d16 "?any 61"] s1 shift_exact [of 4 d] by (simp add: any_iff d16_def)
  note all = s1 s2 s3 s4 s5 sat_double(1) [OF s3] s7 s8 s9 s10 s11 sat_double(2) [OF s3] s13 sat_double(1) [OF s7] s15
  have "k \<in> {1, 2, 3, 4, 5, 6, 7, 8, 9, 10, 11, 12, 13, 14, 15}"
    unfolding insert_iff empty_iff using assms by presburger
  then show ?thesis
    unfolding divx_def Let_def d1_def [symmetric] d2_def [symmetric] d3_def [symmetric] d4_def [symmetric]
      d8_def [symmetric] d16_def [symmetric] d7_def [symmetric]
    by (elim insertE emptyE) (insert all, simp_all)
qed

section \<open>What a stage computes\<close>

lemma sub66:
  fixes x :: "65 word"
  shows "bit (ucast (n :: u64) - ucast x :: 66 word) 65 \<longleftrightarrow> unat n < unat x"
    and "unat x \<le> unat n \<Longrightarrow> unat (ucast (ucast n - ucast x :: 66 word) :: u64) = unat n - unat x"
proof -
  let ?n = "ucast n :: 66 word" and ?x = "ucast x :: 66 word"
  have ln: "unat n < 2 ^ 64" using unsigned_less [where 'a = nat, of n] by simp
  have lx: "unat x < 2 ^ 65" using unsigned_less [where 'a = nat, of x] by simp
  have n: "unat ?n = unat n" and x: "unat ?x = unat x" using ln lx by (simp_all add: unsigned_ucast_eq take_bit_nat_eq_self)
  have b: "bit w 65 \<longleftrightarrow> 2 ^ 65 \<le> unat w" for w :: "66 word"
  proof -
    have "bit w 65 \<longleftrightarrow> bit (unat w) 65" by (simp add: bit_unsigned_iff)
    also have "\<dots> \<longleftrightarrow> odd (unat w div 2 ^ 65)" by (simp only: bit_iff_odd)
    finally have "bit w 65 \<longleftrightarrow> odd (unat w div 2 ^ 65)" .
    moreover have "unat w div 2 ^ 65 < 2" using unsigned_less [where 'a = nat, of w] by (simp add: less_mult_imp_div_less)
    ultimately show ?thesis using div_greater_zero_iff [of "unat w" "2 ^ 65"] by (cases "unat w div 2 ^ 65") auto
  qed
  have d: "unat (?n - ?x) = (if unat x \<le> unat n then unat n - unat x else unat n + 2 ^ 66 - unat x)"
    using unat_sub_if_size [of ?n ?x] by (simp add: n x word_size)
  show "bit (?n - ?x) 65 \<longleftrightarrow> unat n < unat x" using ln lx unfolding b d by auto
  show "unat x \<le> unat n \<Longrightarrow> unat (ucast (?n - ?x) :: u64) = unat n - unat x"
    using ln by (simp add: unsigned_ucast_eq d take_bit_nat_eq_self)
qed

lemma thresh_iff:
  assumes "1 \<le> k" and "k \<le> 15"
  shows "bit (wb_thresh n d k) 65 \<longleftrightarrow> unat n < k * unat d"
    and "k * unat d \<le> unat n \<Longrightarrow> unat (ucast (wb_thresh n d k) :: u64) = unat n - k * unat d"
proof -
  have ln: "unat n < 2 ^ 64" using unsigned_less [where 'a = nat, of n] by simp
  have s: "sat (k * unat d) (divx d k)" by (rule divx_sat [OF assms])
  show b: "bit (wb_thresh n d k) 65 \<longleftrightarrow> unat n < k * unat d"
    using s ln by (auto simp: wb_thresh_def sub66 sat_def split: if_splits)
  assume "k * unat d \<le> unat n"
  moreover from this have "unat (divx d k) = k * unat d" using s ln by (simp add: sat_def)
  ultimately show "unat (ucast (wb_thresh n d k) :: u64) = unat n - k * unat d"
    by (simp add: wb_thresh_def sub66(2))
qed

text \<open>The quotient digit is the largest multiple up to 15 that does not exceed the dividend.\<close>

lemma find_down:
  "case find P (rev [1..<Suc m]) of
     None \<Rightarrow> \<forall>k. 1 \<le> k \<and> k \<le> m \<longrightarrow> \<not> P k
   | Some q \<Rightarrow> 1 \<le> q \<and> q \<le> m \<and> P q \<and> (\<forall>k. q < k \<and> k \<le> m \<longrightarrow> \<not> P k)"
proof (induction m)
  case (Suc m)
  then show ?case by (auto simp: le_Suc_eq split: option.splits)
qed simp

lemma divstage64_digit:
  obtains q where "q \<le> 15" "divstage64 n d = (of_nat (unat n - q * unat d), of_nat q)" "q * unat d \<le> unat n"
    "q < 15 \<longrightarrow> unat n < Suc q * unat d"
proof (cases "find (\<lambda>k. \<not> bit (wb_thresh n d k) 65) (rev [1..<16])")
  case None
  then have "unat n < 1 * unat d"
    using find_down [of 15 "\<lambda>k. \<not> bit (wb_thresh n d k) 65"] thresh_iff(1) [of 1 n d] by simp
  then show ?thesis using that [of 0] None by (simp add: divstage64_def)
next
  case (Some q)
  then have q: "1 \<le> q" "q \<le> 15" and nb: "\<not> bit (wb_thresh n d q) 65"
    and above: "\<And>k. q < k \<Longrightarrow> k \<le> 15 \<Longrightarrow> bit (wb_thresh n d k) 65"
    using find_down [of 15 "\<lambda>k. \<not> bit (wb_thresh n d k) 65"] by auto
  have le: "q * unat d \<le> unat n" using nb thresh_iff(1) [OF q] by (simp add: not_less)
  have "unat n < Suc q * unat d" if "q < 15"
    using above [of "Suc q"] thresh_iff(1) [of "Suc q" n d] that by simp
  moreover have "ucast (wb_thresh n d q) = (of_nat (unat n - q * unat d) :: u64)"
    unfolding thresh_iff(2) [OF q le, symmetric] by simp
  ultimately show ?thesis using that [of q] Some q le by (simp add: divstage64_def)
qed

lemma divstage64_spec:
  assumes "unat n < 16 * unat d"
  shows "divstage64 n d = (of_nat (unat n mod unat d), of_nat (unat n div unat d))" and "unat n div unat d < 16"
proof -
  show lt: "unat n div unat d < 16" using assms by (simp add: less_mult_imp_div_less mult.commute)
  obtain q where q: "q \<le> 15" "divstage64 n d = (of_nat (unat n - q * unat d), of_nat q)" "q * unat d \<le> unat n"
    "q < 15 \<longrightarrow> unat n < Suc q * unat d" by (rule divstage64_digit [of n d])
  have "unat n < Suc q * unat d" using q(1,4) assms by (cases "q = 15") auto
  then have "unat n div unat d = q" using q(3) by (intro div_nat_eqI) (simp_all add: mult.commute)
  with q(2) show "divstage64 n d = (of_nat (unat n mod unat d), of_nat (unat n div unat d))"
    by (simp add: modulo_nat_def)
qed

lemma divstage64_zero: "divstage64 n 0 = (n, 15)"
proof -
  obtain q where "q \<le> 15" "divstage64 n 0 = (n, of_nat q)" "\<not> q < 15"
    using divstage64_digit [of n 0] by (metis diff_zero mult_0_right not_less_zero of_nat_unat ucast_id unsigned_0)
  then show ?thesis by (cases "q = 15") auto
qed

section \<open>The divider\<close>

record int_div =
  dv_rv32 :: bool
  dv_resid :: bool
  dv_invert :: bool
  dv_div_on_zero :: bool
  dv_overflow :: bool
  dv_busy :: bool
  dv_ena :: "10 word"
  dv_divident :: u64
  dv_divisor :: "120 word"
  dv_bits :: u64
  dv_result :: u64

record int_div_in =
  di_nrst :: bool
  di_ena :: bool
  di_unsigned :: bool
  di_rv32 :: bool
  di_residual :: bool
  di_a1 :: u64
  di_a2 :: u64

definition IntDiv_r_reset :: int_div where
  "IntDiv_r_reset =
    \<lparr>dv_rv32 = False, dv_resid = False, dv_invert = False, dv_div_on_zero = False, dv_overflow = False, dv_busy = False,
     dv_ena = 0, dv_divident = 0, dv_divisor = 0, dv_bits = 0, dv_result = 0\<rparr>"

text \<open>The magnitude of an operand, on 32 or 64 bits.\<close>

definition div_operand :: "bool \<Rightarrow> bool \<Rightarrow> u64 \<Rightarrow> u64" where
  "div_operand rv32 uns a =
    (if rv32 then if uns \<or> \<not> bit a 31 then take_bit 32 a else take_bit 32 (NOT (take_bit 32 a) + 1)
     else if uns \<or> \<not> bit a 63 then a else NOT a + 1)"

definition div_extend :: "bool \<Rightarrow> u64 \<Rightarrow> u64" where
  "div_extend rv32 x = (if rv32 then if bit x 31 then take_bit 32 x OR push_bit 32 (- 1) else take_bit 32 x else x)"

definition IntDiv_comb :: "int_div_in \<Rightarrow> int_div \<Rightarrow> int_div" where
  "IntDiv_comb i r =
    (let vb_a1 = div_operand (di_rv32 i) (di_unsigned i) (di_a1 i);
         vb_a2 = div_operand (di_rv32 i) (di_unsigned i) (di_a2 i);
         v_a1_m0 = (bit vb_a1 63 \<and> take_bit 63 vb_a1 = 0);
         v_a2_m1 = (vb_a2 = - 1);
         v_ena = (di_ena i \<and> \<not> dv_busy r);
         v = r\<lparr>dv_ena := push_bit 1 (dv_ena r) OR (if v_ena then 1 else 0)\<rparr>;
         vb_rem = div_extend (dv_rv32 r) (if dv_invert r then NOT (dv_divident r) + 1 else dv_divident r);
         vb_div = div_extend (dv_rv32 r) (if dv_invert r then NOT (dv_bits r) + 1 else dv_bits r);
         (resid0, bits0) = divstage64 (dv_divident r) (push_bit 4 (ucast (dv_divisor r)));
         (resid1, bits1) = divstage64 resid0 (ucast (dv_divisor r))
     in if di_ena i then
          let neg1 = bit (di_a1 i) (if di_rv32 i then 31 else 63);
              neg2 = bit (di_a2 i) (if di_rv32 i then 31 else 63);
              low2 = take_bit (if di_rv32 i then if di_unsigned i then 32 else 31 else if di_unsigned i then 64 else 63) (di_a2 i)
          in v\<lparr>dv_busy := True, dv_rv32 := di_rv32 i, dv_resid := di_residual i, dv_divident := vb_a1,
               dv_divisor := push_bit 56 (ucast vb_a2),
               dv_invert := \<not> di_unsigned i \<and> (\<not> di_residual i \<and> neg1 \<noteq> neg2 \<or> di_residual i \<and> neg1),
               dv_div_on_zero := (low2 = 0),
               dv_overflow := (\<not> di_unsigned i \<and> v_a1_m0 \<and> v_a2_m1)\<rparr>
        else if bit (dv_ena r) 8 then
          v\<lparr>dv_busy := False,
            dv_result := (if dv_resid r then if dv_overflow r then 0 else vb_rem
                          else if dv_div_on_zero r then - 1
                          else if dv_overflow r then 0x8000000000000000 else vb_div)\<rparr>
        else if dv_busy r then
          v\<lparr>dv_divident := resid1, dv_divisor := drop_bit 8 (dv_divisor r),
            dv_bits := push_bit 8 (dv_bits r) OR push_bit 4 (ucast bits0) OR ucast bits1\<rparr>
        else v)"

definition IntDiv_clock :: "int_div_in \<Rightarrow> int_div \<Rightarrow> int_div" where
  "IntDiv_clock i r = (if di_nrst i then IntDiv_comb i r else IntDiv_r_reset)"

definition IntDiv_o_valid :: "int_div \<Rightarrow> bool" where
  "IntDiv_o_valid r = bit (dv_ena r) 9"

section \<open>The iterations\<close>

definition no_request :: "int_div_in \<Rightarrow> bool" where
  "no_request i \<longleftrightarrow> di_nrst i \<and> \<not> di_ena i"

definition div_idle :: "int_div \<Rightarrow> bool" where
  "div_idle r \<longleftrightarrow> \<not> dv_busy r \<and> take_bit 9 (dv_ena r) = 0"

text \<open>Long division in base 256: what the divider holds after \<open>j\<close> of the eight iterations.\<close>

definition div_state :: "nat \<Rightarrow> nat \<Rightarrow> nat \<Rightarrow> int_div \<Rightarrow> int_div" where
  "div_state N A j r =
     r\<lparr>dv_ena := 2 ^ j, dv_divident := of_nat (N mod (A * 2 ^ (64 - 8 * j))), dv_divisor := of_nat ((A * 2 ^ 56) div 2 ^ (8 * j)),
       dv_bits := of_nat (N div (A * 2 ^ (64 - 8 * j))) + dv_bits r * 2 ^ (8 * j)\<rparr>"

lemma div_digit_step:
  fixes N c D :: nat
  shows "0 < c \<Longrightarrow> N div D = c * (N div (c * D)) + N mod (c * D) div D"
proof -
  have "N = (N div (c * D)) * c * D + N mod (c * D)" by (simp only: mult.assoc div_mult_mod_eq)
  then have "N div D = ((N div (c * D)) * c * D + N mod (c * D)) div D" by simp
  then show ?thesis by (cases "D = 0") (simp_all add: mult.commute div_add1_eq)
qed

lemma concat_digits:
  assumes that: "q < 16" "q' < 16"
  shows "push_bit 8 b OR push_bit 4 (ucast (of_nat q :: 4 word)) OR ucast (of_nat q' :: 4 word) =
     (b * 256 + of_nat (16 * q + q') :: u64)"
proof -
  have u: "ucast (of_nat q :: 4 word) = (of_nat q :: u64)" if "q < 16" for q :: nat
    using that by (simp add: word_unat_eq_iff unsigned_ucast_eq unat_of_nat take_bit_nat_eq_self)
  have lt: "\<not> bit (ucast (x :: 4 word) :: u64) n" if "4 \<le> n" for x n using that by (auto simp: bit_simps dest: bit_imp_le_length)
  have e: "push_bit 4 (ucast x) OR ucast y = push_bit 4 (ucast x) + (ucast y :: u64)" for x y :: "4 word"
    by (rule disjunctive_add_eq_or [symmetric], rule bit_word_eqI) (use lt in \<open>auto simp: bit_simps\<close>)
  have "push_bit 8 b OR (push_bit 4 (ucast x) OR ucast y) = push_bit 8 b + (push_bit 4 (ucast x) OR (ucast y :: u64))" for x y :: "4 word"
    by (rule disjunctive_add_eq_or [symmetric], rule bit_word_eqI) (auto simp: bit_simps dest: bit_imp_le_length)
  from this [of "of_nat q" "of_nat q'"] e [of "of_nat q" "of_nat q'"] show ?thesis
    unfolding u [OF that(1)] u [OF that(2)] by (simp add: push_bit_eq_mult algebra_simps)
qed

lemma IntDiv_busy_step:
  assumes "no_request i" and "dv_busy r" and "\<not> bit (dv_ena r) 8"
    and "divstage64 (dv_divident r) (push_bit 4 (ucast (dv_divisor r))) = (ra, ba)" and "divstage64 ra (ucast (dv_divisor r)) = (rb, bb)"
    and "push_bit 1 (dv_ena r) = e" and "drop_bit 8 (dv_divisor r) = d"
    and "push_bit 8 (dv_bits r) OR push_bit 4 (ucast ba) OR ucast bb = w"
  shows "IntDiv_clock i r = r\<lparr>dv_ena := e, dv_divident := rb, dv_divisor := d, dv_bits := w\<rparr>"
  unfolding assms(6-8) [symmetric]
  using assms(1-5) by (simp add: IntDiv_clock_def no_request_def IntDiv_comb_def Let_def)

lemma div_state_step:
  assumes i: "no_request i" and b: "dv_busy r" and j: "j < 8" and A: "0 < A" "A < 2 ^ 64" and N: "N < 2 ^ 64"
  shows "IntDiv_clock i (div_state N A j r) = div_state N A (Suc j) r"
proof -
  define D where "D = A * 2 ^ (56 - 8 * j)"
  have e: "64 - 8 * j = 8 + (56 - 8 * j)" "64 - 8 * Suc j = 56 - 8 * j" using j by simp_all
  have DD: "A * 2 ^ (64 - 8 * j) = 16 * (16 * D)" unfolding e D_def by (simp add: power_add)
  have D56: "A * 2 ^ 56 div 2 ^ (8 * j) = D"
  proof -
    have "(2::nat) ^ 56 = 2 ^ (56 - 8 * j) * 2 ^ (8 * j)" using j by (simp flip: power_add)
    then show ?thesis unfolding D_def by (simp only: mult.assoc [symmetric]) simp
  qed
  have D8: "A * 2 ^ 56 div 2 ^ (8 * Suc j) = D div 2 ^ 8"
    unfolding D56 [symmetric] by (simp add: power_add mult.commute flip: div_mult2_eq)
  have pos: "0 < D" using A(1) by (simp add: D_def)
  have lt: "16 * D < 2 ^ 124"
  proof -
    have "D \<le> A * 2 ^ 56" unfolding D_def by (intro mult_le_mono power_increasing) simp_all
    moreover have "16 * (A * 2 ^ 56) < 16 * (2 ^ 64 * 2 ^ 56)" using A(2) by simp
    moreover have "(2::nat) ^ 124 = 16 * (2 ^ 64 * 2 ^ 56)" by simp
    ultimately show ?thesis by linarith
  qed
  then have u: "unat (of_nat D :: 120 word) = D" by (simp add: unat_of_nat)
  have u1: "unat (ucast (of_nat D :: 120 word) :: 124 word) = D"
    using lt u by (simp add: unsigned_ucast_eq take_bit_nat_eq_self)
  have "unat (push_bit 4 (ucast (of_nat D :: 120 word)) :: 124 word) = take_bit 124 (push_bit 4 D)"
    by (simp only: unsigned_push_bit_eq u1) simp
  then have u0: "unat (push_bit 4 (ucast (of_nat D :: 120 word)) :: 124 word) = 16 * D"
    using lt by (simp add: push_bit_eq_mult take_bit_nat_eq_self mult.commute)
  have n: "unat (of_nat (N mod x) :: u64) = N mod x" for x
  proof -
    have "N mod x < 2 ^ 64" using N mod_less_eq_dividend [of N x] by linarith
    then show ?thesis by (simp add: unat_of_nat)
  qed
  have 1: "divstage64 (of_nat (N mod (16 * (16 * D)))) (push_bit 4 (ucast (of_nat D :: 120 word))) =
      (of_nat (N mod (16 * D)), of_nat (N mod (16 * (16 * D)) div (16 * D)))" "N mod (16 * (16 * D)) div (16 * D) < 16"
    using divstage64_spec [of "of_nat (N mod (16 * (16 * D)))" "push_bit 4 (ucast (of_nat D :: 120 word))", unfolded n u0] pos
    by (simp_all add: mod_mod_cancel)
  have 2: "divstage64 (of_nat (N mod (16 * D))) (ucast (of_nat D :: 120 word)) =
      (of_nat (N mod D), of_nat (N mod (16 * D) div D))" "N mod (16 * D) div D < 16"
    using divstage64_spec [of "of_nat (N mod (16 * D))" "ucast (of_nat D :: 120 word)", unfolded n u1] pos
    by (simp_all add: mod_mod_cancel)
  have q: "N div D = 256 * (N div (16 * (16 * D))) + (16 * (N mod (16 * (16 * D)) div (16 * D)) + N mod (16 * D) div D)"
    using div_digit_step [of 16 N D] div_digit_step [of 16 N "16 * D"] by simp
  have en: "\<not> bit (2 ^ j :: 10 word) 8" using j by (simp add: bit_exp_iff)
  have d8: "drop_bit 8 (of_nat D :: 120 word) = of_nat (D div 2 ^ 8)"
  proof (rule word_unat_eq_iff [THEN iffD2])
    have "D div 2 ^ 8 < 2 ^ 120" using lt by (simp add: less_mult_imp_div_less)
    then show "unat (drop_bit 8 (of_nat D :: 120 word)) = unat (of_nat (D div 2 ^ 8) :: 120 word)"
      by (simp only: unat_drop_bit_eq u) (simp add: drop_bit_eq_div unat_of_nat)
  qed
  have st: "div_state N A j r =
      r\<lparr>dv_ena := 2 ^ j, dv_divident := of_nat (N mod (16 * (16 * D))), dv_divisor := of_nat D,
        dv_bits := of_nat (N div (16 * (16 * D))) + dv_bits r * 2 ^ (8 * j)\<rparr>"
    by (simp only: div_state_def DD D56)
  have st': "div_state N A (Suc j) r =
      r\<lparr>dv_ena := 2 * 2 ^ j, dv_divident := of_nat (N mod D), dv_divisor := of_nat (D div 2 ^ 8),
        dv_bits := of_nat (N div D) + dv_bits r * 2 ^ (8 * j) * 256\<rparr>"
    by (simp only: div_state_def D8 e(2) D_def [symmetric]) (simp add: power_add)
  have bits: "push_bit 8 (of_nat (N div (16 * (16 * D))) + dv_bits r * 2 ^ (8 * j)) OR
      push_bit 4 (ucast (of_nat (N mod (16 * (16 * D)) div (16 * D)) :: 4 word)) OR ucast (of_nat (N mod (16 * D) div D) :: 4 word) =
      of_nat (N div D) + dv_bits r * 2 ^ (8 * j) * 256"
    unfolding concat_digits [OF 1(2) 2(2)] q by (simp add: algebra_simps)
  have p: "push_bit 1 (2 ^ j :: 10 word) = 2 * 2 ^ j" by (simp add: push_bit_eq_mult)
  define S where "S = div_state N A j r"
  have sel: "dv_ena S = 2 ^ j" "dv_divident S = of_nat (N mod (16 * (16 * D)))" "dv_divisor S = of_nat D"
    "dv_bits S = of_nat (N div (16 * (16 * D))) + dv_bits r * 2 ^ (8 * j)" "dv_busy S"
    using b unfolding S_def st by simp_all
  have "IntDiv_clock i S = S\<lparr>dv_ena := 2 * 2 ^ j, dv_divident := of_nat (N mod D), dv_divisor := of_nat (D div 2 ^ 8),
        dv_bits := of_nat (N div D) + dv_bits r * 2 ^ (8 * j) * 256\<rparr>"
    by (rule IntDiv_busy_step [OF i, where r = S, unfolded sel(1-4), OF sel(5) en 1(1) 2(1) p d8 bits])
  then show ?thesis unfolding st' S_def st by simp
qed

lemma div_state_run:
  assumes "list_all no_request is" and "length is = j" and "j \<le> 8" and "dv_busy r" and "0 < A" "A < 2 ^ 64" "N < 2 ^ 64"
  shows "fold IntDiv_clock is (div_state N A 0 r) = div_state N A j r"
  using assms(1-3)
proof (induction "is" arbitrary: j rule: rev_induct)
  case (snoc i "is")
  then obtain k where k: "j = Suc k" by (cases j) auto
  then have "fold IntDiv_clock is (div_state N A 0 r) = div_state N A k r" using snoc by simp
  then show ?case using div_state_step [of i r k A N] snoc.prems assms k by simp
qed simp

text \<open>A division by zero runs as well: every digit is 15 and the dividend stays.\<close>

lemma div_zero_run:
  assumes "list_all no_request is" and "length is = j" and "j \<le> 8" and "dv_busy r" and "dv_divisor r = 0" and "dv_ena r = 1"
  shows "\<exists>w. fold IntDiv_clock is r = r\<lparr>dv_ena := 2 ^ j, dv_bits := w\<rparr>"
  using assms(1-3)
proof (induction "is" arbitrary: j rule: rev_induct)
  case Nil
  then show ?case using assms(6) by (intro exI [of _ "dv_bits r"]) simp
next
  case (snoc i "is")
  then obtain k where k: "j = Suc k" by (cases j) auto
  then obtain w where w: "fold IntDiv_clock is r = r\<lparr>dv_ena := 2 ^ k, dv_bits := w\<rparr>" using snoc by auto
  have "\<not> bit (2 ^ k :: 10 word) 8" using snoc.prems k by (simp add: bit_exp_iff)
  moreover have "push_bit 1 (2 ^ k :: 10 word) = 2 ^ j" by (simp add: k push_bit_eq_mult)
  ultimately have "IntDiv_clock i (r\<lparr>dv_ena := 2 ^ k, dv_bits := w\<rparr>) =
      r\<lparr>dv_ena := 2 ^ j, dv_bits := push_bit 8 w OR push_bit 4 (ucast (15 :: 4 word)) OR ucast (15 :: 4 word)\<rparr>"
    using IntDiv_busy_step [of i "r\<lparr>dv_ena := 2 ^ k, dv_bits := w\<rparr>" "dv_divident r" 15 "dv_divident r" 15 "2 ^ j" 0 _]
      snoc.prems assms(4,5) by (simp add: divstage64_zero)
  with w show ?case by auto
qed

lemma IntDiv_finish:
  assumes "no_request i" and "dv_ena r = 2 ^ 8"
  shows "IntDiv_clock i r = r\<lparr>dv_ena := 2 ^ 9, dv_busy := False,
      dv_result := (if dv_resid r then if dv_overflow r then 0
                      else div_extend (dv_rv32 r) (if dv_invert r then - dv_divident r else dv_divident r)
                    else if dv_div_on_zero r then - 1
                    else if dv_overflow r then 0x8000000000000000
                    else div_extend (dv_rv32 r) (if dv_invert r then - dv_bits r else dv_bits r))\<rparr>"
proof -
  have b: "bit (dv_ena r) 8" unfolding assms(2) by (simp only: bit_exp_iff) simp
  have p: "dv_ena r * 2 = 512" unfolding assms(2) by simp
  have neg: "NOT x + 1 = - x" for x :: u64 by (rule minus_eq_not_plus_1 [symmetric])
  show ?thesis
    using assms(1) b by (simp add: IntDiv_clock_def no_request_def IntDiv_comb_def Let_def neg p split: prod.split)
qed

section \<open>A whole division\<close>

definition request :: "int_div_in \<Rightarrow> bool" where
  "request i \<longleftrightarrow> di_nrst i \<and> di_ena i"

lemma no_overflow: "\<not> uns \<Longrightarrow> div_operand rv32 uns a \<noteq> - 1"
proof
  assume u: "\<not> uns" and e: "div_operand rv32 uns a = - 1"
  have b: "bit (- 1 :: u64) 63" by simp
  have one: "- a = - 1 \<Longrightarrow> \<not> bit a 63" by (simp add: bit_1_iff)
  show False
    using u b one unfolding e [symmetric]
    by (auto simp: div_operand_def bit_take_bit_iff minus_eq_not_plus_1 [symmetric] e split: if_splits)
qed

lemma operand_zero:
  assumes "div_operand rv32 uns a = 0" and "k \<le> (if rv32 then 32 else 64)"
  shows "take_bit k a = 0"
proof -
  have neg: "NOT x + 1 = - x" for x :: u64 by (rule minus_eq_not_plus_1 [symmetric])
  have m: "take_bit 32 a = 0" if "take_bit 32 (- take_bit 32 a) = 0"
  proof -
    from that have "2 ^ 32 dvd - take_bit 32 a" by (simp only: take_bit_eq_0_iff)
    then have "take_bit 32 (take_bit 32 a) = 0" by (simp only: take_bit_eq_0_iff dvd_minus_iff)
    then show ?thesis by (simp only: take_bit_take_bit min.idem)
  qed
  have "take_bit (if rv32 then 32 else 64) a = 0"
    using assms(1) m unfolding div_operand_def neg by (auto split: if_splits)
  then have "take_bit k (take_bit (if rv32 then 32 else 64) a) = 0" by simp
  then show ?thesis using assms(2) by (simp only: take_bit_take_bit min_absorb1)
qed

text \<open>The result of a request to an idle divider after ten clocks, over the magnitudes of the operands.\<close>

lemma IntDiv_run:
  assumes idle: "div_idle r" and req: "request i" and rest: "list_all no_request is" "length is = 9"
    and a1: "a1 = div_operand (di_rv32 i) (di_unsigned i) (di_a1 i)" and a2: "a2 = div_operand (di_rv32 i) (di_unsigned i) (di_a2 i)"
    and low2: "low2 = take_bit (if di_rv32 i then if di_unsigned i then 32 else 31 else if di_unsigned i then 64 else 63) (di_a2 i)"
    and s1: "s1 = bit (di_a1 i) (if di_rv32 i then 31 else 63)" and s2: "s2 = bit (di_a2 i) (if di_rv32 i then 31 else 63)"
  defines "rr \<equiv> fold IntDiv_clock is (IntDiv_clock i r)"
  shows "div_idle rr \<and> IntDiv_o_valid rr \<and> dv_result rr =
     (if di_residual i then
        div_extend (di_rv32 i) (if \<not> di_unsigned i \<and> s1 then - of_nat (unat a1 mod unat a2) else of_nat (unat a1 mod unat a2))
      else if low2 = 0 then - 1
      else div_extend (di_rv32 i) (if \<not> di_unsigned i \<and> s1 \<noteq> s2 then - of_nat (unat a1 div unat a2) else of_nat (unat a1 div unat a2)))"
proof -
  let ?N = "unat a1" and ?A = "unat a2"
  let ?inv = "\<not> di_unsigned i \<and> (\<not> di_residual i \<and> s1 \<noteq> s2 \<or> di_residual i \<and> s1)"
  have lt: "?N < 2 ^ 64" "?A < 2 ^ 64" using unsigned_less [where 'a = nat, of a1] unsigned_less [where 'a = nat, of a2] by simp_all
  define r1 where "r1 = IntDiv_clock i r"
  have "push_bit 1 (dv_ena r) = 0"
  proof (rule bit_word_eqI)
    fix n assume n: "n < LENGTH(10)"
    have "\<not> bit (dv_ena r) m" if "m < 9" for m using idle that by (metis bit_take_bit_iff bit_0_eq bot_apply bot_bool_def div_idle_def zero_word_def)
    then show "bit (push_bit 1 (dv_ena r)) n = bit (0 :: 10 word) n" using n by (auto simp: bit_push_bit_iff simp del: push_bit_Suc)
  qed
  then have r1: "r1 = r\<lparr>dv_ena := 1, dv_busy := True, dv_rv32 := di_rv32 i, dv_resid := di_residual i, dv_divident := a1,
      dv_divisor := push_bit 56 (ucast a2), dv_invert := ?inv, dv_div_on_zero := (low2 = 0), dv_overflow := False\<rparr>"
    using idle req no_overflow [of "di_unsigned i" "di_rv32 i" "di_a2 i"]
    by (auto simp: r1_def IntDiv_clock_def IntDiv_comb_def Let_def request_def div_idle_def a1 a2 low2 s1 s2 split: prod.split)
  have b1: "dv_busy r1" by (simp add: r1)
  obtain is8 i9 where spl: "is = is8 @ [i9]" "length is8 = 8" "list_all no_request is8" "no_request i9"
    using rest by (cases "is" rule: rev_cases) auto
  obtain w where w: "fold IntDiv_clock is8 r1 = r1\<lparr>dv_ena := 2 ^ 8, dv_divident := of_nat (?N mod ?A), dv_divisor := snd w, dv_bits := fst w\<rparr>"
    and q: "low2 \<noteq> 0 \<longrightarrow> fst w = of_nat (?N div ?A)"
  proof (cases "?A = 0")
    case True
    then have "a2 = 0" by (simp add: unat_eq_0)
    then have "low2 = 0" using operand_zero [of "di_rv32 i" "di_unsigned i" "di_a2 i"] unfolding low2 a2 by auto
    moreover obtain w where "fold IntDiv_clock is8 r1 = r1\<lparr>dv_ena := 2 ^ 8, dv_bits := w\<rparr>"
      using div_zero_run [OF spl(3,2) _ b1] by (auto simp: r1 \<open>a2 = 0\<close>)
    moreover have "r1\<lparr>dv_ena := 2 ^ 8, dv_bits := w\<rparr> =
        r1\<lparr>dv_ena := 2 ^ 8, dv_divident := of_nat (?N mod ?A), dv_divisor := push_bit 56 (ucast a2), dv_bits := w\<rparr>"
      using True by (simp add: r1)
    ultimately show ?thesis using that [of "(w, push_bit 56 (ucast a2))"] by simp
  next
    case False
    have "(of_nat (?A * 2 ^ 56) :: 120 word) = push_bit 56 (ucast a2)"
    proof -
      have "(ucast a2 :: 120 word) = of_nat ?A" by (rule of_nat_unat [symmetric])
      then show ?thesis by (simp add: push_bit_eq_mult)
    qed
    moreover have "?N < ?A * 2 ^ 64"
    proof -
      have "1 * 2 ^ 64 \<le> ?A * 2 ^ 64" using False by (intro mult_le_mono1) simp
      with lt(1) show ?thesis by linarith
    qed
    ultimately have "div_state ?N ?A 0 r1 = r1"
      unfolding div_state_def r1 by simp
    then have "fold IntDiv_clock is8 r1 = div_state ?N ?A 8 r1"
      using div_state_run [OF spl(3,2) _ b1 _ lt(2,1)] False by simp
    moreover have "div_state ?N ?A 8 r1 = r1\<lparr>dv_ena := 2 ^ 8, dv_divident := of_nat (?N mod ?A),
        dv_divisor := of_nat (?A * 2 ^ 56 div 2 ^ 64), dv_bits := of_nat (?N div ?A)\<rparr>"
    proof -
      have "(2 :: u64) ^ 64 = 0" by simp
      moreover have "(64 :: nat) - 8 * 8 = 0" "(8 :: nat) * 8 = 64" by simp_all
      ultimately show ?thesis unfolding div_state_def by (simp only: mult_zero_right add_0_right power_0 mult_1_right)
    qed
    ultimately show ?thesis using that [of "(of_nat (?N div ?A), of_nat (?A * 2 ^ 56 div 2 ^ 64))"] by simp
  qed
  define S where "S = r1\<lparr>dv_ena := 2 ^ 8, dv_divident := of_nat (?N mod ?A), dv_divisor := snd w, dv_bits := fst w\<rparr>"
  have sel: "dv_ena S = 2 ^ 8" "dv_resid S = di_residual i" "dv_overflow S = False" "dv_rv32 S = di_rv32 i"
    "dv_invert S = ?inv" "dv_divident S = of_nat (?N mod ?A)" "dv_bits S = fst w" "dv_div_on_zero S = (low2 = 0)"
    by (simp_all add: S_def r1)
  have rr: "rr = IntDiv_clock i9 S" unfolding rr_def r1_def [symmetric] spl(1) S_def by (simp add: w)
  have "bit (512 :: 10 word) 9" "take_bit 9 (512 :: 10 word) = 0" by code_simp+
  then show ?thesis
    using q unfolding rr IntDiv_finish [OF spl(4) sel(1)] sel by (auto simp: div_idle_def IntDiv_o_valid_def)
qed

section \<open>The divider and the functional model\<close>

lemma magnitude_sint:
  assumes "a1 = div_operand False False a"
  shows "sint a = (if bit a 63 then - int (unat a1) else int (unat a1))" and "0 < sint a \<Longrightarrow> \<not> bit a 63" and "sint a < 0 \<Longrightarrow> bit a 63"
proof -
  have neg: "NOT x + 1 = - x" for x :: u64 by (rule minus_eq_not_plus_1 [symmetric])
  have lt: "uint a < 2 ^ 64" using unsigned_less [where 'a = int, of a] by simp
  have m: "uint (- a) = 2 ^ 64 - uint a" if "bit a 63"
  proof -
    have "uint a \<noteq> 0" using that bit63_int [of a] by auto
    moreover have "uint (- a) = (- uint a) mod 2 ^ 64" by (simp add: uint_word_ariths)
    ultimately show ?thesis using lt by (simp add: zmod_zminus1_eq_if)
  qed
  show "sint a = (if bit a 63 then - int (unat a1) else int (unat a1))"
    by (simp add: sint_cases assms div_operand_def neg m)
  show "0 < sint a \<Longrightarrow> \<not> bit a 63" "sint a < 0 \<Longrightarrow> bit a 63"
    using lt unfolding sint_cases by (auto split: if_splits)
qed

lemma signed_quotient:
  assumes a1: "a1 = div_operand False False a" and b1: "b1 = div_operand False False b"
  shows "word_of_int (sint a sdiv sint b) = ((if bit a 63 \<noteq> bit b 63 then - of_nat (unat a1 div unat b1) else of_nat (unat a1 div unat b1)) :: u64)"
    and "word_of_int (sint a smod sint b) = ((if bit a 63 then - of_nat (unat a1 mod unat b1) else of_nat (unat a1 mod unat b1)) :: u64)"
proof -
  have q: "x sdiv y = (if s \<noteq> t then - (int m div int n) else int m div int n)" "x smod y = (if s then - (int m mod int n) else int m mod int n)"
    if "x = (if s then - int m else int m)" "y = (if t then - int n else int n)" for x y s t m n
    using that by (auto simp: signed_divide_int_def signed_modulo_int_def sgn_if)
  have k: "word_of_int (int m div int n) = (of_nat (m div n) :: u64)" "word_of_int (- (int m div int n)) = (- of_nat (m div n) :: u64)"
    "word_of_int (int m mod int n) = (of_nat (m mod n) :: u64)" "word_of_int (- (int m mod int n)) = (- of_nat (m mod n) :: u64)" for m n
    by (simp_all flip: of_nat_div of_nat_mod)
  note e = q [OF magnitude_sint(1) [OF a1] magnitude_sint(1) [OF b1]]
  show "word_of_int (sint a sdiv sint b) = ((if bit a 63 \<noteq> bit b 63 then - of_nat (unat a1 div unat b1) else of_nat (unat a1 div unat b1)) :: u64)"
    unfolding e by (simp only: if_distrib [where f = word_of_int] k)
  show "word_of_int (sint a smod sint b) = ((if bit a 63 then - of_nat (unat a1 mod unat b1) else of_nat (unat a1 mod unat b1)) :: u64)"
    unfolding e by (simp only: if_distrib [where f = word_of_int] k)
qed

lemma unsigned_quotient:
  "of_nat (unat a div unat b) = (a div b :: u64)" "of_nat (unat a mod unat b) = (a mod b :: u64)"
  by (simp_all add: word_unat_eq_iff unat_div_distrib unat_mod_distrib flip: unat_div_distrib unat_mod_distrib)

text \<open>C28. Started while idle, the RTL divider raises \<^verbatim>\<open>o_valid\<close> ten clocks later with the result that the functional model's
  \<^verbatim>\<open>DIV\<close>, \<^verbatim>\<open>DIVU\<close>, \<^verbatim>\<open>REM\<close> or \<^verbatim>\<open>REMU\<close> writes, for all operands, except that a signed division by the smallest number is taken for a
  division by zero; it is then idle again.\<close>

theorem rtl_div_64:
  assumes "div_idle r" and "request i" and "list_all no_request is" and "length is = 9" and "\<not> di_rv32 i"
    and "rr = fold IntDiv_clock is (IntDiv_clock i r)" and "a = di_a1 i" and "b = di_a2 i"
  shows "div_idle rr \<and> IntDiv_o_valid rr \<and> dv_result rr =
     (if di_unsigned i then
        if di_residual i then if b \<noteq> 0 then a mod b else a else if b \<noteq> 0 then a div b else NOT 0
      else if di_residual i then rem64 a b
      else if b = 0x8000000000000000 then - 1 else div64 a b)"
proof -
  note run = IntDiv_run [OF assms(1-4) refl refl refl refl refl, folded assms(6)]
  have x: "div_extend False w = w" for w by (simp add: div_extend_def)
  have u: "div_operand False True w = w" for w by (simp add: div_operand_def)
  have l: "take_bit 64 w = w" for w :: u64 by (rule take_bit_word_eq_self) simp
  note l63 = take63_zero [of b]
  let ?a1 = "div_operand False False a" and ?b1 = "div_operand False False b"
  have r: "rem64 a b = (if bit a 63 then - of_nat (unat ?a1 mod unat ?b1) else of_nat (unat ?a1 mod unat ?b1))"
    unfolding signed_quotient(2) [OF refl refl, symmetric] by (cases "b = 0") (simp_all add: rem64_smod)
  have d: "div64 a b = (if bit a 63 \<noteq> bit b 63 then - of_nat (unat ?a1 div unat ?b1) else of_nat (unat ?a1 div unat ?b1))" if "b \<noteq> 0"
    unfolding signed_quotient(1) [OF refl refl, symmetric] using that by (simp add: div64_sdiv)
  have z: "div64 a 0 = - 1" by (simp add: div64_def)
  note run = run [folded assms(7,8)]
  show ?thesis
  proof (cases "di_residual i")
    case True
    with run assms(5) show ?thesis
      by (cases "di_unsigned i") (simp_all only: simp_thms if_True if_False x u r unsigned_quotient, simp_all)
  next
    case False
    with run assms(5) show ?thesis
      by (cases "di_unsigned i"; cases "b = 0"; cases "b = 0x8000000000000000")
        (simp_all only: simp_thms if_True if_False x u l l63 d unsigned_quotient, simp_all add: z)
  qed
qed

definition div_request :: "u64 \<Rightarrow> u64 \<Rightarrow> int_div_in" where
  "div_request a b = \<lparr>di_nrst = True, di_ena = True, di_unsigned = False, di_rv32 = False, di_residual = False, di_a1 = a, di_a2 = b\<rparr>"

theorem rtl_div_64_witness:
  "dv_result (fold IntDiv_clock (replicate 9 ((div_request 0 0)\<lparr>di_ena := False\<rparr>)) (IntDiv_clock (div_request (- 100) 7) IntDiv_r_reset)) = - 14"
proof -
  have "div64 (- 100) 7 = - 14" by code_simp
  then show ?thesis
    using rtl_div_64 [of IntDiv_r_reset "div_request (- 100) 7" "replicate 9 ((div_request 0 0)\<lparr>di_ena := False\<rparr>)", OF _ _ _ _ _ refl refl refl]
    by (simp add: div_idle_def IntDiv_r_reset_def request_def no_request_def div_request_def list_all_length)
qed

end
