(* ===== verification/Rtl_Execute.thy ===== *)
theory Rtl_Execute
  imports Rtl_Decoder Rtl_Alu Rtl_Mul Rtl_Div
begin

text \<open>
  The execution stage of the RTL core, \<^verbatim>\<open>core/execute.cpp\<close>: the operand multiplexer, branch resolution, the selection of the
  result, the commands to the CSR unit and the state machine, as one clocked function over the registers
  \<^verbatim>\<open>InstrExecute_registers\<close>. The inputs that come from the decoder are the decoder's registers; the one-hot vectors
  \<^verbatim>\<open>i_ivec\<close> and \<^verbatim>\<open>i_isa_type\<close> are the optional index and the format. \<^verbatim>\<open>memop_type\<close> is the record of its four bits, \<^verbatim>\<open>csr_req_type\<close> the
  command whose bit is set, \<^verbatim>\<open>tagcnt\<close> the function from registers to tags. The floating-point unit is not modelled: its
  result is an input.
\<close>

section \<open>Registers, inputs and the results of the units\<close>

datatype exec_state = State_Idle | State_WaitMemAcces | State_WaitMulti | State_Amo | State_Csr | State_Halted
  | State_DebugMemRequest | State_DebugMemError | State_Wfi

datatype csr_state = CsrState_Idle | CsrState_Req | CsrState_Resp

datatype amo_state = AmoState_WaitMemAccess | AmoState_Read | AmoState_Modify | AmoState_Write

datatype csr_req = CsrReq_NoCmd | CsrReq_ReadCmd | CsrReq_WriteCmd | CsrReq_TrapReturnCmd | CsrReq_ExceptionCmd
  | CsrReq_InterruptCmd | CsrReq_BreakpointCmd | CsrReq_HaltCmd | CsrReq_ResumeCmd | CsrReq_WfiCmd | CsrReq_FenceCmd

datatype res_sel = Res_Zero | Res_Reg2 | Res_Npc | Res_Ra | Res_Csr | Res_Alu | Res_AddSub | Res_Shifter
  | Res_IMul | Res_IDiv | Res_FPU

record memop_bits =
  MemopType_Store :: bool
  MemopType_Locked :: bool
  MemopType_Reserve :: bool
  MemopType_Release :: bool

definition no_memop :: memop_bits where
  "no_memop = \<lparr>MemopType_Store = False, MemopType_Locked = False, MemopType_Reserve = False, MemopType_Release = False\<rparr>"

type_synonym reg_tag = "3 word"

record exec_regs =
  e_state :: exec_state
  e_csrstate :: csr_state
  e_amostate :: amo_state
  e_pc :: u64
  e_npc :: u64
  e_dnpc :: u64
  e_radr1 :: "6 word"
  e_radr2 :: "6 word"
  e_waddr :: "6 word"
  e_rdata1 :: u64
  e_rdata2 :: u64
  e_rdata1_amo :: u64
  e_rdata2_amo :: u64
  e_ivec :: "nat option"
  e_isa_type :: isa_type
  e_imm :: u64
  e_instr :: u32
  e_tagcnt :: "6 word \<Rightarrow> reg_tag"
  e_reg_write :: bool
  e_reg_waddr :: "6 word"
  e_reg_wtag :: reg_tag
  e_csr_req_rmw :: bool
  e_csr_req_type :: csr_req
  e_csr_req_addr :: "12 word"
  e_csr_req_data :: u64
  e_memop_valid :: bool
  e_memop_debug :: bool
  e_memop_halted :: bool
  e_memop_type :: memop_bits
  e_memop_sign_ext :: bool
  e_memop_size :: "2 word"
  e_memop_memaddr :: u64
  e_memop_wdata :: u64
  e_unsigned_op :: bool
  e_rv32 :: bool
  e_compressed :: bool
  e_f64 :: bool
  e_stack_overflow :: bool
  e_stack_underflow :: bool
  e_mem_ex_load_fault :: bool
  e_mem_ex_store_fault :: bool
  e_page_fault_r :: bool
  e_page_fault_w :: bool
  e_mem_ex_addr :: u64
  e_res_npc :: u64
  e_res_ra :: u64
  e_res_csr :: u64
  e_select :: "res_sel \<Rightarrow> bool"
  e_valid :: bool
  e_call :: bool
  e_ret :: bool
  e_jmp :: bool
  e_stepdone :: bool

definition InstrExecute_r_reset :: exec_regs where
  "InstrExecute_r_reset =
    \<lparr>e_state = State_Idle, e_csrstate = CsrState_Idle, e_amostate = AmoState_WaitMemAccess, e_pc = 0,
     e_npc = 0x10000, e_dnpc = 0, e_radr1 = 0, e_radr2 = 0, e_waddr = 0, e_rdata1 = 0, e_rdata2 = 0,
     e_rdata1_amo = 0, e_rdata2_amo = 0, e_ivec = None, e_isa_type = ISA_None, e_imm = 0, e_instr = 0,
     e_tagcnt = (\<lambda>_. 0), e_reg_write = False, e_reg_waddr = 0, e_reg_wtag = 0, e_csr_req_rmw = False,
     e_csr_req_type = CsrReq_NoCmd, e_csr_req_addr = 0, e_csr_req_data = 0, e_memop_valid = False,
     e_memop_debug = False, e_memop_halted = False, e_memop_type = no_memop, e_memop_sign_ext = False,
     e_memop_size = 0, e_memop_memaddr = 0, e_memop_wdata = 0, e_unsigned_op = False, e_rv32 = False,
     e_compressed = False, e_f64 = False, e_stack_overflow = False, e_stack_underflow = False,
     e_mem_ex_load_fault = False, e_mem_ex_store_fault = False, e_page_fault_r = False, e_page_fault_w = False,
     e_mem_ex_addr = 0, e_res_npc = 0, e_res_ra = 0, e_res_csr = 0, e_select = (\<lambda>_. False), e_valid = False,
     e_call = False, e_ret = False, e_jmp = False, e_stepdone = False\<rparr>"

record exec_in =
  i_nrst :: bool
  i_d :: decoder_rv
  i_stack_overflow :: bool
  i_stack_underflow :: bool
  i_mem_valid :: bool
  i_mem_rdata :: u64
  i_mem_ex_debug :: bool
  i_mem_ex_load_fault :: bool
  i_mem_ex_store_fault :: bool
  i_page_fault_r :: bool
  i_page_fault_w :: bool
  i_mem_ex_addr :: u64
  i_irq_pending :: u16
  i_wakeup :: bool
  i_haltreq :: bool
  i_resumereq :: bool
  i_step :: bool
  i_dbg_progbuf_ena :: bool
  i_rdata1 :: u64
  i_rtag1 :: reg_tag
  i_rdata2 :: u64
  i_rtag2 :: reg_tag
  i_csr_req_ready :: bool
  i_csr_resp_valid :: bool
  i_csr_resp_data :: u64
  i_csr_resp_exception :: bool
  i_memop_ready :: bool
  i_memop_idle :: bool
  i_dbg_mem_req_valid :: bool
  i_dbg_mem_req_write :: bool
  i_dbg_mem_req_size :: "2 word"
  i_dbg_mem_req_addr :: u64
  i_dbg_mem_req_wdata :: u64

text \<open>The results of the units, \<^verbatim>\<open>wb_select\<close>.\<close>

record exec_units =
  u_alu :: u64
  u_addsub :: u64
  u_shifter :: u64
  u_mul :: u64
  u_mul_valid :: bool
  u_div :: u64
  u_div_valid :: bool
  u_fpu :: u64
  u_fpu_valid :: bool

section \<open>The input multiplexer\<close>

record exec_mux =
  mux_radr1 :: "6 word"
  mux_radr2 :: "6 word"
  mux_waddr :: "6 word"
  mux_imm :: u64
  mux_pc :: u64
  mux_instr :: u32
  mux_memop_type :: memop_bits
  mux_memop_sign_ext :: bool
  mux_memop_size :: "2 word"
  mux_unsigned_op :: bool
  mux_rv32 :: bool
  mux_compressed :: bool
  mux_f64 :: bool
  mux_ivec :: "nat option"
  mux_isa_type :: isa_type

definition exec_mux_of :: "exec_in \<Rightarrow> exec_regs \<Rightarrow> exec_mux" where
  "exec_mux_of i r =
    (let d = i_d i
     in if e_state r = State_Idle then
          \<lparr>mux_radr1 = dr_radr1 d, mux_radr2 = dr_radr2 d, mux_waddr = dr_waddr d, mux_imm = dr_imm d, mux_pc = dr_pc d,
           mux_instr = dr_instr d,
           mux_memop_type = \<lparr>MemopType_Store = dr_memop_store d, MemopType_Locked = (dr_amo d \<and> dr_memop_load d),
             MemopType_Reserve = dec_in {Instr_LR_D, Instr_LR_W} (dr_instr_vec d),
             MemopType_Release = dec_in {Instr_SC_D, Instr_SC_W} (dr_instr_vec d)\<rparr>,
           mux_memop_sign_ext = dr_memop_sign_ext d, mux_memop_size = dr_memop_size d, mux_unsigned_op = dr_unsigned_op d,
           mux_rv32 = dr_rv32 d, mux_compressed = dr_compressed d, mux_f64 = dr_f64 d, mux_ivec = dr_instr_vec d,
           mux_isa_type = dr_isa_type d\<rparr>
        else
          \<lparr>mux_radr1 = e_radr1 r, mux_radr2 = e_radr2 r, mux_waddr = e_waddr r, mux_imm = e_imm r, mux_pc = e_pc r,
           mux_instr = e_instr r, mux_memop_type = e_memop_type r, mux_memop_sign_ext = e_memop_sign_ext r,
           mux_memop_size = e_memop_size r, mux_unsigned_op = e_unsigned_op r, mux_rv32 = e_rv32 r,
           mux_compressed = e_compressed r, mux_f64 = e_f64 r, mux_ivec = e_ivec r, mux_isa_type = e_isa_type r\<rparr>)"

definition wv :: "exec_mux \<Rightarrow> nat \<Rightarrow> bool" where
  "wv m k \<longleftrightarrow> mux_ivec m = Some k"

definition wv_any :: "exec_mux \<Rightarrow> nat set \<Rightarrow> bool" where
  "wv_any m ks \<longleftrightarrow> dec_in ks (mux_ivec m)"

record exec_ops =
  vb_rdata1 :: u64
  vb_rdata2 :: u64
  vb_off :: u64
  v_check_tag1 :: bool
  v_check_tag2 :: bool

definition exec_operands :: "exec_in \<Rightarrow> exec_regs \<Rightarrow> exec_ops" where
  "exec_operands i r =
    (let m = exec_mux_of i r
     in if e_state r = State_Amo then
          \<lparr>vb_rdata1 = e_rdata1_amo r, vb_rdata2 = e_rdata2_amo r, vb_off = 0, v_check_tag1 = True, v_check_tag2 = True\<rparr>
        else case mux_isa_type m of
          ISA_R_type \<Rightarrow> \<lparr>vb_rdata1 = i_rdata1 i, vb_rdata2 = i_rdata2 i, vb_off = 0, v_check_tag1 = True, v_check_tag2 = True\<rparr>
        | ISA_I_type \<Rightarrow> \<lparr>vb_rdata1 = i_rdata1 i, vb_rdata2 = mux_imm m, vb_off = 0, v_check_tag1 = True, v_check_tag2 = False\<rparr>
        | ISA_SB_type \<Rightarrow>
            \<lparr>vb_rdata1 = i_rdata1 i, vb_rdata2 = i_rdata2 i, vb_off = mux_imm m, v_check_tag1 = True, v_check_tag2 = True\<rparr>
        | ISA_UJ_type \<Rightarrow> \<lparr>vb_rdata1 = mux_pc m, vb_rdata2 = 0, vb_off = mux_imm m, v_check_tag1 = True, v_check_tag2 = False\<rparr>
        | ISA_U_type \<Rightarrow> \<lparr>vb_rdata1 = mux_pc m, vb_rdata2 = mux_imm m, vb_off = 0, v_check_tag1 = False, v_check_tag2 = False\<rparr>
        | ISA_S_type \<Rightarrow>
            \<lparr>vb_rdata1 = i_rdata1 i, vb_rdata2 = i_rdata2 i, vb_off = mux_imm m, v_check_tag1 = True, v_check_tag2 = True\<rparr>
        | ISA_None \<Rightarrow> \<lparr>vb_rdata1 = 0, vb_rdata2 = 0, vb_off = 0, v_check_tag1 = False, v_check_tag2 = False\<rparr>)"

text \<open>The value an atomic instruction reads from memory.\<close>

definition vb_rdata1_amo :: "exec_in \<Rightarrow> exec_regs \<Rightarrow> u64" where
  "vb_rdata1_amo i r =
    (let m = exec_mux_of i r
     in if wv_any m {Instr_AMOSWAP_D, Instr_AMOSWAP_W} then 0
        else if i_mem_valid i then
          if mux_rv32 m then
            if bit (e_memop_memaddr r) 2
            then upper32 (mux_memop_sign_ext m \<and> bit (i_mem_rdata i) 63) (bitfield 32 32 (i_mem_rdata i))
            else upper32 (mux_memop_sign_ext m \<and> bit (i_mem_rdata i) 31) (i_mem_rdata i)
          else i_mem_rdata i
        else 0)"

definition vb_memop_memaddr_load :: "exec_in \<Rightarrow> exec_regs \<Rightarrow> u64" where
  "vb_memop_memaddr_load i r = vb_rdata1 (exec_operands i r) + vb_rdata2 (exec_operands i r)"

definition vb_memop_memaddr_store :: "exec_in \<Rightarrow> exec_regs \<Rightarrow> u64" where
  "vb_memop_memaddr_store i r = vb_rdata1 (exec_operands i r) + vb_off (exec_operands i r)"

definition w_hazard1 :: "exec_in \<Rightarrow> exec_regs \<Rightarrow> bool" where
  "w_hazard1 i r \<longleftrightarrow> e_tagcnt r (mux_radr1 (exec_mux_of i r)) \<noteq> i_rtag1 i \<and> v_check_tag1 (exec_operands i r)"

definition w_hazard2 :: "exec_in \<Rightarrow> exec_regs \<Rightarrow> bool" where
  "w_hazard2 i r \<longleftrightarrow> e_tagcnt r (mux_radr2 (exec_mux_of i r)) \<noteq> i_rtag2 i \<and> v_check_tag2 (exec_operands i r)"

section \<open>Branches and the next program counter\<close>

definition v_pc_branch :: "exec_in \<Rightarrow> exec_regs \<Rightarrow> bool" where
  "v_pc_branch i r =
    (let m = exec_mux_of i r; a = vb_rdata1 (exec_operands i r); b = vb_rdata2 (exec_operands i r); vb_sub64 = a - b
     in wv m Instr_BEQ \<and> vb_sub64 = 0 \<or> wv m Instr_BGE \<and> \<not> bit vb_sub64 63 \<or> wv m Instr_BGEU \<and> a \<ge> b \<or>
        wv m Instr_BLT \<and> bit vb_sub64 63 \<or> wv m Instr_BLTU \<and> a < b \<or> wv m Instr_BNE \<and> vb_sub64 \<noteq> 0)"

definition opcode_len :: "exec_in \<Rightarrow> exec_regs \<Rightarrow> u64" where
  "opcode_len i r = (if mux_compressed (exec_mux_of i r) then 2 else 4)"

definition vb_npc_incr :: "exec_in \<Rightarrow> exec_regs \<Rightarrow> u64" where
  "vb_npc_incr i r = mux_pc (exec_mux_of i r) + opcode_len i r"

definition vb_prog_npc :: "exec_in \<Rightarrow> exec_regs \<Rightarrow> u64" where
  "vb_prog_npc i r =
    (let m = exec_mux_of i r; ops = exec_operands i r
     in if v_pc_branch i r then mux_pc m + vb_off ops
        else if wv m Instr_JAL then vb_rdata1 ops + vb_off ops
        else if wv m Instr_JALR then (vb_rdata1 ops + vb_rdata2 ops) AND NOT 1
        else vb_npc_incr i r)"

definition v_load_misaligned :: "exec_in \<Rightarrow> exec_regs \<Rightarrow> bool" where
  "v_load_misaligned i r =
    (let m = exec_mux_of i r; a = vb_memop_memaddr_load i r
     in wv m Instr_LD \<and> bitfield 0 3 a \<noteq> 0 \<or> wv_any m {Instr_LW, Instr_LWU} \<and> bitfield 0 2 a \<noteq> 0 \<or>
        wv_any m {Instr_LH, Instr_LHU} \<and> bit a 0)"

definition v_store_misaligned :: "exec_in \<Rightarrow> exec_regs \<Rightarrow> bool" where
  "v_store_misaligned i r =
    (let m = exec_mux_of i r; a = vb_memop_memaddr_store i r
     in wv m Instr_SD \<and> bitfield 0 3 a \<noteq> 0 \<or> wv m Instr_SW \<and> bitfield 0 2 a \<noteq> 0 \<or> wv m Instr_SH \<and> bit a 0)"

definition v_debug_misaligned :: "exec_in \<Rightarrow> bool" where
  "v_debug_misaligned i =
    (let a = i_dbg_mem_req_addr i
     in i_dbg_mem_req_size i = 3 \<and> bitfield 0 3 a \<noteq> 0 \<or> i_dbg_mem_req_size i = 2 \<and> bitfield 0 2 a \<noteq> 0 \<or>
        i_dbg_mem_req_size i = 1 \<and> bit a 0)"

section \<open>The result\<close>

definition jump_instrs :: "nat set" where
  "jump_instrs = {Instr_JAL, Instr_JALR, Instr_MRET, Instr_HRET, Instr_SRET, Instr_URET}"

definition select_instrs :: "res_sel \<Rightarrow> nat set" where
  "select_instrs sel = (case sel of
     Res_Reg2 \<Rightarrow> {Instr_LUI}
   | Res_Ra \<Rightarrow> jump_instrs
   | Res_Csr \<Rightarrow> {Instr_CSRRC, Instr_CSRRCI, Instr_CSRRS, Instr_CSRRSI, Instr_CSRRW, Instr_CSRRWI}
   | Res_Alu \<Rightarrow> {Instr_AND, Instr_ANDI, Instr_OR, Instr_ORI, Instr_XOR, Instr_XORI, Instr_AMOOR_D, Instr_AMOOR_W,
       Instr_AMOAND_D, Instr_AMOAND_W, Instr_AMOXOR_D, Instr_AMOXOR_W}
   | Res_AddSub \<Rightarrow> {Instr_ADD, Instr_ADDI, Instr_AUIPC, Instr_ADDW, Instr_ADDIW, Instr_SUB, Instr_SUBW, Instr_SLT, Instr_SLTI,
       Instr_SLTU, Instr_SLTIU, Instr_AMOADD_D, Instr_AMOADD_W, Instr_AMOMIN_D, Instr_AMOMIN_W, Instr_AMOMAX_D,
       Instr_AMOMAX_W, Instr_AMOMINU_D, Instr_AMOMINU_W, Instr_AMOMAXU_D, Instr_AMOMAXU_W, Instr_AMOSWAP_D, Instr_AMOSWAP_W}
   | Res_Shifter \<Rightarrow> {Instr_SLL, Instr_SLLI, Instr_SLLW, Instr_SLLIW, Instr_SRL, Instr_SRLI, Instr_SRLW, Instr_SRLIW,
       Instr_SRA, Instr_SRAI, Instr_SRAW, Instr_SRAIW}
   | Res_IMul \<Rightarrow> {Instr_MUL, Instr_MULW, Instr_MULH, Instr_MULHSU, Instr_MULHU}
   | Res_IDiv \<Rightarrow> {Instr_DIV, Instr_DIVU, Instr_DIVW, Instr_DIVUW, Instr_REM, Instr_REMU, Instr_REMW, Instr_REMUW}
   | _ \<Rightarrow> {})"

definition vb_select :: "bool \<Rightarrow> exec_in \<Rightarrow> exec_regs \<Rightarrow> res_sel \<Rightarrow> bool" where
  "vb_select fpu_ena i r sel =
    (let m = exec_mux_of i r;
         is_sel = (\<lambda>sel. wv_any m (select_instrs sel) \<or> sel = Res_Reg2 \<and> MemopType_Store (mux_memop_type m) \<or>
           sel = Res_Ra \<and> v_pc_branch i r \<or> sel = Res_FPU \<and> fpu_ena \<and> mux_f64 m \<and> \<not> wv_any m {Instr_FSD, Instr_FLD})
     in if sel = Res_Zero
        then \<not> list_ex is_sel [Res_Reg2, Res_Npc, Res_Ra, Res_Csr, Res_Alu, Res_AddSub, Res_Shifter, Res_IMul, Res_IDiv, Res_FPU]
        else is_sel sel)"

definition vb_res :: "exec_units \<Rightarrow> exec_regs \<Rightarrow> u64" where
  "vb_res u r =
    (if e_select r Res_Reg2 then e_rdata2 r
     else if e_select r Res_Npc then e_res_npc r
     else if e_select r Res_Ra then e_res_ra r
     else if e_select r Res_Csr then e_res_csr r
     else if e_select r Res_Alu then u_alu u
     else if e_select r Res_AddSub then u_addsub u
     else if e_select r Res_Shifter then u_shifter u
     else if e_select r Res_IMul then u_mul u
     else if e_select r Res_IDiv then u_div u
     else if e_select r Res_FPU then u_fpu u
     else 0)"

definition wb_alu_mode :: "exec_in \<Rightarrow> exec_regs \<Rightarrow> 3 word" where
  "wb_alu_mode i r =
    (let m = exec_mux_of i r
     in vec_of [wv_any m {Instr_AND, Instr_ANDI, Instr_AMOAND_D, Instr_AMOAND_W},
                wv_any m {Instr_OR, Instr_ORI, Instr_AMOOR_D, Instr_AMOOR_W},
                wv_any m {Instr_XOR, Instr_XORI, Instr_AMOXOR_D, Instr_AMOXOR_W}])"

definition wb_addsub_mode :: "exec_in \<Rightarrow> exec_regs \<Rightarrow> 7 word" where
  "wb_addsub_mode i r =
    (let m = exec_mux_of i r
     in vec_of [mux_rv32 m,
                wv_any m {Instr_SLTU, Instr_SLTIU, Instr_AMOMINU_D, Instr_AMOMINU_W, Instr_AMOMAXU_D, Instr_AMOMAXU_W},
                wv_any m {Instr_ADD, Instr_ADDI, Instr_ADDW, Instr_ADDIW, Instr_AUIPC, Instr_AMOADD_D, Instr_AMOADD_W,
                  Instr_AMOSWAP_D, Instr_AMOSWAP_W},
                wv_any m {Instr_SUB, Instr_SUBW},
                wv_any m {Instr_SLT, Instr_SLTI, Instr_SLTU, Instr_SLTIU},
                wv_any m {Instr_AMOMIN_D, Instr_AMOMIN_W, Instr_AMOMINU_D, Instr_AMOMINU_W},
                wv_any m {Instr_AMOMAX_D, Instr_AMOMAX_W, Instr_AMOMAXU_D, Instr_AMOMAXU_W}])"

definition wb_shifter_mode :: "exec_in \<Rightarrow> exec_regs \<Rightarrow> 4 word" where
  "wb_shifter_mode i r =
    (let m = exec_mux_of i r
     in vec_of [mux_rv32 m,
                wv_any m {Instr_SLL, Instr_SLLI, Instr_SLLW, Instr_SLLIW},
                wv_any m {Instr_SRL, Instr_SRLI, Instr_SRLW, Instr_SRLIW},
                wv_any m {Instr_SRA, Instr_SRAI, Instr_SRAW, Instr_SRAIW}])"

section \<open>Commands to the CSR unit\<close>

abbreviation (input) Rtl_InstrMisalign :: "12 word" where "Rtl_InstrMisalign \<equiv> 0"
abbreviation (input) Rtl_InstrFault :: "12 word" where "Rtl_InstrFault \<equiv> 1"
abbreviation (input) Rtl_InstrIllegal :: "12 word" where "Rtl_InstrIllegal \<equiv> 2"
abbreviation (input) Rtl_Breakpoint :: "12 word" where "Rtl_Breakpoint \<equiv> 3"
abbreviation (input) Rtl_LoadMisalign :: "12 word" where "Rtl_LoadMisalign \<equiv> 4"
abbreviation (input) Rtl_LoadFault :: "12 word" where "Rtl_LoadFault \<equiv> 5"
abbreviation (input) Rtl_StoreMisalign :: "12 word" where "Rtl_StoreMisalign \<equiv> 6"
abbreviation (input) Rtl_StoreFault :: "12 word" where "Rtl_StoreFault \<equiv> 7"
abbreviation (input) Rtl_CallFromXMode :: "12 word" where "Rtl_CallFromXMode \<equiv> 8"
abbreviation (input) Rtl_InstrPageFault :: "12 word" where "Rtl_InstrPageFault \<equiv> 12"
abbreviation (input) Rtl_LoadPageFault :: "12 word" where "Rtl_LoadPageFault \<equiv> 13"
abbreviation (input) Rtl_StorePageFault :: "12 word" where "Rtl_StorePageFault \<equiv> 15"
abbreviation (input) Rtl_StackOverflow :: "12 word" where "Rtl_StackOverflow \<equiv> 16"
abbreviation (input) Rtl_StackUnderflow :: "12 word" where "Rtl_StackUnderflow \<equiv> 17"
abbreviation (input) HALT_CAUSE_HALTREQ :: "12 word" where "HALT_CAUSE_HALTREQ \<equiv> 3"
abbreviation (input) HALT_CAUSE_STEP :: "12 word" where "HALT_CAUSE_STEP \<equiv> 4"

definition irq2idx :: "u16 \<Rightarrow> 12 word" where
  "irq2idx irqbus =
    (if bit irqbus 11 then 11 else if bit irqbus 3 then 3 else if bit irqbus 7 then 7
     else if bit irqbus 9 then 9 else if bit irqbus 1 then 1 else if bit irqbus 5 then 5 else 0)"

definition v_csr_cmd_ena :: "exec_in \<Rightarrow> exec_regs \<Rightarrow> bool" where
  "v_csr_cmd_ena i r =
    (let m = exec_mux_of i r;
         v_mem_ex = (e_mem_ex_load_fault r \<or> e_mem_ex_store_fault r \<or> dr_instr_page_fault_x (i_d i) \<or> e_page_fault_r r \<or> e_page_fault_w r)
     in i_haltreq i \<or> i_step i \<and> e_stepdone r \<or> dr_instr_unimplemented (i_d i) \<or> dr_instr_load_fault (i_d i) \<or> v_mem_ex \<or>
        e_stack_overflow r \<or> e_stack_underflow r \<or> bit (mux_pc m) 0 \<or> v_load_misaligned i r \<or> v_store_misaligned i r \<or>
        i_irq_pending i \<noteq> 0 \<or>
        wv_any m {Instr_WFI, Instr_EBREAK, Instr_ECALL, Instr_MRET, Instr_HRET, Instr_SRET, Instr_URET, Instr_CSRRC,
          Instr_CSRRCI, Instr_CSRRS, Instr_CSRRSI, Instr_CSRRW, Instr_CSRRWI, Instr_FENCE, Instr_FENCE_I, Instr_SFENCE_VMA})"

type_synonym csr_cmd = "csr_req \<times> 12 word \<times> u64"

text \<open>The read-modify-write instructions: the new value is formed from the response to the read.\<close>

definition csr_cmd_rmw :: "exec_in \<Rightarrow> exec_regs \<Rightarrow> csr_cmd" where
  "csr_cmd_rmw i r =
    (let m = exec_mux_of i r; ad = dr_csr_addr (i_d i); old = i_csr_resp_data i; uimm = take_bit 5 (ucast (e_radr1 r)) :: u64
     in if wv m Instr_CSRRC then (CsrReq_ReadCmd, ad, old AND NOT (e_rdata1 r))
        else if wv m Instr_CSRRCI then (CsrReq_ReadCmd, ad, set_bitfield 0 5 (bitfield 0 5 old AND NOT uimm) old)
        else if wv m Instr_CSRRS then (CsrReq_ReadCmd, ad, old OR e_rdata1 r)
        else if wv m Instr_CSRRSI then (CsrReq_ReadCmd, ad, set_bitfield 0 5 (bitfield 0 5 old OR uimm) old)
        else if wv m Instr_CSRRW then (CsrReq_ReadCmd, ad, e_rdata1 r)
        else if wv m Instr_CSRRWI then (CsrReq_ReadCmd, ad, uimm)
        else (CsrReq_NoCmd, 0, 0))"

text \<open>The commands of higher priority redefine it in the idle state; a branch without \<^verbatim>\<open>cmd_wdata\<close> keeps the data.\<close>

definition vb_csr_cmd :: "exec_in \<Rightarrow> exec_regs \<Rightarrow> csr_cmd" where
  "vb_csr_cmd i r =
    (let m = exec_mux_of i r; (ty, ad, wd) = csr_cmd_rmw i r; d = i_d i
     in if e_state r \<noteq> State_Idle then (ty, ad, wd)
        else if i_haltreq i then (CsrReq_HaltCmd, HALT_CAUSE_HALTREQ, wd)
        else if i_step i \<and> e_stepdone r then (CsrReq_HaltCmd, HALT_CAUSE_STEP, wd)
        else if bit (mux_pc m) 0 then (CsrReq_ExceptionCmd, Rtl_InstrMisalign, mux_pc m)
        else if dr_instr_load_fault d then (CsrReq_ExceptionCmd, Rtl_InstrFault, mux_pc m)
        else if dr_instr_unimplemented d then (CsrReq_ExceptionCmd, Rtl_InstrIllegal, ucast (mux_instr m))
        else if wv m Instr_EBREAK then (CsrReq_BreakpointCmd, Rtl_Breakpoint, wd)
        else if v_load_misaligned i r then (CsrReq_ExceptionCmd, Rtl_LoadMisalign, vb_memop_memaddr_load i r)
        else if e_mem_ex_load_fault r then (CsrReq_ExceptionCmd, Rtl_LoadFault, e_mem_ex_addr r)
        else if v_store_misaligned i r then (CsrReq_ExceptionCmd, Rtl_StoreMisalign, vb_memop_memaddr_store i r)
        else if e_mem_ex_store_fault r then (CsrReq_ExceptionCmd, Rtl_StoreFault, e_mem_ex_addr r)
        else if dr_instr_page_fault_x d then (CsrReq_ExceptionCmd, Rtl_InstrPageFault, mux_pc m)
        else if e_page_fault_r r then (CsrReq_ExceptionCmd, Rtl_LoadPageFault, e_mem_ex_addr r)
        else if e_page_fault_w r then (CsrReq_ExceptionCmd, Rtl_StorePageFault, e_mem_ex_addr r)
        else if e_stack_overflow r then (CsrReq_ExceptionCmd, Rtl_StackOverflow, wd)
        else if e_stack_underflow r then (CsrReq_ExceptionCmd, Rtl_StackUnderflow, wd)
        else if wv m Instr_ECALL then (CsrReq_ExceptionCmd, Rtl_CallFromXMode, wd)
        else if i_irq_pending i \<noteq> 0 then (CsrReq_InterruptCmd, irq2idx (i_irq_pending i), wd)
        else if wv m Instr_WFI then (CsrReq_WfiCmd, ucast (bitfield 12 3 (mux_instr m)), wd)
        else if wv m Instr_MRET then (CsrReq_TrapReturnCmd, 3, wd)
        else if wv m Instr_HRET then (CsrReq_TrapReturnCmd, 2, wd)
        else if wv m Instr_SRET then (CsrReq_TrapReturnCmd, 1, wd)
        else if wv m Instr_URET then (CsrReq_TrapReturnCmd, 0, wd)
        else if wv m Instr_FENCE then (CsrReq_FenceCmd, 1, wd)
        else if wv m Instr_FENCE_I then (CsrReq_FenceCmd, 2, - 1)
        else if wv m Instr_SFENCE_VMA then (CsrReq_FenceCmd, 4, if mux_radr1 m = 0 then - 1 else i_rdata1 i)
        else (ty, ad, wd))"

section \<open>The state machine\<close>

text \<open>The strobes the state machine sets besides the registers.\<close>

record exec_ctl =
  c_latch_input :: bool
  c_memop_ena :: bool
  c_memop_debug :: bool
  c_memaddr :: u64
  c_wdata :: u64
  c_reg_ena :: bool
  c_reg_waddr :: "6 word"
  c_csr_req_valid :: bool
  c_csr_resp_ready :: bool
  c_dbg_ready :: bool
  c_dbg_error :: bool

definition exec_ctl_init :: "exec_in \<Rightarrow> exec_regs \<Rightarrow> exec_ctl" where
  "exec_ctl_init i r =
    \<lparr>c_latch_input = False, c_memop_ena = False, c_memop_debug = False,
     c_memaddr = (if MemopType_Store (mux_memop_type (exec_mux_of i r)) then vb_memop_memaddr_store i r
                  else vb_memop_memaddr_load i r),
     c_wdata = 0, c_reg_ena = False, c_reg_waddr = dr_waddr (i_d i), c_csr_req_valid = False, c_csr_resp_ready = False,
     c_dbg_ready = False, c_dbg_error = False\<rparr>"

definition v_d_valid :: "exec_in \<Rightarrow> exec_regs \<Rightarrow> bool" where
  "v_d_valid i r \<longleftrightarrow>
     dr_pc (i_d i) = e_npc r \<and> \<not> dr_progbuf_ena (i_d i) \<and> \<not> i_dbg_progbuf_ena i \<or>
     dr_pc (i_d i) = e_dnpc r \<and> dr_progbuf_ena (i_d i) \<and> i_dbg_progbuf_ena i"

text \<open>A memory request of the debugger, from the idle and from the halted state.\<close>

definition exec_debug_request :: "bool \<Rightarrow> exec_in \<Rightarrow> exec_regs \<times> exec_ctl \<Rightarrow> exec_regs \<times> exec_ctl" where
  "exec_debug_request halted i = (\<lambda>(v, ctl).
     (v\<lparr>e_state := (if v_debug_misaligned i then State_DebugMemError else State_DebugMemRequest), e_memop_halted := halted,
        e_memop_sign_ext := False, e_memop_type := no_memop\<lparr>MemopType_Store := i_dbg_mem_req_write i\<rparr>,
        e_memop_size := i_dbg_mem_req_size i\<rparr>,
      ctl\<lparr>c_dbg_ready := True, c_dbg_error := v_debug_misaligned i\<rparr>))"

definition exec_csr_request :: "csr_cmd \<Rightarrow> exec_regs \<Rightarrow> exec_regs" where
  "exec_csr_request cmd v = (case cmd of (ty, ad, wd) \<Rightarrow>
     v\<lparr>e_state := State_Csr, e_csrstate := CsrState_Req, e_csr_req_type := ty, e_csr_req_addr := ad, e_csr_req_data := wd,
       e_csr_req_rmw := (ty = CsrReq_ReadCmd), e_mem_ex_load_fault := False, e_mem_ex_store_fault := False,
       e_page_fault_r := False, e_page_fault_w := False, e_stack_overflow := False, e_stack_underflow := False\<rparr>)"

definition exec_idle :: "bool \<Rightarrow> exec_in \<Rightarrow> exec_regs \<Rightarrow> exec_regs \<times> exec_ctl \<Rightarrow> exec_regs \<times> exec_ctl" where
  "exec_idle fpu_ena i r = (\<lambda>(v, ctl).
     if e_memop_valid r \<and> \<not> i_memop_ready i then (v, ctl)
     else if v_d_valid i r \<and> \<not> w_hazard1 i r \<and> \<not> w_hazard2 i r then
       (let ctl = ctl\<lparr>c_latch_input := True\<rparr>; v = v\<lparr>e_stepdone := (i_step i \<and> \<not> i_dbg_progbuf_ena i)\<rparr>; ops = exec_operands i r
        in if i_dbg_mem_req_valid i then exec_debug_request False i (v, ctl)
           else if v_csr_cmd_ena i r then (exec_csr_request (vb_csr_cmd i r) v, ctl)
           else if vb_select fpu_ena i r Res_IMul \<or> vb_select fpu_ena i r Res_IDiv \<or> vb_select fpu_ena i r Res_FPU
           then (v\<lparr>e_state := State_WaitMulti\<rparr>, ctl)
           else if dr_amo (i_d i) then
             (v\<lparr>e_state := State_Amo, e_amostate := (if i_memop_ready i then AmoState_Read else AmoState_WaitMemAccess)\<rparr>,
              ctl\<lparr>c_memop_ena := True, c_memaddr := vb_rdata1 ops, c_wdata := vb_rdata2 ops\<rparr>)
           else if dr_memop_load (i_d i) \<or> dr_memop_store (i_d i) then
             (if i_memop_ready i then v\<lparr>e_valid := True\<rparr> else v\<lparr>e_state := State_WaitMemAcces\<rparr>,
              ctl\<lparr>c_memop_ena := True, c_wdata := vb_rdata2 ops\<rparr>)
           else (v\<lparr>e_valid := True\<rparr>, ctl\<lparr>c_reg_ena := (dr_waddr (i_d i) \<noteq> 0 \<and> \<not> dr_memop_load (i_d i))\<rparr>))
     else (v, ctl))"

definition illegal_request :: "exec_in \<Rightarrow> exec_regs \<Rightarrow> exec_regs \<Rightarrow> exec_regs" where
  "illegal_request i r v =
     v\<lparr>e_csrstate := CsrState_Req, e_csr_req_type := CsrReq_ExceptionCmd, e_csr_req_addr := Rtl_InstrIllegal,
       e_csr_req_data := ucast (mux_instr (exec_mux_of i r)), e_csr_req_rmw := False\<rparr>"

definition trap_npc :: "exec_in \<Rightarrow> exec_regs \<Rightarrow> exec_regs" where
  "trap_npc i v = (if i_dbg_progbuf_ena i then v else v\<lparr>e_npc := i_csr_resp_data i\<rparr>)"

definition exec_csr :: "exec_in \<Rightarrow> exec_regs \<Rightarrow> exec_regs \<times> exec_ctl \<Rightarrow> exec_regs \<times> exec_ctl" where
  "exec_csr i r = (\<lambda>(v, ctl).
     case e_csrstate r of
       CsrState_Idle \<Rightarrow> (v, ctl)
     | CsrState_Req \<Rightarrow> (if i_csr_req_ready i then v\<lparr>e_csrstate := CsrState_Resp\<rparr> else v, ctl\<lparr>c_csr_req_valid := True\<rparr>)
     | CsrState_Resp \<Rightarrow>
         let ctl = ctl\<lparr>c_csr_resp_ready := True\<rparr>; ty = e_csr_req_type r
         in if \<not> i_csr_resp_valid i then (v, ctl)
            else
              let v = v\<lparr>e_csrstate := CsrState_Idle\<rparr>
              in if i_csr_resp_exception i then
                   (if i_dbg_progbuf_ena i then v\<lparr>e_valid := False, e_state := State_Halted\<rparr> else illegal_request i r v, ctl)
                 else if ty = CsrReq_HaltCmd then (v\<lparr>e_valid := False, e_state := State_Halted\<rparr>, ctl)
                 else if ty = CsrReq_BreakpointCmd then
                   let v = v\<lparr>e_valid := False\<rparr>
                   in (if bit (i_csr_resp_data i) 0 then v\<lparr>e_state := State_Halted\<rparr> else trap_npc i (v\<lparr>e_state := State_Idle\<rparr>), ctl)
                 else if ty \<in> {CsrReq_ExceptionCmd, CsrReq_InterruptCmd, CsrReq_ResumeCmd} then
                   (trap_npc i (v\<lparr>e_valid := wv (exec_mux_of i r) Instr_ECALL, e_state := State_Idle\<rparr>), ctl)
                 else if ty = CsrReq_WfiCmd then
                   (if bit (i_csr_resp_data i) 0 then illegal_request i r v else v\<lparr>e_valid := True, e_state := State_Wfi\<rparr>, ctl)
                 else if ty = CsrReq_TrapReturnCmd then (trap_npc i (v\<lparr>e_valid := True, e_state := State_Idle\<rparr>), ctl)
                 else if e_csr_req_rmw r then
                   (v\<lparr>e_csrstate := CsrState_Req, e_csr_req_type := CsrReq_WriteCmd,
                      e_csr_req_data := snd (snd (vb_csr_cmd i r)), e_csr_req_rmw := False, e_res_csr := i_csr_resp_data i\<rparr>,
                    ctl\<lparr>c_reg_ena := (e_waddr r \<noteq> 0), c_reg_waddr := e_waddr r\<rparr>)
                 else (v\<lparr>e_state := State_Idle, e_valid := True\<rparr>, ctl))"

definition exec_amo :: "exec_in \<Rightarrow> exec_units \<Rightarrow> exec_regs \<Rightarrow> exec_regs \<times> exec_ctl \<Rightarrow> exec_regs \<times> exec_ctl" where
  "exec_amo i u r = (\<lambda>(v, ctl).
     case e_amostate r of
       AmoState_WaitMemAccess \<Rightarrow> (if i_memop_ready i then v\<lparr>e_amostate := AmoState_Read\<rparr> else v, ctl)
     | AmoState_Read \<Rightarrow> (v\<lparr>e_rdata2_amo := i_rdata2 i, e_amostate := AmoState_Modify\<rparr>, ctl)
     | AmoState_Modify \<Rightarrow>
         (if i_memop_idle i
          then v\<lparr>e_amostate := AmoState_Write, e_memop_type := (mux_memop_type (exec_mux_of i r))\<lparr>MemopType_Store := True\<rparr>\<rparr>
          else v, ctl)
     | AmoState_Write \<Rightarrow>
         (if i_memop_ready i then v\<lparr>e_state := State_Idle, e_amostate := AmoState_WaitMemAccess, e_valid := True\<rparr> else v,
          ctl\<lparr>c_memop_ena := True, c_memaddr := e_memop_memaddr r, c_wdata := vb_res u r\<rparr>))"

definition exec_step :: "bool \<Rightarrow> exec_in \<Rightarrow> exec_units \<Rightarrow> exec_regs \<Rightarrow> exec_regs \<times> exec_ctl \<Rightarrow> exec_regs \<times> exec_ctl" where
  "exec_step fpu_ena i u r = (\<lambda>(v, ctl).
     case e_state r of
       State_Idle \<Rightarrow> exec_idle fpu_ena i r (v, ctl)
     | State_WaitMemAcces \<Rightarrow>
         (if i_memop_ready i then v\<lparr>e_state := State_Idle, e_valid := True\<rparr> else v, ctl\<lparr>c_memaddr := e_memop_memaddr r\<rparr>)
     | State_Csr \<Rightarrow> exec_csr i r (v, ctl)
     | State_Amo \<Rightarrow> exec_amo i u r (v, ctl)
     | State_WaitMulti \<Rightarrow>
         if u_mul_valid u \<or> u_div_valid u \<or> u_fpu_valid u
         then (v\<lparr>e_state := State_Idle, e_valid := True\<rparr>, ctl\<lparr>c_reg_ena := (e_waddr r \<noteq> 0), c_reg_waddr := e_waddr r\<rparr>)
         else (v, ctl)
     | State_Halted \<Rightarrow>
         let v = v\<lparr>e_stepdone := False\<rparr>
         in if i_resumereq i \<or> i_dbg_progbuf_ena i then
              (v\<lparr>e_state := State_Csr, e_csrstate := CsrState_Req, e_csr_req_type := CsrReq_ResumeCmd, e_csr_req_addr := 0,
                 e_csr_req_data := 0\<rparr>, ctl)
            else if i_dbg_mem_req_valid i then exec_debug_request True i (v, ctl)
            else (v, ctl)
     | State_DebugMemRequest \<Rightarrow>
         (if i_memop_ready i then v\<lparr>e_state := (if e_memop_halted r then State_Halted else State_Idle)\<rparr> else v,
          ctl\<lparr>c_memop_ena := True, c_memop_debug := True, c_memaddr := i_dbg_mem_req_addr i, c_wdata := i_dbg_mem_req_wdata i\<rparr>)
     | State_DebugMemError \<Rightarrow> (v\<lparr>e_state := (if e_memop_halted r then State_Halted else State_Idle)\<rparr>, ctl)
     | State_Wfi \<Rightarrow> (if i_haltreq i \<or> i_wakeup i then v\<lparr>e_state := State_Idle\<rparr> else v, ctl))"

text \<open>What happens before the state machine: the strobes fall, the faults are remembered.\<close>

definition exec_begin :: "exec_in \<Rightarrow> exec_regs \<Rightarrow> exec_regs" where
  "exec_begin i r =
    (let load = (i_mem_ex_load_fault i \<and> \<not> i_mem_ex_debug i); store = (i_mem_ex_store_fault i \<and> \<not> i_mem_ex_debug i);
         pr = (i_page_fault_r i \<and> \<not> i_mem_ex_debug i); pw = (i_page_fault_w i \<and> \<not> i_mem_ex_debug i)
     in r\<lparr>e_valid := False, e_call := False, e_ret := False, e_reg_write := False, e_rdata1_amo := vb_rdata1_amo i r,
          e_stack_overflow := (e_stack_overflow r \<or> i_stack_overflow i),
          e_stack_underflow := (e_stack_underflow r \<or> i_stack_underflow i),
          e_mem_ex_load_fault := (e_mem_ex_load_fault r \<or> load), e_mem_ex_store_fault := (e_mem_ex_store_fault r \<or> store),
          e_page_fault_r := (e_page_fault_r r \<or> pr), e_page_fault_w := (e_page_fault_w r \<or> pw),
          e_mem_ex_addr := (if load \<or> store \<or> pr \<or> pw then i_mem_ex_addr i else e_mem_ex_addr r)\<rparr>)"

definition v_call :: "exec_in \<Rightarrow> exec_regs \<Rightarrow> bool" where
  "v_call i r = (let m = exec_mux_of i r in wv_any m {Instr_JAL, Instr_JALR} \<and> mux_waddr m = 1)"

definition v_ret :: "exec_in \<Rightarrow> exec_regs \<Rightarrow> bool" where
  "v_ret i r =
    (let m = exec_mux_of i r
     in wv m Instr_JALR \<and> vb_rdata2 (exec_operands i r) = 0 \<and> mux_waddr m \<noteq> 1 \<and> mux_radr1 m = 1)"

text \<open>The instruction is latched.\<close>

definition exec_latch :: "bool \<Rightarrow> exec_in \<Rightarrow> exec_regs \<Rightarrow> exec_regs \<Rightarrow> exec_regs" where
  "exec_latch fpu_ena i r v =
    (let d = i_d i; ops = exec_operands i r;
         v = (if i_dbg_progbuf_ena i then v\<lparr>e_dnpc := e_dnpc r + opcode_len i r\<rparr>
              else v\<lparr>e_dnpc := 0, e_pc := dr_pc d, e_npc := vb_prog_npc i r\<rparr>)
     in v\<lparr>e_radr1 := dr_radr1 d, e_radr2 := dr_radr2 d, e_waddr := dr_waddr d, e_rdata1 := vb_rdata1 ops,
          e_rdata2 := vb_rdata2 ops, e_imm := dr_imm d, e_ivec := dr_instr_vec d, e_isa_type := dr_isa_type d,
          e_unsigned_op := dr_unsigned_op d, e_rv32 := dr_rv32 d, e_compressed := dr_compressed d, e_f64 := dr_f64 d,
          e_instr := dr_instr d, e_call := v_call i r, e_ret := v_ret i r,
          e_jmp := (v_pc_branch i r \<or> wv_any (exec_mux_of i r) jump_instrs), e_res_npc := vb_prog_npc i r,
          e_res_ra := vb_npc_incr i r, e_select := vb_select fpu_ena i r\<rparr>)"

text \<open>The tag of the destination advances; the tag of register 0 stays zero.\<close>

definition t_tagcnt_wr :: "exec_regs \<Rightarrow> exec_ctl \<Rightarrow> reg_tag" where
  "t_tagcnt_wr r ctl = e_tagcnt r (c_reg_waddr ctl) + 1"

definition vb_tagcnt_next :: "exec_regs \<Rightarrow> exec_ctl \<Rightarrow> 6 word \<Rightarrow> reg_tag" where
  "vb_tagcnt_next r ctl = (e_tagcnt r)(c_reg_waddr ctl := t_tagcnt_wr r ctl, 0 := 0)"

definition exec_tags :: "exec_regs \<Rightarrow> exec_ctl \<Rightarrow> exec_regs \<Rightarrow> exec_regs" where
  "exec_tags r ctl v =
     v\<lparr>e_tagcnt := vb_tagcnt_next r ctl, e_reg_waddr := c_reg_waddr ctl, e_reg_wtag := t_tagcnt_wr r ctl\<rparr>"

definition exec_memop :: "exec_in \<Rightarrow> exec_regs \<Rightarrow> exec_ctl \<Rightarrow> exec_regs \<Rightarrow> exec_regs" where
  "exec_memop i r ctl v =
    (let m = exec_mux_of i r
     in if c_memop_ena ctl then
          let v = v\<lparr>e_memop_valid := True, e_memop_debug := c_memop_debug ctl, e_memop_type := mux_memop_type m,
                    e_memop_sign_ext := mux_memop_sign_ext m, e_memop_size := mux_memop_size m,
                    e_memop_memaddr := c_memaddr ctl, e_memop_wdata := c_wdata ctl\<rparr>
          in if \<not> c_memop_debug ctl \<and> (\<not> MemopType_Store (mux_memop_type m) \<or> MemopType_Release (mux_memop_type m))
             then exec_tags r ctl v else v
        else if i_memop_ready i then v\<lparr>e_memop_valid := False, e_memop_debug := False\<rparr>
        else v)"

definition InstrExecute_comb :: "bool \<Rightarrow> exec_in \<Rightarrow> exec_units \<Rightarrow> exec_regs \<Rightarrow> exec_regs \<times> exec_ctl" where
  "InstrExecute_comb fpu_ena i u r =
    (let (v, ctl) = exec_step fpu_ena i u r (exec_begin i r, exec_ctl_init i r);
         v = (if i_dbg_progbuf_ena i then v else v\<lparr>e_dnpc := 0\<rparr>);
         v = (if c_latch_input ctl then exec_latch fpu_ena i r v else v);
         v = (if c_reg_ena ctl then exec_tags r ctl (v\<lparr>e_reg_write := True\<rparr>) else v)
     in (exec_memop i r ctl v, ctl))"

definition InstrExecute_clock :: "bool \<Rightarrow> exec_in \<Rightarrow> exec_units \<Rightarrow> exec_regs \<Rightarrow> exec_regs" where
  "InstrExecute_clock fpu_ena i u r = (if i_nrst i then fst (InstrExecute_comb fpu_ena i u r) else InstrExecute_r_reset)"

definition o_npc :: "exec_in \<Rightarrow> exec_regs \<Rightarrow> u64" where
  "o_npc i r = (if i_dbg_progbuf_ena i then e_dnpc r else e_npc r)"

definition o_halted :: "exec_regs \<Rightarrow> bool" where
  "o_halted r \<longleftrightarrow> e_state r = State_Halted"

section \<open>The stage with its units\<close>

record exec_stage =
  s_regs :: exec_regs
  s_alu :: u64
  s_addsub :: u64
  s_shifter :: u64
  s_mul :: int_mul
  s_div :: int_div

definition w_arith_residual_high :: "exec_in \<Rightarrow> exec_regs \<Rightarrow> bool" where
  "w_arith_residual_high i r =
     wv_any (exec_mux_of i r) {Instr_REM, Instr_REMU, Instr_REMW, Instr_REMUW, Instr_MULH, Instr_MULHSU, Instr_MULHU}"

text \<open>Without a floating-point unit: \<^verbatim>\<open>fpu_ena\<close> is false, its result and its \<^verbatim>\<open>valid\<close> are tied to zero.\<close>

definition stage_units :: "exec_stage \<Rightarrow> exec_units" where
  "stage_units s =
    \<lparr>u_alu = s_alu s, u_addsub = s_addsub s, u_shifter = s_shifter s,
     u_mul = IntMul_o_res (s_mul s), u_mul_valid = IntMul_o_valid (s_mul s),
     u_div = dv_result (s_div s), u_div_valid = IntDiv_o_valid (s_div s), u_fpu = 0, u_fpu_valid = False\<rparr>"

definition stage_latch :: "exec_in \<Rightarrow> exec_stage \<Rightarrow> bool" where
  "stage_latch i s = c_latch_input (snd (InstrExecute_comb False i (stage_units s) (s_regs s)))"

definition InstrExecute_stage :: "exec_in \<Rightarrow> exec_stage \<Rightarrow> exec_stage" where
  "InstrExecute_stage i s =
    (let r = s_regs s; ops = exec_operands i r; a1 = vb_rdata1 ops; a2 = vb_rdata2 ops; hi = w_arith_residual_high i r
     in \<lparr>s_regs = InstrExecute_clock False i (stage_units s) r,
         s_alu = AluLogic_clock (i_nrst i) (wb_alu_mode i r) a1 a2,
         s_addsub = IntAddSub_clock (i_nrst i) (wb_addsub_mode i r) a1 a2,
         s_shifter = Shifter_clock (i_nrst i) (wb_shifter_mode i r) a1 (ucast a2),
         s_mul = IntMul_clock
           \<lparr>mi_nrst = i_nrst i, mi_ena = (stage_latch i s \<and> vb_select False i r Res_IMul), mi_unsigned = dr_unsigned_op (i_d i),
            mi_hsu = wv (exec_mux_of i r) Instr_MULHSU, mi_high = hi, mi_rv32 = dr_rv32 (i_d i), mi_a1 = a1, mi_a2 = a2\<rparr> (s_mul s),
         s_div = IntDiv_clock
           \<lparr>di_nrst = i_nrst i, di_ena = (stage_latch i s \<and> vb_select False i r Res_IDiv), di_unsigned = dr_unsigned_op (i_d i),
            di_rv32 = dr_rv32 (i_d i), di_residual = hi, di_a1 = a1, di_a2 = a2\<rparr> (s_div s)\<rparr>)"

definition o_reg_wdata :: "exec_stage \<Rightarrow> u64" where
  "o_reg_wdata s = vb_res (stage_units s) (s_regs s)"

end
