(* ===== verification/Rtl_Refine.thy ===== *)
theory Rtl_Refine
  imports Rtl_Execute
begin

text \<open>
  What the execution stage of the RTL core does with an instruction that it issues, against the simulator's
  execution of the same word.
\<close>

section \<open>Issuing an instruction\<close>

text \<open>The stage is idle, the decoded instruction is the expected one with its operands ready, and nothing of higher
  priority is pending.\<close>

definition exec_ready :: "exec_in \<Rightarrow> exec_regs \<Rightarrow> bool" where
  "exec_ready i r \<longleftrightarrow> i_nrst i \<and> e_state r = State_Idle \<and> \<not> (e_memop_valid r \<and> \<not> i_memop_ready i) \<and>
     dr_pc (i_d i) = e_npc r \<and> \<not> dr_progbuf_ena (i_d i) \<and> \<not> i_dbg_progbuf_ena i \<and> \<not> w_hazard1 i r \<and> \<not> w_hazard2 i r \<and>
     \<not> i_dbg_mem_req_valid i \<and> \<not> i_haltreq i \<and> \<not> (i_step i \<and> e_stepdone r) \<and> i_irq_pending i = 0 \<and>
     \<not> e_mem_ex_load_fault r \<and> \<not> e_mem_ex_store_fault r \<and> \<not> e_page_fault_r r \<and> \<not> e_page_fault_w r \<and>
     \<not> e_stack_overflow r \<and> \<not> e_stack_underflow r \<and> \<not> dr_instr_load_fault (i_d i) \<and> \<not> dr_instr_page_fault_x (i_d i)"

text \<open>The decoder has the word \<open>w\<close> fetched at \<open>pc\<close>, without a fetch fault.\<close>

definition fetched :: "u64 \<Rightarrow> u32 \<Rightarrow> decoder_in" where
  "fetched pc w = \<lparr>fi_nrst = True, fi_flush_pipeline = False, fi_f_pc = pc, fi_f_instr = w, fi_instr_load_fault = False,
     fi_instr_page_fault_x = False, fi_progbuf_ena = False\<rparr>"

definition issues :: "u64 \<Rightarrow> u32 \<Rightarrow> exec_in \<Rightarrow> exec_regs \<Rightarrow> bool" where
  "issues pc w i r \<longleftrightarrow> i_d i = DecoderRv_clock False (fetched pc w) \<and> exec_ready i r \<and> \<not> bit pc 0"

text \<open>Instructions that finish on the next clock and write a register.\<close>

definition plain_instr :: "nat set" where
  "plain_instr =
    {Instr_ADD, Instr_ADDI, Instr_ADDIW, Instr_ADDW, Instr_AND, Instr_ANDI, Instr_AUIPC, Instr_BEQ, Instr_BGE, Instr_BGEU,
     Instr_BLT, Instr_BLTU, Instr_BNE, Instr_JAL, Instr_JALR, Instr_LUI, Instr_OR, Instr_ORI, Instr_SLLI, Instr_SLT,
     Instr_SLTI, Instr_SLTU, Instr_SLTIU, Instr_SLL, Instr_SLLW, Instr_SLLIW, Instr_SRA, Instr_SRAW, Instr_SRAI, Instr_SRAIW,
     Instr_SRL, Instr_SRLI, Instr_SRLIW, Instr_SRLW, Instr_SUB, Instr_SUBW, Instr_XOR, Instr_XORI}"

lemma decoded_fields:
  assumes "i_d i = DecoderRv_clock False (fetched pc w)"
  shows "dr_pc (i_d i) = pc" "dr_instr_vec (i_d i) = vb_dec False w" "dr_isa_type (i_d i) = vb_isa_type False w"
    "dr_imm (i_d i) = vb_imm False w" "dr_radr1 (i_d i) = vb_radr1 False w" "dr_radr2 (i_d i) = vb_radr2 False w"
    "dr_waddr (i_d i) = vb_waddr False w" "dr_rv32 (i_d i) = v_rv32 (vb_dec False w)" "dr_f64 (i_d i) = v_f64 (vb_dec False w)"
    "dr_amo (i_d i) = v_amo (vb_dec False w)" "dr_memop_load (i_d i) = v_memop_load (vb_dec False w)"
    "dr_memop_store (i_d i) = v_memop_store (vb_dec False w)" "dr_instr_unimplemented (i_d i) = (vb_dec False w = None)"
    "dr_compressed (i_d i) = (bitfield 0 2 w \<noteq> 3)"
  using assms by (simp_all add: DecoderRv_clock_def DecoderRv_comb_def fetched_def Let_def)

text \<open>The stage is about to execute the instruction \<open>k\<close>, from whichever decoder it comes.\<close>

definition plain_issue :: "u64 \<Rightarrow> nat \<Rightarrow> exec_in \<Rightarrow> exec_regs \<Rightarrow> bool" where
  "plain_issue pc k i r \<longleftrightarrow> exec_ready i r \<and> \<not> bit pc 0 \<and> dr_pc (i_d i) = pc \<and> dr_instr_vec (i_d i) = Some k \<and>
     k \<in> plain_instr \<and> \<not> dr_memop_load (i_d i) \<and> \<not> dr_memop_store (i_d i) \<and> \<not> dr_amo (i_d i) \<and>
     \<not> dr_instr_unimplemented (i_d i) \<and> \<not> dr_f64 (i_d i) \<and> dr_rv32 (i_d i) = v_rv32 (Some k)"

lemma issuesD:
  assumes "issues pc w i r"
  shows "i_d i = DecoderRv_clock False (fetched pc w)" "i_nrst i" "e_state r = State_Idle"
    "(e_memop_valid r \<and> \<not> i_memop_ready i) = False" "v_d_valid i r" "\<not> i_dbg_progbuf_ena i" "\<not> w_hazard1 i r" "\<not> w_hazard2 i r"
    "\<not> i_dbg_mem_req_valid i" "\<not> i_haltreq i" "(i_step i \<and> e_stepdone r) = False" "i_irq_pending i = 0"
    "\<not> e_mem_ex_load_fault r" "\<not> e_mem_ex_store_fault r" "\<not> e_page_fault_r r" "\<not> e_page_fault_w r" "\<not> e_stack_overflow r"
    "\<not> e_stack_underflow r" "\<not> dr_instr_load_fault (i_d i)" "\<not> dr_instr_page_fault_x (i_d i)" "\<not> bit pc 0"
  using assms by (auto simp: issues_def exec_ready_def v_d_valid_def)

lemma mux_idle:
  assumes "e_state r = State_Idle"
  shows "mux_ivec (exec_mux_of i r) = dr_instr_vec (i_d i)" "mux_pc (exec_mux_of i r) = dr_pc (i_d i)"
    "mux_isa_type (exec_mux_of i r) = dr_isa_type (i_d i)" "mux_imm (exec_mux_of i r) = dr_imm (i_d i)"
    "mux_rv32 (exec_mux_of i r) = dr_rv32 (i_d i)" "mux_compressed (exec_mux_of i r) = dr_compressed (i_d i)"
    "MemopType_Store (mux_memop_type (exec_mux_of i r)) = dr_memop_store (i_d i)"
    "mux_waddr (exec_mux_of i r) = dr_waddr (i_d i)" "mux_f64 (exec_mux_of i r) = dr_f64 (i_d i)"
  using assms by (simp_all add: exec_mux_of_def Let_def)

lemma plain_flags:
  assumes "k \<in> plain_instr"
  shows "\<not> v_amo (Some k)" "\<not> v_memop_load (Some k)" "\<not> v_memop_store (Some k)" "\<not> v_f64 (Some k)"
proof -
  have "\<forall>k \<in> plain_instr. \<not> v_amo (Some k)" "\<forall>k \<in> plain_instr. \<not> v_memop_load (Some k)"
    "\<forall>k \<in> plain_instr. \<not> v_memop_store (Some k)" "\<forall>k \<in> plain_instr. \<not> v_f64 (Some k)"
    by (simp_all add: plain_instr_def v_amo_def v_memop_load_def v_memop_store_def v_f64_def dec_in_def)
  with assms show "\<not> v_amo (Some k)" "\<not> v_memop_load (Some k)" "\<not> v_memop_store (Some k)" "\<not> v_f64 (Some k)" by blast+
qed

lemma issues_plain:
  assumes "issues pc w i r" and "vb_dec False w = Some k" and "k \<in> plain_instr"
  shows "plain_issue pc k i r"
  using assms plain_flags [OF assms(3)] decoded_fields [OF issuesD(1) [OF assms(1)]] by (simp add: plain_issue_def issues_def)

lemma plain_issueD:
  assumes "plain_issue pc k i r"
  shows "i_nrst i" "e_state r = State_Idle"
    "(e_memop_valid r \<and> \<not> i_memop_ready i) = False" "v_d_valid i r" "\<not> i_dbg_progbuf_ena i" "\<not> w_hazard1 i r" "\<not> w_hazard2 i r"
    "\<not> i_dbg_mem_req_valid i" "\<not> i_haltreq i" "(i_step i \<and> e_stepdone r) = False" "i_irq_pending i = 0"
    "\<not> e_mem_ex_load_fault r" "\<not> e_mem_ex_store_fault r" "\<not> e_page_fault_r r" "\<not> e_page_fault_w r" "\<not> e_stack_overflow r"
    "\<not> e_stack_underflow r" "\<not> dr_instr_load_fault (i_d i)" "\<not> dr_instr_page_fault_x (i_d i)" "\<not> bit pc 0"
    "dr_pc (i_d i) = pc" "k \<in> plain_instr" "mux_ivec (exec_mux_of i r) = Some k" "mux_pc (exec_mux_of i r) = pc"
    "\<not> MemopType_Store (mux_memop_type (exec_mux_of i r))" "mux_rv32 (exec_mux_of i r) = v_rv32 (Some k)"
    "dr_instr_unimplemented (i_d i) = False" "\<not> dr_memop_load (i_d i)" "\<not> dr_memop_store (i_d i)" "\<not> dr_amo (i_d i)"
    "\<not> dr_f64 (i_d i)" "dr_instr_vec (i_d i) = Some k"
  using assms by (auto simp: plain_issue_def exec_ready_def v_d_valid_def mux_idle)

lemma plain_no_csr:
  assumes "plain_issue pc k i r"
  shows "\<not> v_csr_cmd_ena i r"
proof -
  note k = plain_issueD [OF assms]
  have "k \<notin> {Instr_LD, Instr_LW, Instr_LWU, Instr_LH, Instr_LHU, Instr_SD, Instr_SW, Instr_SH}"
    using k(22) by (auto simp: plain_instr_def)
  then have "\<not> v_load_misaligned i r" "\<not> v_store_misaligned i r"
    by (auto simp: v_load_misaligned_def v_store_misaligned_def wv_def wv_any_def dec_in_def k Let_def)
  moreover have "k \<notin> {Instr_WFI, Instr_EBREAK, Instr_ECALL, Instr_MRET, Instr_HRET, Instr_SRET, Instr_URET, Instr_CSRRC,
          Instr_CSRRCI, Instr_CSRRS, Instr_CSRRSI, Instr_CSRRW, Instr_CSRRWI, Instr_FENCE, Instr_FENCE_I, Instr_SFENCE_VMA}"
    using k(22) by (auto simp: plain_instr_def)
  then have "\<not> wv_any (exec_mux_of i r) {Instr_WFI, Instr_EBREAK, Instr_ECALL, Instr_MRET, Instr_HRET, Instr_SRET, Instr_URET,
      Instr_CSRRC, Instr_CSRRCI, Instr_CSRRS, Instr_CSRRSI, Instr_CSRRW, Instr_CSRRWI, Instr_FENCE, Instr_FENCE_I, Instr_SFENCE_VMA}"
    by (simp add: wv_any_def dec_in_def k)
  ultimately show ?thesis by (simp only: v_csr_cmd_ena_def Let_def k simp_thms)
qed

text \<open>An instruction selects one result.\<close>

definition sel_of :: "nat \<Rightarrow> res_sel option" where
  "sel_of k = find (\<lambda>sel. k \<in> select_instrs sel) [Res_Reg2, Res_Ra, Res_Csr, Res_Alu, Res_AddSub, Res_Shifter, Res_IMul, Res_IDiv]"

lemma sel_of_unique: "k \<in> select_instrs sel \<Longrightarrow> sel_of k = Some sel"
proof -
  have "\<forall>k \<in> select_instrs sel. sel_of k = Some sel"
    by (cases sel) (simp_all add: select_instrs_def jump_instrs_def sel_of_def)
  then show "k \<in> select_instrs sel \<Longrightarrow> sel_of k = Some sel" by blast
qed

definition branch_instr :: "nat set" where
  "branch_instr = {Instr_BEQ, Instr_BGE, Instr_BGEU, Instr_BLT, Instr_BLTU, Instr_BNE}"

lemma no_branch:
  assumes "mux_ivec (exec_mux_of i r) = Some k" and "k \<notin> branch_instr"
  shows "\<not> v_pc_branch i r"
  using assms by (simp add: v_pc_branch_def wv_def branch_instr_def Let_def)

lemma selects_one:
  assumes "mux_ivec (exec_mux_of i r) = Some k" and "\<not> MemopType_Store (mux_memop_type (exec_mux_of i r))"
    and "k \<in> select_instrs sel" and "k \<notin> branch_instr" and "x \<noteq> Res_Zero"
  shows "vb_select False i r x \<longleftrightarrow> x = sel"
  using assms no_branch [OF assms(1,4)] sel_of_unique [of k]
  by (auto simp: vb_select_def wv_any_def dec_in_def dest: sel_of_unique)

lemma plain_select:
  assumes "plain_issue pc k i r"
  shows "\<not> vb_select False i r Res_IMul" "\<not> vb_select False i r Res_IDiv" "\<not> vb_select False i r Res_FPU"
proof -
  note k = plain_issueD(23) [OF assms]
  have "\<forall>k \<in> plain_instr. k \<notin> select_instrs Res_IMul" "\<forall>k \<in> plain_instr. k \<notin> select_instrs Res_IDiv"
    by (simp_all add: plain_instr_def select_instrs_def)
  with plain_issueD(22) [OF assms] show "\<not> vb_select False i r Res_IMul" "\<not> vb_select False i r Res_IDiv" "\<not> vb_select False i r Res_FPU"
    by (auto simp: vb_select_def wv_any_def dec_in_def k) (simp add: select_instrs_def)
qed

section \<open>What the parts of the stage keep\<close>

lemma exec_tags_keeps [simp]:
    "e_state (exec_tags r ctl v) = e_state v" "e_csrstate (exec_tags r ctl v) = e_csrstate v"
    "e_amostate (exec_tags r ctl v) = e_amostate v" "e_pc (exec_tags r ctl v) = e_pc v" "e_npc (exec_tags r ctl v) = e_npc v"
    "e_dnpc (exec_tags r ctl v) = e_dnpc v" "e_waddr (exec_tags r ctl v) = e_waddr v"
    "e_rdata1 (exec_tags r ctl v) = e_rdata1 v" "e_rdata2 (exec_tags r ctl v) = e_rdata2 v"
    "e_ivec (exec_tags r ctl v) = e_ivec v" "e_reg_write (exec_tags r ctl v) = e_reg_write v"
    "e_csr_req_type (exec_tags r ctl v) = e_csr_req_type v" "e_csr_req_data (exec_tags r ctl v) = e_csr_req_data v"
    "e_csr_req_rmw (exec_tags r ctl v) = e_csr_req_rmw v" "e_res_ra (exec_tags r ctl v) = e_res_ra v"
    "e_res_csr (exec_tags r ctl v) = e_res_csr v" "e_select (exec_tags r ctl v) = e_select v"
    "e_valid (exec_tags r ctl v) = e_valid v" "e_jmp (exec_tags r ctl v) = e_jmp v" "e_instr (exec_tags r ctl v) = e_instr v"
    "e_radr1 (exec_tags r ctl v) = e_radr1 v"
  by (simp_all add: exec_tags_def)

lemma exec_tags_sets [simp]: "e_reg_waddr (exec_tags r ctl v) = c_reg_waddr ctl" "e_tagcnt (exec_tags r ctl v) = vb_tagcnt_next r ctl"
  by (simp_all add: exec_tags_def)

lemma exec_memop_keeps [simp]:
    "e_state (exec_memop i r ctl v) = e_state v" "e_csrstate (exec_memop i r ctl v) = e_csrstate v"
    "e_amostate (exec_memop i r ctl v) = e_amostate v" "e_pc (exec_memop i r ctl v) = e_pc v"
    "e_npc (exec_memop i r ctl v) = e_npc v" "e_dnpc (exec_memop i r ctl v) = e_dnpc v"
    "e_waddr (exec_memop i r ctl v) = e_waddr v" "e_rdata1 (exec_memop i r ctl v) = e_rdata1 v"
    "e_rdata2 (exec_memop i r ctl v) = e_rdata2 v" "e_ivec (exec_memop i r ctl v) = e_ivec v"
    "e_reg_write (exec_memop i r ctl v) = e_reg_write v" "e_csr_req_type (exec_memop i r ctl v) = e_csr_req_type v"
    "e_csr_req_data (exec_memop i r ctl v) = e_csr_req_data v" "e_csr_req_rmw (exec_memop i r ctl v) = e_csr_req_rmw v"
    "e_res_ra (exec_memop i r ctl v) = e_res_ra v" "e_res_csr (exec_memop i r ctl v) = e_res_csr v"
    "e_select (exec_memop i r ctl v) = e_select v" "e_valid (exec_memop i r ctl v) = e_valid v"
    "e_jmp (exec_memop i r ctl v) = e_jmp v" "e_instr (exec_memop i r ctl v) = e_instr v"
    "e_radr1 (exec_memop i r ctl v) = e_radr1 v"
  by (simp_all add: exec_memop_def Let_def)

lemma exec_memop_waddr [simp]: "\<not> c_memop_ena ctl \<Longrightarrow> e_reg_waddr (exec_memop i r ctl v) = e_reg_waddr v"
  by (simp add: exec_memop_def Let_def)

lemma exec_latch_keeps [simp]:
    "e_state (exec_latch f i r v) = e_state v" "e_csrstate (exec_latch f i r v) = e_csrstate v"
    "e_amostate (exec_latch f i r v) = e_amostate v" "e_reg_write (exec_latch f i r v) = e_reg_write v"
    "e_csr_req_type (exec_latch f i r v) = e_csr_req_type v" "e_csr_req_data (exec_latch f i r v) = e_csr_req_data v"
    "e_csr_req_rmw (exec_latch f i r v) = e_csr_req_rmw v" "e_res_csr (exec_latch f i r v) = e_res_csr v"
    "e_valid (exec_latch f i r v) = e_valid v"
  by (simp_all add: exec_latch_def Let_def)

lemma exec_latch_sets [simp]:
  "e_waddr (exec_latch f i r v) = dr_waddr (i_d i)" "e_rdata1 (exec_latch f i r v) = vb_rdata1 (exec_operands i r)"
  "e_rdata2 (exec_latch f i r v) = vb_rdata2 (exec_operands i r)" "e_ivec (exec_latch f i r v) = dr_instr_vec (i_d i)"
  "e_res_ra (exec_latch f i r v) = vb_npc_incr i r" "e_select (exec_latch f i r v) = vb_select f i r"
  "e_jmp (exec_latch f i r v) = (v_pc_branch i r \<or> wv_any (exec_mux_of i r) jump_instrs)"
  "e_radr1 (exec_latch f i r v) = dr_radr1 (i_d i)" "e_instr (exec_latch f i r v) = dr_instr (i_d i)"
  "e_pc (exec_latch f i r v) = (if i_dbg_progbuf_ena i then e_pc v else dr_pc (i_d i))"
  "e_npc (exec_latch f i r v) = (if i_dbg_progbuf_ena i then e_npc v else vb_prog_npc i r)"
  by (simp_all add: exec_latch_def Let_def)

lemma exec_begin_keeps [simp]:
    "e_state (exec_begin i r) = e_state r" "e_csrstate (exec_begin i r) = e_csrstate r"
    "e_amostate (exec_begin i r) = e_amostate r" "e_pc (exec_begin i r) = e_pc r" "e_npc (exec_begin i r) = e_npc r"
    "e_dnpc (exec_begin i r) = e_dnpc r" "e_waddr (exec_begin i r) = e_waddr r" "e_rdata1 (exec_begin i r) = e_rdata1 r"
    "e_rdata2 (exec_begin i r) = e_rdata2 r" "e_ivec (exec_begin i r) = e_ivec r"
    "e_csr_req_type (exec_begin i r) = e_csr_req_type r" "e_csr_req_data (exec_begin i r) = e_csr_req_data r"
    "e_csr_req_rmw (exec_begin i r) = e_csr_req_rmw r" "e_res_ra (exec_begin i r) = e_res_ra r"
    "e_res_csr (exec_begin i r) = e_res_csr r" "e_select (exec_begin i r) = e_select r" "e_jmp (exec_begin i r) = e_jmp r"
    "e_instr (exec_begin i r) = e_instr r" "e_radr1 (exec_begin i r) = e_radr1 r"
  by (simp_all add: exec_begin_def Let_def)

lemma exec_begin_clears [simp]: "\<not> e_valid (exec_begin i r)" "\<not> e_reg_write (exec_begin i r)"
  by (simp_all add: exec_begin_def Let_def)

text \<open>One clock of the stage on such an instruction.\<close>

lemma issue_plain:
  fixes u :: exec_units
  assumes "plain_issue pc k i r"
  defines "r' \<equiv> InstrExecute_clock False i u r"
  shows "e_valid r'" "e_state r' = State_Idle" "e_pc r' = pc" "e_npc r' = vb_prog_npc i r"
    "e_reg_write r' = (dr_waddr (i_d i) \<noteq> 0)" "dr_waddr (i_d i) \<noteq> 0 \<Longrightarrow> e_reg_waddr r' = dr_waddr (i_d i)"
    "e_select r' = vb_select False i r" "e_rdata2 r' = vb_rdata2 (exec_operands i r)" "e_res_ra r' = vb_npc_incr i r"
    "e_jmp r' = (v_pc_branch i r \<or> wv_any (exec_mux_of i r) jump_instrs)"
proof -
  note rd = plain_issueD [OF assms(1)] and c = plain_no_csr [OF assms(1)] plain_select [OF assms(1)]
  have "exec_idle False i r (v, ctl) =
      (v\<lparr>e_stepdone := i_step i, e_valid := True\<rparr>, ctl\<lparr>c_latch_input := True, c_reg_ena := (dr_waddr (i_d i) \<noteq> 0)\<rparr>)" for v ctl
    by (simp add: exec_idle_def rd c)
  then have step: "exec_step False i u r (v, ctl) =
      (v\<lparr>e_stepdone := i_step i, e_valid := True\<rparr>, ctl\<lparr>c_latch_input := True, c_reg_ena := (dr_waddr (i_d i) \<noteq> 0)\<rparr>)" for v ctl
    by (simp add: exec_step_def rd(2))
  note defs = r'_def InstrExecute_clock_def InstrExecute_comb_def step exec_ctl_init_def Let_def
  show "e_valid r'" "e_state r' = State_Idle" "e_pc r' = pc" "e_npc r' = vb_prog_npc i r"
    "e_reg_write r' = (dr_waddr (i_d i) \<noteq> 0)" "dr_waddr (i_d i) \<noteq> 0 \<Longrightarrow> e_reg_waddr r' = dr_waddr (i_d i)"
    "e_select r' = vb_select False i r" "e_rdata2 r' = vb_rdata2 (exec_operands i r)" "e_res_ra r' = vb_npc_incr i r"
    "e_jmp r' = (v_pc_branch i r \<or> wv_any (exec_mux_of i r) jump_instrs)"
    by (simp_all add: defs rd)
qed

section \<open>The result written back\<close>

lemma result_of:
  assumes "plain_issue pc k i (s_regs s)" and "k \<in> select_instrs sel" and "k \<notin> branch_instr"
  defines "r \<equiv> s_regs s"
  shows "o_reg_wdata (InstrExecute_stage i s) = (case sel of
     Res_Reg2 \<Rightarrow> vb_rdata2 (exec_operands i r)
   | Res_Ra \<Rightarrow> vb_npc_incr i r
   | Res_Alu \<Rightarrow> AluLogic_res (wb_alu_mode i r) (vb_rdata1 (exec_operands i r)) (vb_rdata2 (exec_operands i r))
   | Res_AddSub \<Rightarrow> IntAddSub_res (wb_addsub_mode i r) (vb_rdata1 (exec_operands i r)) (vb_rdata2 (exec_operands i r))
   | Res_Shifter \<Rightarrow> Shifter_res (wb_shifter_mode i r) (vb_rdata1 (exec_operands i r)) (ucast (vb_rdata2 (exec_operands i r)))
   | _ \<Rightarrow> o_reg_wdata (InstrExecute_stage i s))"
proof -
  note rd = plain_issueD [OF assms(1)]
  note one = selects_one [OF rd(23,25) assms(2,3)] and I = issue_plain [OF assms(1)]
  show ?thesis
    by (cases sel) (simp_all add: o_reg_wdata_def InstrExecute_stage_def Let_def vb_res_def I one r_def stage_units_def
        AluLogic_clock_def IntAddSub_clock_def Shifter_clock_def rd)
qed

section \<open>The operands of an issued instruction\<close>

definition type_of :: "nat \<Rightarrow> isa_type" where
  "type_of k =
    (if k \<in> {Instr_FENCE, Instr_FENCE_I} then ISA_None
     else if k \<in> {Instr_AUIPC, Instr_LUI} then ISA_U_type
     else if k = Instr_JAL then ISA_UJ_type
     else if k \<in> {Instr_SB, Instr_SH, Instr_SW, Instr_SD} then ISA_S_type
     else if k \<in> {Instr_BEQ, Instr_BGE, Instr_BGEU, Instr_BLT, Instr_BLTU, Instr_BNE} then ISA_SB_type
     else if k \<in> {Instr_ADDI, Instr_ADDIW, Instr_ANDI, Instr_JALR, Instr_LB, Instr_LH, Instr_LW, Instr_LD, Instr_LBU, Instr_LHU,
       Instr_LWU, Instr_ORI, Instr_SLLI, Instr_SLTI, Instr_SLTIU, Instr_SLLIW, Instr_SRAI, Instr_SRAIW, Instr_SRLI, Instr_SRLIW,
       Instr_XORI, Instr_CSRRW, Instr_CSRRS, Instr_CSRRC, Instr_CSRRWI, Instr_CSRRCI, Instr_CSRRSI, Instr_URET, Instr_SRET,
       Instr_HRET, Instr_MRET, Instr_WFI, Instr_SFENCE_VMA, Instr_ECALL, Instr_EBREAK} then ISA_I_type
     else ISA_R_type)"

lemma dec_groups:
  "dec_amo w = Some k \<Longrightarrow> type_of k = ISA_R_type" "dec_add w = Some k \<Longrightarrow> type_of k = ISA_R_type"
  "dec_addw w = Some k \<Longrightarrow> type_of k = ISA_R_type" "dec_addi w = Some k \<Longrightarrow> type_of k = ISA_I_type"
  "dec_addiw w = Some k \<Longrightarrow> type_of k = ISA_I_type" "dec_load w = Some k \<Longrightarrow> type_of k = ISA_I_type"
  "dec_system w = Some k \<Longrightarrow> type_of k = ISA_I_type" "dec_branch w = Some k \<Longrightarrow> type_of k = ISA_SB_type"
  "dec_store w = Some k \<Longrightarrow> type_of k = ISA_S_type"
  by (auto simp: dec_amo_def dec_add_def dec_addw_def dec_addi_def dec_addiw_def dec_load_def dec_system_def dec_branch_def
      dec_store_def type_of_def Let_def split: if_splits)

lemma dec_type:
  assumes "vb_dec False w = Some k"
  shows "vb_isa_type False w = type_of k"
proof -
  let ?o = "bitfield 2 5 w"
  consider "?o = OPCODE_AMO" | "?o = OPCODE_ADD" | "?o = OPCODE_ADDI" | "?o = OPCODE_ADDIW" | "?o = OPCODE_ADDW" | "?o = OPCODE_AUIPC"
    | "?o = OPCODE_BEQ" | "?o = OPCODE_JAL" | "?o = OPCODE_JALR" | "?o = OPCODE_LB" | "?o = OPCODE_LUI" | "?o = OPCODE_SB"
    | "?o = OPCODE_CSRR" | "?o = OPCODE_FENCE"
    using assms unfolding vb_dec_def Let_def by (metis option.distinct(1))
  then show ?thesis
    using assms
    by cases (simp_all add: vb_dec_def vb_isa_type_def dec_groups Let_def, auto simp: type_of_def [where k = "numeral n" for n] type_of_def [where k = "Suc n" for n] split: if_split_asm)
qed

section \<open>Simulation of the arithmetic instructions\<close>

text \<open>The stage \<open>s\<close> issues the word \<open>w\<close>; the operands it uses, whose tags it checks, and its program counter are those of the
  simulated core \<open>st\<close>.\<close>

definition rtl_sim :: "u32 \<Rightarrow> exec_in \<Rightarrow> exec_stage \<Rightarrow> 'b cpu \<Rightarrow> bool" where
  "rtl_sim w i s st \<longleftrightarrow> issues (pc_of st) w i (s_regs s) \<and>
     (v_check_tag1 (exec_operands i (s_regs s)) \<longrightarrow> i_rdata1 i = regs st (unat (vb_radr1 False w))) \<and>
     (v_check_tag2 (exec_operands i (s_regs s)) \<longrightarrow> i_rdata2 i = regs st (unat (vb_radr2 False w)))"

lemma sim_plain: "rtl_sim w i s st \<Longrightarrow> vb_dec False w = Some k \<Longrightarrow> k \<in> plain_instr \<Longrightarrow> plain_issue (pc_of st) k i (s_regs s)"
  by (rule issues_plain) (auto simp: rtl_sim_def)

lemma sim_operands:
  assumes "rtl_sim w i s st" and "vb_dec False w = Some k" and "type_of k = ty"
  shows "ty = ISA_R_type \<Longrightarrow> vb_rdata1 (exec_operands i (s_regs s)) = regs st (ISA_rs1 w)"
    "ty = ISA_R_type \<Longrightarrow> vb_rdata2 (exec_operands i (s_regs s)) = regs st (ISA_rs2 w)"
    "ty = ISA_I_type \<Longrightarrow> vb_rdata1 (exec_operands i (s_regs s)) = regs st (ISA_rs1 w)"
    "ty = ISA_I_type \<Longrightarrow> vb_rdata2 (exec_operands i (s_regs s)) = sext_imm12 (ISA_I_imm w)"
    "ty = ISA_U_type \<Longrightarrow> vb_rdata1 (exec_operands i (s_regs s)) = pc_of st"
    "ty = ISA_U_type \<Longrightarrow> vb_rdata2 (exec_operands i (s_regs s)) = ISA_U_off w"
    "ty = ISA_SB_type \<Longrightarrow> vb_rdata1 (exec_operands i (s_regs s)) = regs st (ISA_rs1 w)"
    "ty = ISA_SB_type \<Longrightarrow> vb_rdata2 (exec_operands i (s_regs s)) = regs st (ISA_rs2 w)"
    "ty = ISA_SB_type \<Longrightarrow> vb_off (exec_operands i (s_regs s)) = ISA_SB_off w"
    "ty = ISA_UJ_type \<Longrightarrow> vb_rdata1 (exec_operands i (s_regs s)) = pc_of st"
    "ty = ISA_UJ_type \<Longrightarrow> vb_off (exec_operands i (s_regs s)) = ISA_UJ_off w"
proof -
  have iss: "issues (pc_of st) w i (s_regs s)" using assms(1) by (simp add: rtl_sim_def)
  have t: "vb_isa_type False w = ty" using dec_type [OF assms(2)] assms(3) by simp
  note d = decoded_fields [OF issuesD(1) [OF iss]] issuesD(3) [OF iss] and im = vb_imm_I [of False w] vb_imm_U [of False w]
    vb_imm_SB [of False w] vb_imm_UJ [of False w]
  show "ty = ISA_R_type \<Longrightarrow> vb_rdata1 (exec_operands i (s_regs s)) = regs st (ISA_rs1 w)"
    "ty = ISA_R_type \<Longrightarrow> vb_rdata2 (exec_operands i (s_regs s)) = regs st (ISA_rs2 w)"
    "ty = ISA_I_type \<Longrightarrow> vb_rdata1 (exec_operands i (s_regs s)) = regs st (ISA_rs1 w)"
    "ty = ISA_I_type \<Longrightarrow> vb_rdata2 (exec_operands i (s_regs s)) = sext_imm12 (ISA_I_imm w)"
    "ty = ISA_U_type \<Longrightarrow> vb_rdata1 (exec_operands i (s_regs s)) = pc_of st"
    "ty = ISA_U_type \<Longrightarrow> vb_rdata2 (exec_operands i (s_regs s)) = ISA_U_off w"
    "ty = ISA_SB_type \<Longrightarrow> vb_rdata1 (exec_operands i (s_regs s)) = regs st (ISA_rs1 w)"
    "ty = ISA_SB_type \<Longrightarrow> vb_rdata2 (exec_operands i (s_regs s)) = regs st (ISA_rs2 w)"
    "ty = ISA_SB_type \<Longrightarrow> vb_off (exec_operands i (s_regs s)) = ISA_SB_off w"
    "ty = ISA_UJ_type \<Longrightarrow> vb_rdata1 (exec_operands i (s_regs s)) = pc_of st"
    "ty = ISA_UJ_type \<Longrightarrow> vb_off (exec_operands i (s_regs s)) = ISA_UJ_off w"
    using assms(1) t im by (simp_all add: exec_operands_def rtl_sim_def mux_idle d vb_regs)
qed

text \<open>The value of the selected unit, as a function of the instruction and its operands.\<close>

definition rtl_value :: "nat \<Rightarrow> u64 \<Rightarrow> u64 \<Rightarrow> u64" where
  "rtl_value k a b =
    (case sel_of k of
       Some Res_Reg2 \<Rightarrow> b
     | Some Res_Alu \<Rightarrow> AluLogic_res (vec_of [k \<in> {Instr_AND, Instr_ANDI}, k \<in> {Instr_OR, Instr_ORI}, k \<in> {Instr_XOR, Instr_XORI}]) a b
     | Some Res_AddSub \<Rightarrow>
         IntAddSub_res (vec_of [v_rv32 (Some k), k \<in> {Instr_SLTU, Instr_SLTIU},
           k \<in> {Instr_ADD, Instr_ADDI, Instr_ADDW, Instr_ADDIW, Instr_AUIPC}, k \<in> {Instr_SUB, Instr_SUBW},
           k \<in> {Instr_SLT, Instr_SLTI, Instr_SLTU, Instr_SLTIU}, False, False]) a b
     | Some Res_Shifter \<Rightarrow>
         Shifter_res (vec_of [v_rv32 (Some k), k \<in> {Instr_SLL, Instr_SLLI, Instr_SLLW, Instr_SLLIW},
           k \<in> {Instr_SRL, Instr_SRLI, Instr_SRLW, Instr_SRLIW}, k \<in> {Instr_SRA, Instr_SRAI, Instr_SRAW, Instr_SRAIW}]) a (ucast b)
     | _ \<Rightarrow> 0)"

definition value_instr :: "nat set" where
  "value_instr = plain_instr - branch_instr - jump_instrs"

lemma value_instr_eq:
  "value_instr = {Instr_ADD, Instr_ADDI, Instr_ADDIW, Instr_ADDW, Instr_AND, Instr_ANDI, Instr_AUIPC, Instr_LUI, Instr_OR,
     Instr_ORI, Instr_SLLI, Instr_SLT, Instr_SLTI, Instr_SLTU, Instr_SLTIU, Instr_SLL, Instr_SLLW, Instr_SLLIW, Instr_SRA,
     Instr_SRAW, Instr_SRAI, Instr_SRAIW, Instr_SRL, Instr_SRLI, Instr_SRLIW, Instr_SRLW, Instr_SUB, Instr_SUBW, Instr_XOR,
     Instr_XORI}"
  by (simp add: value_instr_def plain_instr_def branch_instr_def jump_instrs_def insert_Diff_if)

lemma value_instr_sel:
  assumes "k \<in> value_instr"
  obtains sel where "k \<in> select_instrs sel" "sel \<in> {Res_Reg2, Res_Alu, Res_AddSub, Res_Shifter}"
proof -
  have "\<forall>k \<in> value_instr. k \<in> select_instrs Res_Reg2 \<or> k \<in> select_instrs Res_Alu \<or> k \<in> select_instrs Res_AddSub \<or>
      k \<in> select_instrs Res_Shifter"
    unfolding value_instr_eq by (simp add: select_instrs_def)
  with assms that show thesis by blast
qed

lemma plain_value_of:
  assumes iss: "plain_issue pc k i (s_regs s)" and k: "k \<in> value_instr"
  shows "o_reg_wdata (InstrExecute_stage i s) =
     rtl_value k (vb_rdata1 (exec_operands i (s_regs s))) (vb_rdata2 (exec_operands i (s_regs s)))"
proof -
  have pl: "k \<in> plain_instr" "k \<notin> branch_instr" using k by (simp_all add: value_instr_def)
  have amo: "\<forall>k \<in> plain_instr. k \<notin> {Instr_AMOAND_D, Instr_AMOAND_W, Instr_AMOOR_D, Instr_AMOOR_W, Instr_AMOXOR_D, Instr_AMOXOR_W,
      Instr_AMOADD_D, Instr_AMOADD_W, Instr_AMOSWAP_D, Instr_AMOSWAP_W, Instr_AMOMIN_D, Instr_AMOMIN_W, Instr_AMOMINU_D,
      Instr_AMOMINU_W, Instr_AMOMAX_D, Instr_AMOMAX_W, Instr_AMOMAXU_D, Instr_AMOMAXU_W}"
    by (simp add: plain_instr_def)
  obtain sel where sel: "k \<in> select_instrs sel" "sel \<in> {Res_Reg2, Res_Alu, Res_AddSub, Res_Shifter}"
    using k by (rule value_instr_sel)
  note m = plain_issueD(23,26) [OF iss]
  have modes: "wb_alu_mode i (s_regs s) = vec_of [k \<in> {Instr_AND, Instr_ANDI}, k \<in> {Instr_OR, Instr_ORI}, k \<in> {Instr_XOR, Instr_XORI}]"
    "wb_addsub_mode i (s_regs s) = vec_of [v_rv32 (Some k), k \<in> {Instr_SLTU, Instr_SLTIU},
           k \<in> {Instr_ADD, Instr_ADDI, Instr_ADDW, Instr_ADDIW, Instr_AUIPC}, k \<in> {Instr_SUB, Instr_SUBW},
           k \<in> {Instr_SLT, Instr_SLTI, Instr_SLTU, Instr_SLTIU}, False, False]"
    "wb_shifter_mode i (s_regs s) = vec_of [v_rv32 (Some k), k \<in> {Instr_SLL, Instr_SLLI, Instr_SLLW, Instr_SLLIW},
           k \<in> {Instr_SRL, Instr_SRLI, Instr_SRLW, Instr_SRLIW}, k \<in> {Instr_SRA, Instr_SRAI, Instr_SRAW, Instr_SRAIW}]"
    using bspec [OF amo pl(1)]
    by (simp_all add: wb_alu_mode_def wb_addsub_mode_def wb_shifter_mode_def wv_any_def dec_in_def m Let_def)
  have "sel_of k = Some sel" by (rule sel_of_unique [OF sel(1)])
  with sel(2) result_of [OF iss sel(1) pl(2)] show ?thesis
    unfolding rtl_value_def modes [symmetric] by (elim insertE) simp_all
qed

lemma rtl_value_logic:
  "rtl_value Instr_AND a b = a AND b" "rtl_value Instr_ANDI a b = a AND b" "rtl_value Instr_OR a b = a OR b"
  "rtl_value Instr_ORI a b = a OR b" "rtl_value Instr_XOR a b = a XOR b" "rtl_value Instr_XORI a b = a XOR b"
  "rtl_value Instr_LUI a b = b"
  by (simp_all add: rtl_value_def sel_of_def select_instrs_def jump_instrs_def AluLogic_res_def)

lemma rtl_value_addsub:
  "rtl_value Instr_ADD a b = a + b" "rtl_value Instr_ADDI a b = a + b" "rtl_value Instr_AUIPC a b = a + b"
  "rtl_value Instr_SUB a b = a - b"
  "rtl_value Instr_ADDW a b = sext32 (a + b)" "rtl_value Instr_ADDIW a b = sext32 (a + b)" "rtl_value Instr_SUBW a b = sext32 (a - b)"
  "rtl_value Instr_SLTU a b = (if a < b then 1 else 0)" "rtl_value Instr_SLTIU a b = (if a < b then 1 else 0)"
  "rtl_value Instr_SLT a b = of_bool (bit (a - b) 63)" "rtl_value Instr_SLTI a b = of_bool (bit (a - b) 63)"
  by (simp_all add: rtl_value_def sel_of_def select_instrs_def jump_instrs_def IntAddSub_modes v_rv32_def dec_in_def)

lemma shift_amounts:
  fixes b :: u64
  shows "unat (ucast b :: 6 word) = unat (b AND 0x3F)" "unat (bitfield 0 5 (ucast b :: 6 word)) = unat (b AND 0x1F)"
    "unat (b AND 0x3F) < 64" "unat (b AND 0x1F) < 32"
proof -
  have m: "b AND 0x3F = take_bit 6 b" "b AND 0x1F = take_bit 5 b" by (simp_all add: take_bit_eq_mask mask_numeral)
  show "unat (ucast b :: 6 word) = unat (b AND 0x3F)" unfolding m by (simp add: unsigned_ucast_eq unsigned_take_bit_eq)
  have "bitfield 0 5 (ucast b :: 6 word) = ucast (take_bit 5 b)" by (rule bit_word_eqI) (auto simp: bit_simps)
  then show "unat (bitfield 0 5 (ucast b :: 6 word)) = unat (b AND 0x1F)"
    unfolding m by (simp add: unsigned_ucast_eq unsigned_take_bit_eq)
  show "unat (b AND 0x3F) < 64" "unat (b AND 0x1F) < 32"
    using take_bit_nat_less_exp [of 6 "unat b"] take_bit_nat_less_exp [of 5 "unat b"] unfolding m by (simp_all add: unsigned_take_bit_eq)
qed

lemma rtl_value_shift:
  "rtl_value Instr_SLL a b = push_bit (unat (b AND 0x3F)) a" "rtl_value Instr_SLLI a b = push_bit (unat (b AND 0x3F)) a"
  "rtl_value Instr_SRL a b = drop_bit (unat (b AND 0x3F)) a" "rtl_value Instr_SRLI a b = drop_bit (unat (b AND 0x3F)) a"
  "rtl_value Instr_SRA a b = signed_drop_bit (unat (b AND 0x3F)) a" "rtl_value Instr_SRAI a b = signed_drop_bit (unat (b AND 0x3F)) a"
  "rtl_value Instr_SLLW a b = sext32 (push_bit (unat (b AND 0x1F)) a)" "rtl_value Instr_SLLIW a b = sext32 (push_bit (unat (b AND 0x1F)) a)"
  "rtl_value Instr_SRLW a b = scast (drop_bit (unat (b AND 0x1F)) (ucast a :: u32))"
  "rtl_value Instr_SRLIW a b = scast (drop_bit (unat (b AND 0x1F)) (ucast a :: u32))"
  "rtl_value Instr_SRAW a b = scast (signed_drop_bit (unat (b AND 0x1F)) (ucast a :: u32))"
  "rtl_value Instr_SRAIW a b = scast (signed_drop_bit (unat (b AND 0x1F)) (ucast a :: u32))"
  by (simp_all add: rtl_value_def sel_of_def select_instrs_def jump_instrs_def Shifter_res_def v_rv32_def dec_in_def
      shift_amounts srl_slice sra_slice sllw_slice srlw_slice sraw_slice Let_def)

text \<open>The operands by the format.\<close>

definition sim_op1 :: "nat \<Rightarrow> u32 \<Rightarrow> 'b cpu \<Rightarrow> u64" where
  "sim_op1 k w st = (if type_of k = ISA_U_type then pc_of st else regs st (ISA_rs1 w))"

definition sim_op2 :: "nat \<Rightarrow> u32 \<Rightarrow> 'b cpu \<Rightarrow> u64" where
  "sim_op2 k w st =
    (if type_of k = ISA_U_type then ISA_U_off w else if type_of k = ISA_I_type then sext_imm12 (ISA_I_imm w) else regs st (ISA_rs2 w))"

lemma sim_value_ops:
  assumes "rtl_sim w i s st" and "vb_dec False w = Some k" and "k \<in> value_instr"
  shows "o_reg_wdata (InstrExecute_stage i s) = rtl_value k (sim_op1 k w st) (sim_op2 k w st)"
    "vb_rdata1 (exec_operands i (s_regs s)) = sim_op1 k w st" "vb_rdata2 (exec_operands i (s_regs s)) = sim_op2 k w st"
proof -
  have "\<forall>k \<in> value_instr. type_of k \<in> {ISA_R_type, ISA_I_type, ISA_U_type}"
    unfolding value_instr_eq by (simp add: type_of_def)
  with assms(3) consider "type_of k = ISA_R_type" | "type_of k = ISA_I_type" | "type_of k = ISA_U_type" by blast
  then show ops: "vb_rdata1 (exec_operands i (s_regs s)) = sim_op1 k w st" "vb_rdata2 (exec_operands i (s_regs s)) = sim_op2 k w st"
    using sim_operands [OF assms(1,2) refl] by (cases; simp add: sim_op1_def sim_op2_def)+
  show "o_reg_wdata (InstrExecute_stage i s) = rtl_value k (sim_op1 k w st) (sim_op2 k w st)"
    using plain_value_of [OF sim_plain [OF assms(1,2)] assms(3)] assms(3) by (simp add: ops value_instr_def)
qed

text \<open>The simulator writes the value of the unit.\<close>

definition value_matches :: "'b riscv_instr \<Rightarrow> bool" where
  "value_matches ins \<longleftrightarrow> (\<forall>cache st. iparse ins (buf32_0 cache) \<longrightarrow>
     (case rtl_index (iname ins) of None \<Rightarrow> True | Some k \<Rightarrow> k \<in> value_instr \<longrightarrow>
        (k \<in> {Instr_SLT, Instr_SLTI} \<longrightarrow> sub_fits (sim_op1 k (buf32_0 cache) st) (sim_op2 k (buf32_0 cache) st)) \<longrightarrow>
        run_state (iexec ins cache) st =
          (4, write_rd (buf32_0 cache) (rtl_value k (sim_op1 k (buf32_0 cache) st) (sim_op2 k (buf32_0 cache) st)) st)))"

lemma value_matches_mk:
  "value_matches (mk_instr nm bits ex) \<longleftrightarrow> (\<forall>cache st. parse_pattern bits (buf32_0 cache) \<longrightarrow>
     (case rtl_index nm of None \<Rightarrow> True | Some k \<Rightarrow> k \<in> value_instr \<longrightarrow>
        (k \<in> {Instr_SLT, Instr_SLTI} \<longrightarrow> sub_fits (sim_op1 k (buf32_0 cache) st) (sim_op2 k (buf32_0 cache) st)) \<longrightarrow>
        run_state (ex cache) st =
          (4, write_rd (buf32_0 cache) (rtl_value k (sim_op1 k (buf32_0 cache) st) (sim_op2 k (buf32_0 cache) st)) st)))"
  unfolding value_matches_def mk_instr_def riscv_instr.select_convs ..

lemma imm_shamt:
  "sext_imm12 (ISA_I_imm w) AND 0x3F = ISA_I_imm w AND 0x3F" "sext_imm12 (ISA_I_imm w) AND 0x1F = ISA_I_imm w AND 0x1F"
proof -
  have m: "(0x3F :: u64) = mask 6" "(0x1F :: u64) = mask 5" by (simp_all add: mask_numeral)
  have imm: "bit (ISA_I_imm w) k \<longleftrightarrow> k < 12 \<and> bit w (20 + k)" for k by (auto simp: ISA_I_imm_def bit_simps)
  have ext: "bit (sext_imm12 (ISA_I_imm w)) k \<longleftrightarrow> (if k < 12 then bit (ISA_I_imm w) k else k < 64 \<and> bit (ISA_I_imm w) 11)" for k
    by (rule bit_sext_imm12) (simp add: imm)
  show "sext_imm12 (ISA_I_imm w) AND 0x3F = ISA_I_imm w AND 0x3F" "sext_imm12 (ISA_I_imm w) AND 0x1F = ISA_I_imm w AND 0x1F"
    unfolding m by (rule bit_word_eqI, auto simp: ext bit_and_iff bit_mask_iff)+
qed

lemma sext32_ucast: "sext32 (ucast (x :: u32)) = scast x"
proof -
  have "ucast (ucast x :: u64) = x" by (rule bit_word_eqI) (auto simp: bit_simps)
  then show ?thesis by (simp add: sext32_scast)
qed

lemmas value_eval = rtl_value_logic rtl_value_addsub rtl_value_shift sim_op1_def sim_op2_def type_of_def write_rd_def Let_def
  sub_sign imm_shamt sext32_ucast rtl_value_addsub(2) [unfolded One_nat_def]

lemma iw_shamt:
  assumes "parse_pattern bits w" and "length bits = 32" and "bits ! 6 = CHR ''0''"
  shows "drop_bit 5 (ISA_I_imm w) AND 1 = 0"
proof -
  have "\<not> bit w 25"
    using parse_pattern_iff [OF assms(2), of w, THEN iffD1, OF assms(1), rule_format, of 6] assms(3) by simp
  then have "drop_bit 5 (ISA_I_imm w) AND mask 1 = 0"
    by (intro bit_word_eqI) (auto simp: ISA_I_imm_def bit_simps intro: gr0I)
  then show ?thesis by (simp add: mask_eq_exp_minus_1)
qed

lemma iw_matches:
  "value_matches (mk_instr ''SLLIW'' ''0000000??????????001?????0011011'' (exec_SLLIW c))"
  "value_matches (mk_instr ''SRAIW'' ''0100000??????????101?????0011011'' (exec_SRAIW c))"
  using iw_shamt [of "''0000000??????????001?????0011011''"] iw_shamt [of "''0100000??????????101?????0011011''"]
  by (simp_all add: value_matches_mk rtl_index_def value_instr_eq exec_SLLIW_def exec_SRAIW_def value_eval)

lemma user_matches: "list_all value_matches (isaUserRV64I c)"
  unfolding isaUserRV64I_def list.pred_inject
  by (intro conjI TrueI iw_matches; simp add: value_matches_mk rtl_index_def value_instr_eq rv64i_defs value_eval)

lemma other_matches:
  "list_all value_matches (isaPrivilegedRV64I c)" "list_all value_matches (isaExtensionM c)" "list_all value_matches (isaExtensionA c)"
  unfolding isaPrivilegedRV64I_def isaExtensionM_def isaExtensionA_def list.pred_inject
  by (intro conjI TrueI; simp add: value_matches_mk rtl_index_def value_instr_eq)+

section \<open>Simulation of the branches and jumps\<close>

definition branch_taken :: "nat \<Rightarrow> u64 \<Rightarrow> u64 \<Rightarrow> bool" where
  "branch_taken k a b \<longleftrightarrow>
     k = Instr_BEQ \<and> a = b \<or> k = Instr_BNE \<and> a \<noteq> b \<or> k = Instr_BLT \<and> bit (a - b) 63 \<or> k = Instr_BGE \<and> \<not> bit (a - b) 63 \<or>
     k = Instr_BLTU \<and> a < b \<or> k = Instr_BGEU \<and> b \<le> a"

text \<open>The next program counter of the stage, as a function of the instruction.\<close>

definition rtl_next :: "nat \<Rightarrow> u32 \<Rightarrow> 'b cpu \<Rightarrow> u64" where
  "rtl_next k w st =
    (if branch_taken k (regs st (ISA_rs1 w)) (regs st (ISA_rs2 w)) then pc_of st + ISA_SB_off w
     else if k = Instr_JAL then pc_of st + ISA_UJ_off w
     else if k = Instr_JALR then (regs st (ISA_rs1 w) + sext_imm12 (ISA_I_imm w)) AND NOT 1
     else pc_of st + 4)"

lemma plain_types:
  assumes "k \<in> plain_instr"
  shows "k \<in> branch_instr \<longleftrightarrow> type_of k = ISA_SB_type" "type_of k \<noteq> ISA_None" "type_of k \<noteq> ISA_S_type"
    "k \<in> branch_instr \<or> k \<in> value_instr \<or> k = Instr_JAL \<or> k = Instr_JALR" "\<not> v_memop_store (Some k)"
proof -
  have "\<forall>k \<in> plain_instr. (k \<in> branch_instr \<longleftrightarrow> type_of k = ISA_SB_type)" "\<forall>k \<in> plain_instr. type_of k \<noteq> ISA_None"
    "\<forall>k \<in> plain_instr. type_of k \<noteq> ISA_S_type"
    by (simp_all add: plain_instr_def branch_instr_def type_of_def)
  with assms show "k \<in> branch_instr \<longleftrightarrow> type_of k = ISA_SB_type" "type_of k \<noteq> ISA_None" "type_of k \<noteq> ISA_S_type" by blast+
  have "\<forall>k \<in> jump_instrs. k \<in> plain_instr \<longrightarrow> k = Instr_JAL \<or> k = Instr_JALR"
    by (simp add: jump_instrs_def plain_instr_def)
  with assms show "k \<in> branch_instr \<or> k \<in> value_instr \<or> k = Instr_JAL \<or> k = Instr_JALR" by (auto simp: value_instr_def)
qed (use plain_flags [OF assms] in simp)

lemma sim_issue:
  assumes sim: "rtl_sim w i s st" and dec: "vb_dec False w = Some k" and k: "k \<in> plain_instr" and wide: "w AND 3 = 3"
  defines "r' \<equiv> s_regs (InstrExecute_stage i s)"
  shows "e_valid r'" "e_npc r' = rtl_next k w st" "e_reg_write r' \<longleftrightarrow> k \<notin> branch_instr \<and> ISA_rd w \<noteq> 0"
    "k \<notin> branch_instr \<Longrightarrow> ISA_rd w \<noteq> 0 \<Longrightarrow> unat (e_reg_waddr r') = ISA_rd w"
    "k \<in> {Instr_JAL, Instr_JALR} \<Longrightarrow> o_reg_wdata (InstrExecute_stage i s) = pc_of st + 4"
proof -
  have iss: "issues (pc_of st) w i (s_regs s)" using sim by (simp add: rtl_sim_def)
  note d = decoded_fields [OF issuesD(1) [OF iss]] and pl = issues_plain [OF iss dec k]
  note I = issue_plain [OF pl, unfolded d] and m = plain_issueD(23,25) [OF pl]
    and idle = issuesD(3) [OF iss] and ops = sim_operands [OF sim dec refl]
  have r': "r' = InstrExecute_clock False i (stage_units s) (s_regs s)" by (simp add: r'_def InstrExecute_stage_def Let_def)
  have "bitfield 0 2 w = 3" using wide by (simp add: bitfield_def take_bit_eq_mask mask_numeral)
  then have incr: "vb_npc_incr i (s_regs s) = pc_of st + 4"
    by (simp add: vb_npc_incr_def opcode_len_def mux_idle idle d)
  have br: "v_pc_branch i (s_regs s) \<longleftrightarrow> branch_taken k (regs st (ISA_rs1 w)) (regs st (ISA_rs2 w))"
  proof (cases "k \<in> branch_instr")
    case True
    then have "type_of k = ISA_SB_type" by (simp add: plain_types(1) [OF k])
    with ops show ?thesis by (simp add: v_pc_branch_def wv_def m branch_taken_def Let_def) auto
  next
    case False
    then show ?thesis using no_branch [OF m(1)] by (simp add: branch_taken_def branch_instr_def)
  qed
  have t: "branch_taken k a b \<Longrightarrow> type_of k = ISA_SB_type" "type_of Instr_JAL = ISA_UJ_type" "type_of Instr_JALR = ISA_I_type" for a b
    by (auto simp: branch_taken_def type_of_def)
  show "e_valid r'" by (simp add: r' I)
  show "e_npc r' = rtl_next k w st"
    using ops t by (auto simp: r' I vb_prog_npc_def rtl_next_def br incr wv_def m mux_idle idle d Let_def)
  have wa: "unat (vb_waddr False w) = (if k \<in> branch_instr then 0 else ISA_rd w)"
    using plain_types [OF k] dec_type [OF dec] by (cases "type_of k") (simp_all add: vb_regs)
  show "e_reg_write r' \<longleftrightarrow> k \<notin> branch_instr \<and> ISA_rd w \<noteq> 0"
    unfolding r' I(5) using wa unsigned_eq_0_iff [where 'a = nat, of "vb_waddr False w"] by (auto split: if_splits)
  show "k \<notin> branch_instr \<Longrightarrow> ISA_rd w \<noteq> 0 \<Longrightarrow> unat (e_reg_waddr r') = ISA_rd w"
    using wa I(6) [of "stage_units s"] unsigned_eq_0_iff [where 'a = nat, of "vb_waddr False w"] by (auto simp: r')
  show "o_reg_wdata (InstrExecute_stage i s) = pc_of st + 4" if "k \<in> {Instr_JAL, Instr_JALR}"
  proof -
    have "k \<in> select_instrs Res_Ra" "k \<notin> branch_instr" using that by (auto simp: select_instrs_def jump_instrs_def branch_instr_def)
    from result_of [OF pl this] show ?thesis by (simp add: incr)
  qed
qed

definition needs_fit :: "nat set" where
  "needs_fit = {Instr_SLT, Instr_SLTI, Instr_BLT, Instr_BGE}"

definition jump_matches :: "'b riscv_instr \<Rightarrow> bool" where
  "jump_matches ins \<longleftrightarrow> (\<forall>cache st.
     (case rtl_index (iname ins) of None \<Rightarrow> True | Some k \<Rightarrow> k \<in> branch_instr \<union> {Instr_JAL, Instr_JALR} \<longrightarrow>
        (k \<in> needs_fit \<longrightarrow> sub_fits (regs st (ISA_rs1 (buf32_0 cache))) (regs st (ISA_rs2 (buf32_0 cache)))) \<longrightarrow> \<not> branch st \<longrightarrow>
        (case run_state (iexec ins cache) st of (n, st') \<Rightarrow>
           n = 4 \<and> rtl_next k (buf32_0 cache) st = (if branch st' then npc_of st' else pc_of st + 4) \<and>
           regs st' = (if k \<in> branch_instr \<or> ISA_rd (buf32_0 cache) = 0 then regs st
                       else (regs st)(ISA_rd (buf32_0 cache) := pc_of st + 4)))))"

lemma jump_matches_mk:
  "jump_matches (mk_instr nm bits ex) \<longleftrightarrow> (\<forall>cache st.
     (case rtl_index nm of None \<Rightarrow> True | Some k \<Rightarrow> k \<in> branch_instr \<union> {Instr_JAL, Instr_JALR} \<longrightarrow>
        (k \<in> needs_fit \<longrightarrow> sub_fits (regs st (ISA_rs1 (buf32_0 cache))) (regs st (ISA_rs2 (buf32_0 cache)))) \<longrightarrow> \<not> branch st \<longrightarrow>
        (case run_state (ex cache) st of (n, st') \<Rightarrow>
           n = 4 \<and> rtl_next k (buf32_0 cache) st = (if branch st' then npc_of st' else pc_of st + 4) \<and>
           regs st' = (if k \<in> branch_instr \<or> ISA_rd (buf32_0 cache) = 0 then regs st
                       else (regs st)(ISA_rd (buf32_0 cache) := pc_of st + 4)))))"
  unfolding jump_matches_def mk_instr_def riscv_instr.select_convs ..

lemma pushStackTrace_keeps:
  "branch (snd (run_state (pushStackTrace c) st)) = branch st" "regs (snd (run_state (pushStackTrace c) st)) = regs st"
  "ctx_npc (snd (run_state (pushStackTrace c) st)) = ctx_npc st" "cur_ctx (snd (run_state (pushStackTrace c) st)) = cur_ctx st"
  by (cases "unat (stackTraceCnt st) < stackTraceSize c"; simp add: pushStackTrace_def)+

lemma link_matches:
  "jump_matches (mk_instr ''JAL'' ''?????????????????????????1101111'' (exec_JAL c))"
  "jump_matches (mk_instr ''JALR'' ''?????????????????000?????1100111'' (exec_JALR c))"
  by (simp_all add: jump_matches_mk rtl_index_def branch_instr_def rtl_next_def branch_taken_def needs_fit_def exec_JAL_def
      exec_JALR_def add.commute Let_def split_beta pushStackTrace_keeps)

lemma jump_matchesD:
  assumes "jump_matches ins" and "rtl_index (iname ins) = Some k" and "k \<in> branch_instr \<union> {Instr_JAL, Instr_JALR}"
    and "k \<in> needs_fit \<longrightarrow> sub_fits (regs st (ISA_rs1 (buf32_0 cache))) (regs st (ISA_rs2 (buf32_0 cache)))" and "\<not> branch st"
  shows "case run_state (iexec ins cache) st of (n, st') \<Rightarrow>
     n = 4 \<and> rtl_next k (buf32_0 cache) st = (if branch st' then npc_of st' else pc_of st + 4) \<and>
     regs st' = (if k \<in> branch_instr \<or> ISA_rd (buf32_0 cache) = 0 then regs st
                 else (regs st)(ISA_rd (buf32_0 cache) := pc_of st + 4))"
  using assms(1) [unfolded jump_matches_def, THEN spec, of cache, THEN spec, of st, unfolded assms(2) option.case,
      THEN mp, OF assms(3), THEN mp, OF assms(4), THEN mp, OF assms(5)] .

lemma user_jumps: "list_all jump_matches (isaUserRV64I c)"
  unfolding isaUserRV64I_def list.pred_inject
  by (intro conjI TrueI link_matches; simp add: jump_matches_mk rtl_index_def branch_instr_def rtl_next_def branch_taken_def
    needs_fit_def sub_sign exec_BEQ_def exec_BGE_def exec_BGEU_def exec_BLT_def exec_BLTU_def exec_BNE_def Let_def)

lemma other_jumps:
  "list_all jump_matches (isaPrivilegedRV64I c)" "list_all jump_matches (isaExtensionM c)" "list_all jump_matches (isaExtensionA c)"
  unfolding isaPrivilegedRV64I_def isaExtensionM_def isaExtensionA_def list.pred_inject
  by (intro conjI TrueI; simp add: jump_matches_mk rtl_index_def branch_instr_def)+

lemma all_match:
  assumes "ins \<in> set (isa_instructions c)" and "wide ins" and "iparse ins w"
  shows "value_matches ins" "jump_matches ins"
proof -
  have "\<not> narrow ins" using wide_hash(2) [OF assms(2,3)] narrow_hash(2) [OF _ assms(3)] by blast
  then have "ins \<notin> set (isaExtensionC c)" using table_narrow [of c] by (auto simp: list_all_iff)
  with assms(1) show "value_matches ins" "jump_matches ins"
    using user_matches [of c] other_matches [of c] user_jumps [of c] other_jumps [of c]
    by (auto simp: isa_instructions_def isa_extension_def list_all_iff split: if_splits)
qed

lemma lookup_wide:
  assumes "lookup_instr c cache = Some ins" and "buf32_0 cache AND 3 = 3"
  shows "ins \<in> set (isa_instructions c)" "iparse ins (buf32_0 cache)" "wide ins"
proof -
  show i: "ins \<in> set (isa_instructions c)" "iparse ins (buf32_0 cache)"
    using assms(1) by (auto simp: lookup_instr_linear find_Some_iff)
  then show "wide ins" using assms(2) table_cases narrow_hash(2) by blast
qed

section \<open>One instruction\<close>

lemma wide_step:
  assumes lookup: "lookup_instr c cache = Some ins" and w: "buf32_0 cache = w" and wide: "w AND 3 = 3"
    and dec: "vb_dec False w = Some k" and k: "k \<in> plain_instr" and sim: "rtl_sim w i s st" and nb: "\<not> branch st"
    and fits: "k \<in> needs_fit \<longrightarrow> sub_fits (vb_rdata1 (exec_operands i (s_regs s))) (vb_rdata2 (exec_operands i (s_regs s)))"
  shows "\<exists>st'. run_state (iexec ins cache) st = (4, st') \<and> e_valid (s_regs (InstrExecute_stage i s)) \<and>
     e_npc (s_regs (InstrExecute_stage i s)) = (if branch st' then npc_of st' else pc_of st + 4) \<and>
     regs st' = (if e_reg_write (s_regs (InstrExecute_stage i s))
                 then (regs st)(unat (e_reg_waddr (s_regs (InstrExecute_stage i s))) := o_reg_wdata (InstrExecute_stage i s))
                 else regs st)"
proof -
  note L = lookup_wide [OF lookup wide [folded w]]
  have idx: "rtl_index (iname ins) = Some k"
    using wide_agrees [OF L(1,3), of False] L(2) dec by (auto simp: rtl_agrees_def w split: option.splits)
  note V = all_match [OF L(1,3,2)] and I = sim_issue [OF sim dec k wide]
  show ?thesis
  proof (cases "k \<in> value_instr")
    case True
    note O = sim_value_ops [OF sim dec True]
    have "run_state (iexec ins cache) st = (4, write_rd w (o_reg_wdata (InstrExecute_stage i s)) st)"
      using V(1) True L(2) fits idx by (auto simp: value_matches_def w O needs_fit_def)
    moreover have "k \<notin> branch_instr" "rtl_next k w st = pc_of st + 4"
      using True by (auto simp: value_instr_def rtl_next_def branch_taken_def branch_instr_def jump_instrs_def)
    ultimately show ?thesis using I nb by (auto simp: write_rd_def)
  next
    case False
    then have j: "k \<in> branch_instr \<or> k = Instr_JAL \<or> k = Instr_JALR" using plain_types(4) [OF k] by blast
    have "k \<in> needs_fit \<Longrightarrow> type_of k = ISA_SB_type"
      using False by (auto simp: needs_fit_def value_instr_eq type_of_def)
    then have f: "k \<in> needs_fit \<longrightarrow> sub_fits (regs st (ISA_rs1 w)) (regs st (ISA_rs2 w))"
      using fits sim_operands(7,8) [OF sim dec refl] by simp
    obtain st' where st': "run_state (iexec ins cache) st = (4, st')"
      "rtl_next k w st = (if branch st' then npc_of st' else pc_of st + 4)"
      "regs st' = (if k \<in> branch_instr \<or> ISA_rd w = 0 then regs st else (regs st)(ISA_rd w := pc_of st + 4))"
      using jump_matchesD [OF V(2) idx _ f [folded w] nb] j by (cases "run_state (iexec ins cache) st") (auto simp: w)
    with I j show ?thesis by auto
  qed
qed

section \<open>Properties\<close>

text \<open>C11. The RTL refines the simulator on the arithmetic, logic, shift, branch and jump instructions: when the execution
  stage issues the word that the simulator fetches, with the same operands and program counter, then after one clock it has
  retired the instruction; the register it writes gets the value the simulator's instruction writes, and its next program
  counter is the simulator's, taken or not. For the signed comparisons this needs that the difference of the operands
  does not overflow: the hardware takes its sign.\<close>

theorem rtl_refines_simulator:
  assumes lookup: "lookup_instr c cache = Some ins" and w: "buf32_0 cache = w" and wide: "w AND 3 = 3"
    and dec: "vb_dec False w = Some k" and k: "k \<in> plain_instr" and sim: "rtl_sim w i s st" and nb: "\<not> branch st"
    and fits: "k \<in> needs_fit \<longrightarrow> sub_fits (vb_rdata1 (exec_operands i (s_regs s))) (vb_rdata2 (exec_operands i (s_regs s)))"
  shows "\<exists>st'. run_state (iexec ins cache) st = (4, st') \<and> e_valid (s_regs (InstrExecute_stage i s)) \<and>
     e_npc (s_regs (InstrExecute_stage i s)) = (if branch st' then npc_of st' else pc_of st + 4) \<and>
     regs st' = (if e_reg_write (s_regs (InstrExecute_stage i s))
                 then (regs st)(unat (e_reg_waddr (s_regs (InstrExecute_stage i s))) := o_reg_wdata (InstrExecute_stage i s))
                 else regs st)"
  using assms by (rule wide_step)

definition reset_stage :: exec_stage where
  "reset_stage = \<lparr>s_regs = InstrExecute_r_reset, s_alu = 0, s_addsub = 0, s_shifter = 0, s_mul = IntMul_r_reset, s_div = IntDiv_r_reset\<rparr>"

definition quiet_in :: "decoder_rv \<Rightarrow> u64 \<Rightarrow> u64 \<Rightarrow> exec_in" where
  "quiet_in d a b =
    \<lparr>i_nrst = True, i_d = d, i_stack_overflow = False, i_stack_underflow = False, i_mem_valid = False, i_mem_rdata = 0,
     i_mem_ex_debug = False, i_mem_ex_load_fault = False, i_mem_ex_store_fault = False, i_page_fault_r = False,
     i_page_fault_w = False, i_mem_ex_addr = 0, i_irq_pending = 0, i_wakeup = False, i_haltreq = False, i_resumereq = False,
     i_step = False, i_dbg_progbuf_ena = False, i_rdata1 = a, i_rtag1 = 0, i_rdata2 = b, i_rtag2 = 0, i_csr_req_ready = True,
     i_csr_resp_valid = False, i_csr_resp_data = 0, i_csr_resp_exception = False, i_memop_ready = True, i_memop_idle = True,
     i_dbg_mem_req_valid = False, i_dbg_mem_req_write = False, i_dbg_mem_req_size = 0, i_dbg_mem_req_addr = 0,
     i_dbg_mem_req_wdata = 0\<rparr>"

lemma addi_lookup: "\<exists>ins. lookup_instr c 0x00108093 = Some ins \<and> iexec ins = exec_ADDI c"
proof -
  have w: "buf32_0 0x00108093 = 0x00108093" by (simp add: buf32_0_def)
  have "isa_instructions c = isaUserRV64I c ! 0 # isaUserRV64I c ! 1 # drop 2 (isa_instructions c)"
    by (simp add: isa_instructions_def isaUserRV64I_def)
  moreover have "isaUserRV64I c ! 0 = mk_instr ''ADD'' ''0000000??????????000?????0110011'' (exec_ADD c)"
    "isaUserRV64I c ! 1 = mk_instr ''ADDI'' ''?????????????????000?????0010011'' (exec_ADDI c)"
    by (simp_all add: isaUserRV64I_def)
  ultimately obtain is' where I: "isa_instructions c = mk_instr ''ADD'' ''0000000??????????000?????0110011'' (exec_ADD c)
      # mk_instr ''ADDI'' ''?????????????????000?????0010011'' (exec_ADDI c) # is'" by metis
  show ?thesis
    by (simp add: lookup_instr_linear I w mk_instr_def parse_pattern_def pattern_mask_def pattern_opcode_def)
qed

lemma addi_issues:
  "rtl_sim 0x00108093 (quiet_in (DecoderRv_clock False (fetched 0x10000 0x00108093)) (regs (sample_cpu ()) 1) (regs (sample_cpu ()) 0))
     reset_stage (sample_cpu ())"
  by (simp add: rtl_sim_def issues_def exec_ready_def quiet_in_def reset_stage_def InstrExecute_r_reset_def DecoderRv_clock_def
      DecoderRv_comb_def fetched_def w_hazard1_def w_hazard2_def exec_mux_of_def sample_cpu_def vb_radr1_def vb_radr2_def
      vb_isa_type_def bitfield_def Let_def)

theorem rtl_refines_simulator_witness:
  "e_npc (s_regs (InstrExecute_stage (quiet_in (DecoderRv_clock False (fetched 0x10000 0x00108093)) (regs (sample_cpu ()) 1)
     (regs (sample_cpu ()) 0)) reset_stage)) = 0x10004"
proof -
  obtain ins :: "unit riscv_instr" where ins: "lookup_instr sample_cfg 0x00108093 = Some ins" "iexec ins = exec_ADDI sample_cfg"
    using addi_lookup [of sample_cfg] by auto
  have w: "buf32_0 0x00108093 = 0x00108093" by (simp add: buf32_0_def)
  have dec: "vb_dec False 0x00108093 = Some Instr_ADDI" by (simp add: vb_dec_def dec_addi_def bitfield_def)
  have b: "\<not> branch (sample_cpu ())" "pc_of (sample_cpu ()) = 0x10000" by (simp_all add: sample_cpu_def)
  have k: "Instr_ADDI \<in> plain_instr" "Instr_ADDI \<notin> needs_fit" by (simp_all add: plain_instr_def needs_fit_def)
  from rtl_refines_simulator [OF ins(1) w _ dec k(1) addi_issues b(1)] k(2) obtain st' where st':
    "run_state (exec_ADDI sample_cfg 0x00108093) (sample_cpu ()) = (4, st')"
    "e_npc (s_regs (InstrExecute_stage (quiet_in (DecoderRv_clock False (fetched 0x10000 0x00108093)) (regs (sample_cpu ()) 1)
     (regs (sample_cpu ()) 0)) reset_stage)) = (if branch st' then npc_of st' else 0x10004)"
    unfolding ins(2) b(2) by auto
  moreover have "\<not> branch st'" using st'(1) b(1) by (auto simp: exec_ADDI_def Let_def split: if_splits)
  ultimately show ?thesis by simp
qed

text \<open>Beyond that hypothesis the comparison is wrong: the largest positive number is found less than minus one.\<close>

lemma rtl_slt_overflow: "rtl_value Instr_SLT 0x7FFFFFFFFFFFFFFF (- 1) = 1" "\<not> sint (0x7FFFFFFFFFFFFFFF :: u64) < sint (- 1 :: u64)"
  by (simp_all add: rtl_value_addsub)

end
