(* ===== verification/Rtl_Fsm.thy ===== *)
theory Rtl_Fsm
  imports Rtl_Refine
begin

text \<open>
  The state machine of the RTL execution stage: an invariant of every reachable state, the read-modify-write sequence
  over the CSR bus, and what a memory request of the debugger does to a running core.
\<close>

section \<open>The invariant\<close>

text \<open>
  The substates are at rest outside their states, register 0 keeps the tag zero and is never written, and the data of a
  write-back is announced with the tag the stage expects.
\<close>

definition exec_inv :: "exec_regs \<Rightarrow> bool" where
  "exec_inv r \<longleftrightarrow> (e_state r = State_Csr \<longleftrightarrow> e_csrstate r \<noteq> CsrState_Idle) \<and>
     (e_state r \<noteq> State_Amo \<longrightarrow> e_amostate r = AmoState_WaitMemAccess) \<and> e_tagcnt r 0 = 0 \<and>
     (e_reg_write r \<longrightarrow> e_reg_waddr r \<noteq> 0 \<and> e_tagcnt r (e_reg_waddr r) = e_reg_wtag r)"

definition sub_inv :: "exec_regs \<Rightarrow> bool" where
  "sub_inv r \<longleftrightarrow> (e_state r = State_Csr \<longleftrightarrow> e_csrstate r \<noteq> CsrState_Idle) \<and>
     (e_state r \<noteq> State_Amo \<longrightarrow> e_amostate r = AmoState_WaitMemAccess)"

lemma exec_step_sub:
  assumes "sub_inv r" and "exec_step f i u r (exec_begin i r, ctl) = (v, ctl')"
  shows "sub_inv v"
proof (cases "e_state r")
  case State_Csr
  with assms show ?thesis
    by (cases "e_csrstate r") (auto simp: sub_inv_def exec_step_def exec_csr_def illegal_request_def trap_npc_def Let_def
        split: if_splits prod.splits)
next
  case State_Amo
  with assms show ?thesis
    by (cases "e_amostate r") (auto simp: sub_inv_def exec_step_def exec_amo_def split: if_splits)
next
  case State_Idle
  with assms show ?thesis
    by (auto simp: sub_inv_def exec_step_def exec_idle_def exec_debug_request_def exec_csr_request_def Let_def
        split: if_splits prod.splits)
qed (use assms in \<open>auto simp: sub_inv_def exec_step_def exec_debug_request_def Let_def split: if_splits\<close>)

lemma exec_step_tags:
  assumes "exec_step f i u r (v, ctl) = (v', ctl')" and "\<not> c_reg_ena ctl" and "c_reg_waddr ctl = dr_waddr (i_d i)"
  shows "e_tagcnt v' = e_tagcnt v" "e_reg_write v' = e_reg_write v" "c_reg_ena ctl' \<Longrightarrow> c_reg_waddr ctl' \<noteq> 0"
proof -
  note defs = exec_step_def exec_idle_def exec_csr_def exec_amo_def exec_debug_request_def exec_csr_request_def
    illegal_request_def trap_npc_def Let_def
  show "e_tagcnt v' = e_tagcnt v" "e_reg_write v' = e_reg_write v" "c_reg_ena ctl' \<Longrightarrow> c_reg_waddr ctl' \<noteq> 0"
    using assms by (auto simp: defs split: exec_state.splits csr_state.splits amo_state.splits if_splits prod.splits)
qed

lemma exec_memop_tags:
  "exec_memop i r ctl (exec_tags r ctl v) = exec_tags r ctl (exec_memop i r ctl v)"
  "e_tagcnt (exec_memop i r ctl v) \<in> {e_tagcnt v, vb_tagcnt_next r ctl}"
  by (auto simp: exec_memop_def exec_tags_def Let_def)

lemma exec_inv_clock:
  assumes "exec_inv r"
  shows "exec_inv (InstrExecute_clock f i u r)"
proof (cases "i_nrst i")
  case True
  obtain v ctl where st: "exec_step f i u r (exec_begin i r, exec_ctl_init i r) = (v, ctl)" by fastforce
  have sub: "sub_inv v" using exec_step_sub [OF _ st] assms by (simp add: exec_inv_def sub_inv_def)
  have t: "e_tagcnt v = e_tagcnt r" "\<not> e_reg_write v" "c_reg_ena ctl \<Longrightarrow> c_reg_waddr ctl \<noteq> 0"
    using exec_step_tags [OF st] by (simp_all add: exec_ctl_init_def exec_begin_def Let_def)
  define v1 where "v1 = (if i_dbg_progbuf_ena i then v else v\<lparr>e_dnpc := 0\<rparr>)"
  define v2 where "v2 = (if c_latch_input ctl then exec_latch f i r v1 else v1)"
  have v2: "sub_inv v2" "e_tagcnt v2 = e_tagcnt r" "\<not> e_reg_write v2"
    using sub t by (auto simp: v2_def v1_def sub_inv_def exec_latch_def Let_def)
  have r': "InstrExecute_clock f i u r =
      exec_memop i r ctl (if c_reg_ena ctl then exec_tags r ctl (v2\<lparr>e_reg_write := True\<rparr>) else v2)"
    using True by (simp add: InstrExecute_clock_def InstrExecute_comb_def st v2_def v1_def Let_def)
  have z: "e_tagcnt r 0 = 0" "vb_tagcnt_next r ctl 0 = 0" using assms by (simp_all add: exec_inv_def vb_tagcnt_next_def)
  show ?thesis
  proof (cases "c_reg_ena ctl")
    case reg: True
    then have "vb_tagcnt_next r ctl (c_reg_waddr ctl) = t_tagcnt_wr r ctl" using t(3) by (simp add: vb_tagcnt_next_def)
    with reg t(3) z v2(1) show ?thesis
      by (simp add: r' exec_memop_tags(1) exec_inv_def sub_inv_def) (simp add: exec_tags_def)
  next
    case False
    with v2 z exec_memop_tags(2) [of i r ctl v2] show ?thesis by (auto simp: r' exec_inv_def sub_inv_def)
  qed
next
  case False
  then show ?thesis by (simp add: InstrExecute_clock_def exec_inv_def InstrExecute_r_reset_def)
qed

section \<open>The CSR instructions\<close>

text \<open>The value a CSR instruction writes, from the old value, the register and the immediate field.\<close>

definition csr_new_value :: "nat \<Rightarrow> u64 \<Rightarrow> u64 \<Rightarrow> u64 \<Rightarrow> u64" where
  "csr_new_value k old a z =
    (if k = Instr_CSRRC then old AND NOT a else if k = Instr_CSRRCI then old AND NOT z
     else if k = Instr_CSRRS then old OR a else if k = Instr_CSRRSI then old OR z
     else if k = Instr_CSRRW then a else z)"

lemma set_low_bits:
  fixes old :: u64
  shows "set_bitfield 0 5 (bitfield 0 5 old AND NOT (take_bit 5 z)) old = old AND NOT (take_bit 5 z)"
    "set_bitfield 0 5 (bitfield 0 5 old OR take_bit 5 z) old = old OR take_bit 5 z"
  by (rule bit_word_eqI; auto simp: bit_set_bitfield bit_bitfield bit_and_iff bit_or_iff bit_not_iff bit_take_bit_iff)+

lemma csr_cmd_rmw_value:
  assumes "mux_ivec (exec_mux_of i r) = Some k" and "k \<in> select_instrs Res_Csr"
  shows "csr_cmd_rmw i r =
     (CsrReq_ReadCmd, dr_csr_addr (i_d i), csr_new_value k (i_csr_resp_data i) (e_rdata1 r) (take_bit 5 (ucast (e_radr1 r))))"
  using assms by (auto simp: csr_cmd_rmw_def wv_def csr_new_value_def select_instrs_def set_low_bits Let_def)

lemma clock_comb:
  assumes "i_nrst i" and "exec_step f i u r (exec_begin i r, exec_ctl_init i r) = (v, ctl)"
  shows "InstrExecute_clock f i u r = exec_memop i r ctl
     (let v = (if i_dbg_progbuf_ena i then v else v\<lparr>e_dnpc := 0\<rparr>); v = (if c_latch_input ctl then exec_latch f i r v else v)
      in if c_reg_ena ctl then exec_tags r ctl (v\<lparr>e_reg_write := True\<rparr>) else v)"
  using assms by (simp add: InstrExecute_clock_def InstrExecute_comb_def Let_def)

text \<open>The state of a CSR instruction in flight: what its registers keep until it retires.\<close>

definition csr_flight :: "nat \<Rightarrow> u64 \<Rightarrow> u32 \<Rightarrow> u64 \<Rightarrow> exec_regs \<Rightarrow> bool" where
  "csr_flight k pc w a r \<longleftrightarrow> e_state r = State_Csr \<and> e_ivec r = Some k \<and> e_rdata1 r = a \<and> e_radr1 r = vb_radr1 False w \<and>
     e_waddr r = vb_waddr False w \<and> e_csr_req_addr r = vb_csr_addr w \<and> e_npc r = pc \<and>
     (\<forall>x. x \<noteq> Res_Zero \<longrightarrow> (e_select r x \<longleftrightarrow> x = Res_Csr))"

lemma keeps_addr [simp]:
  "e_csr_req_addr (exec_tags r ctl v) = e_csr_req_addr v" "e_csr_req_addr (exec_memop i r ctl v) = e_csr_req_addr v"
  "e_csr_req_addr (exec_latch f i r v) = e_csr_req_addr v" "e_csr_req_addr (exec_begin i r) = e_csr_req_addr r"
  by (simp_all add: exec_tags_def exec_memop_def exec_latch_def exec_begin_def Let_def)

lemma csr_accept:
  fixes u :: exec_units
  assumes "csr_flight k pc w a r" and "e_csrstate r = CsrState_Req" and "i_nrst i" and "i_csr_req_ready i"
  defines "r' \<equiv> InstrExecute_clock False i u r"
  shows "csr_flight k pc w a r'" "e_csrstate r' = CsrState_Resp" "e_csr_req_type r' = e_csr_req_type r"
    "e_csr_req_rmw r' = e_csr_req_rmw r" "e_csr_req_data r' = e_csr_req_data r" "e_res_csr r' = e_res_csr r"
proof -
  have "exec_step False i u r (v, ctl) = (v\<lparr>e_csrstate := CsrState_Resp\<rparr>, ctl\<lparr>c_csr_req_valid := True\<rparr>)" for v ctl
    using assms(1,2,4) by (simp add: csr_flight_def exec_step_def exec_csr_def)
  note defs = r'_def clock_comb [OF assms(3) this] exec_ctl_init_def Let_def
  show "csr_flight k pc w a r'" "e_csrstate r' = CsrState_Resp" "e_csr_req_type r' = e_csr_req_type r"
    "e_csr_req_rmw r' = e_csr_req_rmw r" "e_csr_req_data r' = e_csr_req_data r" "e_res_csr r' = e_res_csr r"
    using assms(1) by (simp_all add: defs csr_flight_def)
qed

lemma csr_read_response:
  fixes u :: exec_units
  assumes fl: "csr_flight k pc w a r" and "e_csrstate r = CsrState_Resp" and "i_nrst i" and "i_csr_resp_valid i"
    and "\<not> i_csr_resp_exception i" and "e_csr_req_type r = CsrReq_ReadCmd" and "e_csr_req_rmw r" and k: "k \<in> select_instrs Res_Csr"
  defines "r' \<equiv> InstrExecute_clock False i u r"
  shows "csr_flight k pc w a r'" "e_csrstate r' = CsrState_Req" "e_csr_req_type r' = CsrReq_WriteCmd" "\<not> e_csr_req_rmw r'"
    "e_csr_req_data r' = csr_new_value k (i_csr_resp_data i) a (take_bit 5 (ucast (vb_radr1 False w)))"
    "e_res_csr r' = i_csr_resp_data i" "e_reg_write r' \<longleftrightarrow> vb_waddr False w \<noteq> 0"
    "vb_waddr False w \<noteq> 0 \<Longrightarrow> e_reg_waddr r' = vb_waddr False w"
proof -
  have m: "mux_ivec (exec_mux_of i r) = Some k" and st: "e_state r = State_Csr"
    using fl by (simp_all add: csr_flight_def exec_mux_of_def Let_def)
  have new: "snd (snd (vb_csr_cmd i r)) = csr_new_value k (i_csr_resp_data i) a (take_bit 5 (ucast (vb_radr1 False w)))"
    using fl by (simp add: vb_csr_cmd_def csr_cmd_rmw_value [OF m k] csr_flight_def)
  have "exec_step False i u r (v, ctl) =
     (v\<lparr>e_csrstate := CsrState_Req, e_csr_req_type := CsrReq_WriteCmd, e_csr_req_data := snd (snd (vb_csr_cmd i r)),
        e_csr_req_rmw := False, e_res_csr := i_csr_resp_data i\<rparr>,
      ctl\<lparr>c_csr_resp_ready := True, c_reg_ena := (e_waddr r \<noteq> 0), c_reg_waddr := e_waddr r\<rparr>)" for v ctl
    using assms(2-7) st by (simp add: exec_step_def exec_csr_def)
  note defs = r'_def clock_comb [OF assms(3) this] exec_ctl_init_def Let_def
  show "csr_flight k pc w a r'" and "e_csrstate r' = CsrState_Req" and "e_csr_req_type r' = CsrReq_WriteCmd"
    and "\<not> e_csr_req_rmw r'"
    and "e_csr_req_data r' = csr_new_value k (i_csr_resp_data i) a (take_bit 5 (ucast (vb_radr1 False w)))"
    and "e_reg_write r' \<longleftrightarrow> vb_waddr False w \<noteq> 0" and "vb_waddr False w \<noteq> 0 \<Longrightarrow> e_reg_waddr r' = vb_waddr False w"
    using fl by (simp_all add: defs csr_flight_def new)
  show "e_res_csr r' = i_csr_resp_data i" by (simp add: defs)
qed

lemma csr_write_response:
  fixes u :: exec_units
  assumes fl: "csr_flight k pc w a r" and "e_csrstate r = CsrState_Resp" and "i_nrst i" and "i_csr_resp_valid i"
    and "\<not> i_csr_resp_exception i" and "e_csr_req_type r = CsrReq_WriteCmd" and "\<not> e_csr_req_rmw r"
  defines "r' \<equiv> InstrExecute_clock False i u r"
  shows "e_state r' = State_Idle" "e_valid r'" "e_npc r' = pc"
proof -
  have "exec_step False i u r (v, ctl) =
     (v\<lparr>e_csrstate := CsrState_Idle, e_state := State_Idle, e_valid := True\<rparr>, ctl\<lparr>c_csr_resp_ready := True\<rparr>)" for v ctl
    using assms(2-7) fl by (simp add: exec_step_def exec_csr_def csr_flight_def)
  note defs = r'_def clock_comb [OF assms(3) this] exec_ctl_init_def Let_def
  show "e_state r' = State_Idle" "e_valid r'" "e_npc r' = pc" using fl by (simp_all add: defs csr_flight_def)
qed

lemma csr_select:
  "k \<in> select_instrs Res_Csr \<Longrightarrow> k \<notin> branch_instr" "k \<in> select_instrs Res_Csr \<Longrightarrow> \<not> v_memop_store (Some k)"
  "k \<in> select_instrs Res_Csr \<Longrightarrow> type_of k = ISA_I_type"
  "k \<in> select_instrs Res_Csr \<Longrightarrow> k \<notin> {Instr_LD, Instr_LW, Instr_LWU, Instr_LH, Instr_LHU, Instr_SD, Instr_SW, Instr_SH} \<union> jump_instrs \<union>
     {Instr_EBREAK, Instr_ECALL, Instr_WFI, Instr_FENCE, Instr_FENCE_I, Instr_SFENCE_VMA}"
  by (auto simp: select_instrs_def branch_instr_def v_memop_store_def dec_in_def type_of_def jump_instrs_def)

lemma csr_issue:
  fixes u :: exec_units
  assumes iss: "issues pc w i r" and dec: "vb_dec False w = Some k" and k: "k \<in> select_instrs Res_Csr" and wide: "w AND 3 = 3"
  defines "r' \<equiv> InstrExecute_clock False i u r"
  shows "csr_flight k (pc + 4) w (i_rdata1 i) r'" "e_csrstate r' = CsrState_Req" "e_csr_req_type r' = CsrReq_ReadCmd" "e_csr_req_rmw r'"
proof -
  note rd = issuesD [OF iss] and d = decoded_fields [OF issuesD(1) [OF iss]]
  have csr: "dr_csr_addr (i_d i) = vb_csr_addr w" using rd(1) by (simp add: DecoderRv_clock_def DecoderRv_comb_def fetched_def Let_def)
  have m: "mux_ivec (exec_mux_of i r) = Some k" "mux_pc (exec_mux_of i r) = pc" "\<not> MemopType_Store (mux_memop_type (exec_mux_of i r))"
    using d rd(3) dec csr_select(2) [OF k] by (simp_all add: mux_idle)
  note kk = csr_select(4) [OF k]
  have mis: "\<not> v_load_misaligned i r" "\<not> v_store_misaligned i r"
    using kk by (auto simp: v_load_misaligned_def v_store_misaligned_def wv_def wv_any_def dec_in_def m Let_def)
  have ena: "v_csr_cmd_ena i r" using k by (auto simp: v_csr_cmd_ena_def wv_any_def dec_in_def m select_instrs_def Let_def)
  have un: "dr_instr_unimplemented (i_d i) = False" using d dec by simp
  obtain wd where cmd: "vb_csr_cmd i r = (CsrReq_ReadCmd, vb_csr_addr w, wd)"
    using kk by (simp add: vb_csr_cmd_def csr_cmd_rmw_value [OF m(1) k] csr rd(2-) un m mis wv_def jump_instrs_def)
  have "exec_step False i u r (v, ctl) =
      (exec_csr_request (vb_csr_cmd i r) (v\<lparr>e_stepdone := i_step i\<rparr>), ctl\<lparr>c_latch_input := True\<rparr>)" for v ctl
    by (simp add: exec_step_def exec_idle_def rd(2-) ena)
  note defs = r'_def clock_comb [OF rd(2) this] exec_ctl_init_def Let_def cmd exec_csr_request_def
  have npc: "vb_prog_npc i r = pc + 4"
  proof -
    have "bitfield 0 2 w = 3" using wide by (simp add: bitfield_def take_bit_eq_mask mask_numeral)
    then show ?thesis
      using kk no_branch [OF m(1) csr_select(1) [OF k]]
      by (simp add: vb_prog_npc_def wv_def m vb_npc_incr_def opcode_len_def mux_idle rd(3) d jump_instrs_def)
  qed
  have op: "vb_rdata1 (exec_operands i r) = i_rdata1 i"
    using dec_type [OF dec] csr_select(3) [OF k] by (simp add: exec_operands_def rd(3) mux_idle d)
  show "csr_flight k (pc + 4) w (i_rdata1 i) r'" "e_csrstate r' = CsrState_Req" "e_csr_req_type r' = CsrReq_ReadCmd" "e_csr_req_rmw r'"
    using selects_one [OF m(1,3) k csr_select(1) [OF k]] by (simp_all add: defs csr_flight_def rd(2,6) npc op d dec)
qed

lemma zimm_field:
  assumes "vb_isa_type False w = ISA_I_type"
  shows "take_bit 5 (ucast (vb_radr1 False w)) = (ISA_zimm w :: u64)"
proof -
  have rs: "unat (vb_radr1 False w) = ISA_rs1 w" using vb_regs(1) [of w] by (simp add: assms)
  then have "ucast (vb_radr1 False w) = (of_nat (ISA_rs1 w) :: u64)" by (metis of_nat_unat)
  moreover have "ISA_rs1 w < 32" using bitfield_lt [of 5 15 w] by (simp add: ISA_rs1_def)
  ultimately show ?thesis by (simp add: ISA_zimm_def take_bit_of_nat take_bit_nat_eq_self)
qed

section \<open>Properties\<close>

text \<open>C13. The registers of the execution stage keep their invariant whatever the inputs: after any sequence of clocks from
  reset the CSR and the AMO substates are at rest outside the states they belong to, register 0 is never written and keeps the
  tag zero, and a write-back carries the tag the stage expects for its register.\<close>

theorem exec_stage_invariant:
  "exec_inv (fold (\<lambda>(i, u). InstrExecute_clock f i u) inputs InstrExecute_r_reset)"
proof -
  have "exec_inv r \<Longrightarrow> exec_inv (fold (\<lambda>(i, u). InstrExecute_clock f i u) inputs r)" for r
    by (induction inputs arbitrary: r) (auto intro: exec_inv_clock)
  then show ?thesis by (simp add: exec_inv_def InstrExecute_r_reset_def)
qed

text \<open>A CSR instruction completes when the CSR unit answers: the stage reads the CSR of the instruction, writes back what
  it read to the destination, then writes to the same CSR the value the simulator's instruction computes (the old value with the
  bits of the operand set or cleared, or the operand), and retires with the next program counter.\<close>

lemma rtl_csr_read_modify_write:
  assumes iss: "issues pc w i0 r0" and dec: "vb_dec False w = Some k" and k: "k \<in> select_instrs Res_Csr" and wide: "w AND 3 = 3"
    and rst: "i_nrst i1" "i_nrst i2" "i_nrst i3" "i_nrst i4"
    and rdy: "i_csr_req_ready i1" "i_csr_req_ready i3"
    and resp: "i_csr_resp_valid i2" "\<not> i_csr_resp_exception i2" "i_csr_resp_valid i4" "\<not> i_csr_resp_exception i4"
  shows "let r1 = InstrExecute_clock False i0 u0 r0;
        r3 = InstrExecute_clock False i2 u2 (InstrExecute_clock False i1 u1 r1);
        r5 = InstrExecute_clock False i4 u4 (InstrExecute_clock False i3 u3 r3)
    in e_csr_req_type r1 = CsrReq_ReadCmd \<and> e_csr_req_addr r1 = vb_csr_addr w \<and>
       e_csr_req_type r3 = CsrReq_WriteCmd \<and> e_csr_req_addr r3 = vb_csr_addr w \<and>
       e_csr_req_data r3 = csr_new_value k (i_csr_resp_data i2) (i_rdata1 i0) (ISA_zimm w) \<and>
       (e_reg_write r3 \<longleftrightarrow> ISA_rd w \<noteq> 0) \<and> vb_res u3 r3 = i_csr_resp_data i2 \<and>
       e_state r5 = State_Idle \<and> e_valid r5 \<and> e_npc r5 = pc + 4"
proof -
  define r1 where "r1 = InstrExecute_clock False i0 u0 r0"
  define r3 where "r3 = InstrExecute_clock False i2 u2 (InstrExecute_clock False i1 u1 r1)"
  define r5 where "r5 = InstrExecute_clock False i4 u4 (InstrExecute_clock False i3 u3 r3)"
  note A = csr_issue [OF iss dec k wide, of u0, folded r1_def]
  note B = csr_accept [OF A(1,2) rst(1) rdy(1), of u1]
  note C = csr_read_response [OF B(1,2) rst(2) resp(1,2) _ _ k, of u2, folded r3_def]
  have C': "csr_flight k (pc + 4) w (i_rdata1 i0) r3" "e_csrstate r3 = CsrState_Req" "e_csr_req_type r3 = CsrReq_WriteCmd" "\<not> e_csr_req_rmw r3"
    "e_csr_req_data r3 = csr_new_value k (i_csr_resp_data i2) (i_rdata1 i0) (take_bit 5 (ucast (vb_radr1 False w)))"
    "e_res_csr r3 = i_csr_resp_data i2" "e_reg_write r3 \<longleftrightarrow> vb_waddr False w \<noteq> 0"
    using C A(3,4) B(3,4) by simp_all
  note D = csr_accept [OF C'(1,2) rst(3) rdy(2), of u3]
  have E: "e_state r5 = State_Idle" "e_valid r5" "e_npc r5 = pc + 4"
    using csr_write_response [OF D(1,2) rst(4) resp(3,4), of u4, folded r5_def] D(3,4) C'(3,4) by simp_all
  have ty: "vb_isa_type False w = ISA_I_type" using dec_type [OF dec] csr_select(3) [OF k] by simp
  note z = zimm_field [OF ty]
  have "vb_waddr False w \<noteq> 0 \<longleftrightarrow> ISA_rd w \<noteq> 0"
    using vb_regs(3) [of w] unsigned_eq_0_iff [where 'a = nat, of "vb_waddr False w"] by (simp add: ty)
  moreover have "vb_res u3 r3 = i_csr_resp_data i2" using C'(1,6) by (simp add: vb_res_def csr_flight_def)
  ultimately show ?thesis using A C' E z unfolding Let_def r1_def [symmetric] r3_def [symmetric] r5_def [symmetric] by (simp add: csr_flight_def)
qed

definition csrrs_in :: exec_in where
  "csrrs_in = quiet_in (DecoderRv_clock False (fetched 0x10000 0x300120F3)) 6 0"

lemma csrrs_issues: "issues 0x10000 0x300120F3 csrrs_in InstrExecute_r_reset"
  by (simp add: csrrs_in_def issues_def exec_ready_def quiet_in_def InstrExecute_r_reset_def DecoderRv_clock_def
      DecoderRv_comb_def fetched_def w_hazard1_def w_hazard2_def exec_mux_of_def Let_def)

lemma rtl_csr_read_modify_write_witness:
  "let u = stage_units reset_stage; ok = csrrs_in\<lparr>i_csr_resp_valid := True, i_csr_resp_data := 0x88\<rparr>;
      r1 = InstrExecute_clock False csrrs_in u InstrExecute_r_reset;
      r3 = InstrExecute_clock False ok u (InstrExecute_clock False ok u r1);
      r5 = InstrExecute_clock False ok u (InstrExecute_clock False ok u r3)
   in e_csr_req_addr r1 = 0x300 \<and> e_csr_req_data r3 = 0x8E \<and> vb_res u r3 = 0x88 \<and> e_reg_write r3 \<and> e_valid r5 \<and> e_npc r5 = 0x10004"
proof -
  let ?u = "stage_units reset_stage" and ?ok = "csrrs_in\<lparr>i_csr_resp_valid := True, i_csr_resp_data := 0x88\<rparr>"
  have "vb_dec False 0x300120F3 = Some Instr_CSRRS" by (simp add: vb_dec_def dec_system_def bitfield_def)
  moreover have "Instr_CSRRS \<in> select_instrs Res_Csr" by (simp add: select_instrs_def)
  moreover have "i_nrst ?ok" "i_csr_req_ready ?ok" "i_csr_resp_valid ?ok" "\<not> i_csr_resp_exception ?ok"
    "i_csr_resp_data ?ok = 0x88" "i_rdata1 csrrs_in = 6"
    by (simp_all add: csrrs_in_def quiet_in_def)
  moreover have "vb_csr_addr 0x300120F3 = 0x300" "ISA_rd 0x300120F3 = 1" "csr_new_value Instr_CSRRS 0x88 6 z = 0x8E" for z
    by (simp_all add: vb_csr_addr_def ISA_rd_def bitfield_def csr_new_value_def)
  ultimately show ?thesis
    using rtl_csr_read_modify_write [OF csrrs_issues, of Instr_CSRRS ?ok ?ok ?ok ?ok ?u ?u ?u ?u ?u] by (simp add: Let_def)
qed

section \<open>A memory request of the debugger\<close>

text \<open>
  A request that finds the stage idle and not halted is accepted in the clock that would issue the instruction. The
  instruction is latched, so the stage expects the next one, but it is neither retired nor written back.
\<close>

lemma debug_request_drops:
  fixes f :: bool and u :: exec_units
  assumes "i_nrst i" and "e_state r = State_Idle" and "\<not> (e_memop_valid r \<and> \<not> i_memop_ready i)" and "v_d_valid i r"
    and "\<not> w_hazard1 i r" and "\<not> w_hazard2 i r" and "i_dbg_mem_req_valid i" and "\<not> i_dbg_progbuf_ena i"
  defines "r' \<equiv> InstrExecute_clock f i u r"
  shows "e_npc r' = vb_prog_npc i r" "\<not> e_valid r'" "\<not> e_reg_write r'" "e_state r' \<in> {State_DebugMemRequest, State_DebugMemError}"
proof -
  have "exec_step f i u r (v, ctl) =
      exec_debug_request False i (v\<lparr>e_stepdone := i_step i\<rparr>, ctl\<lparr>c_latch_input := True\<rparr>)" for v ctl
    using assms(2-8) by (auto simp: exec_step_def exec_idle_def Let_def)
  note defs = r'_def clock_comb [OF assms(1) this [unfolded exec_debug_request_def prod.case]] exec_ctl_init_def Let_def
  show "e_npc r' = vb_prog_npc i r" "\<not> e_valid r'" "\<not> e_reg_write r'" "e_state r' \<in> {State_DebugMemRequest, State_DebugMemError}"
    using assms(8) by (simp_all add: defs)
qed

lemma debug_request_returns:
  fixes f :: bool and u :: exec_units
  assumes "i_nrst i" and "e_state r = State_DebugMemRequest" and "\<not> e_memop_halted r" and "i_memop_ready i"
  defines "r' \<equiv> InstrExecute_clock f i u r"
  shows "e_state r' = State_Idle" "\<not> e_valid r'" "\<not> e_reg_write r'" "e_npc r' = e_npc r"
proof -
  have "exec_step f i u r (v, ctl) = (v\<lparr>e_state := State_Idle\<rparr>, ctl\<lparr>c_memop_ena := True, c_memop_debug := True,
      c_memaddr := i_dbg_mem_req_addr i, c_wdata := i_dbg_mem_req_wdata i\<rparr>)" for v ctl
    using assms(2-4) by (simp add: exec_step_def)
  note defs = r'_def clock_comb [OF assms(1) this] exec_ctl_init_def Let_def
  show "e_state r' = State_Idle" "\<not> e_valid r'" "\<not> e_reg_write r'" "e_npc r' = e_npc r" by (simp_all add: defs)
qed

end
