(* ===== verification/Rtl_Csr.thy ===== *)
theory Rtl_Csr
  imports Prelude
begin

text \<open>
  The CSR unit of the RTL core, \<^verbatim>\<open>core/csr.cpp\<close>: its request state machine, the CSR map, trap entry and return with
  delegation, interrupt enables, fences, the transfer of PMP regions to the caches, stack borders and counters, as one clocked
  function over \<^verbatim>\<open>CsrRegs_registers\<close>. The arrays \<^verbatim>\<open>xmode[4]\<close> and \<^verbatim>\<open>pmp[CFG_PMP_TBL_SIZE]\<close> are functions from the two and
  three bits that index them. Every definition \<open>csr_X i r v\<close> is a part of \<^verbatim>\<open>comb\<close>: it reads the inputs \<open>i\<close> and the registers
  \<open>r\<close> and adds its assignments to the next registers \<open>v\<close>.
\<close>

section \<open>Registers and inputs\<close>

datatype csr_fsm_state = Csr_Idle | Csr_RW | Csr_Exception | Csr_Breakpoint | Csr_Interrupt | Csr_TrapReturn | Csr_Halt
  | Csr_Resume | Csr_Wfi | Csr_Fence | Csr_WaitPmp | Csr_Response

datatype fence_state = Fence_None | Fence_DataBarrier | Fence_DataFlush | Fence_WaitDataFlushEnd | Fence_FlushInstr | Fence_End

type_synonym prv = "2 word"

abbreviation (input) iU :: prv where "iU \<equiv> 0"
abbreviation (input) iS :: prv where "iS \<equiv> 1"
abbreviation (input) iM :: prv where "iM \<equiv> 3"

record reg_mode =
  xepc :: u64
  xpp :: prv
  xpie :: bool
  xie :: bool
  xsie :: bool
  xtie :: bool
  xeie :: bool
  xtvec_off :: u64
  xtvec_mode :: "2 word"
  xtval :: u64
  xcause_irq :: bool
  xcause_code :: "5 word"
  xscratch :: u64
  xcounteren :: u32

record pmp_item =
  pmp_cfg :: u8
  pmp_addr :: u64
  pmp_mask :: u64

record csr_regs =
  c_xmode :: "prv \<Rightarrow> reg_mode"
  c_pmp :: "3 word \<Rightarrow> pmp_item"
  c_state :: csr_fsm_state
  c_fencestate :: fence_state
  c_irq_pending :: u16
  c_cmd_type :: "10 word"
  c_cmd_addr :: "12 word"
  c_cmd_data :: u64
  c_cmd_exception :: bool
  c_progbuf_end :: bool
  c_progbuf_err :: bool
  c_mip_ssip :: bool
  c_mip_stip :: bool
  c_mip_seip :: bool
  c_medeleg :: u64
  c_mideleg :: u16
  c_mcountinhibit :: u32
  c_mstackovr :: u64
  c_mstackund :: u64
  c_mmu_ena :: bool
  c_satp_ppn :: "44 word"
  c_satp_sv39 :: bool
  c_satp_sv48 :: bool
  c_mode :: prv
  c_mprv :: bool
  c_mxr :: bool
  c_sum :: bool
  c_tvm :: bool
  c_ex_fpu_invalidop :: bool
  c_ex_fpu_divbyzero :: bool
  c_ex_fpu_overflow :: bool
  c_ex_fpu_underflow :: bool
  c_ex_fpu_inexact :: bool
  c_trap_addr :: u64
  c_mcycle_cnt :: u64
  c_minstret_cnt :: u64
  c_dscratch0 :: u64
  c_dscratch1 :: u64
  c_dpc :: u64
  c_halt_cause :: "3 word"
  c_dcsr_ebreakm :: bool
  c_dcsr_stopcount :: bool
  c_dcsr_stoptimer :: bool
  c_dcsr_step :: bool
  c_dcsr_stepie :: bool
  c_stepping_mode_cnt :: u64
  c_ins_per_step :: u64
  c_pmp_upd_ena :: u8
  c_pmp_upd_cnt :: "3 word"
  c_pmp_ena :: bool
  c_pmp_we :: bool
  c_pmp_region :: "3 word"
  c_pmp_start_addr :: u64
  c_pmp_end_addr :: u64
  c_pmp_flags :: "5 word"

definition reg_mode_reset :: reg_mode where
  "reg_mode_reset =
    \<lparr>xepc = 0, xpp = 0, xpie = False, xie = False, xsie = False, xtie = False, xeie = False, xtvec_off = 0, xtvec_mode = 0,
     xtval = 0, xcause_irq = False, xcause_code = 0, xscratch = 0, xcounteren = 0\<rparr>"

definition CsrRegs_r_reset :: csr_regs where
  "CsrRegs_r_reset =
    \<lparr>c_xmode = (\<lambda>_. reg_mode_reset), c_pmp = (\<lambda>_. \<lparr>pmp_cfg = 0, pmp_addr = 0, pmp_mask = 0\<rparr>),
     c_state = Csr_Idle, c_fencestate = Fence_None, c_irq_pending = 0, c_cmd_type = 0, c_cmd_addr = 0, c_cmd_data = 0,
     c_cmd_exception = False, c_progbuf_end = False, c_progbuf_err = False, c_mip_ssip = False, c_mip_stip = False,
     c_mip_seip = False, c_medeleg = 0, c_mideleg = 0, c_mcountinhibit = 0, c_mstackovr = 0, c_mstackund = 0,
     c_mmu_ena = False, c_satp_ppn = 0, c_satp_sv39 = False, c_satp_sv48 = False, c_mode = iM, c_mprv = False,
     c_mxr = False, c_sum = False, c_tvm = False, c_ex_fpu_invalidop = False, c_ex_fpu_divbyzero = False,
     c_ex_fpu_overflow = False, c_ex_fpu_underflow = False, c_ex_fpu_inexact = False, c_trap_addr = 0,
     c_mcycle_cnt = 0, c_minstret_cnt = 0, c_dscratch0 = 0, c_dscratch1 = 0, c_dpc = 0x10000, c_halt_cause = 0,
     c_dcsr_ebreakm = False, c_dcsr_stopcount = False, c_dcsr_stoptimer = False, c_dcsr_step = False,
     c_dcsr_stepie = False, c_stepping_mode_cnt = 0, c_ins_per_step = 1, c_pmp_upd_ena = 0, c_pmp_upd_cnt = 0,
     c_pmp_ena = False, c_pmp_we = False, c_pmp_region = 0, c_pmp_start_addr = 0, c_pmp_end_addr = 0, c_pmp_flags = 0\<rparr>"

text \<open>The inputs that \<^verbatim>\<open>comb\<close> reads; \<^verbatim>\<open>i_e_instr\<close> is connected but not used.\<close>

record csr_in =
  ci_nrst :: bool
  ci_sp :: u64
  ci_req_valid :: bool
  ci_req_type :: "10 word"
  ci_req_addr :: "12 word"
  ci_req_data :: u64
  ci_resp_ready :: bool
  ci_e_halted :: bool
  ci_e_pc :: u64
  ci_irq_pending :: u16
  ci_f_flush_ready :: bool
  ci_e_valid :: bool
  ci_m_memop_ready :: bool
  ci_m_idle :: bool
  ci_flushd_end :: bool
  ci_mtimer :: u64
  ci_dbg_progbuf_ena :: bool

definition upd_mode :: "prv \<Rightarrow> (reg_mode \<Rightarrow> reg_mode) \<Rightarrow> csr_regs \<Rightarrow> csr_regs" where
  "upd_mode m f v = v\<lparr>c_xmode := (c_xmode v)(m := f (c_xmode v m))\<rparr>"

section \<open>The request state machine\<close>

abbreviation (input) CsrReq_ReadBit :: nat where "CsrReq_ReadBit \<equiv> 0"
abbreviation (input) CsrReq_WriteBit :: nat where "CsrReq_WriteBit \<equiv> 1"
abbreviation (input) CsrReq_TrapReturnBit :: nat where "CsrReq_TrapReturnBit \<equiv> 2"
abbreviation (input) CsrReq_ExceptionBit :: nat where "CsrReq_ExceptionBit \<equiv> 3"
abbreviation (input) CsrReq_InterruptBit :: nat where "CsrReq_InterruptBit \<equiv> 4"
abbreviation (input) CsrReq_BreakpointBit :: nat where "CsrReq_BreakpointBit \<equiv> 5"
abbreviation (input) CsrReq_HaltBit :: nat where "CsrReq_HaltBit \<equiv> 6"
abbreviation (input) CsrReq_ResumeBit :: nat where "CsrReq_ResumeBit \<equiv> 7"
abbreviation (input) CsrReq_WfiBit :: nat where "CsrReq_WfiBit \<equiv> 8"
abbreviation (input) CsrReq_FenceBit :: nat where "CsrReq_FenceBit \<equiv> 9"

text \<open>The cause of an exception and of an interrupt, \<^verbatim>\<open>cmd_addr(4, 0)\<close> and \<^verbatim>\<open>cmd_addr(3, 0)\<close>, and the two delegations.\<close>

definition cmd_cause :: "csr_regs \<Rightarrow> nat" where
  "cmd_cause r = unat (bitfield 0 5 (c_cmd_addr r))"

definition cmd_irq :: "csr_regs \<Rightarrow> nat" where
  "cmd_irq r = unat (bitfield 0 4 (c_cmd_addr r))"

definition v_medeleg_ena :: "csr_regs \<Rightarrow> bool" where
  "v_medeleg_ena r \<longleftrightarrow> c_mode r \<le> iS \<and> bit (c_medeleg r) (cmd_cause r)"

definition v_mideleg_ena :: "csr_regs \<Rightarrow> bool" where
  "v_mideleg_ena r \<longleftrightarrow> c_mode r \<le> iS \<and> bit (c_mideleg r) (cmd_irq r)"

definition vb_xtvec_off_edeleg :: "csr_regs \<Rightarrow> u64" where
  "vb_xtvec_off_edeleg r = xtvec_off (c_xmode r (if v_medeleg_ena r then iS else iM))"

definition vb_xtvec_off_ideleg :: "csr_regs \<Rightarrow> u64" where
  "vb_xtvec_off_ideleg r = xtvec_off (c_xmode r (if v_mideleg_ena r then iS else iM))"

definition csr_accept :: "csr_in \<Rightarrow> csr_regs \<Rightarrow> csr_regs \<Rightarrow> csr_regs" where
  "csr_accept i r v =
    (let t = ci_req_type i; a = ci_req_addr i;
         v = v\<lparr>c_cmd_type := t, c_cmd_addr := a, c_cmd_data := ci_req_data i, c_cmd_exception := False\<rparr>
     in if bit t CsrReq_ExceptionBit then
          v\<lparr>c_state := Csr_Exception, c_cmd_addr := if a = 8 then a + ucast (c_mode r) else a\<rparr>
        else if bit t CsrReq_BreakpointBit then v\<lparr>c_state := Csr_Breakpoint\<rparr>
        else if bit t CsrReq_HaltBit then v\<lparr>c_state := Csr_Halt\<rparr>
        else if bit t CsrReq_ResumeBit then v\<lparr>c_state := Csr_Resume\<rparr>
        else if bit t CsrReq_InterruptBit then v\<lparr>c_state := Csr_Interrupt\<rparr>
        else if bit t CsrReq_TrapReturnBit then v\<lparr>c_state := Csr_TrapReturn\<rparr>
        else if bit t CsrReq_WfiBit then v\<lparr>c_state := Csr_Wfi\<rparr>
        else if bit t CsrReq_FenceBit then
          if bit a 0 then v\<lparr>c_state := Csr_Fence, c_fencestate := Fence_DataBarrier\<rparr>
          else if bit a 1 then v\<lparr>c_state := Csr_Fence, c_fencestate := Fence_DataFlush\<rparr>
          else if bit a 2 \<and> \<not> (c_tvm r \<and> \<not> bit (c_mode r) 1) then v\<lparr>c_state := Csr_Fence, c_fencestate := Fence_End\<rparr>
          else v\<lparr>c_state := Csr_Response, c_cmd_exception := True\<rparr>
        else v\<lparr>c_state := Csr_RW\<rparr>)"

definition csr_denied :: "csr_regs \<Rightarrow> bool" where
  "csr_denied r \<longleftrightarrow> ucast (c_mode r) < bitfield 8 2 (c_cmd_addr r)"

definition csr_fsm :: "csr_in \<Rightarrow> csr_regs \<Rightarrow> csr_regs \<Rightarrow> csr_regs" where
  "csr_fsm i r v = (case c_state r of
     Csr_Idle \<Rightarrow>
       (let v = v\<lparr>c_progbuf_end := False, c_progbuf_err := False\<rparr>
        in if ci_req_valid i then csr_accept i r v else v)
   | Csr_Exception \<Rightarrow>
       (let v = v\<lparr>c_state := Csr_Response, c_cmd_data := vb_xtvec_off_edeleg r\<rparr>
        in if ci_dbg_progbuf_ena i then v\<lparr>c_progbuf_err := True, c_progbuf_end := True, c_cmd_exception := True\<rparr> else v)
   | Csr_Breakpoint \<Rightarrow>
       (if ci_dbg_progbuf_ena i then v\<lparr>c_state := Csr_Response, c_progbuf_end := True, c_cmd_data := -1\<rparr>
        else if c_dcsr_ebreakm r then
          v\<lparr>c_state := Csr_Response, c_halt_cause := 1, c_dpc := c_cmd_data r, c_cmd_data := -1\<rparr>
        else v\<lparr>c_state := Csr_Response, c_cmd_data := vb_xtvec_off_edeleg r\<rparr>)
   | Csr_Halt \<Rightarrow>
       v\<lparr>c_state := Csr_Response, c_halt_cause := ucast (bitfield 0 3 (c_cmd_addr r)), c_dpc := ci_e_pc i\<rparr>
   | Csr_Resume \<Rightarrow>
       v\<lparr>c_state := Csr_Response, c_cmd_data := if ci_dbg_progbuf_ena i then 0 else c_dpc r\<rparr>
   | Csr_Interrupt \<Rightarrow>
       v\<lparr>c_state := Csr_Response,
         c_cmd_data := if xtvec_mode (c_xmode r (c_mode r)) = 1
           then vb_xtvec_off_ideleg r + push_bit 2 (of_nat (cmd_cause r)) else vb_xtvec_off_ideleg r\<rparr>
   | Csr_TrapReturn \<Rightarrow>
       v\<lparr>c_state := Csr_Response, c_cmd_data := xepc (c_xmode r (c_mode r))\<rparr>
   | Csr_RW \<Rightarrow>
       (if csr_denied r then v\<lparr>c_state := Csr_Response, c_cmd_exception := True\<rparr>
        else if bitfield 4 8 (c_cmd_addr r) = 0x3A then v\<lparr>c_state := Csr_WaitPmp\<rparr>
        else v\<lparr>c_state := Csr_Response\<rparr>)
   | Csr_Wfi \<Rightarrow> v\<lparr>c_state := Csr_Response, c_cmd_data := 0\<rparr>
   | Csr_Fence \<Rightarrow>
       (if c_fencestate r = Fence_End then v\<lparr>c_cmd_data := 0, c_state := Csr_Response, c_fencestate := Fence_None\<rparr> else v)
   | Csr_WaitPmp \<Rightarrow> (if c_pmp_upd_ena r = 0 then v\<lparr>c_state := Csr_Response\<rparr> else v)
   | Csr_Response \<Rightarrow> (if ci_resp_ready i then v\<lparr>c_state := Csr_Idle\<rparr> else v))"

text \<open>The caches are flushed in the order data, instructions; the fence ends with the flush of the pipeline.\<close>

definition csr_fence :: "csr_in \<Rightarrow> csr_regs \<Rightarrow> csr_regs \<Rightarrow> csr_regs" where
  "csr_fence i r v = (case c_fencestate r of
     Fence_None \<Rightarrow> v
   | Fence_DataBarrier \<Rightarrow> (if ci_m_idle i then v\<lparr>c_fencestate := Fence_End\<rparr> else v)
   | Fence_DataFlush \<Rightarrow> (if ci_m_memop_ready i then v\<lparr>c_fencestate := Fence_WaitDataFlushEnd\<rparr> else v)
   | Fence_WaitDataFlushEnd \<Rightarrow> (if ci_flushd_end i then v\<lparr>c_fencestate := Fence_FlushInstr\<rparr> else v)
   | Fence_FlushInstr \<Rightarrow> (if ci_f_flush_ready i then v\<lparr>c_fencestate := Fence_End\<rparr> else v)
   | Fence_End \<Rightarrow> v)"

section \<open>The CSR map\<close>

definition v_csr_rena :: "csr_regs \<Rightarrow> bool" where
  "v_csr_rena r \<longleftrightarrow> c_state r = Csr_RW \<and> \<not> csr_denied r \<and> bit (c_cmd_type r) CsrReq_ReadBit"

definition v_csr_wena :: "csr_regs \<Rightarrow> bool" where
  "v_csr_wena r \<longleftrightarrow> c_state r = Csr_RW \<and> \<not> csr_denied r \<and> bit (c_cmd_type r) CsrReq_WriteBit"

definition at_bit :: "nat \<Rightarrow> bool \<Rightarrow> u64" where
  "at_bit n b = (if b then push_bit n 1 else 0)"

definition at_bits :: "nat \<Rightarrow> 'a::len word \<Rightarrow> u64" where
  "at_bits n w = push_bit n (ucast w)"

text \<open>The shadow counters are readable below machine mode only where \<^verbatim>\<open>mcounteren\<close> (and \<^verbatim>\<open>scounteren\<close> for user mode) allows it.\<close>

definition counter_denied :: "nat \<Rightarrow> csr_regs \<Rightarrow> bool" where
  "counter_denied n r \<longleftrightarrow>
     c_mode r = iU \<and> (\<not> bit (xcounteren (c_xmode r iM)) n \<or> \<not> bit (xcounteren (c_xmode r iS)) n) \<or>
     c_mode r = iS \<and> \<not> bit (xcounteren (c_xmode r iM)) n"

definition fflags_rdata :: "csr_regs \<Rightarrow> u64" where
  "fflags_rdata r =
     at_bit 0 (c_ex_fpu_inexact r) OR at_bit 1 (c_ex_fpu_underflow r) OR at_bit 2 (c_ex_fpu_overflow r) OR
     at_bit 3 (c_ex_fpu_divbyzero r) OR at_bit 4 (c_ex_fpu_invalidop r)"

definition sstatus_rdata :: "csr_regs \<Rightarrow> u64" where
  "sstatus_rdata r =
    (let s = c_xmode r iS
     in at_bit 1 (xie s) OR at_bit 5 (xpie s) OR at_bit 8 (bit (xpp s) 0) OR at_bits 13 (1 :: 2 word) OR at_bits 32 (2 :: 2 word))"

definition mstatus_rdata :: "csr_regs \<Rightarrow> u64" where
  "mstatus_rdata r =
    (let s = c_xmode r iS; m = c_xmode r iM
     in at_bit 1 (xie s) OR at_bit 3 (xie m) OR at_bit 5 (xpie s) OR at_bit 7 (xpie m) OR at_bit 8 (bit (xpp s) 0) OR
        at_bits 11 (xpp m) OR at_bits 13 (1 :: 2 word) OR at_bit 17 (c_mprv r) OR at_bit 18 (c_sum r) OR at_bit 19 (c_mxr r) OR
        at_bit 20 (c_tvm r) OR at_bits 32 (2 :: 2 word) OR at_bits 34 (2 :: 2 word))"

definition xtvec_rdata :: "reg_mode \<Rightarrow> u64" where
  "xtvec_rdata m = set_bitfield 0 2 (ucast (xtvec_mode m)) (xtvec_off m)"

definition xcause_rdata :: "reg_mode \<Rightarrow> u64" where
  "xcause_rdata m = at_bit 63 (xcause_irq m) OR at_bits 0 (xcause_code m)"

definition mie_rdata :: "csr_regs \<Rightarrow> u64" where
  "mie_rdata r =
    (let s = c_xmode r iS; m = c_xmode r iM
     in at_bit (1 - 1) (xsie s) OR at_bit (3 - 1) (xsie m) OR at_bit (5 - 1) (xtie s) OR at_bit (7 - 1) (xtie m) OR
        at_bit (9 - 1) (xeie s) OR at_bit (11 - 1) (xeie m))"

definition sie_rdata :: "csr_regs \<Rightarrow> u64" where
  "sie_rdata r =
    (let s = c_xmode r iS in at_bit (1 - 1) (xsie s) OR at_bit (5 - 1) (xtie s) OR at_bit (9 - 1) (xeie s))"

definition satp_rdata :: "csr_regs \<Rightarrow> u64" where
  "satp_rdata r =
    at_bits 0 (c_satp_ppn r) OR
    (if c_satp_sv39 r then at_bits 60 (8 :: 4 word) else if c_satp_sv48 r then at_bits 60 (9 :: 4 word) else 0)"

definition misa_rdata :: u64 where
  "misa_rdata =
    at_bits 62 (2 :: 2 word) OR at_bit 0 True OR at_bit 8 True OR at_bit 12 True OR at_bit 18 True OR at_bit 20 True OR
    at_bit 2 True OR at_bit 3 True"

definition dcsr_rdata :: "csr_regs \<Rightarrow> u64" where
  "dcsr_rdata r =
    at_bits 28 (4 :: 4 word) OR at_bit 15 (c_dcsr_ebreakm r) OR at_bit 11 (c_dcsr_stepie r) OR at_bit 10 (c_dcsr_stopcount r) OR
    at_bit 9 (c_dcsr_stoptimer r) OR at_bits 6 (c_halt_cause r) OR at_bit 2 (c_dcsr_step r) OR at_bits 0 (3 :: 2 word)"

definition pmpcfg_rdata :: "csr_regs \<Rightarrow> u64" where
  "pmpcfg_rdata r = foldl (\<lambda>w k. w OR at_bits (8 * k) (pmp_cfg (c_pmp r (of_nat k)))) 0 [0..<8]"

text \<open>\<^verbatim>\<open>pmpcfg0\<close> is the only configuration register of the eight regions; \<^verbatim>\<open>pmpaddr\<close> registers from 8 on read as zero.\<close>

definition t_pmpcfgidx :: "csr_regs \<Rightarrow> nat" where
  "t_pmpcfgidx r = 8 * unat (bitfield 1 3 (c_cmd_addr r))"

definition t_pmpdataidx :: "csr_regs \<Rightarrow> nat" where
  "t_pmpdataidx r = unat (c_cmd_addr r) - 0x3B0"

definition pmpcfg_sel :: "12 word \<Rightarrow> bool" where
  "pmpcfg_sel a \<longleftrightarrow> bitfield 4 8 a = 0x3A"

definition pmpaddr_sel :: "12 word \<Rightarrow> bool" where
  "pmpaddr_sel a \<longleftrightarrow> 0x3B0 \<le> a \<and> a \<le> 0x3EF"

definition vb_rdata_csr :: "u32 \<Rightarrow> csr_in \<Rightarrow> csr_regs \<Rightarrow> u64" where
  "vb_rdata_csr hartid i r =
    (let a = c_cmd_addr r; u = c_xmode r iU; s = c_xmode r iS; m = c_xmode r iM
     in if a = 0x041 then xepc u
        else if a = 0x001 then fflags_rdata r
        else if a = 0x002 then 4
        else if a = 0x003 then fflags_rdata r OR at_bits 5 (4 :: 3 word)
        else if a = 0xC00 then (if counter_denied 0 r then 0 else c_mcycle_cnt r)
        else if a = 0xC01 then (if counter_denied 1 r then 0 else ci_mtimer i)
        else if a = 0xC03 then (if counter_denied 2 r then 0 else c_minstret_cnt r)
        else if a = 0x100 then sstatus_rdata r
        else if a = 0x104 then sie_rdata r
        else if a = 0x105 then xtvec_rdata s
        else if a = 0x106 then ucast (xcounteren s)
        else if a = 0x140 then xscratch s
        else if a = 0x141 then xepc s
        else if a = 0x142 then xcause_rdata s
        else if a = 0x143 then xtval s
        else if a = 0x144 then ucast (c_irq_pending r AND 0x0222)
        else if a = 0x180 then (if c_tvm r \<and> c_mode r = iS then 0 else satp_rdata r)
        else if a = 0xF11 then 0xF1
        else if a = 0xF13 then 0x20220813
        else if a = 0xF14 then ucast hartid
        else if a = 0x300 then mstatus_rdata r
        else if a = 0x301 then misa_rdata
        else if a = 0x302 then c_medeleg r
        else if a = 0x303 then ucast (c_mideleg r)
        else if a = 0x304 then mie_rdata r
        else if a = 0x305 then xtvec_rdata m
        else if a = 0x306 then ucast (xcounteren m)
        else if a = 0x340 then xscratch m
        else if a = 0x341 then xepc m
        else if a = 0x342 then xcause_rdata m
        else if a = 0x343 then xtval m
        else if a = 0x344 then ucast (c_irq_pending r)
        else if pmpcfg_sel a then (if \<not> bit a 0 \<and> t_pmpcfgidx r < 8 then pmpcfg_rdata r else 0)
        else if pmpaddr_sel a then
          (if t_pmpdataidx r < 8 then take_bit 62 (pmp_addr (c_pmp r (of_nat (t_pmpdataidx r)))) else 0)
        else if a \<le> 0x3EF then 0
        else if a = 0xB00 then c_mcycle_cnt r
        else if a = 0xB02 then c_minstret_cnt r
        else if a = 0x320 then ucast (c_mcountinhibit r)
        else if a = 0x7B0 then dcsr_rdata r
        else if a = 0x7B1 then (if ci_e_halted i then c_dpc r else ci_e_pc i)
        else if a = 0x7B2 then c_dscratch0 r
        else if a = 0x7B3 then c_dscratch1 r
        else if a = 0xBC0 then c_mstackovr r
        else if a = 0xBC1 then c_mstackund r
        else 0)"

text \<open>The mask of a NAPOT region, from the trailing ones of the written address.\<close>

definition vb_pmp_napot_mask :: "u64 \<Rightarrow> u64" where
  "vb_pmp_napot_mask d =
     fst (foldl (\<lambda>(m, shift) k. if bit d k \<and> \<not> shift then (push_bit 1 m OR 1, shift) else (m, True)) (7, False) [0..<62])"

definition locked :: "pmp_item \<Rightarrow> bool" where
  "locked p \<longleftrightarrow> bit (pmp_cfg p) 7"

definition pmpcfg_write :: "u64 \<Rightarrow> csr_regs \<Rightarrow> csr_regs \<Rightarrow> csr_regs" where
  "pmpcfg_write d r v =
    v\<lparr>c_pmp := \<lambda>k. if locked (c_pmp r k) then c_pmp v k
        else (c_pmp v k)\<lparr>pmp_cfg := ucast (bitfield (8 * unat k) 8 d)\<rparr>,
      c_pmp_upd_ena := foldl (\<lambda>w k. if locked (c_pmp r (of_nat k)) then w else set_bit k w) (c_pmp_upd_ena r) [0..<8]\<rparr>"

definition pmpaddr_write :: "3 word \<Rightarrow> u64 \<Rightarrow> csr_regs \<Rightarrow> csr_regs \<Rightarrow> csr_regs" where
  "pmpaddr_write k d r v =
    (if locked (c_pmp r k) then v
     else v\<lparr>c_pmp := (c_pmp v)(k := (c_pmp v k)\<lparr>pmp_addr := push_bit 2 (bitfield 0 62 d), pmp_mask := vb_pmp_napot_mask d\<rparr>)\<rparr>)"

definition mstatus_write :: "u64 \<Rightarrow> csr_regs \<Rightarrow> csr_regs" where
  "mstatus_write d v =
    (upd_mode iM (\<lambda>m. m\<lparr>xie := bit d 3, xpie := bit d 7, xpp := ucast (bitfield 11 2 d)\<rparr>)
      (upd_mode iS (\<lambda>s. s\<lparr>xie := bit d 1, xpie := bit d 5, xpp := if bit d 8 then 1 else 0\<rparr>) v))
    \<lparr>c_mprv := bit d 17, c_sum := bit d 18, c_mxr := bit d 19, c_tvm := bit d 20\<rparr>"

definition mip_write :: "u64 \<Rightarrow> csr_regs \<Rightarrow> csr_regs" where
  "mip_write d v = v\<lparr>c_mip_ssip := bit d 1, c_mip_stip := bit d 5, c_mip_seip := bit d 9\<rparr>"

definition sie_write :: "u64 \<Rightarrow> csr_regs \<Rightarrow> csr_regs" where
  "sie_write d v = upd_mode iS (\<lambda>s. s\<lparr>xsie := bit d 1, xtie := bit d 5, xeie := bit d 9\<rparr>) v"

definition mie_write :: "u64 \<Rightarrow> csr_regs \<Rightarrow> csr_regs" where
  "mie_write d v = upd_mode iM (\<lambda>m. m\<lparr>xsie := bit d 3, xtie := bit d 7, xeie := bit d 11\<rparr>) (sie_write d v)"

definition xtvec_write :: "u64 \<Rightarrow> reg_mode \<Rightarrow> reg_mode" where
  "xtvec_write d m = m\<lparr>xtvec_off := push_bit 2 (bitfield 2 62 d), xtvec_mode := ucast (bitfield 0 2 d)\<rparr>"

definition satp_write :: "u64 \<Rightarrow> csr_regs \<Rightarrow> csr_regs" where
  "satp_write d v =
    v\<lparr>c_satp_ppn := ucast (bitfield 0 44 d), c_satp_sv39 := bitfield 60 4 d = 8, c_satp_sv48 := bitfield 60 4 d = 9\<rparr>"

definition dcsr_write :: "u64 \<Rightarrow> csr_regs \<Rightarrow> csr_regs" where
  "dcsr_write d v =
    v\<lparr>c_dcsr_ebreakm := bit d 15, c_dcsr_stepie := bit d 11, c_dcsr_stopcount := bit d 10, c_dcsr_stoptimer := bit d 9,
      c_dcsr_step := bit d 2\<rparr>"

definition csr_write_map :: "csr_regs \<Rightarrow> csr_regs \<Rightarrow> csr_regs" where
  "csr_write_map r v =
    (let a = c_cmd_addr r; d = c_cmd_data r
     in if a = 0x041 then upd_mode iU (\<lambda>u. u\<lparr>xepc := d\<rparr>) v
        else if a = 0x100 then
          upd_mode iS (\<lambda>s. s\<lparr>xie := bit d 1, xpie := bit d 5, xpp := if bit d 8 then 1 else 0\<rparr>) v
        else if a = 0x104 then sie_write d v
        else if a = 0x105 then upd_mode iS (xtvec_write d) v
        else if a = 0x106 then upd_mode iS (\<lambda>s. s\<lparr>xcounteren := ucast (bitfield 0 16 d)\<rparr>) v
        else if a = 0x140 then upd_mode iS (\<lambda>s. s\<lparr>xscratch := d\<rparr>) v
        else if a = 0x141 then upd_mode iS (\<lambda>s. s\<lparr>xepc := d\<rparr>) v
        else if a = 0x143 then upd_mode iS (\<lambda>s. s\<lparr>xtval := d\<rparr>) v
        else if a = 0x144 then mip_write d v
        else if a = 0x180 then (if c_tvm r \<and> c_mode r = iS then v else satp_write d v)
        else if a = 0x300 then mstatus_write d v
        else if a = 0x302 then v\<lparr>c_medeleg := d AND 0xB3FF\<rparr>
        else if a = 0x303 then v\<lparr>c_mideleg := ucast (bitfield 0 16 d) AND 0x222\<rparr>
        else if a = 0x304 then mie_write d v
        else if a = 0x305 then upd_mode iM (xtvec_write d) v
        else if a = 0x306 then upd_mode iM (\<lambda>m. m\<lparr>xcounteren := ucast (bitfield 0 16 d)\<rparr>) v
        else if a = 0x340 then upd_mode iM (\<lambda>m. m\<lparr>xscratch := d\<rparr>) v
        else if a = 0x341 then upd_mode iM (\<lambda>m. m\<lparr>xepc := d\<rparr>) v
        else if a = 0x343 then upd_mode iM (\<lambda>m. m\<lparr>xtval := d\<rparr>) v
        else if a = 0x344 then mip_write d v
        else if pmpcfg_sel a then (if \<not> bit a 0 \<and> t_pmpcfgidx r < 8 then pmpcfg_write d r v else v)
        else if pmpaddr_sel a then
          (if t_pmpdataidx r < 8 then pmpaddr_write (of_nat (t_pmpdataidx r)) d r v else v)
        else if a \<le> 0x3EF then v
        else if a = 0xB00 then v\<lparr>c_mcycle_cnt := d\<rparr>
        else if a = 0xB02 then v\<lparr>c_minstret_cnt := d\<rparr>
        else if a = 0x320 then v\<lparr>c_mcountinhibit := ucast (bitfield 0 16 d)\<rparr>
        else if a = 0x7B0 then dcsr_write d v
        else if a = 0x7B1 then v\<lparr>c_dpc := d\<rparr>
        else if a = 0x7B2 then v\<lparr>c_dscratch0 := d\<rparr>
        else if a = 0x7B3 then v\<lparr>c_dscratch1 := d\<rparr>
        else if a = 0xBC0 then v\<lparr>c_mstackovr := d\<rparr>
        else if a = 0xBC1 then v\<lparr>c_mstackund := d\<rparr>
        else v)"

text \<open>The addresses with a branch of their own above the last PMP register; at or below it every address has one.\<close>

definition csr_high :: "12 word set" where
  "csr_high =
    {0xC00, 0xC01, 0xC03, 0x5A8, 0xF11, 0xF12, 0xF13, 0xF14, 0xF15, 0x747, 0xB00, 0xB02, 0x7A0, 0x7A1, 0x7A2, 0x7A3, 0x7A8,
     0x7B0, 0x7B1, 0x7B2, 0x7B3, 0xBC0, 0xBC1}"

text \<open>
  Where the map sets \<^verbatim>\<open>cmd_exception\<close>. All branches but the last do it in every state, also while the unit is idle and
  \<^verbatim>\<open>cmd_addr\<close> is left from an earlier request.
\<close>

definition csr_map_exception :: "csr_regs \<Rightarrow> bool" where
  "csr_map_exception r =
    (let a = c_cmd_addr r
     in a = 0xC00 \<and> counter_denied 0 r \<or> a = 0xC01 \<and> counter_denied 1 r \<or> a = 0xC03 \<and> counter_denied 2 r \<or>
        a = 0x180 \<and> c_tvm r \<and> c_mode r = iS \<or> pmpcfg_sel a \<and> bit a 0 \<or>
        \<not> a \<le> 0x3EF \<and> a \<notin> csr_high \<and> c_state r = Csr_RW)"

definition csr_map :: "u32 \<Rightarrow> csr_in \<Rightarrow> csr_regs \<Rightarrow> csr_regs \<Rightarrow> csr_regs" where
  "csr_map hartid i r v =
    (let v = (if v_csr_wena r then csr_write_map r v else v);
         v = (if csr_map_exception r then v\<lparr>c_cmd_exception := True\<rparr> else v)
     in if v_csr_rena r then v\<lparr>c_cmd_data := vb_rdata_csr hartid i r\<rparr> else v)"

section \<open>Traps\<close>

definition csr_trapreturn :: "csr_regs \<Rightarrow> csr_regs \<Rightarrow> csr_regs" where
  "csr_trapreturn r v =
    (if c_state r = Csr_TrapReturn then
       let xpp0 = xpp (c_xmode r (c_mode r));
           v = (if ucast (c_mode r) = c_cmd_addr r
                then (upd_mode (c_mode r) (\<lambda>m. m\<lparr>xpie := True, xpp := iU\<rparr>) v)\<lparr>c_mode := xpp0\<rparr>
                else v\<lparr>c_cmd_exception := True\<rparr>)
       in if xpp0 \<noteq> iM then v\<lparr>c_mprv := False\<rparr> else v
     else v)"

definition csr_mmu :: "csr_regs \<Rightarrow> csr_regs \<Rightarrow> csr_regs" where
  "csr_mmu r v =
    v\<lparr>c_mmu_ena := (c_satp_sv39 r \<or> c_satp_sv48 r) \<and>
        (\<not> bit (c_mode r) 1 \<or> c_mprv r \<and> \<not> bit (xpp (c_xmode r (c_mode r))) 1)\<rparr>"

definition vb_e_emux :: "csr_in \<Rightarrow> csr_regs \<Rightarrow> u64" where
  "vb_e_emux i r =
    (if c_state r = Csr_Exception then push_bit (cmd_cause r) 1
     else if c_state r = Csr_Breakpoint \<and> \<not> ci_dbg_progbuf_ena i \<and> \<not> c_dcsr_ebreakm r then push_bit 3 1
     else 0)"

definition vb_e_imux :: "csr_regs \<Rightarrow> u16" where
  "vb_e_imux r = (if c_state r = Csr_Interrupt then push_bit (cmd_irq r) 1 else 0)"

definition vb_xtval :: "csr_in \<Rightarrow> csr_regs \<Rightarrow> u64" where
  "vb_xtval i r =
    (if c_state r = Csr_Exception then c_cmd_data r
     else if c_state r = Csr_Breakpoint \<and> \<not> ci_dbg_progbuf_ena i \<and> \<not> c_dcsr_ebreakm r then ci_e_pc i
     else 0)"

definition trap_enter :: "prv \<Rightarrow> csr_in \<Rightarrow> csr_regs \<Rightarrow> csr_regs \<Rightarrow> csr_regs" where
  "trap_enter x i r v =
    (upd_mode x (\<lambda>m. m\<lparr>xpp := c_mode r, xpie := xie (c_xmode r (c_mode r)), xie := False, xepc := ci_e_pc i,
        xtval := vb_xtval i r, xcause_code := ucast (bitfield 0 5 (c_cmd_addr r)), xcause_irq := vb_e_emux i r = 0\<rparr>) v)
    \<lparr>c_mode := x\<rparr>"

definition csr_trap :: "csr_in \<Rightarrow> csr_regs \<Rightarrow> csr_regs \<Rightarrow> csr_regs" where
  "csr_trap i r v =
    (if c_mode r \<le> iS \<and> (vb_e_emux i r AND c_medeleg r \<noteq> 0 \<or> vb_e_imux r AND c_mideleg r \<noteq> 0)
     then trap_enter iS i r v
     else if vb_e_emux i r \<noteq> 0 \<or> vb_e_imux r \<noteq> 0 then (trap_enter iM i r v)\<lparr>c_mmu_ena := False\<rparr>
     else v)"

section \<open>Interrupts, PMP transfer, stack borders and counters\<close>

definition vb_irq_ena :: "csr_regs \<Rightarrow> u16" where
  "vb_irq_ena r =
    (if \<not> c_dcsr_step r \<or> c_dcsr_stepie r then
       (if xie (c_xmode r iM) then NOT (c_mideleg r) else 0) OR (if xie (c_xmode r iS) then c_mideleg r else 0)
     else 0)"

definition vb_pending :: "csr_in \<Rightarrow> csr_regs \<Rightarrow> u16" where
  "vb_pending i r =
    (let p = ci_irq_pending i; s = c_xmode r iS; m = c_xmode r iM; at = (\<lambda>n b. if b then push_bit n 1 else 0)
     in at 3 (bit p 3 \<and> xsie m) OR at 7 (bit p 7 \<and> xtie m) OR at 11 (bit p 11 \<and> xeie m) OR
        at 1 ((bit p 1 \<or> c_mip_ssip r) \<and> xsie s) OR at 5 ((bit p 5 \<or> c_mip_stip r) \<and> xtie s) OR
        at 9 ((bit p 9 \<or> c_mip_seip r) \<and> xeie s))"

definition pmp_flags_of :: "pmp_item \<Rightarrow> 5 word" where
  "pmp_flags_of p = push_bit 4 1 OR (if locked p then push_bit 3 1 else 0) OR ucast (bitfield 0 3 (pmp_cfg p))"

definition pmp_range :: "u64 \<Rightarrow> pmp_item \<Rightarrow> u64 \<times> u64 \<times> 5 word" where
  "pmp_range prev_end p =
    (let a = pmp_addr p; mode = bitfield 3 2 (pmp_cfg p)
     in if mode = 0 then (0, a, 0)
        else if mode = 1 then (if bit prev_end 0 then prev_end + 1 else prev_end, a - 1, pmp_flags_of p)
        else if mode = 2 then (a, a OR 3, pmp_flags_of p)
        else (a AND NOT (pmp_mask p), a OR pmp_mask p, pmp_flags_of p))"

definition csr_pmp_transfer :: "csr_regs \<Rightarrow> csr_regs \<Rightarrow> csr_regs" where
  "csr_pmp_transfer r v =
    (if c_pmp_upd_ena r \<noteq> 0 then
       let k = c_pmp_upd_cnt r; (start, last, flags) = pmp_range (c_pmp_end_addr r) (c_pmp r k)
       in v\<lparr>c_pmp_upd_ena := unset_bit (unat k) (c_pmp_upd_ena v), c_pmp_upd_cnt := k + 1,
            c_pmp_we := bit (c_pmp_upd_ena r) (unat k), c_pmp_region := k, c_pmp_start_addr := start,
            c_pmp_end_addr := last, c_pmp_flags := flags\<rparr>
     else v\<lparr>c_pmp_upd_cnt := 0, c_pmp_start_addr := 0, c_pmp_end_addr := 0, c_pmp_flags := 0, c_pmp_we := False\<rparr>)"

definition w_mstackovr :: "csr_in \<Rightarrow> csr_regs \<Rightarrow> bool" where
  "w_mstackovr i r \<longleftrightarrow> c_mstackovr r \<noteq> 0 \<and> ci_sp i < c_mstackovr r"

definition w_mstackund :: "csr_in \<Rightarrow> csr_regs \<Rightarrow> bool" where
  "w_mstackund i r \<longleftrightarrow> c_mstackund r \<noteq> 0 \<and> ci_sp i > c_mstackund r"

definition csr_stack :: "csr_in \<Rightarrow> csr_regs \<Rightarrow> csr_regs \<Rightarrow> csr_regs" where
  "csr_stack i r v =
    (let v = (if w_mstackovr i r then v\<lparr>c_mstackovr := 0\<rparr> else v)
     in if w_mstackund i r then v\<lparr>c_mstackund := 0\<rparr> else v)"

definition csr_counters :: "csr_in \<Rightarrow> csr_regs \<Rightarrow> csr_regs \<Rightarrow> csr_regs" where
  "csr_counters i r v =
    (let v = (if \<not> ci_e_halted i \<and> \<not> c_dcsr_stopcount r \<and> \<not> bit (c_mcountinhibit r) 0
              then v\<lparr>c_mcycle_cnt := c_mcycle_cnt r + 1\<rparr> else v)
     in if ci_e_valid i \<and> \<not> c_dcsr_stopcount r \<and> \<not> ci_dbg_progbuf_ena i \<and> \<not> bit (c_mcountinhibit r) 2
        then v\<lparr>c_minstret_cnt := c_minstret_cnt r + 1\<rparr> else v)"

section \<open>The clock and the outputs\<close>

definition CsrRegs_comb :: "u32 \<Rightarrow> csr_in \<Rightarrow> csr_regs \<Rightarrow> csr_regs" where
  "CsrRegs_comb hartid i r =
    (let v = csr_fsm i r r;
         v = csr_fence i r v;
         v = csr_map hartid i r v;
         v = csr_trapreturn r v;
         v = csr_mmu r v;
         v = csr_trap i r v;
         v = v\<lparr>c_irq_pending := vb_pending i r\<rparr>;
         v = csr_pmp_transfer r v;
         v = v\<lparr>c_pmp_ena := \<not> bit (c_mode r) 1 \<or> c_mprv r\<rparr>;
         v = csr_stack i r v
     in csr_counters i r v)"

definition CsrRegs_clock :: "u32 \<Rightarrow> csr_in \<Rightarrow> csr_regs \<Rightarrow> csr_regs" where
  "CsrRegs_clock hartid i r = (if ci_nrst i then CsrRegs_comb hartid i r else CsrRegs_r_reset)"

definition o_csr_req_ready :: "csr_regs \<Rightarrow> bool" where
  "o_csr_req_ready r \<longleftrightarrow> c_state r = Csr_Idle"

definition o_csr_resp_valid :: "csr_regs \<Rightarrow> bool" where
  "o_csr_resp_valid r \<longleftrightarrow> c_state r = Csr_Response"

definition o_csr_irq_pending :: "csr_regs \<Rightarrow> u16" where
  "o_csr_irq_pending r = c_irq_pending r AND vb_irq_ena r"

definition o_csr_wakeup :: "csr_regs \<Rightarrow> bool" where
  "o_csr_wakeup r \<longleftrightarrow> c_irq_pending r \<noteq> 0"

definition o_flushd_valid :: "csr_regs \<Rightarrow> bool" where
  "o_flushd_valid r \<longleftrightarrow> c_fencestate r = Fence_DataFlush"

definition o_flushi_valid :: "csr_regs \<Rightarrow> bool" where
  "o_flushi_valid r \<longleftrightarrow> c_fencestate r = Fence_FlushInstr"

definition o_flushmmu_valid :: "csr_in \<Rightarrow> csr_regs \<Rightarrow> bool" where
  "o_flushmmu_valid i r \<longleftrightarrow>
    (let t = ci_req_type i; a = ci_req_addr i
     in c_state r = Csr_Idle \<and> ci_req_valid i \<and> bitfield 2 7 t = 0 \<and> bit t CsrReq_FenceBit \<and> \<not> bit a 0 \<and>
        (bit a 1 \<or> bit a 2 \<and> \<not> (c_tvm r \<and> \<not> bit (c_mode r) 1)))"

text \<open>The assignment for the MMU comes after the one for the fence and replaces it.\<close>

definition o_flushpipeline_valid :: "csr_regs \<Rightarrow> bool" where
  "o_flushpipeline_valid r \<longleftrightarrow>
    (if (c_satp_sv39 r \<or> c_satp_sv48 r) \<and> (\<not> bit (c_mode r) 1 \<or> c_mprv r \<and> \<not> bit (xpp (c_xmode r (c_mode r))) 1)
     then \<not> c_mmu_ena r else c_fencestate r = Fence_End)"

end
