(* ===== verification/Rtl_Csr_Inv.thy ===== *)
theory Rtl_Csr_Inv
  imports Rtl_Csr
begin

text \<open>
  What every clock of the CSR unit keeps: the frame of each part of \<^verbatim>\<open>comb\<close>, the next-state equations of the registers that
  matter for privilege and protection, and the invariant of the unit over all sequences of inputs.
\<close>

named_theorems csr_frame \<open>the registers a part of comb does not assign\<close>

section \<open>Frames\<close>

text \<open>
  A part of \<^verbatim>\<open>comb\<close> is a tree of conditionals whose leaves are record updates. The three rules reduce a property of its result
  to the property of the leaves.
\<close>

lemma if_rule: "(b \<Longrightarrow> P x) \<Longrightarrow> (\<not> b \<Longrightarrow> P y) \<Longrightarrow> P (if b then x else y)"
  by simp

lemma csr_accept_rule:
  assumes "\<And>st b. P (v\<lparr>c_cmd_type := ci_req_type i, c_cmd_addr := ci_req_addr i, c_cmd_data := ci_req_data i,
      c_cmd_exception := False, c_state := st, c_cmd_addr := b\<rparr>)"
    and "\<And>st. P (v\<lparr>c_cmd_type := ci_req_type i, c_cmd_addr := ci_req_addr i, c_cmd_data := ci_req_data i,
      c_cmd_exception := False, c_state := st\<rparr>)"
    and "\<And>st fs. P (v\<lparr>c_cmd_type := ci_req_type i, c_cmd_addr := ci_req_addr i, c_cmd_data := ci_req_data i,
      c_cmd_exception := False, c_state := st, c_fencestate := fs\<rparr>)"
    and "\<And>st. P (v\<lparr>c_cmd_type := ci_req_type i, c_cmd_addr := ci_req_addr i, c_cmd_data := ci_req_data i,
      c_cmd_exception := False, c_state := st, c_cmd_exception := True\<rparr>)"
  shows "P (csr_accept i r v)"
  unfolding csr_accept_def Let_def by (intro if_rule [of _ P] assms)

lemma csr_fsm_rule:
  assumes "P v" and "P (v\<lparr>c_progbuf_end := False, c_progbuf_err := False\<rparr>)"
    and "P (csr_accept i r (v\<lparr>c_progbuf_end := False, c_progbuf_err := False\<rparr>))"
    and "\<And>st d. P (v\<lparr>c_state := st, c_cmd_data := d\<rparr>)" and "\<And>st. P (v\<lparr>c_state := st\<rparr>)"
    and "\<And>st d. P (v\<lparr>c_state := st, c_cmd_data := d, c_progbuf_err := True, c_progbuf_end := True, c_cmd_exception := True\<rparr>)"
    and "\<And>st d. P (v\<lparr>c_state := st, c_progbuf_end := True, c_cmd_data := d\<rparr>)"
    and "\<And>st h p d. P (v\<lparr>c_state := st, c_halt_cause := h, c_dpc := p, c_cmd_data := d\<rparr>)"
    and "\<And>st h p. P (v\<lparr>c_state := st, c_halt_cause := h, c_dpc := p\<rparr>)"
    and "\<And>st. P (v\<lparr>c_state := st, c_cmd_exception := True\<rparr>)"
    and "\<And>st d. P (v\<lparr>c_cmd_data := d, c_state := st, c_fencestate := Fence_None\<rparr>)"
  shows "P (csr_fsm i r v)"
  unfolding csr_fsm_def Let_def
  by (cases "c_state r"; simp only: csr_fsm_state.case; intro if_rule [of _ P] assms)

definition mode_ok :: "prv \<Rightarrow> reg_mode \<Rightarrow> bool" where
  "mode_ok x m \<longleftrightarrow> (x = iU \<or> x = 2 \<longrightarrow> xpp m = iU \<and> \<not> xie m) \<and> (x = iS \<longrightarrow> xpp m \<le> iS) \<and> bitfield 0 2 (xtvec_off m) = 0"

lemma aligned_push [simp]: "bitfield 0 2 (push_bit 2 (w :: u64)) = 0"
  by (rule bit_word_eqI) (auto simp: bit_simps)

lemma mode_ok_writes [simp]:
  "mode_ok x m \<Longrightarrow> mode_ok x (m\<lparr>xepc := d\<rparr>)" "mode_ok x m \<Longrightarrow> mode_ok x (m\<lparr>xtval := d\<rparr>)"
  "mode_ok x m \<Longrightarrow> mode_ok x (m\<lparr>xscratch := d\<rparr>)" "mode_ok x m \<Longrightarrow> mode_ok x (m\<lparr>xcounteren := e\<rparr>)"
  "mode_ok x m \<Longrightarrow> mode_ok x (m\<lparr>xsie := a, xtie := b, xeie := c\<rparr>)"
  "p \<le> iS \<Longrightarrow> mode_ok iS m \<Longrightarrow> mode_ok iS (m\<lparr>xie := a, xpie := b, xpp := p\<rparr>)"
  "mode_ok iM m \<Longrightarrow> mode_ok iM (m\<lparr>xie := a, xpie := b, xpp := p\<rparr>)"
  "mode_ok x m \<Longrightarrow> mode_ok x (xtvec_write d m)"
  by (simp_all add: mode_ok_def xtvec_write_def)

lemma csr_write_map_rule:
  assumes "P v" and "\<And>x f. (\<And>m. mode_ok x m \<Longrightarrow> mode_ok x (f m)) \<Longrightarrow> P (upd_mode x f v)"
    and "\<And>d. P (mip_write d v)" and "\<And>d. P (satp_write d v)" and "\<And>d. P (mstatus_write d v)" and "\<And>d. P (mie_write d v)"
    and "\<And>d. P (v\<lparr>c_medeleg := d AND 0xB3FF\<rparr>)" and "\<And>d. P (v\<lparr>c_mideleg := d AND 0x222\<rparr>)"
    and "\<And>d. pmpcfg_sel (c_cmd_addr r) \<Longrightarrow> P (pmpcfg_write d r v)" and "\<And>k d. P (pmpaddr_write k d r v)"
    and "\<And>d. P (v\<lparr>c_mcycle_cnt := d\<rparr>)" and "\<And>d. P (v\<lparr>c_minstret_cnt := d\<rparr>)" and "\<And>d. P (dcsr_write d v)"
    and "\<And>d. P (v\<lparr>c_dpc := d\<rparr>)" and "\<And>d. P (v\<lparr>c_dscratch0 := d\<rparr>)" and "\<And>d. P (v\<lparr>c_dscratch1 := d\<rparr>)"
    and "\<And>d. P (v\<lparr>c_mstackovr := d\<rparr>)" and "\<And>d. P (v\<lparr>c_mstackund := d\<rparr>)"
  shows "P (csr_write_map r v)"
proof -
  have dead: "c_cmd_addr r = 0x320 \<Longrightarrow> \<not> c_cmd_addr r \<le> 0x3EF \<Longrightarrow> P x" for x by simp
  show ?thesis
    unfolding csr_write_map_def Let_def sie_write_def
    by (intro if_rule [of _ P]; (rule assms; simp; fail | erule (1) dead | assumption)?)
qed

lemmas csr_write_parts = sie_write_def mie_write_def mip_write_def mstatus_write_def satp_write_def dcsr_write_def
  pmpcfg_write_def pmpaddr_write_def

lemma csr_accept_frame [csr_frame]:
  "c_xmode (csr_accept i r v) = c_xmode v" "c_pmp (csr_accept i r v) = c_pmp v"
  "c_medeleg (csr_accept i r v) = c_medeleg v" "c_mideleg (csr_accept i r v) = c_mideleg v"
  "c_mcountinhibit (csr_accept i r v) = c_mcountinhibit v" "c_satp_ppn (csr_accept i r v) = c_satp_ppn v"
  "c_satp_sv39 (csr_accept i r v) = c_satp_sv39 v" "c_satp_sv48 (csr_accept i r v) = c_satp_sv48 v"
  "c_mode (csr_accept i r v) = c_mode v" "c_mprv (csr_accept i r v) = c_mprv v" "c_mxr (csr_accept i r v) = c_mxr v"
  "c_sum (csr_accept i r v) = c_sum v" "c_tvm (csr_accept i r v) = c_tvm v" "c_dpc (csr_accept i r v) = c_dpc v"
  "c_halt_cause (csr_accept i r v) = c_halt_cause v" "c_dcsr_ebreakm (csr_accept i r v) = c_dcsr_ebreakm v"
  "c_dcsr_step (csr_accept i r v) = c_dcsr_step v" "c_pmp_upd_ena (csr_accept i r v) = c_pmp_upd_ena v"
  "c_pmp_upd_cnt (csr_accept i r v) = c_pmp_upd_cnt v" "c_pmp_we (csr_accept i r v) = c_pmp_we v"
  "c_pmp_region (csr_accept i r v) = c_pmp_region v" "c_pmp_start_addr (csr_accept i r v) = c_pmp_start_addr v"
  "c_pmp_end_addr (csr_accept i r v) = c_pmp_end_addr v" "c_pmp_flags (csr_accept i r v) = c_pmp_flags v"
  "c_progbuf_end (csr_accept i r v) = c_progbuf_end v" "c_progbuf_err (csr_accept i r v) = c_progbuf_err v"
  "c_mmu_ena (csr_accept i r v) = c_mmu_ena v" "c_irq_pending (csr_accept i r v) = c_irq_pending v"
  by (rule csr_accept_rule; simp)+

lemma csr_fsm_frame [csr_frame]:
  "c_xmode (csr_fsm i r v) = c_xmode v" "c_pmp (csr_fsm i r v) = c_pmp v" "c_medeleg (csr_fsm i r v) = c_medeleg v"
  "c_mideleg (csr_fsm i r v) = c_mideleg v" "c_mcountinhibit (csr_fsm i r v) = c_mcountinhibit v"
  "c_satp_ppn (csr_fsm i r v) = c_satp_ppn v" "c_satp_sv39 (csr_fsm i r v) = c_satp_sv39 v"
  "c_satp_sv48 (csr_fsm i r v) = c_satp_sv48 v" "c_mode (csr_fsm i r v) = c_mode v"
  "c_mprv (csr_fsm i r v) = c_mprv v" "c_mxr (csr_fsm i r v) = c_mxr v" "c_sum (csr_fsm i r v) = c_sum v"
  "c_tvm (csr_fsm i r v) = c_tvm v" "c_dcsr_ebreakm (csr_fsm i r v) = c_dcsr_ebreakm v"
  "c_dcsr_step (csr_fsm i r v) = c_dcsr_step v" "c_pmp_upd_ena (csr_fsm i r v) = c_pmp_upd_ena v"
  "c_pmp_upd_cnt (csr_fsm i r v) = c_pmp_upd_cnt v" "c_pmp_we (csr_fsm i r v) = c_pmp_we v"
  "c_pmp_region (csr_fsm i r v) = c_pmp_region v" "c_pmp_start_addr (csr_fsm i r v) = c_pmp_start_addr v"
  "c_pmp_end_addr (csr_fsm i r v) = c_pmp_end_addr v" "c_pmp_flags (csr_fsm i r v) = c_pmp_flags v"
  "c_mmu_ena (csr_fsm i r v) = c_mmu_ena v" "c_irq_pending (csr_fsm i r v) = c_irq_pending v"
  by (rule csr_fsm_rule; simp add: csr_accept_frame)+

lemma csr_fence_frame [csr_frame]:
  "c_xmode (csr_fence i r v) = c_xmode v" "c_pmp (csr_fence i r v) = c_pmp v" "c_state (csr_fence i r v) = c_state v"
  "c_cmd_type (csr_fence i r v) = c_cmd_type v" "c_cmd_addr (csr_fence i r v) = c_cmd_addr v"
  "c_cmd_data (csr_fence i r v) = c_cmd_data v" "c_cmd_exception (csr_fence i r v) = c_cmd_exception v"
  "c_medeleg (csr_fence i r v) = c_medeleg v" "c_mideleg (csr_fence i r v) = c_mideleg v"
  "c_mcountinhibit (csr_fence i r v) = c_mcountinhibit v" "c_satp_ppn (csr_fence i r v) = c_satp_ppn v"
  "c_satp_sv39 (csr_fence i r v) = c_satp_sv39 v" "c_satp_sv48 (csr_fence i r v) = c_satp_sv48 v"
  "c_mode (csr_fence i r v) = c_mode v" "c_mprv (csr_fence i r v) = c_mprv v" "c_mxr (csr_fence i r v) = c_mxr v"
  "c_sum (csr_fence i r v) = c_sum v" "c_tvm (csr_fence i r v) = c_tvm v" "c_dpc (csr_fence i r v) = c_dpc v"
  "c_halt_cause (csr_fence i r v) = c_halt_cause v" "c_dcsr_ebreakm (csr_fence i r v) = c_dcsr_ebreakm v"
  "c_dcsr_step (csr_fence i r v) = c_dcsr_step v" "c_pmp_upd_ena (csr_fence i r v) = c_pmp_upd_ena v"
  "c_pmp_upd_cnt (csr_fence i r v) = c_pmp_upd_cnt v" "c_pmp_we (csr_fence i r v) = c_pmp_we v"
  "c_pmp_region (csr_fence i r v) = c_pmp_region v" "c_pmp_start_addr (csr_fence i r v) = c_pmp_start_addr v"
  "c_pmp_end_addr (csr_fence i r v) = c_pmp_end_addr v" "c_pmp_flags (csr_fence i r v) = c_pmp_flags v"
  "c_progbuf_end (csr_fence i r v) = c_progbuf_end v" "c_progbuf_err (csr_fence i r v) = c_progbuf_err v"
  "c_mmu_ena (csr_fence i r v) = c_mmu_ena v" "c_irq_pending (csr_fence i r v) = c_irq_pending v"
  by (simp_all add: csr_fence_def split: fence_state.split)

lemma csr_trapreturn_frame [csr_frame]:
  "c_pmp (csr_trapreturn r v) = c_pmp v" "c_state (csr_trapreturn r v) = c_state v"
  "c_fencestate (csr_trapreturn r v) = c_fencestate v" "c_cmd_type (csr_trapreturn r v) = c_cmd_type v"
  "c_cmd_addr (csr_trapreturn r v) = c_cmd_addr v" "c_cmd_data (csr_trapreturn r v) = c_cmd_data v"
  "c_medeleg (csr_trapreturn r v) = c_medeleg v" "c_mideleg (csr_trapreturn r v) = c_mideleg v"
  "c_mcountinhibit (csr_trapreturn r v) = c_mcountinhibit v" "c_satp_ppn (csr_trapreturn r v) = c_satp_ppn v"
  "c_satp_sv39 (csr_trapreturn r v) = c_satp_sv39 v" "c_satp_sv48 (csr_trapreturn r v) = c_satp_sv48 v"
  "c_mxr (csr_trapreturn r v) = c_mxr v" "c_sum (csr_trapreturn r v) = c_sum v"
  "c_tvm (csr_trapreturn r v) = c_tvm v" "c_dpc (csr_trapreturn r v) = c_dpc v"
  "c_halt_cause (csr_trapreturn r v) = c_halt_cause v" "c_dcsr_ebreakm (csr_trapreturn r v) = c_dcsr_ebreakm v"
  "c_dcsr_step (csr_trapreturn r v) = c_dcsr_step v" "c_pmp_upd_ena (csr_trapreturn r v) = c_pmp_upd_ena v"
  "c_pmp_upd_cnt (csr_trapreturn r v) = c_pmp_upd_cnt v" "c_pmp_we (csr_trapreturn r v) = c_pmp_we v"
  "c_pmp_region (csr_trapreturn r v) = c_pmp_region v" "c_pmp_start_addr (csr_trapreturn r v) = c_pmp_start_addr v"
  "c_pmp_end_addr (csr_trapreturn r v) = c_pmp_end_addr v" "c_pmp_flags (csr_trapreturn r v) = c_pmp_flags v"
  "c_progbuf_end (csr_trapreturn r v) = c_progbuf_end v" "c_progbuf_err (csr_trapreturn r v) = c_progbuf_err v"
  "c_mmu_ena (csr_trapreturn r v) = c_mmu_ena v" "c_irq_pending (csr_trapreturn r v) = c_irq_pending v"
  by (simp_all add: csr_trapreturn_def upd_mode_def Let_def)

lemma csr_mmu_frame [csr_frame]:
  "c_xmode (csr_mmu r v) = c_xmode v" "c_pmp (csr_mmu r v) = c_pmp v" "c_state (csr_mmu r v) = c_state v"
  "c_fencestate (csr_mmu r v) = c_fencestate v" "c_cmd_type (csr_mmu r v) = c_cmd_type v"
  "c_cmd_addr (csr_mmu r v) = c_cmd_addr v" "c_cmd_data (csr_mmu r v) = c_cmd_data v"
  "c_cmd_exception (csr_mmu r v) = c_cmd_exception v" "c_medeleg (csr_mmu r v) = c_medeleg v"
  "c_mideleg (csr_mmu r v) = c_mideleg v" "c_mcountinhibit (csr_mmu r v) = c_mcountinhibit v"
  "c_satp_ppn (csr_mmu r v) = c_satp_ppn v" "c_satp_sv39 (csr_mmu r v) = c_satp_sv39 v"
  "c_satp_sv48 (csr_mmu r v) = c_satp_sv48 v" "c_mode (csr_mmu r v) = c_mode v" "c_mprv (csr_mmu r v) = c_mprv v"
  "c_mxr (csr_mmu r v) = c_mxr v" "c_sum (csr_mmu r v) = c_sum v" "c_tvm (csr_mmu r v) = c_tvm v"
  "c_dpc (csr_mmu r v) = c_dpc v" "c_halt_cause (csr_mmu r v) = c_halt_cause v"
  "c_dcsr_ebreakm (csr_mmu r v) = c_dcsr_ebreakm v" "c_dcsr_step (csr_mmu r v) = c_dcsr_step v"
  "c_pmp_upd_ena (csr_mmu r v) = c_pmp_upd_ena v" "c_pmp_upd_cnt (csr_mmu r v) = c_pmp_upd_cnt v"
  "c_pmp_we (csr_mmu r v) = c_pmp_we v" "c_pmp_region (csr_mmu r v) = c_pmp_region v"
  "c_pmp_start_addr (csr_mmu r v) = c_pmp_start_addr v" "c_pmp_end_addr (csr_mmu r v) = c_pmp_end_addr v"
  "c_pmp_flags (csr_mmu r v) = c_pmp_flags v" "c_progbuf_end (csr_mmu r v) = c_progbuf_end v"
  "c_progbuf_err (csr_mmu r v) = c_progbuf_err v" "c_irq_pending (csr_mmu r v) = c_irq_pending v"
  by (simp_all add: csr_mmu_def)

lemma csr_trap_frame [csr_frame]:
  "c_pmp (csr_trap i r v) = c_pmp v" "c_state (csr_trap i r v) = c_state v"
  "c_fencestate (csr_trap i r v) = c_fencestate v" "c_cmd_type (csr_trap i r v) = c_cmd_type v"
  "c_cmd_addr (csr_trap i r v) = c_cmd_addr v" "c_cmd_data (csr_trap i r v) = c_cmd_data v"
  "c_cmd_exception (csr_trap i r v) = c_cmd_exception v" "c_medeleg (csr_trap i r v) = c_medeleg v"
  "c_mideleg (csr_trap i r v) = c_mideleg v" "c_mcountinhibit (csr_trap i r v) = c_mcountinhibit v"
  "c_satp_ppn (csr_trap i r v) = c_satp_ppn v" "c_satp_sv39 (csr_trap i r v) = c_satp_sv39 v"
  "c_satp_sv48 (csr_trap i r v) = c_satp_sv48 v" "c_mprv (csr_trap i r v) = c_mprv v"
  "c_mxr (csr_trap i r v) = c_mxr v" "c_sum (csr_trap i r v) = c_sum v" "c_tvm (csr_trap i r v) = c_tvm v"
  "c_dpc (csr_trap i r v) = c_dpc v" "c_halt_cause (csr_trap i r v) = c_halt_cause v"
  "c_dcsr_ebreakm (csr_trap i r v) = c_dcsr_ebreakm v" "c_dcsr_step (csr_trap i r v) = c_dcsr_step v"
  "c_pmp_upd_ena (csr_trap i r v) = c_pmp_upd_ena v" "c_pmp_upd_cnt (csr_trap i r v) = c_pmp_upd_cnt v"
  "c_pmp_we (csr_trap i r v) = c_pmp_we v" "c_pmp_region (csr_trap i r v) = c_pmp_region v"
  "c_pmp_start_addr (csr_trap i r v) = c_pmp_start_addr v" "c_pmp_end_addr (csr_trap i r v) = c_pmp_end_addr v"
  "c_pmp_flags (csr_trap i r v) = c_pmp_flags v" "c_progbuf_end (csr_trap i r v) = c_progbuf_end v"
  "c_progbuf_err (csr_trap i r v) = c_progbuf_err v" "c_irq_pending (csr_trap i r v) = c_irq_pending v"
  by (simp_all add: csr_trap_def trap_enter_def upd_mode_def)

lemma csr_pmp_transfer_frame [csr_frame]:
  "c_xmode (csr_pmp_transfer r v) = c_xmode v" "c_pmp (csr_pmp_transfer r v) = c_pmp v"
  "c_state (csr_pmp_transfer r v) = c_state v" "c_fencestate (csr_pmp_transfer r v) = c_fencestate v"
  "c_cmd_type (csr_pmp_transfer r v) = c_cmd_type v" "c_cmd_addr (csr_pmp_transfer r v) = c_cmd_addr v"
  "c_cmd_data (csr_pmp_transfer r v) = c_cmd_data v" "c_cmd_exception (csr_pmp_transfer r v) = c_cmd_exception v"
  "c_medeleg (csr_pmp_transfer r v) = c_medeleg v" "c_mideleg (csr_pmp_transfer r v) = c_mideleg v"
  "c_mcountinhibit (csr_pmp_transfer r v) = c_mcountinhibit v" "c_satp_ppn (csr_pmp_transfer r v) = c_satp_ppn v"
  "c_satp_sv39 (csr_pmp_transfer r v) = c_satp_sv39 v" "c_satp_sv48 (csr_pmp_transfer r v) = c_satp_sv48 v"
  "c_mode (csr_pmp_transfer r v) = c_mode v" "c_mprv (csr_pmp_transfer r v) = c_mprv v"
  "c_mxr (csr_pmp_transfer r v) = c_mxr v" "c_sum (csr_pmp_transfer r v) = c_sum v"
  "c_tvm (csr_pmp_transfer r v) = c_tvm v" "c_dpc (csr_pmp_transfer r v) = c_dpc v"
  "c_halt_cause (csr_pmp_transfer r v) = c_halt_cause v" "c_dcsr_ebreakm (csr_pmp_transfer r v) = c_dcsr_ebreakm v"
  "c_dcsr_step (csr_pmp_transfer r v) = c_dcsr_step v" "c_progbuf_end (csr_pmp_transfer r v) = c_progbuf_end v"
  "c_progbuf_err (csr_pmp_transfer r v) = c_progbuf_err v" "c_mmu_ena (csr_pmp_transfer r v) = c_mmu_ena v"
  "c_irq_pending (csr_pmp_transfer r v) = c_irq_pending v"
  by (simp_all add: csr_pmp_transfer_def Let_def split: prod.split)

lemma csr_stack_frame [csr_frame]:
  "c_xmode (csr_stack i r v) = c_xmode v" "c_pmp (csr_stack i r v) = c_pmp v" "c_state (csr_stack i r v) = c_state v"
  "c_fencestate (csr_stack i r v) = c_fencestate v" "c_cmd_type (csr_stack i r v) = c_cmd_type v"
  "c_cmd_addr (csr_stack i r v) = c_cmd_addr v" "c_cmd_data (csr_stack i r v) = c_cmd_data v"
  "c_cmd_exception (csr_stack i r v) = c_cmd_exception v" "c_medeleg (csr_stack i r v) = c_medeleg v"
  "c_mideleg (csr_stack i r v) = c_mideleg v" "c_mcountinhibit (csr_stack i r v) = c_mcountinhibit v"
  "c_satp_ppn (csr_stack i r v) = c_satp_ppn v" "c_satp_sv39 (csr_stack i r v) = c_satp_sv39 v"
  "c_satp_sv48 (csr_stack i r v) = c_satp_sv48 v" "c_mode (csr_stack i r v) = c_mode v"
  "c_mprv (csr_stack i r v) = c_mprv v" "c_mxr (csr_stack i r v) = c_mxr v" "c_sum (csr_stack i r v) = c_sum v"
  "c_tvm (csr_stack i r v) = c_tvm v" "c_dpc (csr_stack i r v) = c_dpc v"
  "c_halt_cause (csr_stack i r v) = c_halt_cause v" "c_dcsr_ebreakm (csr_stack i r v) = c_dcsr_ebreakm v"
  "c_dcsr_step (csr_stack i r v) = c_dcsr_step v" "c_pmp_upd_ena (csr_stack i r v) = c_pmp_upd_ena v"
  "c_pmp_upd_cnt (csr_stack i r v) = c_pmp_upd_cnt v" "c_pmp_we (csr_stack i r v) = c_pmp_we v"
  "c_pmp_region (csr_stack i r v) = c_pmp_region v" "c_pmp_start_addr (csr_stack i r v) = c_pmp_start_addr v"
  "c_pmp_end_addr (csr_stack i r v) = c_pmp_end_addr v" "c_pmp_flags (csr_stack i r v) = c_pmp_flags v"
  "c_progbuf_end (csr_stack i r v) = c_progbuf_end v" "c_progbuf_err (csr_stack i r v) = c_progbuf_err v"
  "c_mmu_ena (csr_stack i r v) = c_mmu_ena v" "c_irq_pending (csr_stack i r v) = c_irq_pending v"
  by (simp_all add: csr_stack_def Let_def)

lemma csr_counters_frame [csr_frame]:
  "c_xmode (csr_counters i r v) = c_xmode v" "c_pmp (csr_counters i r v) = c_pmp v"
  "c_state (csr_counters i r v) = c_state v" "c_fencestate (csr_counters i r v) = c_fencestate v"
  "c_cmd_type (csr_counters i r v) = c_cmd_type v" "c_cmd_addr (csr_counters i r v) = c_cmd_addr v"
  "c_cmd_data (csr_counters i r v) = c_cmd_data v" "c_cmd_exception (csr_counters i r v) = c_cmd_exception v"
  "c_medeleg (csr_counters i r v) = c_medeleg v" "c_mideleg (csr_counters i r v) = c_mideleg v"
  "c_mcountinhibit (csr_counters i r v) = c_mcountinhibit v" "c_satp_ppn (csr_counters i r v) = c_satp_ppn v"
  "c_satp_sv39 (csr_counters i r v) = c_satp_sv39 v" "c_satp_sv48 (csr_counters i r v) = c_satp_sv48 v"
  "c_mode (csr_counters i r v) = c_mode v" "c_mprv (csr_counters i r v) = c_mprv v"
  "c_mxr (csr_counters i r v) = c_mxr v" "c_sum (csr_counters i r v) = c_sum v"
  "c_tvm (csr_counters i r v) = c_tvm v" "c_dpc (csr_counters i r v) = c_dpc v"
  "c_halt_cause (csr_counters i r v) = c_halt_cause v" "c_dcsr_ebreakm (csr_counters i r v) = c_dcsr_ebreakm v"
  "c_dcsr_step (csr_counters i r v) = c_dcsr_step v" "c_pmp_upd_ena (csr_counters i r v) = c_pmp_upd_ena v"
  "c_pmp_upd_cnt (csr_counters i r v) = c_pmp_upd_cnt v" "c_pmp_we (csr_counters i r v) = c_pmp_we v"
  "c_pmp_region (csr_counters i r v) = c_pmp_region v" "c_pmp_start_addr (csr_counters i r v) = c_pmp_start_addr v"
  "c_pmp_end_addr (csr_counters i r v) = c_pmp_end_addr v" "c_pmp_flags (csr_counters i r v) = c_pmp_flags v"
  "c_progbuf_end (csr_counters i r v) = c_progbuf_end v" "c_progbuf_err (csr_counters i r v) = c_progbuf_err v"
  "c_mmu_ena (csr_counters i r v) = c_mmu_ena v" "c_irq_pending (csr_counters i r v) = c_irq_pending v"
  by (simp_all add: csr_counters_def Let_def)

lemma csr_write_map_frame [csr_frame]:
  "c_state (csr_write_map r v) = c_state v" "c_fencestate (csr_write_map r v) = c_fencestate v"
  "c_cmd_type (csr_write_map r v) = c_cmd_type v" "c_cmd_addr (csr_write_map r v) = c_cmd_addr v"
  "c_cmd_data (csr_write_map r v) = c_cmd_data v" "c_cmd_exception (csr_write_map r v) = c_cmd_exception v"
  "c_mode (csr_write_map r v) = c_mode v" "c_halt_cause (csr_write_map r v) = c_halt_cause v"
  "c_pmp_upd_cnt (csr_write_map r v) = c_pmp_upd_cnt v" "c_pmp_we (csr_write_map r v) = c_pmp_we v"
  "c_pmp_region (csr_write_map r v) = c_pmp_region v" "c_pmp_start_addr (csr_write_map r v) = c_pmp_start_addr v"
  "c_pmp_end_addr (csr_write_map r v) = c_pmp_end_addr v" "c_pmp_flags (csr_write_map r v) = c_pmp_flags v"
  "c_progbuf_end (csr_write_map r v) = c_progbuf_end v" "c_progbuf_err (csr_write_map r v) = c_progbuf_err v"
  "c_mmu_ena (csr_write_map r v) = c_mmu_ena v" "c_irq_pending (csr_write_map r v) = c_irq_pending v"
  by (rule csr_write_map_rule; simp add: upd_mode_def csr_write_parts)+

definition csr_written :: "csr_regs \<Rightarrow> csr_regs \<Rightarrow> csr_regs" where
  "csr_written r v = (if v_csr_wena r then csr_write_map r v else v)"

lemma csr_map_frame [csr_frame]:
  "c_xmode (csr_map h i r v) = c_xmode (csr_written r v)" "c_pmp (csr_map h i r v) = c_pmp (csr_written r v)"
  "c_state (csr_map h i r v) = c_state v" "c_fencestate (csr_map h i r v) = c_fencestate v"
  "c_medeleg (csr_map h i r v) = c_medeleg (csr_written r v)" "c_mideleg (csr_map h i r v) = c_mideleg (csr_written r v)"
  "c_mcountinhibit (csr_map h i r v) = c_mcountinhibit (csr_written r v)"
  "c_satp_sv39 (csr_map h i r v) = c_satp_sv39 (csr_written r v)" "c_satp_sv48 (csr_map h i r v) = c_satp_sv48 (csr_written r v)"
  "c_mode (csr_map h i r v) = c_mode v" "c_mprv (csr_map h i r v) = c_mprv (csr_written r v)"
  "c_tvm (csr_map h i r v) = c_tvm (csr_written r v)" "c_cmd_type (csr_map h i r v) = c_cmd_type v"
  "c_cmd_addr (csr_map h i r v) = c_cmd_addr v" "c_pmp_upd_ena (csr_map h i r v) = c_pmp_upd_ena (csr_written r v)"
  "c_pmp_upd_cnt (csr_map h i r v) = c_pmp_upd_cnt v" "c_pmp_we (csr_map h i r v) = c_pmp_we v"
  "c_pmp_region (csr_map h i r v) = c_pmp_region v" "c_pmp_end_addr (csr_map h i r v) = c_pmp_end_addr v"
  "c_dcsr_step (csr_map h i r v) = c_dcsr_step (csr_written r v)"
  "c_dcsr_ebreakm (csr_map h i r v) = c_dcsr_ebreakm (csr_written r v)" "c_dpc (csr_map h i r v) = c_dpc (csr_written r v)"
  by (simp_all add: csr_map_def csr_written_def Let_def csr_frame)

lemma csr_map_idle: "\<not> v_csr_wena r \<Longrightarrow> csr_written r v = v" by (simp add: csr_written_def)

section \<open>Next-state equations\<close>

lemma comb_state: "c_state (CsrRegs_comb h i r) = c_state (csr_fsm i r r)"
  by (simp add: CsrRegs_comb_def Let_def csr_frame)

lemma comb_fencestate: "c_fencestate (CsrRegs_comb h i r) = c_fencestate (csr_fence i r (csr_fsm i r r))"
  by (simp add: CsrRegs_comb_def Let_def csr_frame)

definition csr_after_write :: "csr_in \<Rightarrow> csr_regs \<Rightarrow> csr_regs" where
  "csr_after_write i r = csr_written r (csr_fence i r (csr_fsm i r r))"

lemma comb_written:
  "c_pmp (CsrRegs_comb h i r) = c_pmp (csr_after_write i r)"
  "c_medeleg (CsrRegs_comb h i r) = c_medeleg (csr_after_write i r)"
  "c_mideleg (CsrRegs_comb h i r) = c_mideleg (csr_after_write i r)"
  "c_mcountinhibit (CsrRegs_comb h i r) = c_mcountinhibit (csr_after_write i r)"
  "c_satp_sv39 (CsrRegs_comb h i r) = c_satp_sv39 (csr_after_write i r)"
  "c_satp_sv48 (CsrRegs_comb h i r) = c_satp_sv48 (csr_after_write i r)"
  "c_tvm (CsrRegs_comb h i r) = c_tvm (csr_after_write i r)"
  "c_dcsr_step (CsrRegs_comb h i r) = c_dcsr_step (csr_after_write i r)"
  "c_dcsr_ebreakm (CsrRegs_comb h i r) = c_dcsr_ebreakm (csr_after_write i r)"
  by (simp_all add: CsrRegs_comb_def Let_def csr_frame csr_after_write_def)

definition trap_to_S :: "csr_in \<Rightarrow> csr_regs \<Rightarrow> bool" where
  "trap_to_S i r \<longleftrightarrow> c_mode r \<le> iS \<and> (vb_e_emux i r AND c_medeleg r \<noteq> 0 \<or> vb_e_imux r AND c_mideleg r \<noteq> 0)"

definition trap_to_M :: "csr_in \<Rightarrow> csr_regs \<Rightarrow> bool" where
  "trap_to_M i r \<longleftrightarrow> \<not> trap_to_S i r \<and> (vb_e_emux i r \<noteq> 0 \<or> vb_e_imux r \<noteq> 0)"

definition trap_returns :: "csr_regs \<Rightarrow> bool" where
  "trap_returns r \<longleftrightarrow> c_state r = Csr_TrapReturn \<and> ucast (c_mode r) = c_cmd_addr r"

definition trapped :: "csr_in \<Rightarrow> csr_regs \<Rightarrow> reg_mode \<Rightarrow> reg_mode" where
  "trapped i r m = m\<lparr>xpp := c_mode r, xpie := xie (c_xmode r (c_mode r)), xie := False, xepc := ci_e_pc i,
     xtval := vb_xtval i r, xcause_code := ucast (bitfield 0 5 (c_cmd_addr r)), xcause_irq := vb_e_emux i r = 0\<rparr>"

lemma trap_states:
  "trap_to_S i r \<or> trap_to_M i r \<Longrightarrow> c_state r = Csr_Exception \<or> c_state r = Csr_Breakpoint \<or> c_state r = Csr_Interrupt"
  by (auto simp: trap_to_S_def trap_to_M_def vb_e_emux_def vb_e_imux_def split: if_splits)

lemma csr_trap_cases:
  "csr_trap i r v =
    (if trap_to_S i r then trap_enter iS i r v
     else if trap_to_M i r then (trap_enter iM i r v)\<lparr>c_mmu_ena := False\<rparr> else v)"
  by (auto simp: csr_trap_def trap_to_S_def trap_to_M_def)

lemma comb_mode:
  "c_mode (CsrRegs_comb h i r) =
     (if trap_to_S i r then iS else if trap_to_M i r then iM
      else if trap_returns r then xpp (c_xmode r (c_mode r)) else c_mode r)"
  by (simp add: CsrRegs_comb_def Let_def csr_frame csr_trap_cases csr_trapreturn_def trap_returns_def trap_enter_def)

lemma comb_xmode:
  "c_xmode (CsrRegs_comb h i r) =
    (if trap_to_S i r then (c_xmode r)(iS := trapped i r (c_xmode r iS))
     else if trap_to_M i r then (c_xmode r)(iM := trapped i r (c_xmode r iM))
     else if trap_returns r then (c_xmode r)(c_mode r := (c_xmode r (c_mode r))\<lparr>xpie := True, xpp := iU\<rparr>)
     else c_xmode (csr_after_write i r))"
proof -
  have nw: "csr_written r v = v" if "c_state r \<noteq> Csr_RW" for v
    using that by (simp add: csr_written_def v_csr_wena_def)
  have base: "c_xmode (CsrRegs_comb h i r) = c_xmode (csr_trap i r (csr_mmu r (csr_trapreturn r (csr_map h i r (csr_fence i r (csr_fsm i r r))))))"
    by (simp add: CsrRegs_comb_def Let_def csr_frame)
  consider "trap_to_S i r" | "trap_to_M i r" | "\<not> trap_to_S i r \<and> \<not> trap_to_M i r" by blast
  then show ?thesis
  proof cases
    case 1
    then have "c_state r \<noteq> Csr_RW \<and> c_state r \<noteq> Csr_TrapReturn" using trap_states [of i r] by auto
    with 1 show ?thesis unfolding base
      by (simp add: csr_trap_cases trap_enter_def upd_mode_def csr_frame nw trapped_def csr_trapreturn_def)
  next
    case 2
    then have "c_state r \<noteq> Csr_RW \<and> c_state r \<noteq> Csr_TrapReturn" using trap_states [of i r] by auto
    with 2 show ?thesis unfolding base
      by (simp add: csr_trap_cases trap_to_M_def trap_enter_def upd_mode_def csr_frame nw trapped_def csr_trapreturn_def)
  next
    case 3
    then show ?thesis unfolding base
      by (simp add: csr_trap_cases csr_frame nw csr_trapreturn_def trap_returns_def upd_mode_def csr_after_write_def Let_def)
  qed
qed

lemma comb_upd:
  "c_pmp_upd_ena (CsrRegs_comb h i r) =
     (if c_pmp_upd_ena r \<noteq> 0 then unset_bit (unat (c_pmp_upd_cnt r)) (c_pmp_upd_ena (csr_after_write i r))
      else c_pmp_upd_ena (csr_after_write i r))"
  "c_pmp_upd_cnt (CsrRegs_comb h i r) = (if c_pmp_upd_ena r \<noteq> 0 then c_pmp_upd_cnt r + 1 else 0)"
  "c_pmp_we (CsrRegs_comb h i r) \<longleftrightarrow> c_pmp_upd_ena r \<noteq> 0 \<and> bit (c_pmp_upd_ena r) (unat (c_pmp_upd_cnt r))"
  by (simp_all add: CsrRegs_comb_def Let_def csr_frame csr_pmp_transfer_def csr_after_write_def split: prod.split)

lemma comb_transfer:
  "c_pmp_upd_ena r \<noteq> 0 \<Longrightarrow> c_pmp_region (CsrRegs_comb h i r) = c_pmp_upd_cnt r"
  "c_pmp_upd_ena r \<noteq> 0 \<Longrightarrow>
     (c_pmp_start_addr (CsrRegs_comb h i r), c_pmp_end_addr (CsrRegs_comb h i r), c_pmp_flags (CsrRegs_comb h i r)) =
     pmp_range (c_pmp_end_addr r) (c_pmp r (c_pmp_upd_cnt r))"
  "c_pmp_upd_ena r = 0 \<Longrightarrow> c_pmp_end_addr (CsrRegs_comb h i r) = 0"
  by (simp_all add: CsrRegs_comb_def Let_def csr_frame csr_pmp_transfer_def split: prod.split)

section \<open>The invariant\<close>

definition csr_modes_inv :: "csr_regs \<Rightarrow> bool" where
  "csr_modes_inv r \<longleftrightarrow> (\<forall>x. mode_ok x (c_xmode r x))"

definition csr_ctl_inv :: "csr_regs \<Rightarrow> bool" where
  "csr_ctl_inv r \<longleftrightarrow>
     c_medeleg r AND 0xB3FF = c_medeleg r \<and> c_mideleg r AND 0x222 = c_mideleg r \<and> \<not> (c_satp_sv39 r \<and> c_satp_sv48 r) \<and>
     c_mcountinhibit r = 0 \<and> (\<forall>k. bitfield 0 2 (pmp_addr (c_pmp r k)) = 0)"

definition csr_fsm_inv :: "csr_regs \<Rightarrow> bool" where
  "csr_fsm_inv r \<longleftrightarrow>
     (c_state r = Csr_Fence \<longleftrightarrow> c_fencestate r \<noteq> Fence_None) \<and>
     (c_state r \<noteq> Csr_WaitPmp \<longrightarrow> c_pmp_upd_ena r = 0 \<and> c_pmp_upd_cnt r = 0 \<and> \<not> c_pmp_we r) \<and>
     (\<forall>k < unat (c_pmp_upd_cnt r). \<not> bit (c_pmp_upd_ena r) k)"

lemma modes_written:
  assumes "\<forall>x. mode_ok x (c_xmode v x)"
  shows "\<forall>x. mode_ok x (c_xmode (csr_write_map r v) x)"
  by (rule csr_write_map_rule) (use assms in \<open>auto simp: upd_mode_def csr_write_parts\<close>)

lemma ctl_written:
  assumes "csr_ctl_inv v" and "c_pmp v = c_pmp r"
  shows "csr_ctl_inv (csr_write_map r v)"
  by (rule csr_write_map_rule)
    (use assms in \<open>auto simp: csr_ctl_inv_def upd_mode_def csr_write_parts ac_simps\<close>)

lemma modes_comb:
  assumes "csr_modes_inv r"
  shows "csr_modes_inv (CsrRegs_comb h i r)"
proof -
  have w: "\<forall>x. mode_ok x (c_xmode (csr_after_write i r) x)"
    using assms modes_written [of "csr_fence i r (csr_fsm i r r)" r]
    by (simp add: csr_modes_inv_def csr_after_write_def csr_written_def csr_frame)
  have t: "mode_ok iS (trapped i r m)" if "trap_to_S i r" "mode_ok iS m" for m
    using that by (simp add: mode_ok_def trapped_def trap_to_S_def)
  have u: "mode_ok iM (trapped i r m)" if "mode_ok iM m" for m
    using that by (simp add: mode_ok_def trapped_def)
  have v: "mode_ok x (m\<lparr>xpie := True, xpp := iU\<rparr>)" if "mode_ok x m" for x m
    using that by (simp add: mode_ok_def)
  show ?thesis
    using assms w by (simp add: csr_modes_inv_def comb_xmode t u v)
qed

lemma ctl_comb:
  assumes "csr_ctl_inv r"
  shows "csr_ctl_inv (CsrRegs_comb h i r)"
proof -
  have "csr_ctl_inv (csr_after_write i r)"
    using assms ctl_written [of "csr_fence i r (csr_fsm i r r)" r]
    by (simp add: csr_ctl_inv_def csr_after_write_def csr_written_def csr_frame)
  then show ?thesis by (simp add: csr_ctl_inv_def comb_written)
qed

lemma upd_written:
  "\<not> (v_csr_wena r \<and> pmpcfg_sel (c_cmd_addr r)) \<Longrightarrow> c_pmp_upd_ena (csr_after_write i r) = c_pmp_upd_ena r"
  unfolding csr_after_write_def csr_written_def
  by (rule if_rule; (rule csr_write_map_rule)?) (auto simp: upd_mode_def csr_write_parts csr_frame)


lemma accept_fence:
  assumes "c_fencestate v = Fence_None"
  shows "c_state (csr_accept i r v) = Csr_Fence \<longleftrightarrow> c_fencestate (csr_accept i r v) \<noteq> Fence_None"
  using assms by (simp add: csr_accept_def Let_def)

lemma fence_comb:
  assumes "c_state r = Csr_Fence \<longleftrightarrow> c_fencestate r \<noteq> Fence_None"
  shows "c_state (CsrRegs_comb h i r) = Csr_Fence \<longleftrightarrow> c_fencestate (CsrRegs_comb h i r) \<noteq> Fence_None"
proof (cases "c_state r = Csr_Fence")
  case True
  with assms show ?thesis
    by (cases "c_fencestate r") (simp_all add: comb_state comb_fencestate csr_fsm_def csr_fence_def)
next
  case False
  with assms have f: "c_fencestate r = Fence_None" by simp
  with False show ?thesis
    by (cases "c_state r") (simp_all add: comb_state comb_fencestate csr_fence_def csr_fsm_def accept_fence Let_def)
qed

lemma pmp_upd_comb:
  assumes inv: "csr_fsm_inv r"
  shows "c_state (CsrRegs_comb h i r) \<noteq> Csr_WaitPmp \<Longrightarrow>
      c_pmp_upd_ena (CsrRegs_comb h i r) = 0 \<and> c_pmp_upd_cnt (CsrRegs_comb h i r) = 0 \<and> \<not> c_pmp_we (CsrRegs_comb h i r)"
    and "k < unat (c_pmp_upd_cnt (CsrRegs_comb h i r)) \<Longrightarrow> \<not> bit (c_pmp_upd_ena (CsrRegs_comb h i r)) k"
proof -
  have same: "c_pmp_upd_ena (csr_after_write i r) = c_pmp_upd_ena r" if "c_state r \<noteq> Csr_RW \<or> c_state (CsrRegs_comb h i r) \<noteq> Csr_WaitPmp"
  proof (rule upd_written, rule notI)
    assume a: "v_csr_wena r \<and> pmpcfg_sel (c_cmd_addr r)"
    then have "c_state (CsrRegs_comb h i r) = Csr_WaitPmp" by (simp add: comb_state csr_fsm_def v_csr_wena_def pmpcfg_sel_def)
    with that a show False by (simp add: v_csr_wena_def)
  qed
  show "c_pmp_upd_ena (CsrRegs_comb h i r) = 0 \<and> c_pmp_upd_cnt (CsrRegs_comb h i r) = 0 \<and> \<not> c_pmp_we (CsrRegs_comb h i r)"
    if n: "c_state (CsrRegs_comb h i r) \<noteq> Csr_WaitPmp"
  proof -
    have "c_pmp_upd_ena r = 0"
    proof (cases "c_state r = Csr_WaitPmp")
      case True
      with n show ?thesis by (simp add: comb_state csr_fsm_def split: if_splits)
    next
      case False
      with inv show ?thesis by (simp add: csr_fsm_inv_def)
    qed
    with n show ?thesis by (simp add: comb_upd same)
  qed
  show "\<not> bit (c_pmp_upd_ena (CsrRegs_comb h i r)) k" if k: "k < unat (c_pmp_upd_cnt (CsrRegs_comb h i r))"
  proof -
    from k have ne: "c_pmp_upd_ena r \<noteq> 0" and lt: "k < unat (c_pmp_upd_cnt r + 1)" by (auto simp: comb_upd split: if_splits)
    with inv have w: "c_state r \<noteq> Csr_RW" by (auto simp: csr_fsm_inv_def)
    from lt have "k < unat (c_pmp_upd_cnt r) \<or> k = unat (c_pmp_upd_cnt r)"
      by (simp add: unat_word_ariths) (metis less_Suc_eq mod_less_eq_dividend order_less_le_trans)
    with inv ne w show ?thesis by (auto simp: comb_upd same csr_fsm_inv_def bit_unset_bit_iff)
  qed
qed

lemma fsm_inv_comb: "csr_fsm_inv r \<Longrightarrow> csr_fsm_inv (CsrRegs_comb h i r)"
  using pmp_upd_comb [where r = r and h = h and i = i] fence_comb [of r h i] by (simp add: csr_fsm_inv_def)

definition csr_inv :: "csr_regs \<Rightarrow> bool" where
  "csr_inv r \<longleftrightarrow> csr_modes_inv r \<and> csr_ctl_inv r \<and> csr_fsm_inv r"

lemma csr_inv_reset: "csr_inv CsrRegs_r_reset"
  by (simp add: csr_inv_def csr_modes_inv_def csr_ctl_inv_def csr_fsm_inv_def CsrRegs_r_reset_def mode_ok_def reg_mode_reset_def
      bitfield_def)

lemma csr_inv_clock: "csr_inv r \<Longrightarrow> csr_inv (CsrRegs_clock h i r)"
  by (simp add: CsrRegs_clock_def csr_inv_reset) (simp add: csr_inv_def modes_comb ctl_comb fsm_inv_comb)

definition csr_run :: "u32 \<Rightarrow> csr_in list \<Rightarrow> csr_regs \<Rightarrow> csr_regs" where
  "csr_run h ins r = fold (CsrRegs_clock h) ins r"

lemma csr_inv_run: "csr_inv r \<Longrightarrow> csr_inv (csr_run h ins r)"
  unfolding csr_run_def by (induction ins arbitrary: r) (simp_all add: csr_inv_clock)

text \<open>C21. The registers of the CSR unit hold legal values in every state that requests lead to: SPP is user or supervisor, the
  previous mode of user mode is user; trap vectors and PMP addresses are multiples of four; only the delegable exceptions and the
  supervisor interrupts are delegated; at most one paging mode is on; no counter is inhibited; a fence is in progress exactly in
  the fence state, and PMP regions wait for their transfer only in the state that waits for it.\<close>

theorem csr_registers_wf:
  "let r = csr_run hartid ins CsrRegs_r_reset
   in xpp (c_xmode r iS) \<le> iS \<and> xpp (c_xmode r iU) = iU \<and> \<not> xie (c_xmode r iU) \<and>
      (\<forall>x. bitfield 0 2 (xtvec_off (c_xmode r x)) = 0) \<and> (\<forall>k. bitfield 0 2 (pmp_addr (c_pmp r k)) = 0) \<and>
      c_medeleg r AND 0xB3FF = c_medeleg r \<and> c_mideleg r AND 0x222 = c_mideleg r \<and>
      \<not> (c_satp_sv39 r \<and> c_satp_sv48 r) \<and> c_mcountinhibit r = 0 \<and>
      (c_state r = Csr_Fence \<longleftrightarrow> c_fencestate r \<noteq> Fence_None) \<and>
      (c_pmp_upd_ena r = 0 \<and> c_pmp_upd_cnt r = 0 \<and> \<not> c_pmp_we r \<or> c_state r = Csr_WaitPmp)"
  using csr_inv_run [OF csr_inv_reset, of hartid ins]
  by (auto simp: csr_inv_def csr_modes_inv_def csr_ctl_inv_def csr_fsm_inv_def mode_ok_def Let_def)

section \<open>Privilege and protection\<close>

text \<open>The registers that software sees and that a refused access leaves alone.\<close>

definition csr_view where
  "csr_view r = (c_xmode r, c_pmp r, c_mode r, c_medeleg r, c_mideleg r, c_satp_sv39 r, c_satp_sv48 r, c_tvm r, c_dcsr_step r,
     c_dcsr_ebreakm r)"

lemma no_write_view:
  assumes "\<not> v_csr_wena r"
  shows "c_xmode (csr_after_write i r) = c_xmode r" "c_pmp (csr_after_write i r) = c_pmp r"
    "c_medeleg (csr_after_write i r) = c_medeleg r" "c_mideleg (csr_after_write i r) = c_mideleg r"
    "c_satp_sv39 (csr_after_write i r) = c_satp_sv39 r" "c_satp_sv48 (csr_after_write i r) = c_satp_sv48 r"
    "c_tvm (csr_after_write i r) = c_tvm r" "c_dcsr_step (csr_after_write i r) = c_dcsr_step r"
    "c_dcsr_ebreakm (csr_after_write i r) = c_dcsr_ebreakm r"
  using assms by (simp_all add: csr_after_write_def csr_written_def csr_frame)

lemma rw_no_trap: "c_state r = Csr_RW \<Longrightarrow> \<not> trap_to_S i r \<and> \<not> trap_to_M i r \<and> \<not> trap_returns r"
  using trap_states [of i r] by (auto simp: trap_returns_def)

lemma view_refused:
  assumes "c_state r = Csr_RW" and "csr_denied r"
  shows "csr_view (CsrRegs_comb h i r) = csr_view r"
proof -
  have "\<not> v_csr_wena r" using assms by (simp add: v_csr_wena_def)
  then show ?thesis
    using rw_no_trap [OF assms(1), of i] by (simp add: csr_view_def comb_mode comb_xmode comb_written no_write_view)
qed

lemma comb_refused: "c_state r = Csr_RW \<Longrightarrow> csr_denied r \<Longrightarrow> c_cmd_exception (CsrRegs_comb h i r) \<and> c_state (CsrRegs_comb h i r) = Csr_Response"
  by (simp add: comb_state csr_fsm_def CsrRegs_comb_def Let_def csr_frame csr_map_def v_csr_wena_def v_csr_rena_def csr_trapreturn_def)

lemma prv_cases: "x = iU \<or> x = iS \<or> x = 2 \<or> x = iM" for x :: prv
proof -
  have "unat x < 4" using unsigned_less [of x] by simp
  then have "unat x = 0 \<or> unat x = 1 \<or> unat x = 2 \<or> unat x = 3" by arith
  then show ?thesis by (simp add: word_unat_eq_iff)
qed

lemma prv_le_M [simp]: "x \<le> iM" for x :: prv
  using prv_cases [of x] by auto

lemma return_lowers:
  assumes "csr_modes_inv r"
  shows "xpp (c_xmode r (c_mode r)) \<le> c_mode r"
proof -
  from assms have "mode_ok (c_mode r) (c_xmode r (c_mode r))" by (simp add: csr_modes_inv_def)
  with prv_cases [of "c_mode r"] show ?thesis by (auto simp: mode_ok_def)
qed

text \<open>The handler of an exception belongs to the mode that the trap enters.\<close>

lemma bit_select: "k < 64 \<Longrightarrow> push_bit k 1 AND w \<noteq> 0 \<longleftrightarrow> bit w k" for w :: u64
proof -
  assume k: "k < 64"
  then have "bit (push_bit k 1 AND w) j \<longleftrightarrow> j = k \<and> bit w k" for j by (auto simp: bit_simps)
  then show ?thesis by (metis bit_0_eq bot_apply bot_bool_def bit_word_eqI)
qed

lemma push_one: "k < 64 \<Longrightarrow> push_bit k (1 :: u64) \<noteq> 0"
  using bit_select [of k "-1"] by simp

lemma cmd_cause_lt: "cmd_cause r < 32"
  using bitfield_lt [of 5 0 "c_cmd_addr r"] by (simp add: cmd_cause_def)

lemma exception_target:
  assumes "c_state r = Csr_Exception"
  shows "c_mode (CsrRegs_comb h i r) = (if v_medeleg_ena r then iS else iM)"
    and "c_cmd_data (CsrRegs_comb h i r) = xtvec_off (c_xmode r (c_mode (CsrRegs_comb h i r)))"
proof -
  have "cmd_cause r < 64" using cmd_cause_lt [of r] by simp
  then have "push_bit (cmd_cause r) 1 AND c_medeleg r \<noteq> 0 \<longleftrightarrow> bit (c_medeleg r) (cmd_cause r)"
    and "push_bit (cmd_cause r) (1 :: u64) \<noteq> 0" by (rule bit_select, rule push_one)
  with assms show m: "c_mode (CsrRegs_comb h i r) = (if v_medeleg_ena r then iS else iM)"
    by (simp add: comb_mode trap_to_S_def trap_to_M_def vb_e_emux_def vb_e_imux_def v_medeleg_ena_def)
  show "c_cmd_data (CsrRegs_comb h i r) = xtvec_off (c_xmode r (c_mode (CsrRegs_comb h i r)))"
    using assms unfolding m
    by (simp add: CsrRegs_comb_def Let_def csr_frame csr_map_def v_csr_wena_def v_csr_rena_def csr_fsm_def vb_xtvec_off_edeleg_def)
qed

lemma locked_comb:
  assumes "locked (c_pmp r k)"
  shows "c_pmp (CsrRegs_comb h i r) k = c_pmp r k"
proof -
  have "c_pmp (csr_write_map r v) k = c_pmp r k" if "c_pmp v = c_pmp r" for v
    by (rule csr_write_map_rule) (use assms that in \<open>auto simp: upd_mode_def csr_write_parts\<close>)
  then show ?thesis by (simp add: comb_written csr_after_write_def csr_written_def csr_frame)
qed

lemma locked_run:
  assumes "locked (c_pmp r k)" and "\<forall>i \<in> set ins. ci_nrst i"
  shows "c_pmp (csr_run h ins r) k = c_pmp r k"
  using assms
proof (induction ins arbitrary: r)
  case (Cons i ins)
  then have "c_pmp (CsrRegs_clock h i r) k = c_pmp r k" by (simp add: CsrRegs_clock_def locked_comb)
  with Cons show ?case by (simp add: csr_run_def)
qed (simp add: csr_run_def)




text \<open>An input without a request, and a request.\<close>

definition csr_quiet :: csr_in where
  "csr_quiet =
    \<lparr>ci_nrst = True, ci_sp = 0, ci_req_valid = False, ci_req_type = 0, ci_req_addr = 0, ci_req_data = 0, ci_resp_ready = True,
     ci_e_halted = False, ci_e_pc = 0x1000, ci_irq_pending = 0, ci_f_flush_ready = True, ci_e_valid = False,
     ci_m_memop_ready = True, ci_m_idle = True, ci_flushd_end = True, ci_mtimer = 0, ci_dbg_progbuf_ena = False\<rparr>"

definition csr_request :: "10 word \<Rightarrow> 12 word \<Rightarrow> u64 \<Rightarrow> csr_in" where
  "csr_request t a d = csr_quiet\<lparr>ci_req_valid := True, ci_req_type := t, ci_req_addr := a, ci_req_data := d\<rparr>"

text \<open>A return from machine mode leads to user mode; an illegal instruction there, and an access to \<^verbatim>\<open>mstatus\<close>.\<close>

definition to_user :: "csr_in list" where
  "to_user = [csr_request 4 3 0, csr_quiet, csr_quiet]"


text \<open>C23. A locked PMP entry is frozen: whatever requests follow, from machine mode or the debugger too, its configuration and its
  address do not change before the next reset.
\<close>

theorem pmp_entry_locked:
  assumes "bit (pmp_cfg (c_pmp r k)) 7" and "\<forall>i \<in> set ins. ci_nrst i"
  shows "c_pmp (csr_run hartid ins r) k = c_pmp r k"
  using assms by (intro locked_run) (simp_all add: locked_def)

theorem pmp_entry_locked_witness:
  "let r = csr_run 0 [csr_request 2 0x3A0 0x9F, csr_quiet] CsrRegs_r_reset;
       ins = [csr_quiet, csr_quiet, csr_quiet, csr_quiet, csr_request 2 0x3A0 0, csr_quiet, csr_quiet]
   in bit (pmp_cfg (c_pmp r 0)) 7 \<and> c_pmp (csr_run 0 ins r) 0 = c_pmp r 0"
proof -
  let ?r = "csr_run 0 [csr_request 2 0x3A0 0x9F, csr_quiet] CsrRegs_r_reset"
  let ?ins = "[csr_quiet, csr_quiet, csr_quiet, csr_quiet, csr_request 2 0x3A0 0, csr_quiet, csr_quiet]"
  have 1: "bit (pmp_cfg (c_pmp ?r 0)) 7" by code_simp
  have 2: "\<forall>i \<in> set ?ins. ci_nrst i" by code_simp
  show ?thesis using 1 pmp_entry_locked [OF 1 2, of 0] by (simp add: Let_def)
qed

section \<open>Deviations\<close>

text \<open>With the MMU on in user or supervisor mode no fence flushes the pipeline.\<close>

lemma fence_flush_lost:
  "c_satp_sv39 r \<or> c_satp_sv48 r \<Longrightarrow> \<not> bit (c_mode r) 1 \<Longrightarrow> c_mmu_ena r \<Longrightarrow> \<not> o_flushpipeline_valid r"
  by (simp add: o_flushpipeline_valid_def)

text \<open>What is written to bit 3 of \<^verbatim>\<open>mie\<close> is read in bit 2, and \<^verbatim>\<open>mcountinhibit\<close> cannot be written.\<close>

lemma mie_read_shifted:
  "let r = csr_run 0 [csr_request 2 0x304 0x8, csr_quiet] CsrRegs_r_reset in xsie (c_xmode r iM) \<and> mie_rdata r = 4"
  by code_simp

text \<open>
  A refused access to a counter leaves its address behind, and the next request, the illegal-instruction exception of the same
  instruction, is answered with an exception too.
\<close>

lemma stale_exception:
  "let r = csr_run 0 (to_user @ [csr_request 1 0xC00 0, csr_quiet, csr_quiet, csr_request 8 2 0, csr_quiet]) CsrRegs_r_reset;
       r' = csr_run 0 (to_user @ [csr_request 8 2 0, csr_quiet]) CsrRegs_r_reset
   in c_state r = Csr_Response \<and> c_cmd_exception r \<and> c_state r' = Csr_Response \<and> \<not> c_cmd_exception r'"
  by code_simp

end
