(* ===== verification/Rtl_Csr_Sim.thy ===== *)
theory Rtl_Csr_Sim
  imports Rtl_Csr_Inv Cpu_Traps
begin

text \<open>
  The CSR unit of the RTL against the simulator. The relation \<open>csr_sim\<close> connects the registers of the unit with the CSR file and
  the privilege level of the functional model; taking an exception and returning from it lead from related states to related
  states.
\<close>

section \<open>Two clocks of a request\<close>

lemma idle_no_trap: "c_state r = Csr_Idle \<Longrightarrow> \<not> trap_to_S i r \<and> \<not> trap_to_M i r \<and> \<not> trap_returns r \<and> \<not> v_csr_wena r"
  using trap_states [of i r] by (auto simp: trap_returns_def v_csr_wena_def)

lemma comb_accept:
  assumes "c_state r = Csr_Idle" and "ci_req_valid i"
  shows "c_xmode (CsrRegs_comb h i r) = c_xmode r" "c_mode (CsrRegs_comb h i r) = c_mode r"
    "c_medeleg (CsrRegs_comb h i r) = c_medeleg r" "c_mideleg (CsrRegs_comb h i r) = c_mideleg r"
    "c_state (CsrRegs_comb h i r) = c_state (csr_accept i r r)"
    "c_cmd_addr (CsrRegs_comb h i r) = c_cmd_addr (csr_accept i r r)"
    "c_cmd_data (CsrRegs_comb h i r) = ci_req_data i"
proof -
  have e: "csr_fsm i r r = csr_accept i r (r\<lparr>c_progbuf_end := False, c_progbuf_err := False\<rparr>)"
    using assms by (simp add: csr_fsm_def)
  have st: "c_state (csr_accept i r (r\<lparr>c_progbuf_end := False, c_progbuf_err := False\<rparr>)) = c_state (csr_accept i r r)"
    "c_cmd_addr (csr_accept i r (r\<lparr>c_progbuf_end := False, c_progbuf_err := False\<rparr>)) = c_cmd_addr (csr_accept i r r)"
    "c_cmd_data (csr_accept i r v) = ci_req_data i" for v
    by (auto simp: csr_accept_def Let_def)
  show "c_xmode (CsrRegs_comb h i r) = c_xmode r" "c_mode (CsrRegs_comb h i r) = c_mode r"
    "c_medeleg (CsrRegs_comb h i r) = c_medeleg r" "c_mideleg (CsrRegs_comb h i r) = c_mideleg r"
    using idle_no_trap [OF assms(1), of i] by (simp_all add: comb_xmode comb_mode comb_written no_write_view)
  show "c_state (CsrRegs_comb h i r) = c_state (csr_accept i r r)" by (simp add: comb_state e st)
  show "c_cmd_addr (CsrRegs_comb h i r) = c_cmd_addr (csr_accept i r r)"
    by (simp add: CsrRegs_comb_def Let_def csr_frame e st)
  show "c_cmd_data (CsrRegs_comb h i r) = ci_req_data i"
    using assms(1) by (simp add: CsrRegs_comb_def Let_def csr_frame csr_map_def v_csr_wena_def v_csr_rena_def e st)
qed

text \<open>The unit after a request and the clock that serves it.\<close>

definition csr_serve :: "u32 \<Rightarrow> csr_in \<Rightarrow> csr_in \<Rightarrow> csr_regs \<Rightarrow> csr_regs" where
  "csr_serve h i1 i2 r = CsrRegs_clock h i2 (CsrRegs_clock h i1 r)"

lemma serve_exception:
  assumes idle: "c_state r = Csr_Idle" and req: "ci_nrst i1" "ci_nrst i2" "ci_req_valid i1" "bit (ci_req_type i1) 3"
    and addr: "ci_req_addr i1 = of_nat e" "e < 32" "e \<noteq> 8" and nodeleg: "c_medeleg r = 0"
  shows "c_mode (csr_serve h i1 i2 r) = iM"
    and "c_xmode (csr_serve h i1 i2 r) = (c_xmode r)(iM := (c_xmode r iM)
      \<lparr>xpp := c_mode r, xpie := xie (c_xmode r (c_mode r)), xie := False, xepc := ci_e_pc i2, xtval := ci_req_data i1,
       xcause_code := of_nat e, xcause_irq := False\<rparr>)"
    and "c_cmd_data (csr_serve h i1 i2 r) = xtvec_off (c_xmode r iM)" and "o_csr_resp_valid (csr_serve h i1 i2 r)"
proof -
  define r1 where "r1 = CsrRegs_comb h i1 r"
  have e: "csr_serve h i1 i2 r = CsrRegs_comb h i2 r1" using req by (simp add: csr_serve_def CsrRegs_clock_def r1_def)
  note acc = comb_accept [OF idle req(3), of h, folded r1_def]
  have ne: "(of_nat e :: 12 word) \<noteq> 8" using addr by (simp add: word_unat_eq_iff unat_of_nat)
  have s1: "c_state r1 = Csr_Exception" and a1: "c_cmd_addr r1 = of_nat e"
    using req(4) addr ne by (simp_all add: acc csr_accept_def Let_def)
  have cause: "cmd_cause r1 = e" using addr
    by (simp add: cmd_cause_def a1 bitfield_def unsigned_take_bit_eq unat_of_nat take_bit_nat_eq_self)
  have code: "ucast (bitfield 0 5 (c_cmd_addr r1)) = (of_nat e :: 5 word)"
    using cause by (metis cmd_cause_def of_nat_unat)
  have em: "vb_e_emux i2 r1 \<noteq> 0" and xt: "vb_xtval i2 r1 = ci_req_data i1"
    using addr s1 push_one [of e] by (simp_all add: vb_e_emux_def vb_xtval_def cause acc)
  have nd: "\<not> v_medeleg_ena r1" by (simp add: v_medeleg_ena_def acc nodeleg)
  show m: "c_mode (csr_serve h i1 i2 r) = iM" using exception_target(1) [OF s1] nd by (simp add: e)
  show "c_cmd_data (csr_serve h i1 i2 r) = xtvec_off (c_xmode r iM)"
    using exception_target(2) [OF s1, of h i2] m by (simp add: e acc)
  have "trap_to_M i2 r1 \<and> \<not> trap_to_S i2 r1"
    using em nodeleg s1 by (simp add: trap_to_M_def trap_to_S_def acc vb_e_imux_def)
  then show "c_xmode (csr_serve h i1 i2 r) = (c_xmode r)(iM := (c_xmode r iM)
      \<lparr>xpp := c_mode r, xpie := xie (c_xmode r (c_mode r)), xie := False, xepc := ci_e_pc i2, xtval := ci_req_data i1,
       xcause_code := of_nat e, xcause_irq := False\<rparr>)"
    using em xt code by (simp add: e comb_xmode trapped_def acc)
  show "o_csr_resp_valid (csr_serve h i1 i2 r)" by (simp add: e o_csr_resp_valid_def comb_state csr_fsm_def s1 Let_def)
qed

lemma serve_return:
  assumes idle: "c_state r = Csr_Idle" and req: "ci_nrst i1" "ci_nrst i2" "ci_req_valid i1" "ci_req_type i1 = 4"
    and addr: "ci_req_addr i1 = ucast (c_mode r)"
  shows "c_mode (csr_serve h i1 i2 r) = xpp (c_xmode r (c_mode r))"
    and "c_xmode (csr_serve h i1 i2 r) = (c_xmode r)(c_mode r := (c_xmode r (c_mode r))\<lparr>xpie := True, xpp := iU\<rparr>)"
    and "c_cmd_data (csr_serve h i1 i2 r) = xepc (c_xmode r (c_mode r))" and "o_csr_resp_valid (csr_serve h i1 i2 r)"
proof -
  define r1 where "r1 = CsrRegs_comb h i1 r"
  have e: "csr_serve h i1 i2 r = CsrRegs_comb h i2 r1" using req by (simp add: csr_serve_def CsrRegs_clock_def r1_def)
  note acc = comb_accept [OF idle req(3), of h, folded r1_def]
  have s1: "c_state r1 = Csr_TrapReturn" and a1: "c_cmd_addr r1 = ucast (c_mode r)"
    using req(4) addr by (simp_all add: acc csr_accept_def Let_def)
  then have t: "trap_returns r1" "\<not> trap_to_S i2 r1" "\<not> trap_to_M i2 r1"
    using trap_states [of i2 r1] by (auto simp: trap_returns_def acc)
  then show "c_mode (csr_serve h i1 i2 r) = xpp (c_xmode r (c_mode r))"
    and "c_xmode (csr_serve h i1 i2 r) = (c_xmode r)(c_mode r := (c_xmode r (c_mode r))\<lparr>xpie := True, xpp := iU\<rparr>)"
    by (simp_all add: e comb_mode comb_xmode acc)
  show "c_cmd_data (csr_serve h i1 i2 r) = xepc (c_xmode r (c_mode r))"
    using s1 by (simp add: e CsrRegs_comb_def Let_def csr_frame csr_map_def v_csr_wena_def v_csr_rena_def csr_fsm_def acc)
  show "o_csr_resp_valid (csr_serve h i1 i2 r)" by (simp add: e o_csr_resp_valid_def comb_state csr_fsm_def s1)
qed

section \<open>The relation to the simulator\<close>

text \<open>
  The bits of \<^verbatim>\<open>mstatus\<close> that the trap logic uses: SIE, MIE, SPIE, MPIE, SPP and MPP. The bits 0 and 2 of the simulator's
  \<^verbatim>\<open>mstatus\<close>, which the RTL does not implement, are clear.
\<close>

definition status_bits :: "nat set" where
  "status_bits = {0, 1, 2, 3, 5, 7, 8, 11, 12}"

definition csr_sim :: "csr_regs \<Rightarrow> 'b cpu \<Rightarrow> bool" where
  "csr_sim r s \<longleftrightarrow>
     cur_prv_level s = ucast (c_mode r) \<and> (\<forall>b \<in> status_bits. bit (csr s CSR_mstatus) b = bit (mstatus_rdata r) b) \<and>
     csr s CSR_mepc = xepc (c_xmode r iM) \<and> csr s CSR_mtvec = xtvec_rdata (c_xmode r iM) \<and>
     csr s CSR_mcause = xcause_rdata (c_xmode r iM) \<and> csr s CSR_mtval = xtval (c_xmode r iM)"

lemma bit_at_bit [bit_simps]: "bit (at_bit n b) k \<longleftrightarrow> b \<and> k = n \<and> n < 64"
  by (auto simp: at_bit_def bit_simps)

lemma bit_at_bits [bit_simps]: "bit (at_bits n w) k \<longleftrightarrow> n \<le> k \<and> k < 64 \<and> bit w (k - n)"
  by (auto simp: at_bits_def bit_simps)

lemma mstatus_status:
  "bit (mstatus_rdata r) 0 = False" "bit (mstatus_rdata r) 1 = xie (c_xmode r iS)" "bit (mstatus_rdata r) 2 = False"
  "bit (mstatus_rdata r) 3 = xie (c_xmode r iM)" "bit (mstatus_rdata r) 5 = xpie (c_xmode r iS)"
  "bit (mstatus_rdata r) 7 = xpie (c_xmode r iM)" "bit (mstatus_rdata r) 8 = bit (xpp (c_xmode r iS)) 0"
  "bit (mstatus_rdata r) 11 = bit (xpp (c_xmode r iM)) 0" "bit (mstatus_rdata r) 12 = bit (xpp (c_xmode r iM)) 1"
  by (simp_all add: mstatus_rdata_def Let_def bit_simps)

lemma xtvec_target:
  assumes "mode_ok x m"
  shows "xtvec_rdata m AND NOT 3 = xtvec_off m"
proof (rule bit_word_eqI)
  fix n assume n: "n < LENGTH(64)"
  have low: "\<not> bit (xtvec_off m) k" if "k < 2" for k
  proof -
    have "\<not> bit (bitfield 0 2 (xtvec_off m)) k" using assms by (simp add: mode_ok_def)
    with that show ?thesis by (simp add: bit_bitfield)
  qed
  have "bit (3 :: u64) n \<longleftrightarrow> n < 2" using bit_mask_iff [where 'a = u64 and m = 2 and n = n] n by (simp add: mask_eq_exp_minus_1)
  then show "bit (xtvec_rdata m AND NOT 3) n = bit (xtvec_off m) n"
    using low [of n] n by (auto simp: xtvec_rdata_def bit_simps)
qed

lemma mcause_rdata: "e < 32 \<Longrightarrow> \<not> xcause_irq m \<Longrightarrow> xcause_code m = of_nat e \<Longrightarrow> xcause_rdata m = of_nat e"
  by (simp add: xcause_rdata_def at_bit_def at_bits_def unsigned_of_nat take_bit_nat_eq_self word_unat_eq_iff unat_of_nat
      unsigned_ucast_eq)

lemma xpie_status:
  assumes "csr_modes_inv r"
  shows "bit (mstatus_rdata r) (unat (c_mode r)) = xie (c_xmode r (c_mode r))"
proof -
  from assms have "mode_ok (c_mode r) (c_xmode r (c_mode r))" by (simp add: csr_modes_inv_def)
  with prv_cases [of "c_mode r"] show ?thesis
    by (auto simp: mode_ok_def mstatus_status mstatus_status(2) [unfolded One_nat_def])
qed

lemma prv_ucast [simp]: "unat (ucast (x :: prv) :: u64) = unat x" "(ucast (x :: prv) :: u64) \<le> 3" 
  using prv_cases [of x] by auto

lemma prv_ucast_bit [simp]: "bit (ucast (x :: prv) :: u64) n = bit x n"
  by (auto simp: bit_simps dest: bit_imp_le_length)

lemma trap_mstatus_rel:
  assumes rel: "\<forall>b \<in> status_bits. bit m b = bit (mstatus_rdata r) b" and inv: "csr_modes_inv r"
    and r': "c_xmode r' = (c_xmode r)(iM := (c_xmode r iM)\<lparr>xpp := c_mode r, xpie := xie (c_xmode r (c_mode r)), xie := False,
      xepc := p, xtval := t, xcause_code := cc, xcause_irq := False\<rparr>)"
  shows "\<forall>b \<in> status_bits. bit (trap_mstatus (ucast (c_mode r)) m) b = bit (mstatus_rdata r') b"
proof -
  have "unat (c_mode r) \<in> status_bits" using prv_cases [of "c_mode r"] by (auto simp: status_bits_def)
  with rel xpie_status [OF inv] have "bit m (unat (c_mode r)) = xie (c_xmode r (c_mode r))" by simp
  with rel show ?thesis
    by (simp add: status_bits_def trap_mstatus_bits mstatus_status mstatus_status [unfolded One_nat_def] r')
qed


lemma mret_mstatus_rel:
  assumes rel: "\<forall>b \<in> status_bits. bit m b = bit (mstatus_rdata r) b" and mode: "c_mode r = iM"
    and r': "c_xmode r' = (c_xmode r)(c_mode r := (c_xmode r (c_mode r))\<lparr>xpie := True, xpp := iU\<rparr>)"
  shows "\<forall>b \<in> status_bits - {3}. bit (mret_mstatus m) b = bit (mstatus_rdata r') b"
proof -
  have e: "status_bits - {3} = {0, 1, 2, 5, 7, 8, 11, 12}" by (auto simp: status_bits_def)
  show ?thesis
    using rel unfolding e
    by (simp add: status_bits_def mret_mstatus_bits mstatus_status mstatus_status [unfolded One_nat_def] r' mode)
qed

lemma mpp_rel:
  fixes m :: u64
  assumes "\<forall>b \<in> status_bits. bit m b = bit (mstatus_rdata r) b"
  shows "bitfield 11 2 m = ucast (xpp (c_xmode r iM))"
proof -
  from assms have "bit m 11 = bit (xpp (c_xmode r iM)) 0" "bit m 12 = bit (xpp (c_xmode r iM)) 1"
    by (simp_all add: status_bits_def mstatus_status)
  moreover have "\<not> bit (xpp (c_xmode r iM)) n" if "\<not> n < 2" for n using that bit_imp_le_length by fastforce
  ultimately have "bit (bitfield 11 2 m) n = bit (xpp (c_xmode r iM)) n" for n
    by (cases "n < 2") (auto simp: bit_bitfield less_2_cases_iff)
  then show ?thesis by (intro bit_word_eqI) simp
qed

lemma rtl_exception_rel:
  fixes s :: "'b cpu" and h :: u32 and c :: "'b cpu_cfg"
  assumes inv: "csr_modes_inv r" and rel: "csr_sim r s" and idle: "c_state r = Csr_Idle"
    and req: "ci_nrst i1" "ci_nrst i2" "ci_req_valid i1" and pc: "ci_e_pc i2 = npc_of s"
    and e: "e < 32" "e \<noteq> 8" "bit (ci_req_type i1) 3" "ci_req_addr i1 = of_nat e" and nd: "c_medeleg r = 0"
    and sim: "estate s \<noteq> CORE_ProgbufExec" "e = EXCEPTION_Breakpoint \<longrightarrow> \<not> bit (csr s CSR_dcsr) 15"
  defines "r' \<equiv> csr_serve h i1 i2 r"
    and "s' \<equiv> snd (run_state (do { generateException c e (ci_req_data i1); handleException c e }) s)"
  shows "o_csr_resp_valid r' \<and> c_cmd_data r' = npc_of s' \<and> csr_sim r' s'"
proof -
  from inv have ok: "mode_ok iM (c_xmode r iM)" by (simp add: csr_modes_inv_def)
  from rel have prv: "cur_prv_level s = ucast (c_mode r)"
    and st: "\<forall>b \<in> status_bits. bit (csr s CSR_mstatus) b = bit (mstatus_rdata r) b"
    and tvec: "csr s CSR_mtvec = xtvec_rdata (c_xmode r iM)" by (simp_all add: csr_sim_def)
  note x = serve_exception [OF idle req e(3,4,1,2) nd, of h, folded r'_def]
  note st' = trap_mstatus_rel [OF st inv x(2), folded prv]
  have mc: "xcause_rdata (c_xmode r' iM) = of_nat e" using e by (intro mcause_rdata) (simp_all add: x)
  have s': "csr s' = (csr s)(CSR_mtval := ci_req_data i1, CSR_mcause := of_nat e,
      CSR_mstatus := trap_mstatus (cur_prv_level s) (csr s CSR_mstatus), CSR_mepc := npc_of s)"
    "cur_prv_level s' = 3" "npc_of s' = csr s CSR_mtvec AND NOT 3"
    using e sim by (simp_all add: s'_def run_handleException fun_upd_twist)
  have "csr_sim r' s'"
    unfolding csr_sim_def using st' mc tvec pc by (simp add: s' x xtvec_rdata_def)
  then show ?thesis using x tvec xtvec_target [OF ok] by (simp add: s')
qed

lemma rtl_mret_rel:
  fixes s :: "'b cpu" and h :: u32 and c :: "'b cpu_cfg" and p :: u64
  assumes rel: "csr_sim r s" and idle: "c_state r = Csr_Idle"
    and req: "ci_nrst i1" "ci_nrst i2" "ci_req_valid i1" "ci_req_type i1 = 4" "ci_req_addr i1 = 3" and mode: "c_mode r = iM"
  defines "r' \<equiv> csr_serve h i1 i2 r" and "s' \<equiv> snd (run_state (exec_MRET c p) s)"
  shows "o_csr_resp_valid r' \<and> c_cmd_data r' = npc_of s' \<and> cur_prv_level s' = ucast (c_mode r') \<and>
    (\<forall>b \<in> status_bits - {3}. bit (csr s' CSR_mstatus) b = bit (mstatus_rdata r') b) \<and>
    bit (mstatus_rdata r') 3 = bit (csr s CSR_mstatus) 3 \<and> bit (csr s' CSR_mstatus) 3 = bit (csr s CSR_mstatus) 7"
proof -
  from rel mode have prv: "cur_prv_level s = 3"
    and st: "\<forall>b \<in> status_bits. bit (csr s CSR_mstatus) b = bit (mstatus_rdata r) b"
    and epc: "csr s CSR_mepc = xepc (c_xmode r iM)" by (simp_all add: csr_sim_def)
  from req mode have addr: "ci_req_addr i1 = ucast (c_mode r)" by simp
  note y = serve_return [OF idle req(1-4) addr, of h, folded r'_def]
  have s': "csr s' = (csr s)(CSR_mstatus := mret_mstatus (csr s CSR_mstatus))"
    "cur_prv_level s' = bitfield 11 2 (csr s CSR_mstatus)" "npc_of s' = csr s CSR_mepc"
    by (simp_all add: s'_def run_MRET prv)
  have "3 \<in> status_bits" by (simp add: status_bits_def)
  with st have "bit (csr s CSR_mstatus) 3 = bit (mstatus_rdata r) 3" by blast
  then show ?thesis
    using mret_mstatus_rel [OF st mode y(2)] mpp_rel [OF st] y epc mode
    by (simp add: s' mret_mstatus_bits mstatus_status)
qed


text \<open>The unit after reset and the sample core in machine mode are related.\<close>

lemma csr_sim_reset: "csr_sim CsrRegs_r_reset (sample_cpu ())"
  by (simp add: csr_sim_def sample_cpu_def CsrRegs_r_reset_def status_bits_def mstatus_rdata_def xtvec_rdata_def xcause_rdata_def
      reg_mode_reset_def bit_simps at_bits_def at_bit_def set_bitfield_def)


text \<open>
  After a trap from machine mode with interrupts enabled, the return leaves them disabled in the RTL: \<^verbatim>\<open>xie\<close> is cleared by the
  trap and not restored from \<^verbatim>\<open>xpie\<close>.
\<close>

lemma rtl_return_keeps_mie_clear:
  "let ins = [csr_request 2 0x300 0x8, csr_quiet, csr_quiet, csr_request 8 2 0, csr_quiet, csr_quiet, csr_request 4 3 0, csr_quiet];
       r = csr_run 0 ins CsrRegs_r_reset
   in c_mode r = iM \<and> \<not> xie (c_xmode r iM) \<and>
      xie (c_xmode (csr_run 0 [csr_request 2 0x300 0x8, csr_quiet] CsrRegs_r_reset) iM)"
  by code_simp

text \<open>A value of \<open>2\<close> written to \<^verbatim>\<open>mstatus.MPP\<close> is kept, and the return enters that reserved privilege level.\<close>

lemma rtl_return_to_reserved_mode:
  "c_mode (csr_run 0 [csr_request 2 0x300 0x1000, csr_quiet, csr_quiet, csr_request 4 3 0, csr_quiet] CsrRegs_r_reset) = 2"
  by code_simp

end
