(* ===== verification/Rtl_Csr_Link.thy ===== *)
theory Rtl_Csr_Link
  imports Rtl_Fsm Rtl_Csr_Sim
begin

text \<open>
  The CSR unit and its two masters: the arbiter \<^verbatim>\<open>core/ic_csr_m2_s1.cpp\<close> between the execution stage and the debug port, and
  stage, arbiter and CSR unit wired together as in \<^verbatim>\<open>core/proc.cpp\<close>. The first sections are about the unit with any two
  masters, the last about a CSR instruction of the execution stage while the debug port is silent.
\<close>

section \<open>The arbiter\<close>

record csr_master =
  m_req_valid :: bool
  m_req_type :: "10 word"
  m_req_addr :: "12 word"
  m_req_data :: u64
  m_resp_ready :: bool

record csr_slave =
  s_req_ready :: bool
  s_resp_valid :: bool
  s_resp_data :: u64
  s_resp_exception :: bool

record ic_csr =
  ic_midx :: bool
  ic_acquired :: bool

definition ic_csr_m2_s1_r_reset :: ic_csr where
  "ic_csr_m2_s1_r_reset = \<lparr>ic_midx = False, ic_acquired = False\<rparr>"

definition ic_to_m0 :: "ic_csr \<Rightarrow> csr_master \<Rightarrow> bool" where
  "ic_to_m0 r m0 \<longleftrightarrow> \<not> ic_midx r \<or> \<not> ic_acquired r \<and> m_req_valid m0"

text \<open>The master whose request the slave sees, and what each master sees of the slave.\<close>

definition ic_s0 :: "ic_csr \<Rightarrow> csr_master \<Rightarrow> csr_master \<Rightarrow> csr_master" where
  "ic_s0 r m0 m1 = (if ic_to_m0 r m0 then m0 else m1)"

definition no_slave :: csr_slave where
  "no_slave = \<lparr>s_req_ready = False, s_resp_valid = False, s_resp_data = 0, s_resp_exception = False\<rparr>"

definition ic_m0 :: "ic_csr \<Rightarrow> csr_master \<Rightarrow> csr_slave \<Rightarrow> csr_slave" where
  "ic_m0 r m0 s = (if ic_to_m0 r m0 then s else no_slave)"

definition ic_m1 :: "ic_csr \<Rightarrow> csr_master \<Rightarrow> csr_slave \<Rightarrow> csr_slave" where
  "ic_m1 r m0 s = (if ic_to_m0 r m0 then no_slave else s)"

definition ic_csr_clock :: "bool \<Rightarrow> csr_master \<Rightarrow> csr_master \<Rightarrow> csr_slave \<Rightarrow> ic_csr \<Rightarrow> ic_csr" where
  "ic_csr_clock nrst m0 m1 s r =
    (if \<not> nrst then ic_csr_m2_s1_r_reset
     else
       let v = (if \<not> ic_acquired r \<and> (m_req_valid m0 \<or> m_req_valid m1)
                then r\<lparr>ic_acquired := True, ic_midx := \<not> m_req_valid m0\<rparr> else r)
       in if \<not> ic_midx r \<and> s_resp_valid s \<and> m_resp_ready m0 \<or> ic_midx r \<and> s_resp_valid s \<and> m_resp_ready m1
          then v\<lparr>ic_acquired := False\<rparr> else v)"

section \<open>The arbiter with the CSR unit\<close>

definition csr_as_slave :: "csr_regs \<Rightarrow> csr_slave" where
  "csr_as_slave c =
    \<lparr>s_req_ready = o_csr_req_ready c, s_resp_valid = o_csr_resp_valid c, s_resp_data = c_cmd_data c,
     s_resp_exception = c_cmd_exception c\<rparr>"

definition csr_in_from :: "csr_master \<Rightarrow> csr_in \<Rightarrow> csr_in" where
  "csr_in_from m j =
    j\<lparr>ci_req_valid := m_req_valid m, ci_req_type := m_req_type m, ci_req_addr := m_req_addr m, ci_req_data := m_req_data m,
      ci_resp_ready := m_resp_ready m\<rparr>"

record csr_link_in =
  li_csr :: csr_in
  li_m0 :: csr_master
  li_m1 :: csr_master

text \<open>The two units, and which master (\<open>True\<close> for the second) made the request that the CSR unit accepted last.\<close>

record csr_link =
  l_ic :: ic_csr
  l_csr :: csr_regs
  l_owner :: bool

definition csr_link_reset :: csr_link where
  "csr_link_reset = \<lparr>l_ic = ic_csr_m2_s1_r_reset, l_csr = CsrRegs_r_reset, l_owner = False\<rparr>"

definition csr_link_step :: "u32 \<Rightarrow> csr_link_in \<Rightarrow> csr_link \<Rightarrow> csr_link" where
  "csr_link_step h y x =
    \<lparr>l_ic = ic_csr_clock (ci_nrst (li_csr y)) (li_m0 y) (li_m1 y) (csr_as_slave (l_csr x)) (l_ic x),
     l_csr = CsrRegs_clock h (csr_in_from (ic_s0 (l_ic x) (li_m0 y) (li_m1 y)) (li_csr y)) (l_csr x),
     l_owner = (if o_csr_req_ready (l_csr x) \<and> m_req_valid (ic_s0 (l_ic x) (li_m0 y) (li_m1 y))
                then \<not> ic_to_m0 (l_ic x) (li_m0 y) else l_owner x)\<rparr>"

lemma accept_not_idle: "c_state (csr_accept i r v) \<noteq> Csr_Idle"
  by (simp add: csr_accept_def Let_def)

lemma leaves_idle:
  "c_state (CsrRegs_comb h i r) = Csr_Idle \<longleftrightarrow>
     c_state r = Csr_Idle \<and> \<not> ci_req_valid i \<or> c_state r = Csr_Response \<and> ci_resp_ready i"
  by (cases "c_state r") (simp_all add: comb_state csr_fsm_def Let_def accept_not_idle)

definition link_inv :: "csr_link \<Rightarrow> bool" where
  "link_inv x \<longleftrightarrow> (c_state (l_csr x) \<noteq> Csr_Idle \<longrightarrow> ic_acquired (l_ic x) \<and> ic_midx (l_ic x) = l_owner x)"

lemma link_inv_step:
  assumes inv: "link_inv x"
  shows "link_inv (csr_link_step h y x)"
proof -
  define j m0 m1 a c where "j = li_csr y" and "m0 = li_m0 y" and "m1 = li_m1 y" and "a = l_ic x" and "c = l_csr x"
  note y = j_def m0_def m1_def a_def c_def
  let ?c' = "CsrRegs_clock h (csr_in_from (ic_s0 a m0 m1) j) c"
  note step = link_inv_def csr_link_step_def ic_csr_clock_def csr_as_slave_def o_csr_req_ready_def o_csr_resp_valid_def ic_s0_def
    ic_to_m0_def Let_def
  show ?thesis
  proof (cases "ci_nrst j \<and> c_state ?c' \<noteq> Csr_Idle")
    case False
    then have "c_state ?c' = Csr_Idle" by (auto simp: CsrRegs_clock_def csr_in_from_def CsrRegs_r_reset_def)
    then show ?thesis by (simp add: link_inv_def csr_link_step_def y)
  next
    case True
    then have n: "ci_nrst j" and busy: "c_state c = Csr_Idle \<longrightarrow> m_req_valid (ic_s0 a m0 m1)"
      "c_state c = Csr_Response \<longrightarrow> \<not> m_resp_ready (ic_s0 a m0 m1)"
      by (auto simp: CsrRegs_clock_def csr_in_from_def leaves_idle)
    show ?thesis
    proof (cases "c_state c = Csr_Idle")
      case True
      with n busy show ?thesis unfolding y by (auto simp: step)
    next
      case False
      with inv have "ic_acquired a" "ic_midx a = l_owner x" by (simp_all add: y link_inv_def)
      with False n busy show ?thesis unfolding y by (auto simp: step)
    qed
  qed
qed

text \<open>C14. The CSR unit serves one master at a time: for every interleaving of the requests of the execution stage and of the debug
  port, from reset and through resets, while a request is in progress the unit answers the master that made it and no other, and
  neither can place a second request.\<close>

theorem csr_answers_requester:
  "let x = fold (csr_link_step h) inputs csr_link_reset; a = l_ic x; s = csr_as_slave (l_csr x); w = l_owner x;
       own = (if w then ic_m1 a m0 s else ic_m0 a m0 s); other = (if w then ic_m0 a m0 s else ic_m1 a m0 s)
   in c_state (l_csr x) \<noteq> Csr_Idle \<longrightarrow>
      own = s \<and> (s_resp_valid own \<longleftrightarrow> c_state (l_csr x) = Csr_Response) \<and> other = no_slave \<and> \<not> s_req_ready own \<and>
      ic_s0 a m0 m1 = (if w then m1 else m0)"
proof -
  have "link_inv x \<Longrightarrow> link_inv (fold (csr_link_step h) inputs x)" for x
    by (induction inputs arbitrary: x) (simp_all add: link_inv_step)
  then have "link_inv (fold (csr_link_step h) inputs csr_link_reset)"
    by (simp add: link_inv_def csr_link_reset_def CsrRegs_r_reset_def)
  then show ?thesis
    by (auto simp: link_inv_def ic_m0_def ic_m1_def ic_s0_def ic_to_m0_def csr_as_slave_def o_csr_req_ready_def o_csr_resp_valid_def
        Let_def)
qed

definition no_master :: csr_master where
  "no_master = \<lparr>m_req_valid = False, m_req_type = 0, m_req_addr = 0, m_req_data = 0, m_resp_ready = True\<rparr>"

text \<open>The debug port reads \<^verbatim>\<open>dpc\<close>; then the execution stage asks for \<^verbatim>\<open>mstatus\<close>, too early.\<close>

definition dbg_read_dpc :: csr_master where
  "dbg_read_dpc = no_master\<lparr>m_req_valid := True, m_req_type := 1, m_req_addr := 0x7B1\<rparr>"

definition exec_read_mstatus :: csr_master where
  "exec_read_mstatus = no_master\<lparr>m_req_valid := True, m_req_type := 1, m_req_addr := 0x300\<rparr>"

definition link_run :: "csr_link_in list" where
  "link_run =
    [\<lparr>li_csr = csr_quiet, li_m0 = no_master, li_m1 = dbg_read_dpc\<rparr>, \<lparr>li_csr = csr_quiet, li_m0 = no_master, li_m1 = dbg_read_dpc\<rparr>,
     \<lparr>li_csr = csr_quiet, li_m0 = exec_read_mstatus, li_m1 = no_master\<rparr>]"

theorem csr_answers_requester_witness:
  "let x = fold (csr_link_step 0) link_run csr_link_reset; s = csr_as_slave (l_csr x)
   in l_owner x \<and> c_state (l_csr x) = Csr_Response \<and> s_resp_valid (ic_m1 (l_ic x) exec_read_mstatus s) \<and>
      ic_m0 (l_ic x) exec_read_mstatus s = no_slave"
proof -
  have "let x = fold (csr_link_step 0) link_run csr_link_reset in l_owner x \<and> c_state (l_csr x) = Csr_Response" by code_simp
  then show ?thesis using csr_answers_requester [of 0 link_run exec_read_mstatus no_master]
    by (simp add: Let_def csr_as_slave_def o_csr_resp_valid_def)
qed

section \<open>The CSR unit on a read and a write\<close>

text \<open>The registers of the unit that a CSR instruction reads and writes as a whole.\<close>

definition plain_value :: "12 word \<Rightarrow> csr_regs \<Rightarrow> u64 option" where
  "plain_value a c =
    (let s = c_xmode c iS; m = c_xmode c iM
     in if a = 0x140 then Some (xscratch s) else if a = 0x141 then Some (xepc s) else if a = 0x143 then Some (xtval s)
        else if a = 0x340 then Some (xscratch m) else if a = 0x341 then Some (xepc m) else if a = 0x343 then Some (xtval m)
        else None)"

lemma plain_cases:
  assumes "plain_value a c = Some x"
  shows "a \<in> {0x140, 0x141, 0x143, 0x340, 0x341, 0x343}"
  using assms by (auto simp: plain_value_def Let_def split: if_splits)

lemma plain_frame: "c_xmode c' = c_xmode c \<Longrightarrow> plain_value a c' = plain_value a c"
  by (simp add: plain_value_def)

lemma plain_sel:
  assumes "a \<in> {0x140, 0x141, 0x143, 0x340, 0x341, 0x343}"
  shows "\<not> pmpcfg_sel a" "\<not> pmpaddr_sel a" "a \<le> 0x3EF" "a \<noteq> 0xC00" "a \<noteq> 0xC01" "a \<noteq> 0xC03" "a \<noteq> 0x180"
  using assms by (auto simp: pmpcfg_sel_def pmpaddr_sel_def bitfield_def)

lemma plain_no_exception: "c_cmd_addr c \<in> {0x140, 0x141, 0x143, 0x340, 0x341, 0x343} \<Longrightarrow> \<not> csr_map_exception c"
  using plain_sel [of "c_cmd_addr c"] by (simp add: csr_map_exception_def Let_def)

lemma plain_read: "plain_value (c_cmd_addr c) c = Some x \<Longrightarrow> vb_rdata_csr h i c = x"
  by (frule plain_cases, unfold insert_iff empty_iff simp_thms, elim disjE) (simp_all add: plain_value_def vb_rdata_csr_def)

lemma plain_write:
  assumes "c_cmd_addr c \<in> {0x140, 0x141, 0x143, 0x340, 0x341, 0x343}"
  shows "plain_value b (csr_write_map c v) = (if b = c_cmd_addr c then Some (c_cmd_data c) else plain_value b v)"
  using assms unfolding insert_iff empty_iff simp_thms
  by (elim disjE) (simp_all add: csr_write_map_def upd_mode_def plain_value_def Let_def)

lemma comb_command:
  "c_cmd_addr (CsrRegs_comb h i r) = c_cmd_addr (csr_fsm i r r)" "c_cmd_type (CsrRegs_comb h i r) = c_cmd_type (csr_fsm i r r)"
  "c_cmd_data (CsrRegs_comb h i r) = (if v_csr_rena r then vb_rdata_csr h i r else c_cmd_data (csr_fsm i r r))"
  "c_state r \<noteq> Csr_TrapReturn \<Longrightarrow>
     c_cmd_exception (CsrRegs_comb h i r) = (c_cmd_exception (csr_fsm i r r) \<or> csr_map_exception r)"
     apply (simp_all add: CsrRegs_comb_def Let_def csr_frame csr_map_def)
  by (simp add: csr_trapreturn_def csr_frame)

definition csr_ready :: "csr_regs \<Rightarrow> bool" where
  "csr_ready c \<longleftrightarrow> c_state c = Csr_Idle \<and> c_mode c = iM \<and> \<not> csr_map_exception c"

text \<open>The three clocks of a read and of a write: accept, serve, answer.\<close>

lemma unit_accept:
  assumes c: "csr_ready c" and i: "ci_nrst i" "ci_req_valid i" "ci_req_type i = t" "t = 1 \<or> t = 2"
  shows "c_state (CsrRegs_clock h i c) = Csr_RW" "c_cmd_type (CsrRegs_clock h i c) = t"
    "c_cmd_addr (CsrRegs_clock h i c) = ci_req_addr i" "c_cmd_data (CsrRegs_clock h i c) = ci_req_data i"
    "\<not> c_cmd_exception (CsrRegs_clock h i c)" "c_xmode (CsrRegs_clock h i c) = c_xmode c" "c_mode (CsrRegs_clock h i c) = iM"
proof -
  have idle: "c_state c = Csr_Idle" and m: "c_mode c = iM" and x: "\<not> csr_map_exception c" using c by (simp_all add: csr_ready_def)
  note acc = comb_accept [OF idle i(2)]
  have b: "\<not> bit (1 :: 10 word) (numeral n)" "\<not> bit (2 :: 10 word) 3" "\<not> bit (2 :: 10 word) 5" "\<not> bit (2 :: 10 word) 6"
    "\<not> bit (2 :: 10 word) 7" "\<not> bit (2 :: 10 word) 4" "\<not> bit (2 :: 10 word) 2" "\<not> bit (2 :: 10 word) 8" "\<not> bit (2 :: 10 word) 9" for n
    by (simp_all add: bit_1_iff)
  have a: "c_state (csr_accept i r v) = Csr_RW" "c_cmd_type (csr_accept i r v) = t" "c_cmd_addr (csr_accept i r v) = ci_req_addr i"
    "\<not> c_cmd_exception (csr_accept i r v)" for r v
    using i(4) b unfolding csr_accept_def i(3) by (auto simp: Let_def)
  show "c_state (CsrRegs_clock h i c) = Csr_RW" "c_cmd_type (CsrRegs_clock h i c) = t"
    "c_cmd_addr (CsrRegs_clock h i c) = ci_req_addr i" "c_cmd_data (CsrRegs_clock h i c) = ci_req_data i"
    "\<not> c_cmd_exception (CsrRegs_clock h i c)" "c_xmode (CsrRegs_clock h i c) = c_xmode c" "c_mode (CsrRegs_clock h i c) = iM"
    using i idle x m by (simp_all add: CsrRegs_clock_def acc comb_command(2,4) a csr_fsm_def Let_def)
qed

lemma unit_serve:
  assumes s: "c_state c = Csr_RW" "c_mode c = iM" "\<not> c_cmd_exception c" "c_cmd_type c = t" "t = 1 \<or> t = 2" and i: "ci_nrst i"
    and v: "plain_value (c_cmd_addr c) c = Some x"
  shows "c_state (CsrRegs_clock h i c) = Csr_Response" "\<not> c_cmd_exception (CsrRegs_clock h i c)" "c_mode (CsrRegs_clock h i c) = iM"
    "c_cmd_addr (CsrRegs_clock h i c) = c_cmd_addr c" "t = 1 \<Longrightarrow> c_cmd_data (CsrRegs_clock h i c) = x"
    "t = 1 \<Longrightarrow> c_xmode (CsrRegs_clock h i c) = c_xmode c"
    "t = 2 \<Longrightarrow> plain_value z (CsrRegs_clock h i c) = (if z = c_cmd_addr c then Some (c_cmd_data c) else plain_value z c)"
proof -
  note a = plain_cases [OF v]
  have nd: "\<not> csr_denied c" using prv_cases [of "c_mode c"] s(2) a by (auto simp: csr_denied_def bitfield_def)
  have nt: "\<not> trap_to_S i c \<and> \<not> trap_to_M i c \<and> \<not> trap_returns c" using rw_no_trap [OF s(1)] by simp
  have b: "bit (1 :: 10 word) 0" "\<not> bit (1 :: 10 word) 1" "bit (2 :: 10 word) 1" "\<not> bit (2 :: 10 word) 0" by code_simp+
  have clk: "CsrRegs_clock h i c = CsrRegs_comb h i c" using i by (simp add: CsrRegs_clock_def)
  have np: "bitfield 4 8 (c_cmd_addr c) \<noteq> 0x3A" using plain_sel(1) [OF a] by (simp add: pmpcfg_sel_def)
  show "c_state (CsrRegs_clock h i c) = Csr_Response" using s nd np by (simp add: clk comb_state csr_fsm_def)
  show "\<not> c_cmd_exception (CsrRegs_clock h i c)"
    using s nd np plain_no_exception [OF a] by (simp add: clk comb_command csr_fsm_def)
  show "c_mode (CsrRegs_clock h i c) = iM" using s(2) nt by (simp add: clk comb_mode)
  show "c_cmd_addr (CsrRegs_clock h i c) = c_cmd_addr c" using s nd np by (simp add: clk comb_command csr_fsm_def)
  show "c_cmd_data (CsrRegs_clock h i c) = x" if "t = 1"
    using s nd that b plain_read [OF v] by (simp add: clk comb_command v_csr_rena_def)
  show "c_xmode (CsrRegs_clock h i c) = c_xmode c" if "t = 1"
    using s nt that b by (simp add: clk comb_xmode no_write_view v_csr_wena_def)
  show "plain_value z (CsrRegs_clock h i c) = (if z = c_cmd_addr c then Some (c_cmd_data c) else plain_value z c)" if "t = 2"
  proof -
    have "v_csr_wena c" using s nd that b by (simp add: v_csr_wena_def)
    then have "c_xmode (CsrRegs_clock h i c) = c_xmode (csr_write_map c (csr_fence i c (csr_fsm i c c)))"
      using nt by (simp add: clk comb_xmode csr_after_write_def csr_written_def)
    then have "plain_value z (CsrRegs_clock h i c) = plain_value z (csr_write_map c (csr_fence i c (csr_fsm i c c)))"
      by (rule plain_frame)
    moreover have "plain_value z (csr_fence i c (csr_fsm i c c)) = plain_value z c" by (rule plain_frame) (simp add: csr_frame)
    ultimately show ?thesis by (simp add: plain_write [OF a])
  qed
qed

lemma unit_answer:
  assumes s: "c_state c = Csr_Response" "c_mode c = iM" and a: "c_cmd_addr c \<in> {0x140, 0x141, 0x143, 0x340, 0x341, 0x343}"
    and i: "ci_nrst i" "ci_resp_ready i"
  shows "csr_ready (CsrRegs_clock h i c)" "c_xmode (CsrRegs_clock h i c) = c_xmode c"
proof -
  have n: "\<not> v_csr_wena c" "\<not> trap_returns c" "\<not> trap_to_S i c" "\<not> trap_to_M i c"
    using s trap_states [of i c] by (auto simp: v_csr_wena_def trap_returns_def)
  have "c_cmd_addr (CsrRegs_comb h i c) = c_cmd_addr c" using s i by (simp add: comb_command csr_fsm_def)
  then have "\<not> csr_map_exception (CsrRegs_comb h i c)" using a by (intro plain_no_exception) simp
  then show "csr_ready (CsrRegs_clock h i c)" "c_xmode (CsrRegs_clock h i c) = c_xmode c"
    using s i n by (simp_all add: csr_ready_def CsrRegs_clock_def comb_state comb_mode comb_xmode no_write_view csr_fsm_def)
qed

lemma machine_map_exception:
  "c_state c = Csr_Idle \<Longrightarrow> c_mode c = iM \<Longrightarrow>
     csr_map_exception c \<longleftrightarrow> pmpcfg_sel (c_cmd_addr c) \<and> bit (c_cmd_addr c) 0"
  by (auto simp: csr_map_exception_def counter_denied_def pmpcfg_sel_def bitfield_def Let_def)

lemma unit_wait:
  assumes c: "csr_ready c" and i: "ci_nrst i" "\<not> ci_req_valid i"
  shows "csr_ready (CsrRegs_clock h i c)" "c_xmode (CsrRegs_clock h i c) = c_xmode c"
proof -
  have s: "c_state c = Csr_Idle" "c_mode c = iM" "\<not> csr_map_exception c" using c by (simp_all add: csr_ready_def)
  have n: "\<not> v_csr_wena c" "\<not> trap_returns c" "\<not> trap_to_S i c" "\<not> trap_to_M i c"
    using s trap_states [of i c] by (auto simp: v_csr_wena_def trap_returns_def)
  show "c_xmode (CsrRegs_clock h i c) = c_xmode c" using i n by (simp add: CsrRegs_clock_def comb_xmode no_write_view)
  have "c_cmd_addr (CsrRegs_comb h i c) = c_cmd_addr c" using s i by (simp add: comb_command csr_fsm_def)
  moreover have "c_state (CsrRegs_comb h i c) = Csr_Idle" "c_mode (CsrRegs_comb h i c) = iM"
    using s i n by (simp_all add: comb_state comb_mode csr_fsm_def)
  ultimately have "csr_map_exception (CsrRegs_comb h i c) = csr_map_exception c" using s by (simp add: machine_map_exception)
  then show "csr_ready (CsrRegs_clock h i c)"
    using s i n by (simp add: csr_ready_def CsrRegs_clock_def comb_state comb_mode csr_fsm_def)
qed

section \<open>The execution stage with the CSR unit\<close>

text \<open>The one-hot encoding of a request, and the request of the execution stage as a function of its registers.\<close>

fun csr_req_word :: "csr_req \<Rightarrow> 10 word" where
  "csr_req_word CsrReq_NoCmd = 0"
| "csr_req_word CsrReq_ReadCmd = 0x001"
| "csr_req_word CsrReq_WriteCmd = 0x002"
| "csr_req_word CsrReq_TrapReturnCmd = 0x004"
| "csr_req_word CsrReq_ExceptionCmd = 0x008"
| "csr_req_word CsrReq_InterruptCmd = 0x010"
| "csr_req_word CsrReq_BreakpointCmd = 0x020"
| "csr_req_word CsrReq_HaltCmd = 0x040"
| "csr_req_word CsrReq_ResumeCmd = 0x080"
| "csr_req_word CsrReq_WfiCmd = 0x100"
| "csr_req_word CsrReq_FenceCmd = 0x200"

definition exec_master :: "exec_regs \<Rightarrow> csr_master" where
  "exec_master r =
    \<lparr>m_req_valid = (e_state r = State_Csr \<and> e_csrstate r = CsrState_Req), m_req_type = csr_req_word (e_csr_req_type r),
     m_req_addr = e_csr_req_addr r, m_req_data = e_csr_req_data r,
     m_resp_ready = (e_state r = State_Csr \<and> e_csrstate r = CsrState_Resp)\<rparr>"

lemma exec_step_csr_port:
  assumes "exec_step f i u r (v, ctl) = (v', ctl')" and "\<not> c_csr_req_valid ctl" and "\<not> c_csr_resp_ready ctl"
  shows "c_csr_req_valid ctl' \<longleftrightarrow> m_req_valid (exec_master r)" "c_csr_resp_ready ctl' \<longleftrightarrow> m_resp_ready (exec_master r)"
proof -
  note defs = exec_step_def exec_idle_def exec_csr_def exec_amo_def exec_debug_request_def exec_csr_request_def
    illegal_request_def trap_npc_def Let_def exec_master_def
  show "c_csr_req_valid ctl' \<longleftrightarrow> m_req_valid (exec_master r)" "c_csr_resp_ready ctl' \<longleftrightarrow> m_resp_ready (exec_master r)"
    using assms by (auto simp: defs split: exec_state.splits csr_state.splits amo_state.splits if_splits prod.splits)
qed

lemma exec_master_outputs:
  "c_csr_req_valid (snd (InstrExecute_comb f i u r)) = m_req_valid (exec_master r)"
  "c_csr_resp_ready (snd (InstrExecute_comb f i u r)) = m_resp_ready (exec_master r)"
proof -
  obtain v ctl where st: "exec_step f i u r (exec_begin i r, exec_ctl_init i r) = (v, ctl)" by fastforce
  show "c_csr_req_valid (snd (InstrExecute_comb f i u r)) = m_req_valid (exec_master r)"
    "c_csr_resp_ready (snd (InstrExecute_comb f i u r)) = m_resp_ready (exec_master r)"
    using exec_step_csr_port [OF st] unfolding InstrExecute_comb_def st by (simp_all add: exec_ctl_init_def Let_def)
qed

record core =
  k_exec :: exec_regs
  k_ic :: ic_csr
  k_csr :: csr_regs

record core_in =
  ki_nrst :: bool
  ki_exec :: exec_in
  ki_units :: exec_units
  ki_csr :: csr_in
  ki_dbg :: csr_master

definition exec_wired :: "bool \<Rightarrow> csr_slave \<Rightarrow> csr_in \<Rightarrow> csr_regs \<Rightarrow> exec_in \<Rightarrow> exec_in" where
  "exec_wired nrst s j c i =
    i\<lparr>i_nrst := nrst, i_csr_req_ready := s_req_ready s, i_csr_resp_valid := s_resp_valid s, i_csr_resp_data := s_resp_data s,
      i_csr_resp_exception := s_resp_exception s, i_stack_overflow := w_mstackovr j c, i_stack_underflow := w_mstackund j c,
      i_irq_pending := o_csr_irq_pending c, i_wakeup := o_csr_wakeup c, i_step := c_dcsr_step c\<rparr>"

definition csr_wired :: "bool \<Rightarrow> exec_in \<Rightarrow> exec_regs \<Rightarrow> csr_master \<Rightarrow> csr_in \<Rightarrow> csr_in" where
  "csr_wired nrst i r m j =
    (csr_in_from m j)\<lparr>ci_nrst := nrst, ci_e_halted := o_halted r, ci_e_pc := e_pc r, ci_e_valid := e_valid r,
      ci_m_memop_ready := i_memop_ready i, ci_m_idle := i_memop_idle i, ci_dbg_progbuf_ena := i_dbg_progbuf_ena i\<rparr>"

definition core_clock :: "u32 \<Rightarrow> core_in \<Rightarrow> core \<Rightarrow> core" where
  "core_clock h y K =
    (let m0 = exec_master (k_exec K); m1 = ki_dbg y; s = csr_as_slave (k_csr K); a = k_ic K
     in \<lparr>k_exec = InstrExecute_clock False (exec_wired (ki_nrst y) (ic_m0 a m0 s) (ki_csr y) (k_csr K) (ki_exec y)) (ki_units y) (k_exec K),
         k_ic = ic_csr_clock (ki_nrst y) m0 m1 s a,
         k_csr = CsrRegs_clock h (csr_wired (ki_nrst y) (ki_exec y) (k_exec K) (ic_s0 a m0 m1) (ki_csr y)) (k_csr K)\<rparr>)"


lemma csr_wait:
  fixes u :: exec_units
  assumes fl: "csr_flight k pc w a r" and "e_csrstate r = CsrState_Resp" and "i_nrst i" and "\<not> i_csr_resp_valid i"
  defines "r' \<equiv> InstrExecute_clock False i u r"
  shows "csr_flight k pc w a r'" "e_csrstate r' = CsrState_Resp" "e_csr_req_type r' = e_csr_req_type r"
    "e_csr_req_rmw r' = e_csr_req_rmw r" "e_csr_req_data r' = e_csr_req_data r" "e_res_csr r' = e_res_csr r"
proof -
  have "exec_step False i u r (v, ctl) = (v, ctl\<lparr>c_csr_resp_ready := True\<rparr>)" for v ctl
    using assms(1,2,4) by (simp add: csr_flight_def exec_step_def exec_csr_def)
  note defs = r'_def clock_comb [OF assms(3) this] exec_ctl_init_def Let_def
  show "csr_flight k pc w a r'" "e_csrstate r' = CsrState_Resp" "e_csr_req_type r' = e_csr_req_type r"
    "e_csr_req_rmw r' = e_csr_req_rmw r" "e_csr_req_data r' = e_csr_req_data r" "e_res_csr r' = e_res_csr r"
    using assms(1,2) by (simp_all add: defs csr_flight_def)
qed

text \<open>The debug port is silent and the arbiter is not waiting for it.\<close>

definition core_quiet :: "core_in \<Rightarrow> core \<Rightarrow> bool" where
  "core_quiet y K \<longleftrightarrow> ki_nrst y \<and> \<not> m_req_valid (ki_dbg y) \<and> \<not> m_resp_ready (ki_dbg y) \<and> \<not> ic_midx (k_ic K)"

lemma core_clock_quiet:
  fixes h :: u32
  assumes q: "core_quiet y K"
  defines "K' \<equiv> core_clock h y K"
  defines "i \<equiv> exec_wired True (csr_as_slave (k_csr K)) (ki_csr y) (k_csr K) (ki_exec y)"
    and "j \<equiv> csr_wired True (ki_exec y) (k_exec K) (exec_master (k_exec K)) (ki_csr y)"
  shows "k_exec K' = InstrExecute_clock False i (ki_units y) (k_exec K)" "k_csr K' = CsrRegs_clock h j (k_csr K)" "\<not> ic_midx (k_ic K')"
    "i_nrst i" "i_csr_req_ready i \<longleftrightarrow> c_state (k_csr K) = Csr_Idle" "i_csr_resp_valid i \<longleftrightarrow> c_state (k_csr K) = Csr_Response"
    "i_csr_resp_data i = c_cmd_data (k_csr K)" "i_csr_resp_exception i \<longleftrightarrow> c_cmd_exception (k_csr K)"
    "ci_nrst j" "ci_req_valid j = m_req_valid (exec_master (k_exec K))" "ci_req_type j = csr_req_word (e_csr_req_type (k_exec K))"
    "ci_req_addr j = e_csr_req_addr (k_exec K)" "ci_req_data j = e_csr_req_data (k_exec K)"
    "ci_resp_ready j = m_resp_ready (exec_master (k_exec K))"
  using q by (simp_all add: K'_def i_def j_def core_clock_def Let_def core_quiet_def ic_m0_def ic_s0_def ic_to_m0_def ic_csr_clock_def
      exec_wired_def csr_wired_def csr_in_from_def csr_as_slave_def o_csr_req_ready_def o_csr_resp_valid_def exec_master_def)


text \<open>The three clocks of a request of the execution stage: the unit accepts it, serves it, and the stage takes the answer.\<close>

definition core_request :: "nat \<Rightarrow> u64 \<Rightarrow> u32 \<Rightarrow> u64 \<Rightarrow> core \<Rightarrow> bool" where
  "core_request k pc w a K \<longleftrightarrow> csr_flight k pc w a (k_exec K) \<and> e_csrstate (k_exec K) = CsrState_Req \<and> csr_ready (k_csr K) \<and>
     e_csr_req_type (k_exec K) \<in> {CsrReq_ReadCmd, CsrReq_WriteCmd}"

definition core_answer :: "nat \<Rightarrow> u64 \<Rightarrow> u32 \<Rightarrow> u64 \<Rightarrow> core \<Rightarrow> bool" where
  "core_answer k pc w a K \<longleftrightarrow> csr_flight k pc w a (k_exec K) \<and> e_csrstate (k_exec K) = CsrState_Resp \<and>
     c_state (k_csr K) = Csr_Response \<and> c_mode (k_csr K) = iM \<and> \<not> c_cmd_exception (k_csr K) \<and>
     c_cmd_addr (k_csr K) = vb_csr_addr w"

lemma core_two_clocks:
  fixes h :: u32
  assumes K: "core_request k pc w a K" and v: "plain_value (vb_csr_addr w) (k_csr K) = Some x"
    and q: "core_quiet y K" "core_quiet y' (core_clock h y K)"
  defines "K' \<equiv> core_clock h y' (core_clock h y K)"
  shows "core_answer k pc w a K'" "\<not> ic_midx (k_ic K')" "e_csr_req_type (k_exec K') = e_csr_req_type (k_exec K)"
    "e_csr_req_rmw (k_exec K') = e_csr_req_rmw (k_exec K)"
    "e_csr_req_type (k_exec K) = CsrReq_ReadCmd \<Longrightarrow> c_cmd_data (k_csr K') = x \<and> c_xmode (k_csr K') = c_xmode (k_csr K)"
    "e_csr_req_type (k_exec K) = CsrReq_WriteCmd \<Longrightarrow>
       plain_value z (k_csr K') = (if z = vb_csr_addr w then Some (e_csr_req_data (k_exec K)) else plain_value z (k_csr K))"
proof -
  define K1 where "K1 = core_clock h y K"
  have K': "K' = core_clock h y' K1" by (simp add: K'_def K1_def)
  note fl = K [unfolded core_request_def]
  have idle: "c_state (k_csr K) = Csr_Idle" using fl by (simp add: csr_ready_def)
  have st: "e_state (k_exec K) = State_Csr" "e_csr_req_addr (k_exec K) = vb_csr_addr w" using fl by (simp_all add: csr_flight_def)
  define t where "t = csr_req_word (e_csr_req_type (k_exec K))"
  have t: "t = 1 \<or> t = 2" using fl by (auto simp: t_def)
  note A0 = core_clock_quiet(1-3) [OF q(1), of h, folded K1_def] and A = core_clock_quiet(4-14) [OF q(1)]
  note B0 = core_clock_quiet(1-3) [OF q(2), of h, folded K1_def, folded K'] and B = core_clock_quiet(4-14) [OF q(2), folded K1_def]
  have E: "csr_flight k pc w a (k_exec K1)" "e_csrstate (k_exec K1) = CsrState_Resp"
    "e_csr_req_type (k_exec K1) = e_csr_req_type (k_exec K)" "e_csr_req_rmw (k_exec K1) = e_csr_req_rmw (k_exec K)"
    using csr_accept [OF conjunct1 [OF fl] _ A(1)] fl idle by (simp_all add: A0(1) A(2))
  have v0: "ci_req_valid (csr_wired True (ki_exec y) (k_exec K) (exec_master (k_exec K)) (ki_csr y))"
    unfolding A(7) using fl st by (simp add: exec_master_def)
  note C = unit_accept [OF _ A(6) v0 _ t, where c = "k_csr K" and h = h, folded A0(2)]
  have C: "c_state (k_csr K1) = Csr_RW" "c_cmd_type (k_csr K1) = t" "c_cmd_addr (k_csr K1) = vb_csr_addr w"
    "c_cmd_data (k_csr K1) = e_csr_req_data (k_exec K)" "\<not> c_cmd_exception (k_csr K1)" "c_xmode (k_csr K1) = c_xmode (k_csr K)"
    "c_mode (k_csr K1) = iM"
    using C fl st by (simp_all add: A(8-10) t_def)
  have v1: "plain_value (c_cmd_addr (k_csr K1)) (k_csr K1) = Some x" using v C(3) plain_frame [OF C(6)] by simp
  note D = unit_serve [OF C(1,7,5,2) t B(6) v1, where h = h, folded B0(2)]
  have F: "csr_flight k pc w a (k_exec K')" "e_csrstate (k_exec K') = CsrState_Resp"
    "e_csr_req_type (k_exec K') = e_csr_req_type (k_exec K)" "e_csr_req_rmw (k_exec K') = e_csr_req_rmw (k_exec K)"
    using csr_wait [OF E(1,2) B(1)] C(1) E(3,4) by (simp_all add: B0(1) B(3))
  show "core_answer k pc w a K'" using F D(1-4) C(3) by (simp add: core_answer_def)
  show "\<not> ic_midx (k_ic K')" by (rule B0(3))
  show "e_csr_req_type (k_exec K') = e_csr_req_type (k_exec K)" "e_csr_req_rmw (k_exec K') = e_csr_req_rmw (k_exec K)"
    by (rule F)+
  show "c_cmd_data (k_csr K') = x \<and> c_xmode (k_csr K') = c_xmode (k_csr K)" if "e_csr_req_type (k_exec K) = CsrReq_ReadCmd"
    using D(5,6) C(6) that by (simp add: t_def)
  show "plain_value z (k_csr K') = (if z = vb_csr_addr w then Some (e_csr_req_data (k_exec K)) else plain_value z (k_csr K))"
    if "e_csr_req_type (k_exec K) = CsrReq_WriteCmd"
    using D(7) C(3,4) plain_frame [OF C(6)] that by (simp add: t_def)
qed


lemma core_answered:
  fixes h :: u32
  assumes K: "core_answer k pc w a K" and v: "plain_value (vb_csr_addr w) c = Some x" and q: "core_quiet y K"
  defines "K' \<equiv> core_clock h y K"
  shows "csr_ready (k_csr K')" "plain_value z (k_csr K') = plain_value z (k_csr K)" "\<not> ic_midx (k_ic K')"
    "e_csr_req_type (k_exec K) = CsrReq_ReadCmd \<Longrightarrow> e_csr_req_rmw (k_exec K) \<Longrightarrow> k \<in> select_instrs Res_Csr \<Longrightarrow>
       csr_flight k pc w a (k_exec K') \<and> e_csrstate (k_exec K') = CsrState_Req \<and> e_csr_req_type (k_exec K') = CsrReq_WriteCmd \<and>
       \<not> e_csr_req_rmw (k_exec K') \<and> e_res_csr (k_exec K') = c_cmd_data (k_csr K) \<and>
       e_csr_req_data (k_exec K') = csr_new_value k (c_cmd_data (k_csr K)) a (take_bit 5 (ucast (vb_radr1 False w))) \<and>
       (e_reg_write (k_exec K') \<longleftrightarrow> vb_waddr False w \<noteq> 0) \<and>
       (vb_waddr False w \<noteq> 0 \<longrightarrow> e_reg_waddr (k_exec K') = vb_waddr False w)"
    "e_csr_req_type (k_exec K) = CsrReq_WriteCmd \<Longrightarrow> \<not> e_csr_req_rmw (k_exec K) \<Longrightarrow>
       e_state (k_exec K') = State_Idle \<and> e_valid (k_exec K') \<and> e_npc (k_exec K') = pc"
proof -
  note fl = K [unfolded core_answer_def]
  note A0 = core_clock_quiet(1-3) [OF q, of h, folded K'_def] and A = core_clock_quiet(4-14) [OF q]
  have rr: "ci_resp_ready (csr_wired True (ki_exec y) (k_exec K) (exec_master (k_exec K)) (ki_csr y))"
    unfolding A(11) using fl by (simp add: exec_master_def csr_flight_def)
  have U: "csr_ready (k_csr K')" "c_xmode (k_csr K') = c_xmode (k_csr K)"
    using unit_answer [OF _ _ _ A(6) rr, of "k_csr K" h] fl plain_cases [OF v] by (simp_all add: A0(2))
  show "csr_ready (k_csr K')" by (rule U)
  show "plain_value z (k_csr K') = plain_value z (k_csr K)" by (rule plain_frame) (rule U)
  show "\<not> ic_midx (k_ic K')" by (rule A0)
  let ?i = "exec_wired True (csr_as_slave (k_csr K)) (ki_csr y) (k_csr K) (ki_exec y)"
  have i: "i_csr_resp_valid ?i" "\<not> i_csr_resp_exception ?i" "csr_flight k pc w a (k_exec K)" "e_csrstate (k_exec K) = CsrState_Resp"
    using fl by (simp_all add: A(3,5))
  show "csr_flight k pc w a (k_exec K') \<and> e_csrstate (k_exec K') = CsrState_Req \<and> e_csr_req_type (k_exec K') = CsrReq_WriteCmd \<and>
       \<not> e_csr_req_rmw (k_exec K') \<and> e_res_csr (k_exec K') = c_cmd_data (k_csr K) \<and>
       e_csr_req_data (k_exec K') = csr_new_value k (c_cmd_data (k_csr K)) a (take_bit 5 (ucast (vb_radr1 False w))) \<and>
       (e_reg_write (k_exec K') \<longleftrightarrow> vb_waddr False w \<noteq> 0) \<and>
       (vb_waddr False w \<noteq> 0 \<longrightarrow> e_reg_waddr (k_exec K') = vb_waddr False w)"
    if "e_csr_req_type (k_exec K) = CsrReq_ReadCmd" "e_csr_req_rmw (k_exec K)" "k \<in> select_instrs Res_Csr"
    using csr_read_response [OF i(3,4) A(1) i(1,2) that, of "ki_units y"] by (simp add: A0(1) A(4))
  show "e_state (k_exec K') = State_Idle \<and> e_valid (k_exec K') \<and> e_npc (k_exec K') = pc"
    if "e_csr_req_type (k_exec K) = CsrReq_WriteCmd" "\<not> e_csr_req_rmw (k_exec K)"
    using csr_write_response [OF i(3,4) A(1) i(1,2) that, of "ki_units y"] by (simp add: A0(1))
qed

definition core_run :: "u32 \<Rightarrow> core_in list \<Rightarrow> core \<Rightarrow> core" where
  "core_run h ys K = fold (core_clock h) ys K"

definition core_silent :: "core_in \<Rightarrow> bool" where
  "core_silent y \<longleftrightarrow> ki_nrst y \<and> \<not> m_req_valid (ki_dbg y) \<and> \<not> m_resp_ready (ki_dbg y)"


definition csrrs_mscratch :: core_in where
  "csrrs_mscratch =
    \<lparr>ki_nrst = True, ki_exec = quiet_in (DecoderRv_clock False (fetched 0x10000 0x340120F3)) 6 0, ki_units = stage_units reset_stage,
     ki_csr = csr_quiet, ki_dbg = no_master\<lparr>m_resp_ready := False\<rparr>\<rparr>"

definition reset_core :: core where
  "reset_core = \<lparr>k_exec = InstrExecute_r_reset, k_ic = ic_csr_m2_s1_r_reset, k_csr = CsrRegs_r_reset\<rparr>"


end
