(* ===== verification/Rtl_Reg_File.thy ===== *)
theory Rtl_Reg_File
  imports Rtl_Execute
begin

text \<open>
  The register file of the RTL core, \<^verbatim>\<open>core/regibank.cpp\<close>, with a tag beside every register, and its write port, which
  \<^verbatim>\<open>Processor::comb\<close> of \<^verbatim>\<open>core/proc.cpp\<close> gives to the execution stage before the memory stage. A loaded value is written only if
  its tag follows the tag of the register.
\<close>

record reg_value =
  rv_val :: u64
  rv_tag :: reg_tag

type_synonym reg_int_bank = "6 word \<Rightarrow> reg_value"

definition RegIntBank_r_reset :: reg_int_bank where
  "RegIntBank_r_reset = (\<lambda>_. \<lparr>rv_val = 0, rv_tag = 0\<rparr>)"

record reg_bank_in =
  rb_nrst :: bool
  rb_waddr :: "6 word"
  rb_wena :: bool
  rb_wtag :: reg_tag
  rb_wdata :: u64
  rb_inorder :: bool
  rb_dport_addr :: "6 word"
  rb_dport_ena :: bool
  rb_dport_write :: bool
  rb_dport_wdata :: u64

definition v_inordered :: "reg_bank_in \<Rightarrow> reg_int_bank \<Rightarrow> bool" where
  "v_inordered b r \<longleftrightarrow> rv_tag (r (rb_waddr b)) + 1 = rb_wtag b"

definition RegIntBank_clock :: "reg_bank_in \<Rightarrow> reg_int_bank \<Rightarrow> reg_int_bank" where
  "RegIntBank_clock b r =
    (if \<not> rb_nrst b then RegIntBank_r_reset
     else if rb_wena b \<and> rb_waddr b \<noteq> 0 \<and> (\<not> rb_inorder b \<or> v_inordered b r)
     then r(rb_waddr b := \<lparr>rv_val = rb_wdata b, rv_tag = rb_wtag b\<rparr>)
     else if rb_dport_ena b \<and> rb_dport_write b \<and> rb_dport_addr b \<noteq> 0
     then r(rb_dport_addr b := (r (rb_dport_addr b))\<lparr>rv_val := rb_dport_wdata b\<rparr>)
     else r)"

definition o_ignored :: "reg_bank_in \<Rightarrow> reg_int_bank \<Rightarrow> bool" where
  "o_ignored b r \<longleftrightarrow> rb_wena b \<and> rb_waddr b \<noteq> 0 \<and> rb_inorder b \<and> \<not> v_inordered b r"

section \<open>The write port\<close>

record wb_port =
  wb_wena :: bool
  wb_waddr :: "6 word"
  wb_wdata :: u64
  wb_wtag :: reg_tag

record dport_in =
  dp_addr :: "6 word"
  dp_ena :: bool
  dp_write :: bool
  dp_wdata :: u64

definition bank_port :: "bool \<Rightarrow> exec_stage \<Rightarrow> wb_port \<Rightarrow> dport_in \<Rightarrow> reg_bank_in" where
  "bank_port nrst s w d =
    (let r = s_regs s; e = e_reg_write r
     in \<lparr>rb_nrst = nrst, rb_waddr = (if e then e_reg_waddr r else wb_waddr w), rb_wena = (if e then True else wb_wena w),
         rb_wtag = (if e then e_reg_wtag r else wb_wtag w), rb_wdata = (if e then o_reg_wdata s else wb_wdata w),
         rb_inorder = (\<not> e), rb_dport_addr = dp_addr d, rb_dport_ena = dp_ena d, rb_dport_write = dp_write d,
         rb_dport_wdata = dp_wdata d\<rparr>)"

section \<open>What a write does\<close>

lemma bank_exec_write:
  assumes "e_reg_write (s_regs s)" and "e_reg_waddr (s_regs s) \<noteq> 0"
  shows "RegIntBank_clock (bank_port True s w d) r =
     r(e_reg_waddr (s_regs s) := \<lparr>rv_val = o_reg_wdata s, rv_tag = e_reg_wtag (s_regs s)\<rparr>)"
  using assms by (simp add: RegIntBank_clock_def bank_port_def Let_def)

lemma bank_idle:
  assumes "\<not> e_reg_write (s_regs s)" and "\<not> wb_wena w" and "\<not> (dp_ena d \<and> dp_write d)"
  shows "RegIntBank_clock (bank_port True s w d) r = r"
  using assms by (auto simp: RegIntBank_clock_def bank_port_def Let_def)

text \<open>A load that the execution stage has overtaken is dropped.\<close>

lemma bank_late_load:
  assumes "\<not> e_reg_write (s_regs s)" and "wb_wtag w \<noteq> rv_tag (r (wb_waddr w)) + 1" and "\<not> (dp_ena d \<and> dp_write d)"
  shows "RegIntBank_clock (bank_port True s w d) r = r"
  using assms by (auto simp: RegIntBank_clock_def bank_port_def v_inordered_def Let_def)

lemma bank_zero:
  "r 0 = \<lparr>rv_val = 0, rv_tag = 0\<rparr> \<Longrightarrow> RegIntBank_clock b r 0 = \<lparr>rv_val = 0, rv_tag = 0\<rparr>"
  by (auto simp: RegIntBank_clock_def RegIntBank_r_reset_def)

end
