(* ===== verification/Rtl_Rvc.thy ===== *)
theory Rtl_Rvc
  imports Rtl_Refine
begin

text \<open>
  The decoder of 16-bit instructions of the RTL core, \<^verbatim>\<open>core/dec_rvc.cpp\<close>, and its agreement with the simulator's
  compressed instructions: the instruction it expands to, its operands, and what the execution stage then does.
\<close>

section \<open>The decoder\<close>

abbreviation (input) OPCODE_C_ADDI4SPN :: u16 where "OPCODE_C_ADDI4SPN \<equiv> 0x00"
abbreviation (input) OPCODE_C_NOP_ADDI :: u16 where "OPCODE_C_NOP_ADDI \<equiv> 0x01"
abbreviation (input) OPCODE_C_SLLI :: u16 where "OPCODE_C_SLLI \<equiv> 0x02"
abbreviation (input) OPCODE_C_JAL_ADDIW :: u16 where "OPCODE_C_JAL_ADDIW \<equiv> 0x05"
abbreviation (input) OPCODE_C_LW :: u16 where "OPCODE_C_LW \<equiv> 0x08"
abbreviation (input) OPCODE_C_LI :: u16 where "OPCODE_C_LI \<equiv> 0x09"
abbreviation (input) OPCODE_C_LWSP :: u16 where "OPCODE_C_LWSP \<equiv> 0x0A"
abbreviation (input) OPCODE_C_LD :: u16 where "OPCODE_C_LD \<equiv> 0x0C"
abbreviation (input) OPCODE_C_ADDI16SP_LUI :: u16 where "OPCODE_C_ADDI16SP_LUI \<equiv> 0x0D"
abbreviation (input) OPCODE_C_LDSP :: u16 where "OPCODE_C_LDSP \<equiv> 0x0E"
abbreviation (input) OPCODE_C_MATH :: u16 where "OPCODE_C_MATH \<equiv> 0x11"
abbreviation (input) OPCODE_C_JR_MV_EBREAK_JALR_ADD :: u16 where "OPCODE_C_JR_MV_EBREAK_JALR_ADD \<equiv> 0x12"
abbreviation (input) OPCODE_C_J :: u16 where "OPCODE_C_J \<equiv> 0x15"
abbreviation (input) OPCODE_C_SW :: u16 where "OPCODE_C_SW \<equiv> 0x18"
abbreviation (input) OPCODE_C_BEQZ :: u16 where "OPCODE_C_BEQZ \<equiv> 0x19"
abbreviation (input) OPCODE_C_SWSP :: u16 where "OPCODE_C_SWSP \<equiv> 0x1A"
abbreviation (input) OPCODE_C_SD :: u16 where "OPCODE_C_SD \<equiv> 0x1C"
abbreviation (input) OPCODE_C_BNEZ :: u16 where "OPCODE_C_BNEZ \<equiv> 0x1D"
abbreviation (input) OPCODE_C_SDSP :: u16 where "OPCODE_C_SDSP \<equiv> 0x1E"

text \<open>The five bits that select the branch, and the register fields of five and of three bits.\<close>

definition vb_opcode1 :: "u16 \<Rightarrow> u16" where
  "vb_opcode1 u = push_bit 2 (bitfield 13 3 u) OR bitfield 0 2 u"

definition rvc_reg :: "nat \<Rightarrow> u16 \<Rightarrow> 6 word" where
  "rvc_reg lo u = ucast (bitfield lo 5 u)"

definition rvc_reg3 :: "nat \<Rightarrow> u16 \<Rightarrow> 6 word" where
  "rvc_reg3 lo u = 8 OR ucast (bitfield lo 3 u)"

text \<open>\<open>at lo p n\<close>: \<open>n\<close> bits of the instruction from bit \<open>lo\<close>, placed at bit \<open>p\<close> of the immediate; ones from bit \<open>n\<close> on if bit 12 is set.\<close>

definition rvc_at :: "u16 \<Rightarrow> nat \<Rightarrow> nat \<Rightarrow> nat \<Rightarrow> u64" where
  "rvc_at u p lo n = push_bit p (ucast (bitfield lo n u))"

definition rvc_ext :: "u16 \<Rightarrow> nat \<Rightarrow> u64 \<Rightarrow> u64" where
  "rvc_ext u n x = (if bit u 12 then x OR push_bit n (- 1) else x)"

record rvc_fields =
  rf_isa_type :: isa_type
  rf_dec :: "nat option"
  rf_radr1 :: "6 word"
  rf_radr2 :: "6 word"
  rf_waddr :: "6 word"
  rf_imm :: u64

abbreviation (input) rvc_I :: "nat \<Rightarrow> 6 word \<Rightarrow> 6 word \<Rightarrow> u64 \<Rightarrow> rvc_fields" where
  "rvc_I k rs1 rd imm \<equiv> \<lparr>rf_isa_type = ISA_I_type, rf_dec = Some k, rf_radr1 = rs1, rf_radr2 = 0, rf_waddr = rd, rf_imm = imm\<rparr>"

abbreviation (input) rvc_S :: "nat \<Rightarrow> 6 word \<Rightarrow> 6 word \<Rightarrow> u64 \<Rightarrow> rvc_fields" where
  "rvc_S k rs1 rs2 imm \<equiv> \<lparr>rf_isa_type = ISA_S_type, rf_dec = Some k, rf_radr1 = rs1, rf_radr2 = rs2, rf_waddr = 0, rf_imm = imm\<rparr>"

abbreviation (input) rvc_SB :: "nat \<Rightarrow> 6 word \<Rightarrow> u64 \<Rightarrow> rvc_fields" where
  "rvc_SB k rs1 imm \<equiv> \<lparr>rf_isa_type = ISA_SB_type, rf_dec = Some k, rf_radr1 = rs1, rf_radr2 = 0, rf_waddr = 0, rf_imm = imm\<rparr>"

abbreviation (input) rvc_R :: "nat option \<Rightarrow> 6 word \<Rightarrow> 6 word \<Rightarrow> 6 word \<Rightarrow> rvc_fields" where
  "rvc_R k rs1 rs2 rd \<equiv> \<lparr>rf_isa_type = ISA_R_type, rf_dec = k, rf_radr1 = rs1, rf_radr2 = rs2, rf_waddr = rd, rf_imm = 0\<rparr>"

definition rvc_math :: "u16 \<Rightarrow> rvc_fields" where
  "rvc_math u =
    (let a = rvc_reg3 7 u; b = rvc_reg3 2 u; f = bitfield 10 2 u; g = bitfield 5 2 u
     in if f = 0 then rvc_I Instr_SRLI a a (rvc_at u 5 12 1 OR rvc_at u 0 2 5)
        else if f = 1 then rvc_I Instr_SRAI a a (rvc_at u 5 12 1 OR rvc_at u 0 2 5)
        else if f = 2 then rvc_I Instr_ANDI a a (rvc_ext u 5 (rvc_at u 0 2 5))
        else if \<not> bit u 12 then
          rvc_R (Some (if g = 0 then Instr_SUB else if g = 1 then Instr_XOR else if g = 2 then Instr_OR else Instr_AND)) a b a
        else rvc_R (if g = 0 then Some Instr_SUBW else if g = 1 then Some Instr_ADDW else None) a b a)"

definition rvc_jump_add :: "u16 \<Rightarrow> rvc_fields" where
  "rvc_jump_add u =
    (let a = bitfield 7 5 u; b = bitfield 2 5 u
     in if \<not> bit u 12 then
          if b = 0 then rvc_I Instr_JALR (rvc_reg 7 u) 0 0 else rvc_I Instr_ADDI (rvc_reg 2 u) (rvc_reg 7 u) 0
        else if a = 0 \<and> b = 0 then rvc_I Instr_EBREAK 0 0 0
        else if b = 0 then rvc_I Instr_JALR (rvc_reg 7 u) 1 0
        else rvc_R (Some Instr_ADD) (rvc_reg 7 u) (rvc_reg 2 u) (rvc_reg 7 u))"

text \<open>\<open>None\<close> in the field of the instruction is \<^verbatim>\<open>v_error\<close>.\<close>

definition rvc_decode :: "u16 \<Rightarrow> rvc_fields" where
  "rvc_decode u =
    (let op = vb_opcode1 u; r = rvc_reg 7 u; a = rvc_reg3 7 u; b = rvc_reg3 2 u; at = rvc_at u; ext = rvc_ext u
     in if op = OPCODE_C_ADDI4SPN then
          rvc_I Instr_ADDI 2 b (at 6 7 4 OR at 4 11 2 OR at 3 5 1 OR at 2 6 1)
        else if op = OPCODE_C_NOP_ADDI then rvc_I Instr_ADDI r r (ext 5 (at 0 2 5))
        else if op = OPCODE_C_SLLI then rvc_I Instr_SLLI r r (at 5 12 1 OR at 0 2 5)
        else if op = OPCODE_C_JAL_ADDIW then rvc_I Instr_ADDIW r r (ext 5 (at 0 2 5))
        else if op = OPCODE_C_LW then rvc_I Instr_LW a b (at 6 5 1 OR at 3 10 3 OR at 2 6 1)
        else if op = OPCODE_C_LI then rvc_I Instr_ADDI 0 r (ext 5 (at 0 2 5))
        else if op = OPCODE_C_LWSP then rvc_I Instr_LW 2 r (at 6 2 2 OR at 5 12 1 OR at 2 4 3)
        else if op = OPCODE_C_LD then rvc_I Instr_LD a b (at 7 6 1 OR at 6 5 1 OR at 3 10 3)
        else if op = OPCODE_C_ADDI16SP_LUI then
          if bitfield 7 5 u = 2 then
            rvc_I Instr_ADDI 2 2 (ext 9 (at 7 3 2 OR at 6 5 1 OR at 5 2 1 OR at 4 6 1))
          else \<lparr>rf_isa_type = ISA_U_type, rf_dec = Some Instr_LUI, rf_radr1 = 0, rf_radr2 = 0, rf_waddr = r,
                rf_imm = ext 17 (at 12 2 5)\<rparr>
        else if op = OPCODE_C_LDSP then rvc_I Instr_LD 2 r (at 6 2 3 OR at 5 12 1 OR at 3 5 2)
        else if op = OPCODE_C_MATH then rvc_math u
        else if op = OPCODE_C_JR_MV_EBREAK_JALR_ADD then rvc_jump_add u
        else if op = OPCODE_C_J then
          \<lparr>rf_isa_type = ISA_UJ_type, rf_dec = Some Instr_JAL, rf_radr1 = 0, rf_radr2 = 0, rf_waddr = 0,
           rf_imm = ext 11 (at 10 8 1 OR at 8 9 2 OR at 7 6 1 OR at 6 7 1 OR at 5 2 1 OR at 4 11 1 OR at 1 3 3)\<rparr>
        else if op = OPCODE_C_SW then rvc_S Instr_SW a b (at 6 5 1 OR at 5 12 1 OR at 3 10 2 OR at 2 6 1)
        else if op = OPCODE_C_BEQZ then rvc_SB Instr_BEQ a (ext 8 (at 6 5 2 OR at 5 2 1 OR at 3 10 2 OR at 1 3 2))
        else if op = OPCODE_C_SWSP then rvc_S Instr_SW 2 (rvc_reg 2 u) (at 6 7 2 OR at 5 12 1 OR at 2 9 3)
        else if op = OPCODE_C_SD then rvc_S Instr_SD a b (at 6 5 2 OR at 5 12 1 OR at 3 10 2)
        else if op = OPCODE_C_BNEZ then rvc_SB Instr_BNE a (ext 8 (at 6 5 2 OR at 5 2 1 OR at 3 10 2 OR at 1 3 2))
        else if op = OPCODE_C_SDSP then rvc_S Instr_SD 2 (rvc_reg 2 u) (at 6 7 3 OR at 5 12 1 OR at 3 10 2)
        else \<lparr>rf_isa_type = ISA_None, rf_dec = None, rf_radr1 = 0, rf_radr2 = 0, rf_waddr = 0, rf_imm = 0\<rparr>)"

text \<open>The registers, seen as the outputs that the selector of the decoders receives.\<close>

definition DecoderRvc_r_reset :: decoder_rv where
  "DecoderRvc_r_reset = DecoderRv_r_reset\<lparr>dr_instr := 0xFFFF, dr_compressed := True\<rparr>"

definition DecoderRvc_comb :: "decoder_in \<Rightarrow> decoder_rv" where
  "DecoderRvc_comb i =
    (let u = ucast (fi_f_instr i); x = rvc_decode u; d = rf_dec x
     in \<lparr>dr_pc = fi_f_pc i, dr_isa_type = rf_isa_type x, dr_instr_vec = d, dr_instr = ucast u,
         dr_memop_store = dec_in {Instr_SD, Instr_SW} d, dr_memop_load = dec_in {Instr_LD, Instr_LW} d,
         dr_memop_sign_ext = dec_in {Instr_LD, Instr_LW} d,
         dr_memop_size =
           (if dec_in {Instr_LD, Instr_SD} d then 3 else if dec_in {Instr_LW, Instr_SW} d then 2 else 3),
         dr_unsigned_op = False, dr_rv32 = dec_in {Instr_ADDW, Instr_ADDIW, Instr_SUBW} d, dr_f64 = False,
         dr_compressed = True, dr_amo = False, dr_instr_load_fault = fi_instr_load_fault i,
         dr_instr_page_fault_x = fi_instr_page_fault_x i, dr_instr_unimplemented = (d = None),
         dr_radr1 = rf_radr1 x, dr_radr2 = rf_radr2 x, dr_waddr = rf_waddr x, dr_csr_addr = 0, dr_imm = rf_imm x,
         dr_progbuf_ena = fi_progbuf_ena i\<rparr>)"

definition DecoderRvc_clock :: "decoder_in \<Rightarrow> decoder_rv" where
  "DecoderRvc_clock i = (if \<not> fi_nrst i \<or> fi_flush_pipeline i then DecoderRvc_r_reset else DecoderRvc_comb i)"

section \<open>The immediates\<close>

lemma bit12: "bitfield 12 1 u \<noteq> 0 \<longleftrightarrow> bit (u :: u16) 12"
proof -
  have "bitfield 12 1 u = of_bool (bit u 12)" by (rule bit_word_eqI) (auto simp: bit_simps bit_bitfield)
  then show ?thesis by simp
qed

lemma ucast_piece:
  assumes "m + n \<le> 16"
  shows "ucast (push_bit m (bitfield lo n (u :: u16))) = (push_bit m (ucast (bitfield lo n u)) :: u64)"
  by (rule bit_word_eqI) (use assms in \<open>auto simp: bit_ucast_iff bit_push_bit_iff bit_bitfield\<close>)

text \<open>A field in two parts.\<close>

lemma rvc_at_split: "rvc_at u p lo (m + n) = rvc_at u (p + m) (lo + m) n OR rvc_at u p lo m"
proof (rule bit_word_eqI)
  fix k :: nat assume "k < LENGTH(64)"
  then show "bit (rvc_at u p lo (m + n)) k = bit (rvc_at u (p + m) (lo + m) n OR rvc_at u p lo m) k"
    by (auto simp: rvc_at_def bit_or_iff bit_push_bit_iff bit_ucast_iff bit_bitfield)
qed

lemma not_mask_push: "NOT (mask n) = (push_bit n (- 1) :: u64)"
  by (rule bit_word_eqI) (simp add: bit_not_iff bit_mask_iff bit_push_bit_iff)

lemma rvc_splits:
  "rvc_at u 3 10 3 = rvc_at u 5 12 1 OR rvc_at u 3 10 2" "rvc_at u 2 9 4 = rvc_at u 5 12 1 OR rvc_at u 2 9 3"
  "rvc_at u 6 5 2 = rvc_at u 7 6 1 OR rvc_at u 6 5 1"
  using rvc_at_split [of u 3 10 2 1] rvc_at_split [of u 2 9 3 1] rvc_at_split [of u 6 5 1 1] by (simp_all add: numeral_eq_Suc)

lemma push_ucast: "push_bit m (ucast (bitfield lo n u)) = rvc_at u m lo n"
  by (simp add: rvc_at_def)

lemma rvc_at_0: "rvc_at u 0 lo n = ucast (bitfield lo n u)"
  by (simp add: rvc_at_def)

lemma push_rvc_at: "push_bit m (rvc_at u p lo n) = rvc_at u (m + p) lo n"
  by (simp add: rvc_at_def)

lemma push_not_mask: "push_bit m (NOT (mask n)) = (NOT (mask (m + n)) :: u64)"
  by (rule bit_word_eqI) (auto simp: bit_not_iff bit_mask_iff bit_push_bit_iff)

lemmas rvc_pieces = bit12 ext_sign_masks not_mask_push unsigned_or_eq push_bit_or rvc_ext_def Let_def

lemma rvc_imm:
  "rvc_ext u 5 (rvc_at u 0 2 5) = CI_imm u"
  "rvc_ext u 9 (rvc_at u 7 3 2 OR rvc_at u 6 5 1 OR rvc_at u 5 2 1 OR rvc_at u 4 6 1) = CI_sp_imm u"
  "rvc_ext u 17 (rvc_at u 12 2 5) = push_bit 12 (CI_imm u)"
  "rvc_at u 6 7 4 OR rvc_at u 4 11 2 OR rvc_at u 3 5 1 OR rvc_at u 2 6 1 = CIW_imm u"
  "rvc_at u 6 5 1 OR rvc_at u 3 10 3 OR rvc_at u 2 6 1 = CL_w_off u"
  "rvc_at u 6 2 2 OR rvc_at u 5 12 1 OR rvc_at u 2 4 3 = CI_lwsp_off u"
  "rvc_at u 7 6 1 OR rvc_at u 6 5 1 OR rvc_at u 3 10 3 = CL_d_off u"
  "rvc_at u 6 2 3 OR rvc_at u 5 12 1 OR rvc_at u 3 5 2 = CI_ldsp_off u"
  "rvc_at u 6 5 1 OR rvc_at u 5 12 1 OR rvc_at u 3 10 2 OR rvc_at u 2 6 1 = CL_w_off u"
  "rvc_at u 6 7 2 OR rvc_at u 5 12 1 OR rvc_at u 2 9 3 = CSS_w_off u"
  "rvc_at u 6 5 2 OR rvc_at u 5 12 1 OR rvc_at u 3 10 2 = CL_d_off u"
  "rvc_at u 6 7 3 OR rvc_at u 5 12 1 OR rvc_at u 3 10 2 = CSS_d_off u"
  "rvc_ext u 8 (rvc_at u 6 5 2 OR rvc_at u 5 2 1 OR rvc_at u 3 10 2 OR rvc_at u 1 3 2) = CB_off u"
  "rvc_ext u 11 (rvc_at u 10 8 1 OR rvc_at u 8 9 2 OR rvc_at u 7 6 1 OR rvc_at u 6 7 1 OR rvc_at u 5 2 1 OR rvc_at u 4 11 1 OR
     rvc_at u 1 3 3) = CJ_off u"
  by (cases "bit u 12"; simp only: fields rvc_pieces if_True if_False;
      simp add: ucast_piece push_ucast push_rvc_at rvc_at_0 push_not_mask rvc_splits or.assoc del: push_bit_Suc One_nat_def)+

lemma rvc_shamt: "rvc_at u 5 12 1 OR rvc_at u 0 2 5 = of_nat (CB_shamt u)"
proof -
  have "rvc_at u 5 12 1 OR rvc_at u 0 2 5 = ucast (push_bit 5 (bitfield 12 1 u) OR bitfield 2 5 u)"
    by (simp only: unsigned_or_eq) (simp add: ucast_piece push_ucast rvc_at_0 del: push_bit_Suc One_nat_def)
  then show ?thesis by (simp add: CB_shamt_def)
qed

lemma rvc_regs [simp]:
  "unat (rvc_reg 7 u) = CR_rdrs1 u" "unat (rvc_reg 2 u) = CR_rs2 u" "unat (rvc_reg3 7 u) = 8 + C_hi u" "unat (rvc_reg3 2 u) = 8 + C_lo u"
proof -
  have r: "unat (rvc_reg lo u) = unat (bitfield lo 5 u)" for lo
    using bitfield_lt [of 5 lo u] by (simp add: rvc_reg_def unsigned_ucast_eq take_bit_nat_eq_self)
  have r3: "unat (rvc_reg3 lo u) = 8 + unat (bitfield lo 3 u)" for lo
  proof -
    have "bit (8 :: 6 word) n \<longleftrightarrow> n = 3" for n
      using bit_exp_iff [of 3 n, where 'a = "6 word"] by (auto simp: possible_bit_word)
    then have "8 OR (ucast (bitfield lo 3 u) :: 6 word) = 8 + ucast (bitfield lo 3 u)"
      by (intro disjunctive_add [symmetric]) (simp add: bit_ucast_iff bit_bitfield)
    moreover have "unat (ucast (bitfield lo 3 u) :: 6 word) = unat (bitfield lo 3 u)" "unat (bitfield lo 3 u) < 8"
      using bitfield_lt [of 3 lo u] by (simp_all add: unsigned_ucast_eq take_bit_nat_eq_self)
    ultimately show ?thesis by (simp add: rvc_reg3_def unat_word_ariths)
  qed
  show "unat (rvc_reg 7 u) = CR_rdrs1 u" "unat (rvc_reg 2 u) = CR_rs2 u" "unat (rvc_reg3 7 u) = 8 + C_hi u" "unat (rvc_reg3 2 u) = 8 + C_lo u"
    by (simp_all add: r r3 CR_rdrs1_def CR_rs2_def C_hi_def C_lo_def)
qed

section \<open>The meaning of a compressed instruction\<close>

text \<open>
  For every compressed instruction of the simulator the instruction it abbreviates, with the register numbers of its two sources and
  of its destination and its immediate, as the fields that the class of the simulator reads.
\<close>

definition rvc_meaning :: "string \<Rightarrow> u16 \<Rightarrow> (nat \<times> nat \<times> nat \<times> nat \<times> u64) option" where
  "rvc_meaning nm u =
    (if nm = ''C_ADD'' then Some (Instr_ADD, CR_rdrs1 u, CR_rs2 u, CR_rdrs1 u, 0)
     else if nm = ''C_ADDI'' then Some (Instr_ADDI, CR_rdrs1 u, 0, CR_rdrs1 u, CI_imm u)
     else if nm = ''C_ADDI16SP'' then Some (Instr_ADDI, Reg_sp, 0, Reg_sp, CI_sp_imm u)
     else if nm = ''C_ADDI4SPN'' then Some (Instr_ADDI, Reg_sp, 0, 8 + C_lo u, CIW_imm u)
     else if nm = ''C_ADDIW'' then Some (Instr_ADDIW, CR_rdrs1 u, 0, CR_rdrs1 u, CI_imm u)
     else if nm = ''C_ADDW'' then Some (Instr_ADDW, 8 + C_hi u, 8 + C_lo u, 8 + C_hi u, 0)
     else if nm = ''C_AND'' then Some (Instr_AND, 8 + C_hi u, 8 + C_lo u, 8 + C_hi u, 0)
     else if nm = ''C_ANDI'' then Some (Instr_ANDI, 8 + C_hi u, 0, 8 + C_hi u, CI_imm u)
     else if nm = ''C_BEQZ'' then Some (Instr_BEQ, 8 + C_hi u, 0, 0, CB_off u)
     else if nm = ''C_BNEZ'' then Some (Instr_BNE, 8 + C_hi u, 0, 0, CB_off u)
     else if nm = ''C_EBREAK'' then Some (Instr_EBREAK, 0, 0, 0, 0)
     else if nm = ''C_J'' then Some (Instr_JAL, 0, 0, 0, CJ_off u)
     else if nm = ''C_JALR'' then Some (Instr_JALR, CR_rdrs1 u, 0, Reg_ra, 0)
     else if nm = ''C_JR'' then Some (Instr_JALR, CR_rdrs1 u, 0, 0, 0)
     else if nm = ''C_LD'' then Some (Instr_LD, 8 + C_hi u, 0, 8 + C_lo u, CL_d_off u)
     else if nm = ''C_LDSP'' then Some (Instr_LD, Reg_sp, 0, CR_rdrs1 u, CI_ldsp_off u)
     else if nm = ''C_LWSP'' then Some (Instr_LW, Reg_sp, 0, CR_rdrs1 u, CI_lwsp_off u)
     else if nm = ''C_LI'' then Some (Instr_ADDI, 0, 0, CR_rdrs1 u, CI_imm u)
     else if nm = ''C_LUI'' then Some (Instr_LUI, 0, 0, CR_rdrs1 u, push_bit 12 (CI_imm u))
     else if nm = ''C_LW'' then Some (Instr_LW, 8 + C_hi u, 0, 8 + C_lo u, CL_w_off u)
     else if nm = ''C_MV'' then Some (Instr_ADDI, CR_rs2 u, 0, CR_rdrs1 u, 0)
     else if nm = ''C_NOP'' then Some (Instr_ADDI, 0, 0, 0, 0)
     else if nm = ''C_OR'' then Some (Instr_OR, 8 + C_hi u, 8 + C_lo u, 8 + C_hi u, 0)
     else if nm = ''C_SD'' then Some (Instr_SD, 8 + C_hi u, 8 + C_lo u, 0, CL_d_off u)
     else if nm = ''C_SDSP'' then Some (Instr_SD, Reg_sp, CR_rs2 u, 0, CSS_d_off u)
     else if nm = ''C_SLLI'' then Some (Instr_SLLI, CR_rdrs1 u, 0, CR_rdrs1 u, of_nat (CB_shamt u))
     else if nm = ''C_SRAI'' then Some (Instr_SRAI, 8 + C_hi u, 0, 8 + C_hi u, of_nat (CB_shamt u))
     else if nm = ''C_SRLI'' then Some (Instr_SRLI, 8 + C_hi u, 0, 8 + C_hi u, of_nat (CB_shamt u))
     else if nm = ''C_SUB'' then Some (Instr_SUB, 8 + C_hi u, 8 + C_lo u, 8 + C_hi u, 0)
     else if nm = ''C_SUBW'' then Some (Instr_SUBW, 8 + C_hi u, 8 + C_lo u, 8 + C_hi u, 0)
     else if nm = ''C_SW'' then Some (Instr_SW, 8 + C_hi u, 8 + C_lo u, 0, CL_w_off u)
     else if nm = ''C_SWSP'' then Some (Instr_SW, Reg_sp, CR_rs2 u, 0, CSS_w_off u)
     else if nm = ''C_XOR'' then Some (Instr_XOR, 8 + C_hi u, 8 + C_lo u, 8 + C_hi u, 0)
     else None)"

definition rvc_fits :: "rvc_fields \<Rightarrow> nat \<times> nat \<times> nat \<times> nat \<times> u64 \<Rightarrow> bool" where
  "rvc_fits x = (\<lambda>(k, rs1, rs2, rd, imm).
     rf_dec x = Some k \<and> rf_isa_type x = type_of k \<and> unat (rf_radr1 x) = rs1 \<and> unat (rf_radr2 x) = rs2 \<and>
     unat (rf_waddr x) = rd \<and> rf_imm x = imm)"

definition rvc_agrees :: "'b riscv_instr \<Rightarrow> bool" where
  "rvc_agrees ins \<longleftrightarrow> (\<forall>w. iparse ins w \<longrightarrow>
     (case rvc_meaning (iname ins) (ucast w) of None \<Rightarrow> False | Some m \<Rightarrow> rvc_fits (rvc_decode (ucast w)) m))"

definition fixed_fields16 :: "string \<Rightarrow> (nat \<times> nat) list" where
  "fixed_fields16 bits = filter (\<lambda>(lo, n). CHR ''?'' \<notin> set (field_chars lo n bits))
     [(13, 3), (0, 2), (10, 2), (12, 1), (5, 2), (2, 5), (7, 5)]"

definition has_fields16 :: "string \<Rightarrow> u16 \<Rightarrow> bool" where
  "has_fields16 bits u \<longleftrightarrow>
     list_all (\<lambda>(lo, n). bitfield lo n u = ucast (bits_value (field_chars lo n bits))) (fixed_fields16 bits)"

lemma bitfield_u16: "lo + n \<le> 16 \<Longrightarrow> bitfield lo n (ucast (w :: u32) :: u16) = ucast (bitfield lo n w)"
  by (rule bit_word_eqI) (auto simp: bit_bitfield bit_ucast_iff)

lemma has_fields16I:
  assumes "length bits = 32" and "parse_pattern bits w"
  shows "has_fields16 bits (ucast w)"
  using pattern_field [OF assms] by (auto simp: has_fields16_def fixed_fields16_def bitfield_u16)

lemma rvc_agreesI:
  assumes "length bits = 32" and "\<And>u. has_fields16 bits u \<Longrightarrow> guard u \<Longrightarrow>
     case rvc_meaning nm u of None \<Rightarrow> False | Some m \<Rightarrow> rvc_fits (rvc_decode u) m"
  shows "rvc_agrees (mk_instr16 nm bits guard ex)"
  using assms(2) has_fields16I [OF assms(1)] unfolding rvc_agrees_def mk_instr16_def riscv_instr.select_convs by simp

lemma CI_imm_zero: "\<not> bit u 12 \<Longrightarrow> bitfield 2 5 u = 0 \<Longrightarrow> CI_imm u = 0"
  by (simp add: CI_imm_def bitfield_1)

lemma guard_fields:
  "CR_rdrs1 u = 0 \<longleftrightarrow> bitfield 7 5 u = 0" "CR_rs2 u = 0 \<longleftrightarrow> bitfield 2 5 u = 0" "CR_rdrs1 u = 2 \<longleftrightarrow> bitfield 7 5 u = 2"
  using word_unat_eq_iff [of "bitfield 7 5 u" 2] by (simp_all add: CR_rdrs1_def CR_rs2_def unat_eq_zero)

lemmas rvc_eval = rvc_fits_def has_fields16_def fixed_fields16_def field_chars_def rvc_decode_def vb_opcode1_def rvc_meaning_def Let_def guard_fields
  rvc_imm [unfolded One_nat_def] rvc_shamt [unfolded One_nat_def] type_of_def rvc_math_def rvc_jump_add_def

lemma ext_C_agrees: "list_all rvc_agrees (isaExtensionC c)"
  unfolding isaExtensionC_def list.pred_inject
  by (intro conjI rvc_agreesI TrueI; simp add: rvc_eval CI_imm_zero)


lemma lookup_narrow:
  assumes "lookup_instr c cache = Some ins" and "buf32_0 cache AND 3 \<noteq> 3"
  shows "ins \<in> set (isaExtensionC c)" "iparse ins (buf32_0 cache)"
proof -
  show i: "iparse ins (buf32_0 cache)" using assms(1) by (auto simp: lookup_instr_linear find_Some_iff)
  have "ins \<in> set (isa_instructions c)" using assms(1) by (auto simp: lookup_instr_linear find_Some_iff)
  moreover have "\<not> wide ins" using wide_hash(2) [OF _ i] assms(2) by blast
  ultimately show "ins \<in> set (isaExtensionC c)"
    using tables_wide [of c] by (auto simp: isa_instructions_def isa_extension_def list_all_iff split: if_splits)
qed

lemma buf16_of_32: "buf16_0 cache = ucast (buf32_0 cache)"
  by (rule bit_word_eqI) (simp add: buf16_0_def buf32_0_def bit_ucast_iff)

text \<open>C17. Every word that the simulator decodes as a compressed instruction the RTL decoder of 16-bit instructions decodes as the
  instruction it abbreviates, with the registers and the immediate that the class of the simulator reads.\<close>

theorem rvc_decodes_as_simulator:
  assumes "lookup_instr c cache = Some ins" and "buf32_0 cache AND 3 \<noteq> 3"
  shows "\<exists>m. rvc_meaning (iname ins) (buf16_0 cache) = Some m \<and> rvc_fits (rvc_decode (buf16_0 cache)) m"
proof -
  have "rvc_agrees ins" using ext_C_agrees [of c] lookup_narrow(1) [OF assms] by (auto simp: list_all_iff)
  then show ?thesis
    using lookup_narrow(2) [OF assms] by (auto simp: rvc_agrees_def buf16_of_32 split: option.splits)
qed

lemma find_skip: "\<not> list_ex P xs \<Longrightarrow> find P (xs @ ys) = find P ys" "\<not> list_ex P ys \<Longrightarrow> find P (xs @ ys) = find P xs"
proof -
  show "\<not> list_ex P xs \<Longrightarrow> find P (xs @ ys) = find P ys" by (induction xs) auto
  have "\<not> list_ex P ys \<Longrightarrow> find P ys = None" by (induction ys) auto
  then show "\<not> list_ex P ys \<Longrightarrow> find P (xs @ ys) = find P xs" by (induction xs) auto
qed

lemma narrow_find:
  assumes "w AND 3 \<noteq> 3" and "buf32_0 cache = w" and "listExtISA c = ''IMAC''"
  shows "lookup_instr c cache = find (\<lambda>i. iparse i w) (isaExtensionC c)"
proof -
  have n: "\<not> list_ex (\<lambda>i. iparse i w) is" if "list_all wide is" for "is"
    using that assms(1) wide_hash(2) by (fastforce simp: list_ex_iff list_all_iff)
  have "isa_instructions c = (isaUserRV64I c @ isaPrivilegedRV64I c @ isaExtensionM c @ isaExtensionA c) @ isaExtensionC c"
    by (simp add: isa_instructions_def isa_extension_def assms(3))
  moreover have "\<not> list_ex (\<lambda>i. iparse i w) (isaUserRV64I c @ isaPrivilegedRV64I c @ isaExtensionM c @ isaExtensionA c)"
    by (rule n) (use tables_wide [of c] in simp)
  ultimately show ?thesis by (simp only: lookup_instr_linear assms(2) find_skip(1) simp_thms)
qed

text \<open>\<^verbatim>\<open>c.add a0, a1\<close>.\<close>

lemma c_add_lookup:
  "\<exists>ins. lookup_instr (sample_cfg :: unit cpu_cfg) 0x952E = Some ins \<and> iname ins = ''C_ADD'' \<and> iexec ins = exec_C_ADD sample_cfg"
proof -
  obtain is' where I: "isaExtensionC (sample_cfg :: unit cpu_cfg) = mk_instr16 ''C_ADD'' ''????????????????1001??????????10''
      (\<lambda>u. CR_rdrs1 u \<noteq> 0 \<and> CR_rs2 u \<noteq> 0) (exec_C_ADD sample_cfg) # is'"
    by (simp add: isaExtensionC_def)
  have l: "listExtISA (sample_cfg :: unit cpu_cfg) = ''IMAC''" by (simp add: sample_cfg_def)
  show ?thesis
    by (simp add: narrow_find [OF _ _ l, of "0x952E"] buf32_0_def I mk_instr16_def parse_pattern_def pattern_mask_def
        pattern_opcode_def CR_rdrs1_def CR_rs2_def bitfield_def)
qed

theorem rvc_decodes_as_simulator_witness:
  "let x = rvc_decode 0x952E in rf_dec x = Some Instr_ADD \<and> unat (rf_radr1 x) = 10 \<and> unat (rf_radr2 x) = 11 \<and> unat (rf_waddr x) = 10"
proof -
  obtain ins :: "unit riscv_instr" where ins: "lookup_instr sample_cfg 0x952E = Some ins" "iname ins = ''C_ADD''"
    using c_add_lookup by blast
  have b: "buf16_0 0x952E = 0x952E" "CR_rdrs1 0x952E = 10" "CR_rs2 0x952E = 11"
    by (simp_all add: buf16_0_def CR_rdrs1_def CR_rs2_def bitfield_def)
  show ?thesis
    using rvc_decodes_as_simulator [OF ins(1)] unfolding ins(2) b(1)
    by (simp add: buf32_0_def rvc_meaning_def rvc_fits_def b Let_def)
qed

text \<open>
  The word zero, defined as illegal, is decoded as \<^verbatim>\<open>addi s0, sp, 0\<close>; the simulator's table matches it too.
\<close>

lemma rvc_zero_is_legal: "rf_dec (rvc_decode 0) = Some Instr_ADDI" "parse_pattern ''????????????????000???????????00'' 0"
  by (simp_all add: rvc_decode_def vb_opcode1_def bitfield_def parse_pattern_def pattern_mask_def pattern_opcode_def Let_def)

end
