(* ===== verification/Rtl_Rvc_Exec.thy ===== *)
theory Rtl_Rvc_Exec
  imports Rtl_Rvc
begin

text \<open>
  What the RTL execution stage does with a compressed instruction from \<open>DecoderRvc\<close>, against the simulator's compressed
  instruction classes.
\<close>

section \<open>An issued compressed instruction\<close>

definition rvc_issues :: "u64 \<Rightarrow> u32 \<Rightarrow> exec_in \<Rightarrow> exec_regs \<Rightarrow> bool" where
  "rvc_issues pc w i r \<longleftrightarrow> i_d i = DecoderRvc_clock (fetched pc w) \<and> exec_ready i r \<and> \<not> bit pc 0"

definition rvc_sim :: "u32 \<Rightarrow> exec_in \<Rightarrow> exec_stage \<Rightarrow> 'b cpu \<Rightarrow> bool" where
  "rvc_sim w i s st \<longleftrightarrow> rvc_issues (pc_of st) w i (s_regs s) \<and> regs st 0 = 0 \<and>
     (v_check_tag1 (exec_operands i (s_regs s)) \<longrightarrow> i_rdata1 i = regs st (unat (rf_radr1 (rvc_decode (ucast w))))) \<and>
     (v_check_tag2 (exec_operands i (s_regs s)) \<longrightarrow> i_rdata2 i = regs st (unat (rf_radr2 (rvc_decode (ucast w)))))"

lemma rvc_decoded:
  assumes "i_d i = DecoderRvc_clock (fetched pc w)"
  shows "dr_pc (i_d i) = pc" "dr_instr_vec (i_d i) = rf_dec (rvc_decode (ucast w))"
    "dr_isa_type (i_d i) = rf_isa_type (rvc_decode (ucast w))" "dr_imm (i_d i) = rf_imm (rvc_decode (ucast w))"
    "dr_waddr (i_d i) = rf_waddr (rvc_decode (ucast w))" "dr_compressed (i_d i)"
    "dr_rv32 (i_d i) = dec_in {Instr_ADDW, Instr_ADDIW, Instr_SUBW} (rf_dec (rvc_decode (ucast w)))"
    "dr_memop_load (i_d i) = dec_in {Instr_LD, Instr_LW} (rf_dec (rvc_decode (ucast w)))"
    "dr_memop_store (i_d i) = dec_in {Instr_SD, Instr_SW} (rf_dec (rvc_decode (ucast w)))"
    "\<not> dr_amo (i_d i)" "\<not> dr_f64 (i_d i)" "dr_instr_unimplemented (i_d i) = (rf_dec (rvc_decode (ucast w)) = None)"
  using assms by (simp_all add: DecoderRvc_clock_def DecoderRvc_comb_def fetched_def Let_def)

definition rvc_instrs :: "nat set" where
  "rvc_instrs =
    {Instr_ADDI, Instr_SLLI, Instr_ADDIW, Instr_LW, Instr_LD, Instr_LUI, Instr_SRLI, Instr_SRAI, Instr_ANDI, Instr_SUB, Instr_XOR,
     Instr_OR, Instr_AND, Instr_SUBW, Instr_ADDW, Instr_JALR, Instr_EBREAK, Instr_ADD, Instr_JAL, Instr_SW, Instr_BEQ, Instr_SD,
     Instr_BNE}"

lemma rvc_decode_instrs: "rf_dec (rvc_decode u) = Some k \<Longrightarrow> k \<in> rvc_instrs"
  by (auto simp: rvc_decode_def rvc_math_def rvc_jump_add_def rvc_instrs_def Let_def split: if_splits)

definition rvc_shape :: "rvc_fields \<Rightarrow> bool" where
  "rvc_shape x \<longleftrightarrow> (rf_dec x = Some Instr_JALR \<longrightarrow> rf_imm x = 0) \<and>
     (\<forall>k \<in> branch_instr. rf_dec x = Some k \<longrightarrow> rf_radr2 x = 0 \<and> rf_waddr x = 0)"

lemma rvc_shape_if: "rvc_shape x \<Longrightarrow> rvc_shape y \<Longrightarrow> rvc_shape (if b then x else y)"
  by simp

lemma rvc_decode_shape: "rvc_shape (rvc_decode u)"
  unfolding rvc_decode_def rvc_math_def rvc_jump_add_def Let_def
  by (intro rvc_shape_if; simp add: rvc_shape_def branch_instr_def)

lemma rvc_plain:
  assumes iss: "rvc_issues pc w i r" and dec: "rf_dec (rvc_decode (ucast w)) = Some k" and k: "k \<in> plain_instr"
  shows "plain_issue pc k i r"
proof -
  note d = rvc_decoded [of i pc w] and ki = rvc_decode_instrs [OF dec]
  have "dec_in {Instr_ADDW, Instr_ADDIW, Instr_SUBW} (Some k) = v_rv32 (Some k)"
    using ki by (auto simp: rvc_instrs_def v_rv32_def dec_in_def)
  moreover have "\<not> dec_in {Instr_LD, Instr_LW} (Some k)" "\<not> dec_in {Instr_SD, Instr_SW} (Some k)"
    using k by (auto simp: plain_instr_def dec_in_def)
  ultimately show ?thesis using iss k d dec by (simp add: rvc_issues_def plain_issue_def)
qed

text \<open>The operands of the stage, by the meaning of the instruction.\<close>

definition rvc_op2 :: "nat \<Rightarrow> nat \<Rightarrow> u64 \<Rightarrow> 'b cpu \<Rightarrow> u64" where
  "rvc_op2 k rs2 imm st = (if type_of k \<in> {ISA_I_type, ISA_U_type} then imm else regs st rs2)"

definition rvc_next :: "nat \<Rightarrow> nat \<Rightarrow> u64 \<Rightarrow> 'b cpu \<Rightarrow> u64" where
  "rvc_next k rs1 imm st =
    (if k = Instr_BEQ \<and> regs st rs1 = 0 \<or> k = Instr_BNE \<and> regs st rs1 \<noteq> 0 \<or> k = Instr_JAL then pc_of st + imm
     else if k = Instr_JALR then regs st rs1 AND NOT 1
     else pc_of st + 2)"

lemma rvc_stage:
  assumes sim: "rvc_sim w i s st" and k: "k \<in> plain_instr"
    and dec: "rvc_fits (rvc_decode (ucast w)) (k, rs1, rs2, rd, imm)"
    and jalr: "k = Instr_JALR \<Longrightarrow> imm = 0" and br: "k \<in> branch_instr \<Longrightarrow> rs2 = 0"
  defines "r' \<equiv> s_regs (InstrExecute_stage i s)"
  shows "e_valid r'" "e_npc r' = rvc_next k rs1 imm st" "e_reg_write r' \<longleftrightarrow> rd \<noteq> 0" "rd \<noteq> 0 \<Longrightarrow> unat (e_reg_waddr r') = rd"
    "k \<in> value_instr \<Longrightarrow> o_reg_wdata (InstrExecute_stage i s) = rtl_value k (regs st rs1) (rvc_op2 k rs2 imm st)"
    "k \<in> {Instr_JAL, Instr_JALR} \<Longrightarrow> o_reg_wdata (InstrExecute_stage i s) = pc_of st + 2"
proof -
  note dec = dec [unfolded rvc_fits_def prod.case]
  have iss: "rvc_issues (pc_of st) w i (s_regs s)" using sim by (simp add: rvc_sim_def)
  have pl: "plain_issue (pc_of st) k i (s_regs s)" using rvc_plain [OF iss _ k] dec by blast
  have id: "i_d i = DecoderRvc_clock (fetched (pc_of st) w)" using iss by (simp add: rvc_issues_def)
  note d = rvc_decoded [OF id] and I = issue_plain [OF pl] and m = plain_issueD [OF pl]
  note mux = mux_idle [OF m(2)]
  have r': "r' = InstrExecute_clock False i (stage_units s) (s_regs s)" by (simp add: r'_def InstrExecute_stage_def Let_def)
  have incr: "vb_npc_incr i (s_regs s) = pc_of st + 2" by (simp add: vb_npc_incr_def opcode_len_def m mux d)
  have rd: "v_check_tag1 (exec_operands i (s_regs s)) \<Longrightarrow> i_rdata1 i = regs st rs1"
    "v_check_tag2 (exec_operands i (s_regs s)) \<Longrightarrow> i_rdata2 i = regs st rs2" using sim dec by (simp_all add: rvc_sim_def)
  have ops: "type_of k \<in> {ISA_R_type, ISA_I_type, ISA_SB_type} \<Longrightarrow> vb_rdata1 (exec_operands i (s_regs s)) = regs st rs1"
    "type_of k \<in> {ISA_R_type, ISA_SB_type} \<Longrightarrow> vb_rdata2 (exec_operands i (s_regs s)) = regs st rs2"
    "type_of k \<in> {ISA_I_type, ISA_U_type} \<Longrightarrow> vb_rdata2 (exec_operands i (s_regs s)) = imm"
    "type_of k = ISA_UJ_type \<Longrightarrow> vb_rdata1 (exec_operands i (s_regs s)) = pc_of st"
    "type_of k \<in> {ISA_SB_type, ISA_UJ_type} \<Longrightarrow> vb_off (exec_operands i (s_regs s)) = imm"
    using dec m(2) rd by (auto simp: exec_operands_def mux d)
  have z: "regs st 0 = 0" using sim by (simp add: rvc_sim_def)
  have t: "type_of Instr_JAL = ISA_UJ_type" "type_of Instr_JALR = ISA_I_type" "type_of Instr_BEQ = ISA_SB_type"
    "type_of Instr_BNE = ISA_SB_type" by (simp_all add: type_of_def)
  have ki: "k \<in> rvc_instrs" using dec by (intro rvc_decode_instrs) auto
  show "e_valid r'" by (simp add: r' I)
  have br2: "v_pc_branch i (s_regs s) \<longleftrightarrow> k = Instr_BEQ \<and> regs st rs1 = 0 \<or> k = Instr_BNE \<and> regs st rs1 \<noteq> 0"
  proof (cases "k \<in> branch_instr")
    case True
    then have "k = Instr_BEQ \<or> k = Instr_BNE" using ki by (auto simp: rvc_instrs_def branch_instr_def)
    with True show ?thesis using ops(1,2) br z by (auto simp: v_pc_branch_def wv_def m t Let_def)
  next
    case False
    then show ?thesis using no_branch [OF m(23)] by (simp add: branch_instr_def)
  qed
  show "e_npc r' = rvc_next k rs1 imm st"
    using ops jalr by (auto simp: r' I vb_prog_npc_def rvc_next_def br2 incr wv_def m t Let_def)
  have wa: "dr_waddr (i_d i) = rf_waddr (rvc_decode (ucast w))" by (rule d)
  show "e_reg_write r' \<longleftrightarrow> rd \<noteq> 0" unfolding r' I wa using dec by (metis unsigned_eq_0_iff)
  show "unat (e_reg_waddr r') = rd" if "rd \<noteq> 0"
  proof -
    have "dr_waddr (i_d i) \<noteq> 0" unfolding wa using that dec by (metis unsigned_eq_0_iff)
    from I(6) [OF this, of "stage_units s"] show ?thesis using dec by (simp add: r' wa)
  qed
  show "o_reg_wdata (InstrExecute_stage i s) = rtl_value k (regs st rs1) (rvc_op2 k rs2 imm st)" if v: "k \<in> value_instr"
  proof -
    have "\<forall>k \<in> rvc_instrs. k \<in> value_instr \<longrightarrow> k = Instr_LUI \<or> type_of k \<in> {ISA_R_type, ISA_I_type}"
      by (simp add: rvc_instrs_def value_instr_eq type_of_def)
    with ki v have "k = Instr_LUI \<or> type_of k \<in> {ISA_R_type, ISA_I_type}" by blast
    then show ?thesis
      using plain_value_of [OF pl v] ops by (elim disjE) (auto simp: rvc_op2_def rtl_value_logic type_of_def [of Instr_LUI])
  qed
  show "o_reg_wdata (InstrExecute_stage i s) = pc_of st + 2" if "k \<in> {Instr_JAL, Instr_JALR}"
  proof -
    have "k \<in> select_instrs Res_Ra" "k \<notin> branch_instr" using that by (auto simp: select_instrs_def jump_instrs_def branch_instr_def)
    from result_of [OF pl this] show ?thesis by (simp add: incr)
  qed
qed

section \<open>The simulator's instruction\<close>

definition rvc_result :: "'b riscv_instr \<Rightarrow> u64 \<Rightarrow> 'b cpu \<Rightarrow> nat \<times> nat \<times> nat \<times> nat \<times> u64 \<Rightarrow> bool" where
  "rvc_result ins cache st = (\<lambda>(k, rs1, rs2, rd, imm).
     k \<in> plain_instr \<longrightarrow> (k = Instr_JALR \<longrightarrow> \<not> bit (regs st rs1) 0 \<and> rs1 \<noteq> rd) \<longrightarrow>
     (case run_state (iexec ins cache) st of (n, st') \<Rightarrow>
        n = 2 \<and> rvc_next k rs1 imm st = (if branch st' then npc_of st' else pc_of st + 2) \<and>
        regs st' = (if rd = 0 then regs st
                    else (regs st)(rd := if k \<in> {Instr_JAL, Instr_JALR} then pc_of st + 2
                                         else rtl_value k (regs st rs1) (rvc_op2 k rs2 imm st)))))"

definition rvc_matches :: "'b riscv_instr \<Rightarrow> bool" where
  "rvc_matches ins \<longleftrightarrow> (\<forall>cache st. iparse ins (buf32_0 cache) \<longrightarrow> regs st 0 = 0 \<longrightarrow> \<not> branch st \<longrightarrow>
     (case rvc_meaning (iname ins) (buf16_0 cache) of None \<Rightarrow> True | Some m \<Rightarrow> rvc_result ins cache st m))"


lemma shamt_lt: "CB_shamt u < 64"
proof -
  let ?x = "push_bit 5 (bitfield 12 1 u) OR bitfield 2 5 u"
  have "?x = take_bit 6 ?x" by (simp add: bitfield_def take_bit_push_bit) (simp add: mod_2_eq_odd)
  then have "unat ?x = unat (take_bit 6 ?x)" by (rule arg_cong)
  then have "CB_shamt u = take_bit 6 (unat ?x)" by (simp only: CB_shamt_def unsigned_take_bit_eq)
  then show ?thesis using take_bit_nat_less_exp [of 6 "unat ?x"] by simp
qed

lemma shamt_operand: "unat (of_nat (CB_shamt u) AND (0x3F :: u64)) = CB_shamt u"
proof -
  have "of_nat (CB_shamt u) AND (0x3F :: u64) = take_bit 6 (of_nat (CB_shamt u))" by (simp add: take_bit_eq_mask mask_numeral)
  also have "unat (take_bit 6 (of_nat (CB_shamt u) :: u64)) = take_bit 6 (CB_shamt u)"
    using shamt_lt [of u] by (simp only: unsigned_take_bit_eq unat_of_nat) simp
  finally show ?thesis using shamt_lt [of u] by (simp add: take_bit_nat_eq_self)
qed

lemma slli_reg: "unat (push_bit 3 (bitfield 10 2 u) OR bitfield 7 3 u) = CR_rdrs1 u"
proof -
  have "push_bit 3 (bitfield 10 2 u) OR bitfield 7 3 u = bitfield 7 5 u"
    by (rule bit_word_eqI) (auto simp: bit_or_iff bit_push_bit_iff bit_bitfield)
  then show ?thesis by (simp add: CR_rdrs1_def)
qed

lemma even_target: "\<not> bit (a :: u64) 0 \<Longrightarrow> a AND - 2 = a"
proof (rule bit_word_eqI)
  fix n :: nat assume "\<not> bit a 0" "n < LENGTH(64)"
  moreover have "bit (- 2 :: u64) n \<longleftrightarrow> n \<noteq> 0 \<and> n < 64" using bit_not_iff [of "1 :: u64" n] by (auto simp: bit_1_iff possible_bit_word)
  ultimately show "bit (a AND - 2) n = bit a n" by (cases "n = 0") (simp_all add: bit_and_iff)
qed

lemma rvc_matches_mk:
  assumes "\<And>cache st. guard (buf16_0 cache) \<Longrightarrow> has_fields16 bits (buf16_0 cache) \<Longrightarrow> regs st 0 = 0 \<Longrightarrow> \<not> branch st \<Longrightarrow>
     case rvc_meaning nm (buf16_0 cache) of None \<Rightarrow> True | Some m \<Rightarrow> rvc_result (mk_instr16 nm bits guard ex) cache st m"
    and "length bits = 32"
  shows "rvc_matches (mk_instr16 nm bits guard ex)"
  unfolding rvc_matches_def
proof (intro allI impI)
  fix cache and st :: "'a cpu"
  assume "iparse (mk_instr16 nm bits guard ex) (buf32_0 cache)" and st: "regs st 0 = 0" "\<not> branch st"
  then have "guard (buf16_0 cache)" "has_fields16 bits (buf16_0 cache)"
    using has_fields16I [OF assms(2), of "buf32_0 cache"] by (simp_all add: mk_instr16_def buf16_of_32)
  from assms(1) [OF this st]
  show "case rvc_meaning (iname (mk_instr16 nm bits guard ex)) (buf16_0 cache) of None \<Rightarrow> True
      | Some m \<Rightarrow> rvc_result (mk_instr16 nm bits guard ex) cache st m"
    by (simp add: mk_instr16_def)
qed

lemma ext_C_matches: "list_all rvc_matches (isaExtensionC c)"
  unfolding isaExtensionC_def list.pred_inject
  by (intro conjI rvc_matches_mk TrueI; simp add: rvc_meaning_def rvc_result_def mk_instr16_def plain_instr_def ext_c_defs Let_def rvc_next_def
    rtl_value_logic rtl_value_addsub rtl_value_shift rvc_op2_def type_of_def pushStackTrace_keeps split_beta
    rtl_value_addsub(2) [unfolded One_nat_def] even_target slli_reg shamt_operand)


section \<open>One instruction\<close>

lemma narrow_step:
  assumes lookup: "lookup_instr c cache = Some ins" and w: "buf32_0 cache = w" and narrow: "w AND 3 \<noteq> 3"
    and dec: "rf_dec (rvc_decode (ucast w)) = Some k" and k: "k \<in> plain_instr" and sim: "rvc_sim w i s st" and nb: "\<not> branch st"
    and jalr: "k = Instr_JALR \<longrightarrow> \<not> bit (regs st (unat (rf_radr1 (rvc_decode (ucast w))))) 0 \<and>
      rf_radr1 (rvc_decode (ucast w)) \<noteq> rf_waddr (rvc_decode (ucast w))"
  shows "\<exists>st'. run_state (iexec ins cache) st = (2, st') \<and> e_valid (s_regs (InstrExecute_stage i s)) \<and>
     e_npc (s_regs (InstrExecute_stage i s)) = (if branch st' then npc_of st' else pc_of st + 2) \<and>
     regs st' = (if e_reg_write (s_regs (InstrExecute_stage i s))
                 then (regs st)(unat (e_reg_waddr (s_regs (InstrExecute_stage i s))) := o_reg_wdata (InstrExecute_stage i s))
                 else regs st)"
proof -
  note L = lookup_narrow [OF lookup narrow [folded w], unfolded w] and u = buf16_of_32 [of cache, unfolded w]
  have A: "rvc_agrees ins" "rvc_matches ins" using ext_C_agrees [of c] ext_C_matches [of c] L(1) by (auto simp: list_all_iff)
  obtain k' rs1 rs2 rd imm where m: "rvc_meaning (iname ins) (ucast w) = Some (k', rs1, rs2, rd, imm)"
    "rvc_fits (rvc_decode (ucast w)) (k', rs1, rs2, rd, imm)"
    using A(1) L(2) by (auto simp: rvc_agrees_def split: option.splits)
  have f: "k' = k" "rvc_fits (rvc_decode (ucast w)) (k, rs1, rs2, rd, imm)" using m(2) dec by (auto simp: rvc_fits_def)
  have shape: "k = Instr_JALR \<Longrightarrow> imm = 0" "k \<in> branch_instr \<Longrightarrow> rs2 = 0"
    using f(2) rvc_decode_shape [of "ucast w"] by (auto simp: rvc_fits_def rvc_shape_def)
  note S = rvc_stage [OF sim k f(2) shape]
  have j: "k = Instr_JALR \<longrightarrow> \<not> bit (regs st rs1) 0 \<and> rs1 \<noteq> rd"
    using jalr f(2) by (auto simp: rvc_fits_def dest: word_unat_eq_iff [THEN iffD2])
  have z: "regs st 0 = 0" using sim by (simp add: rvc_sim_def)
  have "rvc_result ins cache st (k, rs1, rs2, rd, imm)"
    using A(2) [unfolded rvc_matches_def, THEN spec, of cache, unfolded w u, THEN spec, of st, THEN mp, OF L(2), THEN mp, OF z, THEN mp, OF nb]
    by (simp add: m(1) f(1))
  then obtain st' where st': "run_state (iexec ins cache) st = (2, st')"
    "rvc_next k rs1 imm st = (if branch st' then npc_of st' else pc_of st + 2)"
    "regs st' = (if rd = 0 then regs st
       else (regs st)(rd := if k \<in> {Instr_JAL, Instr_JALR} then pc_of st + 2 else rtl_value k (regs st rs1) (rvc_op2 k rs2 imm st)))"
    using k j unfolding rvc_result_def by (auto split: prod.splits)
  have kinds: "k \<in> branch_instr \<Longrightarrow> rd = 0" "k \<in> branch_instr \<or> k \<in> value_instr \<or> k = Instr_JAL \<or> k = Instr_JALR"
    "k \<in> {Instr_JAL, Instr_JALR} \<Longrightarrow> k \<notin> value_instr"
    using f(2) rvc_decode_shape [of "ucast w"] plain_types(4) [OF k]
    by (auto simp: rvc_fits_def rvc_shape_def value_instr_def jump_instrs_def)
  show ?thesis
    using S st' kinds by (cases "rd = 0") auto
qed

section \<open>Properties\<close>

text \<open>C16. The RTL refines the simulator on the compressed arithmetic, logic, shift, branch and jump instructions: when the execution
  stage issues the 16-bit instruction that the simulator fetches, as its decoder expands it, with the same operands and program
  counter, then after one clock it has retired it; the register it writes gets the value that the simulator's instruction writes and
  its next program counter is the simulator's, two bytes further or the target. For a jump through a register this needs an even
  target, since the simulator does not clear its lowest bit, and a source other than the link register.\<close>

theorem rvc_refines_simulator:
  assumes lookup: "lookup_instr c cache = Some ins" and w: "buf32_0 cache = w" and narrow: "w AND 3 \<noteq> 3"
    and dec: "rf_dec (rvc_decode (ucast w)) = Some k" and k: "k \<in> plain_instr" and sim: "rvc_sim w i s st" and nb: "\<not> branch st"
    and jalr: "k = Instr_JALR \<longrightarrow> \<not> bit (regs st (unat (rf_radr1 (rvc_decode (ucast w))))) 0 \<and>
      rf_radr1 (rvc_decode (ucast w)) \<noteq> rf_waddr (rvc_decode (ucast w))"
  shows "\<exists>st'. run_state (iexec ins cache) st = (2, st') \<and> e_valid (s_regs (InstrExecute_stage i s)) \<and>
     e_npc (s_regs (InstrExecute_stage i s)) = (if branch st' then npc_of st' else pc_of st + 2) \<and>
     regs st' = (if e_reg_write (s_regs (InstrExecute_stage i s))
                 then (regs st)(unat (e_reg_waddr (s_regs (InstrExecute_stage i s))) := o_reg_wdata (InstrExecute_stage i s))
                 else regs st)"
  using assms by (rule narrow_step)


definition c_add_in :: exec_in where
  "c_add_in = quiet_in (DecoderRvc_clock (fetched 0x10000 0x952E)) 0 0"

lemma c_add_issues: "rvc_sim 0x952E c_add_in reset_stage (sample_cpu ())"
  by (simp add: c_add_in_def rvc_sim_def rvc_issues_def exec_ready_def quiet_in_def InstrExecute_r_reset_def DecoderRvc_clock_def
      DecoderRvc_comb_def fetched_def w_hazard1_def w_hazard2_def exec_mux_of_def reset_stage_def sample_cpu_def Let_def)

theorem rvc_refines_simulator_witness:
  "e_npc (s_regs (InstrExecute_stage c_add_in reset_stage)) = 0x10002 \<and> e_valid (s_regs (InstrExecute_stage c_add_in reset_stage))"
proof -
  obtain ins :: "unit riscv_instr" where ins: "lookup_instr sample_cfg 0x952E = Some ins" "iexec ins = exec_C_ADD sample_cfg"
    using c_add_lookup by blast
  have w: "buf32_0 0x952E = 0x952E" by (simp add: buf32_0_def)
  have dec: "rf_dec (rvc_decode (ucast (0x952E :: u32))) = Some Instr_ADD"
    by (simp add: rvc_decode_def vb_opcode1_def rvc_jump_add_def bitfield_def Let_def)
  have b: "\<not> branch (sample_cpu ())" "pc_of (sample_cpu ()) = 0x10000" by (simp_all add: sample_cpu_def)
  have k: "Instr_ADD \<in> plain_instr" by (simp add: plain_instr_def)
  from rvc_refines_simulator [OF ins(1) w _ dec k c_add_issues b(1)] obtain st' where st':
    "run_state (exec_C_ADD sample_cfg 0x952E) (sample_cpu ()) = (2, st')"
    "e_valid (s_regs (InstrExecute_stage c_add_in reset_stage))"
    "e_npc (s_regs (InstrExecute_stage c_add_in reset_stage)) = (if branch st' then npc_of st' else 0x10002)"
    unfolding ins(2) b(2) by auto
  moreover have "\<not> branch st'" using st'(1) b(1) by (auto simp: exec_C_ADD_def Let_def split: if_splits)
  ultimately show ?thesis by simp
qed

text \<open>A compressed jump through a register keeps an odd target in the simulator.\<close>

lemma c_jr_odd_target:
  "run_state (exec_C_JR c 0x8282) ((sample_cpu b)\<lparr>regs := (\<lambda>_. 0x10001)\<rparr>) = (n, st') \<Longrightarrow> branch st' \<and> npc_of st' = 0x10001"
  by (auto simp: exec_C_JR_def sample_cpu_def Let_def split: if_splits)

end
