(* ===== verification/Rtl_Dec_Select.thy ===== *)
theory Rtl_Dec_Select
  imports Rtl_Rvc_Exec
begin

text \<open>
  The decoding stage of the RTL core, \<^verbatim>\<open>core/decoder.cpp\<close>: decoders of 32-bit and of 16-bit instructions at two halfword offsets
  of the fetched word, a shift register of earlier results, and the selection of the result that the execution stage expects.
\<close>

section \<open>The stage\<close>

abbreviation (input) DEC_BLOCK :: nat where "DEC_BLOCK \<equiv> 4"
abbreviation (input) FULL_DEC_DEPTH :: nat where "FULL_DEC_DEPTH \<equiv> 24"

record dec_stage_in =
  df_nrst :: bool
  df_flush_pipeline :: bool
  df_f_pc :: u64
  df_f_instr :: u64
  df_instr_load_fault :: bool
  df_instr_page_fault_x :: bool
  df_progbuf_ena :: bool

text \<open>The registers of the four decoders and the shift register; \<open>id_wd\<close> is the array \<^verbatim>\<open>wd\<close>.\<close>

record instr_decoder =
  id_new :: "decoder_rv list"
  id_d :: "decoder_rv list"

definition id_wd :: "instr_decoder \<Rightarrow> decoder_rv list" where
  "id_wd s = id_new s @ id_d s"

definition InstrDecoder_r_reset :: instr_decoder where
  "InstrDecoder_r_reset =
    \<lparr>id_new = [DecoderRv_r_reset, DecoderRvc_r_reset, DecoderRv_r_reset, DecoderRvc_r_reset],
     id_d = replicate FULL_DEC_DEPTH DecoderRv_r_reset\<rparr>"

definition dec_parcel :: "dec_stage_in \<Rightarrow> nat \<Rightarrow> decoder_in" where
  "dec_parcel y k =
    \<lparr>fi_nrst = df_nrst y, fi_flush_pipeline = df_flush_pipeline y, fi_f_pc = df_f_pc y + of_nat (2 * k),
     fi_f_instr = ucast (bitfield (16 * k) 32 (df_f_instr y)), fi_instr_load_fault = df_instr_load_fault y,
     fi_instr_page_fault_x = df_instr_page_fault_x y, fi_progbuf_ena = df_progbuf_ena y\<rparr>"

definition dec_clears :: "dec_stage_in \<Rightarrow> bool" where
  "dec_clears y \<longleftrightarrow> \<not> df_nrst y \<or> df_flush_pipeline y"

definition InstrDecoder_clock :: "bool \<Rightarrow> dec_stage_in \<Rightarrow> instr_decoder \<Rightarrow> instr_decoder" where
  "InstrDecoder_clock fpu_ena y s =
    \<lparr>id_new = concat (map (\<lambda>k. [DecoderRv_clock fpu_ena (dec_parcel y k), DecoderRvc_clock (dec_parcel y k)]) [0, 1]),
     id_d =
       (if dec_clears y then replicate FULL_DEC_DEPTH DecoderRv_r_reset
        else if df_f_pc y \<noteq> dr_pc (id_wd s ! 0) then
          map (\<lambda>i. if i < DEC_BLOCK then id_wd s ! i else id_d s ! (i - DEC_BLOCK)) [0..<FULL_DEC_DEPTH]
        else id_d s)\<rparr>"

text \<open>The loop keeps the last match, that is the oldest.\<close>

definition dec_selidx :: "u64 \<Rightarrow> decoder_rv list \<Rightarrow> nat" where
  "dec_selidx npc wd =
    fold (\<lambda>i sel. if npc = dr_pc (wd ! (2 * i)) then if \<not> dr_compressed (wd ! (2 * i)) then 2 * i else 2 * i + 1 else sel)
      [0..<14] 0"

definition dec_out :: "u64 \<Rightarrow> instr_decoder \<Rightarrow> decoder_rv" where
  "dec_out npc s = id_wd s ! dec_selidx npc (id_wd s)"

section \<open>What the stage holds\<close>

text \<open>A run that remembers what was fetched since the last flush or reset.\<close>

definition dec_step :: "bool \<Rightarrow> dec_stage_in \<Rightarrow> instr_decoder \<times> decoder_in list \<Rightarrow> instr_decoder \<times> decoder_in list" where
  "dec_step f y x =
    (InstrDecoder_clock f y (fst x), if dec_clears y then [] else dec_parcel y 0 # dec_parcel y 1 # snd x)"

definition entry_ok :: "bool \<Rightarrow> decoder_in list \<Rightarrow> decoder_rv \<Rightarrow> decoder_rv \<Rightarrow> bool" where
  "entry_ok f H a b \<longleftrightarrow> a = DecoderRv_r_reset \<or> (\<exists>p \<in> set H. a = DecoderRv_comb f p \<and> b = DecoderRvc_comb p)"

definition dec_inv :: "bool \<Rightarrow> instr_decoder \<times> decoder_in list \<Rightarrow> bool" where
  "dec_inv f x \<longleftrightarrow> length (id_new (fst x)) = 4 \<and> length (id_d (fst x)) = 24 \<and>
     (\<forall>i < 14. entry_ok f (snd x) (id_wd (fst x) ! (2 * i)) (id_wd (fst x) ! (2 * i + 1)))"

lemma entry_mono: "entry_ok f H a b \<Longrightarrow> set H \<subseteq> set H' \<Longrightarrow> entry_ok f H' a b"
  by (auto simp: entry_ok_def)

lemma new_wd:
  "id_wd (InstrDecoder_clock f y s) =
     DecoderRv_clock f (dec_parcel y 0) # DecoderRvc_clock (dec_parcel y 0) #
     DecoderRv_clock f (dec_parcel y 1) # DecoderRvc_clock (dec_parcel y 1) # id_d (InstrDecoder_clock f y s)"
  by (simp add: id_wd_def InstrDecoder_clock_def)

lemma entry_new:
  assumes "\<not> dec_clears y" and "dec_parcel y k \<in> set H"
  shows "entry_ok f H (DecoderRv_clock f (dec_parcel y k)) (DecoderRvc_clock (dec_parcel y k))"
proof -
  have "fi_nrst (dec_parcel y k)" "\<not> fi_flush_pipeline (dec_parcel y k)"
    using assms(1) by (simp_all add: dec_clears_def dec_parcel_def)
  then show ?thesis using assms(2) by (auto simp: entry_ok_def DecoderRv_clock_def DecoderRvc_clock_def)
qed

lemma reset_even: "i < 14 \<Longrightarrow> (a # b # a # c # replicate 24 a) ! (2 * i) = a"
  by (cases i; cases "i - 1") auto

lemma dec_inv_step:
  assumes "dec_inv f x"
  shows "dec_inv f (dec_step f y x)"
proof (cases "dec_clears y")
  case True
  then have "dr \<in> set [0, 1] \<Longrightarrow> DecoderRv_clock f (dec_parcel y dr) = DecoderRv_r_reset" for dr
    by (auto simp: DecoderRv_clock_def dec_clears_def dec_parcel_def)
  with True show ?thesis
    by (simp add: dec_inv_def dec_step_def entry_ok_def InstrDecoder_clock_def id_wd_def reset_even)
next
  case False
  let ?s = "fst x" and ?s' = "InstrDecoder_clock f y (fst x)" and ?H = "dec_parcel y 0 # dec_parcel y 1 # snd x"
  have len: "length (id_new ?s) = 4" "length (id_d ?s) = 24"
    and old: "i < 14 \<Longrightarrow> entry_ok f ?H (id_wd ?s ! (2 * i)) (id_wd ?s ! (2 * i + 1))" for i
    using assms by (auto simp: dec_inv_def intro: entry_mono)
  have d: "entry_ok f ?H (id_d ?s' ! (2 * i)) (id_d ?s' ! (2 * i + 1))" if "i < 12" for i
  proof (cases "df_f_pc y = dr_pc (id_wd ?s ! 0)")
    case True
    then have eq: "id_d ?s' ! j = id_wd ?s ! (j + 4)" for j
      using len \<open>\<not> dec_clears y\<close> by (simp add: InstrDecoder_clock_def id_wd_def nth_append)
    have "2 * (i + 2) = 2 * i + 4" "2 * (i + 2) + 1 = 2 * i + 1 + 4" "i + 2 < 14" using that by simp_all
    then show ?thesis using old [of "i + 2"] by (simp only: eq)
  next
    case False
    then have "j < 24 \<Longrightarrow> id_d ?s' ! j = id_wd ?s ! j" for j
      using len \<open>\<not> dec_clears y\<close> by (simp add: InstrDecoder_clock_def id_wd_def nth_append)
    then show ?thesis using old [of i] that by simp
  qed
  have "entry_ok f ?H (id_wd ?s' ! (2 * i)) (id_wd ?s' ! (2 * i + 1))" if "i < 14" for i
  proof -
    have two: "i = 0 \<or> i = 1" if "i < 2" using that by auto
    show ?thesis
    proof (cases "i < 2")
      case True
      with two \<open>\<not> dec_clears y\<close> show ?thesis by (auto simp: new_wd intro!: entry_new)
    next
      case False
      then obtain j where "i = j + 2" by (metis le_add_diff_inverse2 not_less)
      then show ?thesis using d [of j] that by (simp add: new_wd)
    qed
  qed
  moreover have "length (id_d ?s') = 24" "length (id_new ?s') = 4" using len by (simp_all add: InstrDecoder_clock_def)
  ultimately show ?thesis using False by (simp add: dec_inv_def dec_step_def)
qed


section \<open>The selection\<close>

lemma selidx:
  "(\<exists>i < n. dr_pc (wd ! (2 * i)) = npc \<and> k = (if \<not> dr_compressed (wd ! (2 * i)) then 2 * i else 2 * i + 1)) \<or>
   k = k0 \<and> (\<forall>i < n. dr_pc (wd ! (2 * i)) \<noteq> npc)"
  if "k = fold (\<lambda>i sel. if npc = dr_pc (wd ! (2 * i)) then if \<not> dr_compressed (wd ! (2 * i)) then 2 * i else 2 * i + 1 else sel)
        [0..<n] k0"
  using that
proof (induction n arbitrary: k)
  case (Suc n)
  then show ?case by (cases "dr_pc (wd ! (2 * n)) = npc") (auto simp: less_Suc_eq)
qed simp

lemma dec_out_entry:
  assumes inv: "dec_inv f x" and pc: "dr_pc (dec_out npc (fst x)) = npc" and npc: "npc \<noteq> - 1"
  obtains p where "p \<in> set (snd x)" "fi_f_pc p = npc"
    "dec_out npc (fst x) = (if bitfield 0 2 (fi_f_instr p) = 3 then DecoderRv_comb f p else DecoderRvc_comb p)"
proof -
  let ?wd = "id_wd (fst x)" and ?k = "dec_selidx npc (id_wd (fst x))"
  have "\<exists>i < 14. dr_pc (?wd ! (2 * i)) = npc \<and> ?k = (if \<not> dr_compressed (?wd ! (2 * i)) then 2 * i else 2 * i + 1)"
    using selidx [of ?k npc ?wd 14 0] pc by (fastforce simp: dec_selidx_def dec_out_def)
  then obtain i where i: "i < 14" "dr_pc (?wd ! (2 * i)) = npc" "?k = (if \<not> dr_compressed (?wd ! (2 * i)) then 2 * i else 2 * i + 1)"
    by blast
  have "entry_ok f (snd x) (?wd ! (2 * i)) (?wd ! (2 * i + 1))" using inv i(1) by (simp add: dec_inv_def)
  moreover have "?wd ! (2 * i) \<noteq> DecoderRv_r_reset" using i(2) npc by (auto simp: DecoderRv_r_reset_def)
  ultimately obtain p where p: "p \<in> set (snd x)" "?wd ! (2 * i) = DecoderRv_comb f p" "?wd ! (2 * i + 1) = DecoderRvc_comb p"
    by (auto simp: entry_ok_def)
  have "dr_compressed (DecoderRv_comb f p) = (bitfield 0 2 (fi_f_instr p) \<noteq> 3)" "dr_pc (DecoderRv_comb f p) = fi_f_pc p"
    by (simp_all add: DecoderRv_comb_def Let_def)
  with p i show thesis by (intro that [of p]) (simp_all add: dec_out_def)
qed

lemma dec_inv_run: "dec_inv f x \<Longrightarrow> dec_inv f (fold (dec_step f) inputs x)"
  by (induction inputs arbitrary: x) (simp_all add: dec_inv_step)

lemma dec_inv_reset: "dec_inv f (InstrDecoder_r_reset, [])"
  by (simp add: dec_inv_def InstrDecoder_r_reset_def id_wd_def entry_ok_def reset_even)

text \<open>A word is found in the clock after it was fetched.\<close>

lemma dec_hit:
  assumes inv: "dec_inv f x" and y: "\<not> dec_clears y" and pc: "df_f_pc y \<noteq> - 1"
  shows "dr_pc (dec_out (df_f_pc y) (fst (dec_step f y x))) = df_f_pc y"
proof -
  let ?x = "dec_step f y x" and ?npc = "df_f_pc y"
  let ?wd = "id_wd (fst ?x)" and ?k = "dec_selidx (df_f_pc y) (id_wd (fst (dec_step f y x)))"
  have "dr_pc (?wd ! (2 * 0)) = ?npc"
    using y by (simp add: dec_step_def new_wd DecoderRv_clock_def DecoderRv_comb_def dec_clears_def dec_parcel_def Let_def)
  then have "\<exists>i < 14. dr_pc (?wd ! (2 * i)) = ?npc \<and> ?k = (if \<not> dr_compressed (?wd ! (2 * i)) then 2 * i else 2 * i + 1)"
    using selidx [of ?k ?npc ?wd 14 0] by (fastforce simp: dec_selidx_def)
  then obtain i where i: "i < 14" "dr_pc (?wd ! (2 * i)) = ?npc" "?k = (if \<not> dr_compressed (?wd ! (2 * i)) then 2 * i else 2 * i + 1)"
    by blast
  have "entry_ok f (snd ?x) (?wd ! (2 * i)) (?wd ! (2 * i + 1))" using dec_inv_step [OF inv] i(1) by (simp add: dec_inv_def)
  moreover have "?wd ! (2 * i) \<noteq> DecoderRv_r_reset" using i(2) pc by (auto simp: DecoderRv_r_reset_def)
  ultimately have "dr_pc (?wd ! (2 * i + 1)) = ?npc"
    using i(2) by (auto simp: entry_ok_def DecoderRv_comb_def DecoderRvc_comb_def Let_def)
  with i show ?thesis by (simp add: dec_out_def)
qed

text \<open>C18. What the decoding stage hands to the execution stage is what was fetched: after any sequence of fetched words, flushes and
  resets, when the execution stage accepts the selected result, a word was fetched at the expected program counter since the last
  flush or reset, and the result is its decoding, by the decoder of 32-bit or of 16-bit instructions as its two lowest bits
  say.\<close>

theorem decoder_feeds_execute:
  fixes r :: exec_regs
  assumes "x = fold (dec_step False) inputs (InstrDecoder_r_reset, [])"
    and "i_d i = dec_out (e_npc r) (fst x)" and "exec_ready i r" and "\<not> bit (e_npc r) 0"
  shows "\<exists>p \<in> set (snd x). fi_f_pc p = e_npc r \<and>
     (if fi_f_instr p AND 3 = 3 then issues (e_npc r) (fi_f_instr p) i r else rvc_issues (e_npc r) (fi_f_instr p) i r)"
proof -
  have inv: "dec_inv False x" using dec_inv_run [OF dec_inv_reset] assms(1) by blast
  have npc: "e_npc r \<noteq> - 1" using assms(4) by auto
  have pc: "dr_pc (dec_out (e_npc r) (fst x)) = e_npc r" using assms(2,3) by (simp add: exec_ready_def)
  obtain p where p: "p \<in> set (snd x)" "fi_f_pc p = e_npc r"
    "i_d i = (if bitfield 0 2 (fi_f_instr p) = 3 then DecoderRv_comb False p else DecoderRvc_comb p)"
    using dec_out_entry [OF inv pc npc] assms(2) by metis
  have m: "bitfield 0 2 w = w AND 3" for w :: u32 by (simp add: bitfield_def take_bit_eq_mask mask_numeral)
  have clean: "\<not> fi_instr_load_fault p" "\<not> fi_instr_page_fault_x p" "\<not> fi_progbuf_ena p"
    using assms(3) p(3) by (auto simp: exec_ready_def DecoderRv_comb_def DecoderRvc_comb_def Let_def split: if_splits)
  show ?thesis
    using p assms(3,4) clean
    by (intro bexI [of _ p]) (auto simp: m issues_def rvc_issues_def fetched_def DecoderRv_clock_def DecoderRvc_clock_def
        DecoderRv_comb_def DecoderRvc_comb_def Let_def)
qed


definition fetch_at :: "u64 \<Rightarrow> u64 \<Rightarrow> dec_stage_in" where
  "fetch_at pc w = \<lparr>df_nrst = True, df_flush_pipeline = False, df_f_pc = pc, df_f_instr = w, df_instr_load_fault = False,
     df_instr_page_fault_x = False, df_progbuf_ena = False\<rparr>"

text \<open>\<^verbatim>\<open>c.add a0, a1\<close> in the lower halfword, the start of \<^verbatim>\<open>addi ra, ra, 1\<close> above it.\<close>

definition fetched_pair :: dec_stage_in where
  "fetched_pair = fetch_at 0x10000 0x00108093952E"

theorem decoder_feeds_execute_witness:
  "let x = fold (dec_step False) [fetched_pair] (InstrDecoder_r_reset, []); i = quiet_in (dec_out 0x10000 (fst x)) 0 0
   in \<exists>p \<in> set (snd x). fi_f_pc p = 0x10000 \<and> fi_f_instr p = 0x8093952E \<and> rvc_issues 0x10000 (fi_f_instr p) i InstrExecute_r_reset"
proof -
  define x where "x = fold (dec_step False) [fetched_pair] (InstrDecoder_r_reset, [])"
  define i where "i = quiet_in (dec_out 0x10000 (fst x)) 0 0"
  have y: "\<not> dec_clears fetched_pair" "df_f_pc fetched_pair = 0x10000" by (simp_all add: fetched_pair_def fetch_at_def dec_clears_def)
  have x: "x = dec_step False fetched_pair (InstrDecoder_r_reset, [])" by (simp add: x_def)
  have H: "snd x = [dec_parcel fetched_pair 0, dec_parcel fetched_pair 1]" using y by (simp add: x dec_step_def)
  have p: "fi_f_pc (dec_parcel fetched_pair 0) = 0x10000" "fi_f_instr (dec_parcel fetched_pair 0) = 0x8093952E"
    "fi_f_pc (dec_parcel fetched_pair 1) = 0x10002"
    by (simp_all add: dec_parcel_def fetched_pair_def fetch_at_def bitfield_def)
  have pc: "dr_pc (dec_out 0x10000 (fst x)) = 0x10000" using dec_hit [OF dec_inv_reset y(1), of False] y(2) by (simp add: x)
  have inv: "dec_inv False x" unfolding x_def by (rule dec_inv_run) (rule dec_inv_reset)
  obtain q where "q \<in> set (snd x)" "dec_out 0x10000 (fst x) =
      (if bitfield 0 2 (fi_f_instr q) = 3 then DecoderRv_comb False q else DecoderRvc_comb q)"
    by (rule dec_out_entry [OF inv pc]) auto
  then have d: "\<not> dr_progbuf_ena (dec_out 0x10000 (fst x))" "\<not> dr_instr_load_fault (dec_out 0x10000 (fst x))"
      "\<not> dr_instr_page_fault_x (dec_out 0x10000 (fst x))"
    unfolding H by (auto simp: DecoderRv_comb_def DecoderRvc_comb_def dec_parcel_def fetched_pair_def fetch_at_def Let_def)
  have n: "e_npc InstrExecute_r_reset = 0x10000" by (simp add: InstrExecute_r_reset_def)
  moreover have "exec_ready i InstrExecute_r_reset"
    using d pc by (simp add: i_def exec_ready_def quiet_in_def InstrExecute_r_reset_def w_hazard1_def w_hazard2_def exec_mux_of_def Let_def)
  moreover have "i_d i = dec_out (e_npc InstrExecute_r_reset) (fst x)" by (simp add: i_def quiet_in_def n)
  ultimately show ?thesis
    using decoder_feeds_execute [OF x_def, of i InstrExecute_r_reset] p
    unfolding Let_def x_def [symmetric] i_def [symmetric] H by auto
qed

end
