(* ===== verification/Rtl_Core_Step.thy ===== *)
theory Rtl_Core_Step
  imports Rtl_Rvc_Exec Pipeline_Step
begin

text \<open>
  The simulator's side of the comparison with the RTL pipeline: the instructions that the execution stage retires in one clock
  change nothing but registers, program counter and stack trace, so that one iteration of \<^verbatim>\<open>updatePipeline\<close> on such an instruction
  is determined by its \<^verbatim>\<open>exec\<close>.
\<close>

section \<open>What these instructions leave alone\<close>

definition same_core :: "'b cpu \<Rightarrow> 'b cpu \<Rightarrow> bool" where
  "same_core st st' \<longleftrightarrow>
     st'\<lparr>regs := regs st, branch := branch st, ctx_npc := ctx_npc st, stackTraceCnt := stackTraceCnt st,
        stackTraceBuf := stackTraceBuf st\<rparr> = st"

lemma same_core_refl [simp]: "same_core st st"
  by (simp add: same_core_def)

lemma same_core_write_rd [simp]: "same_core st (write_rd w v st)"
  by (simp add: same_core_def write_rd_def)

lemma same_coreD:
  assumes "same_core st st'"
  shows "queue st' = queue st" "exceptions st' = exceptions st" "csr st' = csr st" "estate st' = estate st" "haltreq st' = haltreq st"
    "devs st' = devs st" "cur_ctx st' = cur_ctx st" "ctx_pc st' = ctx_pc st" "pmpTable st' = pmpTable st"
    "cur_prv_level st' = cur_prv_level st" "step_cnt st' = step_cnt st"
  using assms [unfolded same_core_def, THEN arg_cong [where f = queue]] assms [unfolded same_core_def, THEN arg_cong [where f = exceptions]]
    assms [unfolded same_core_def, THEN arg_cong [where f = csr]] assms [unfolded same_core_def, THEN arg_cong [where f = estate]]
    assms [unfolded same_core_def, THEN arg_cong [where f = haltreq]] assms [unfolded same_core_def, THEN arg_cong [where f = devs]]
    assms [unfolded same_core_def, THEN arg_cong [where f = cur_ctx]] assms [unfolded same_core_def, THEN arg_cong [where f = ctx_pc]]
    assms [unfolded same_core_def, THEN arg_cong [where f = pmpTable]] assms [unfolded same_core_def, THEN arg_cong [where f = cur_prv_level]]
    assms [unfolded same_core_def, THEN arg_cong [where f = step_cnt]]
  by simp_all

definition jump_frame :: "'b riscv_instr \<Rightarrow> bool" where
  "jump_frame ins \<longleftrightarrow> (\<forall>cache st. (case rtl_index (iname ins) of None \<Rightarrow> True
     | Some k \<Rightarrow> k \<in> branch_instr \<union> {Instr_JAL, Instr_JALR} \<longrightarrow> same_core st (snd (run_state (iexec ins cache) st))))"

lemma jump_frame_mk:
  "jump_frame (mk_instr nm bits ex) \<longleftrightarrow> (\<forall>cache st. (case rtl_index nm of None \<Rightarrow> True
     | Some k \<Rightarrow> k \<in> branch_instr \<union> {Instr_JAL, Instr_JALR} \<longrightarrow> same_core st (snd (run_state (ex cache) st))))"
  unfolding jump_frame_def mk_instr_def riscv_instr.select_convs ..

lemma user_frame: "list_all jump_frame (isaUserRV64I c)"
  unfolding isaUserRV64I_def list.pred_inject
  by (intro conjI TrueI; simp add: jump_frame_mk rtl_index_def branch_instr_def same_core_def exec_JAL_def exec_JALR_def exec_BEQ_def
      exec_BGE_def exec_BGEU_def exec_BLT_def exec_BLTU_def exec_BNE_def pushStackTrace_def popStackTrace_def Let_def)

lemma other_frame:
  "list_all jump_frame (isaPrivilegedRV64I c)" "list_all jump_frame (isaExtensionM c)" "list_all jump_frame (isaExtensionA c)"
  unfolding isaPrivilegedRV64I_def isaExtensionM_def isaExtensionA_def list.pred_inject
  by (intro conjI TrueI; simp add: jump_frame_mk rtl_index_def branch_instr_def)+

definition rvc_frame :: "'b riscv_instr \<Rightarrow> bool" where
  "rvc_frame ins \<longleftrightarrow> (\<forall>cache st. (case rvc_meaning (iname ins) (buf16_0 cache) of None \<Rightarrow> True
     | Some m \<Rightarrow> fst m \<in> plain_instr \<longrightarrow> same_core st (snd (run_state (iexec ins cache) st))))"

lemma ext_C_frame: "list_all rvc_frame (isaExtensionC c)"
  unfolding isaExtensionC_def list.pred_inject
  by (intro conjI TrueI; simp add: rvc_frame_def mk_instr16_def rvc_meaning_def plain_instr_def same_core_def ext_c_defs
      pushStackTrace_def popStackTrace_def Let_def)


section \<open>The instructions of the pipeline\<close>

text \<open>The index that the decoder responsible for the word gives, and the conditions under which the execution stage computes what
  the simulator does.\<close>

definition rtl_dec :: "u32 \<Rightarrow> nat option" where
  "rtl_dec w = (if w AND 3 = 3 then vb_dec False w else rf_dec (rvc_decode (ucast w)))"

definition plain_cond :: "u32 \<Rightarrow> 'b cpu \<Rightarrow> bool" where
  "plain_cond w st \<longleftrightarrow> (case rtl_dec w of None \<Rightarrow> False | Some k \<Rightarrow> k \<in> plain_instr \<and>
     (if w AND 3 = 3 then k \<in> needs_fit \<longrightarrow> sub_fits (sim_op1 k w st) (sim_op2 k w st)
      else k = Instr_JALR \<longrightarrow> \<not> bit (regs st (unat (rf_radr1 (rvc_decode (ucast w))))) 0 \<and>
        rf_radr1 (rvc_decode (ucast w)) \<noteq> rf_waddr (rvc_decode (ucast w))))"

definition stage_sim :: "u32 \<Rightarrow> exec_in \<Rightarrow> exec_stage \<Rightarrow> 'b cpu \<Rightarrow> bool" where
  "stage_sim w i s st \<longleftrightarrow> (if w AND 3 = 3 then rtl_sim w i s st else rvc_sim w i s st)"

lemma needs_fit_operands:
  assumes "rtl_sim w i s st" and "vb_dec False w = Some k" and "k \<in> needs_fit"
  shows "vb_rdata1 (exec_operands i (s_regs s)) = sim_op1 k w st" "vb_rdata2 (exec_operands i (s_regs s)) = sim_op2 k w st"
proof -
  have "type_of k = ISA_R_type \<or> type_of k = ISA_I_type \<or> type_of k = ISA_SB_type"
    using assms(3) by (auto simp: needs_fit_def type_of_def)
  then show "vb_rdata1 (exec_operands i (s_regs s)) = sim_op1 k w st" "vb_rdata2 (exec_operands i (s_regs s)) = sim_op2 k w st"
    using sim_operands [OF assms(1,2) refl] by (auto simp: sim_op1_def sim_op2_def)
qed

lemma wide_frame:
  assumes lookup: "lookup_instr c cache = Some ins" and w: "buf32_0 cache = w" and wide: "w AND 3 = 3"
    and dec: "vb_dec False w = Some k" and k: "k \<in> plain_instr"
    and fits: "k \<in> needs_fit \<longrightarrow> sub_fits (sim_op1 k w st) (sim_op2 k w st)"
  shows "same_core st (snd (run_state (iexec ins cache) st))"
proof -
  note L = lookup_wide [OF lookup wide [folded w]]
  have idx: "rtl_index (iname ins) = Some k"
    using wide_agrees [OF L(1,3), of False] L(2) dec by (auto simp: rtl_agrees_def w split: option.splits)
  show ?thesis
  proof (cases "k \<in> value_instr")
    case True
    have "run_state (iexec ins cache) st = (4, write_rd w (rtl_value k (sim_op1 k w st) (sim_op2 k w st)) st)"
      using all_match(1) [OF L(1,3,2)] True L(2) fits idx by (auto simp: value_matches_def w needs_fit_def)
    then show ?thesis by simp
  next
    case False
    have "\<not> narrow ins" using wide_hash(2) [OF L(3,2)] narrow_hash(2) [OF _ L(2)] by blast
    then have "ins \<notin> set (isaExtensionC c)" using table_narrow [of c] by (auto simp: list_all_iff)
    then have "jump_frame ins"
      using L(1) user_frame [of c] other_frame [of c] by (auto simp: isa_instructions_def isa_extension_def list_all_iff split: if_splits)
    moreover have "k \<in> branch_instr \<union> {Instr_JAL, Instr_JALR}" using plain_types(4) [OF k] False by blast
    ultimately show ?thesis using idx by (auto simp: jump_frame_def)
  qed
qed

lemma narrow_frame:
  assumes lookup: "lookup_instr c cache = Some ins" and w: "buf32_0 cache = w" and narrow: "w AND 3 \<noteq> 3"
    and dec: "rf_dec (rvc_decode (ucast w)) = Some k" and k: "k \<in> plain_instr"
  shows "same_core st (snd (run_state (iexec ins cache) st))"
proof -
  note L = lookup_narrow [OF lookup narrow [folded w], unfolded w]
  have A: "rvc_agrees ins" "rvc_frame ins" using ext_C_agrees [of c] ext_C_frame [of c] L(1) by (auto simp: list_all_iff)
  obtain m where m: "rvc_meaning (iname ins) (ucast w) = Some m" "rvc_fits (rvc_decode (ucast w)) m"
    using A(1) L(2) by (auto simp: rvc_agrees_def split: option.splits)
  then have "fst m = k" using dec by (auto simp: rvc_fits_def split: prod.splits)
  then show ?thesis
    using A(2) [unfolded rvc_frame_def, THEN spec, of cache, THEN spec, of st] m(1) k by (simp add: buf16_of_32 w)
qed

lemma stage_step:
  assumes lookup: "lookup_instr c cache = Some ins" and w: "buf32_0 cache = w" and plain: "plain_cond w st"
    and sim: "stage_sim w i s st" and nb: "\<not> branch st"
  shows "\<exists>n st'. run_state (iexec ins cache) st = (n, st') \<and> same_core st st' \<and> e_valid (s_regs (InstrExecute_stage i s)) \<and>
     e_npc (s_regs (InstrExecute_stage i s)) = (if branch st' then npc_of st' else pc_of st + of_nat n) \<and>
     regs st' = (if e_reg_write (s_regs (InstrExecute_stage i s))
                 then (regs st)(unat (e_reg_waddr (s_regs (InstrExecute_stage i s))) := o_reg_wdata (InstrExecute_stage i s))
                 else regs st)"
proof (cases "w AND 3 = 3")
  case True
  then obtain k where k: "vb_dec False w = Some k" "k \<in> plain_instr"
    and fits: "k \<in> needs_fit \<longrightarrow> sub_fits (sim_op1 k w st) (sim_op2 k w st)" and sim: "rtl_sim w i s st"
    using plain sim by (auto simp: plain_cond_def rtl_dec_def stage_sim_def split: option.splits)
  have f: "k \<in> needs_fit \<longrightarrow> sub_fits (vb_rdata1 (exec_operands i (s_regs s))) (vb_rdata2 (exec_operands i (s_regs s)))"
    using fits needs_fit_operands [OF sim k(1)] by simp
  show ?thesis
    using wide_step [OF lookup w True k sim nb f] wide_frame [OF lookup w True k fits] by fastforce
next
  case False
  then obtain k where k: "rf_dec (rvc_decode (ucast w)) = Some k" "k \<in> plain_instr" and sim: "rvc_sim w i s st"
    and j: "k = Instr_JALR \<longrightarrow> \<not> bit (regs st (unat (rf_radr1 (rvc_decode (ucast w))))) 0 \<and>
      rf_radr1 (rvc_decode (ucast w)) \<noteq> rf_waddr (rvc_decode (ucast w))"
    using plain sim by (auto simp: plain_cond_def rtl_dec_def stage_sim_def split: option.splits)
  show ?thesis
    using narrow_step [OF lookup w False k sim nb j] narrow_frame [OF lookup w False k, of st] by fastforce
qed

section \<open>One iteration of the simulator\<close>

lemma branch_tick [simp]:
  "branch (tick_watchdog s) = branch s" "regs (tick_watchdog s) = regs s" "cur_ctx (tick_watchdog s) = cur_ctx s"
  "ctx_pc (tick_watchdog s) = ctx_pc s" "ctx_npc (tick_watchdog s) = ctx_npc s" "queue (tick_watchdog s) = queue s"
  "exceptions (tick_watchdog s) = exceptions s" "csr (tick_watchdog s) = csr s" "pmpTable (tick_watchdog s) = pmpTable s"
  "cur_prv_level (tick_watchdog s) = cur_prv_level s" "estate (tick_watchdog s) = estate s"
  "haltreq (tick_watchdog s) = haltreq s" "devs (tick_watchdog s) = devs s"
  by (simp_all add: tick_watchdog_def)

context cpu_memory
begin

lemma plain_iteration:
  assumes run: "running c s" and mem: "sok (devs s) (npc_of s) 4" "4 \<le> sysBusWidthBytes c" "\<not> mpu_denies c (npc_of s) RWX_x s"
    and quiet: "quiet s" and lookup: "lookup_instr c w = Some ins" and w: "w = load_word (sbyte (devs s)) (npc_of s) 4"
  obtains st where "pc_of st = npc_of s" "regs st = regs s" "\<not> branch st"
    "\<And>n st'. run_state (iexec ins w) st = (n, st') \<Longrightarrow> same_core st st' \<Longrightarrow>
       \<exists>s'. updatePipeline c s = Some s' \<and> regs s' = regs st' \<and>
         npc_of s' = (if branch st' then npc_of st' else pc_of st + of_nat n) \<and> devs s' = devs s \<and> running c s' \<and> quiet s' \<and> csr s' = csr s \<and>
         pmpTable s' = pmpTable s \<and> cur_prv_level s' = cur_prv_level s"
proof -
  obtain tr where u: "updatePipeline c s = Some (snd (run_state (do { execute c; finish_step c }) (fetch_state s tr w)))"
    using pipeline_step [OF run mem] w by blast
  let ?st = "tick_watchdog (fetch_state s tr w)"
  have st: "pc_of ?st = npc_of s" "regs ?st = regs s" "\<not> branch ?st" by (simp_all add: fetch_state_def)
  have c: "cacheline (fetch_state s tr w) = w" by (simp add: fetch_state_def)
  have "\<exists>s'. updatePipeline c s = Some s' \<and> regs s' = regs st' \<and>
         npc_of s' = (if branch st' then npc_of st' else pc_of ?st + of_nat n) \<and> devs s' = devs s \<and> running c s' \<and> quiet s' \<and> csr s' = csr s \<and>
         pmpTable s' = pmpTable s \<and> cur_prv_level s' = cur_prv_level s"
    if x: "run_state (iexec ins w) ?st = (n, st')" and same: "same_core ?st st'" for n st'
  proof -
    note f = same_coreD [OF same, simplified]
    have e: "run_state (execute c) (fetch_state s tr w) = ((), st'\<lparr>oplen := n, do_not_cache := False, pc_z := pc_of st'\<rparr>)"
      using run_execute_Some [of c "fetch_state s tr w", unfolded c, OF lookup x] .
    have q: "quiet (st'\<lparr>oplen := n, do_not_cache := False, pc_z := pc_of st'\<rparr>)"
      using quiet by (simp add: quiet_def f fetch_state_def)
    show ?thesis
      using run quiet unfolding u
      by (simp add: e run_finish_quiet [OF q]) (simp add: f fetch_state_def running_def quiet_def)
  qed
  with st show thesis by (rule that)
qed

end

end
