(* ===== verification/Rtl_Pipeline.thy ===== *)
theory Rtl_Pipeline
  imports Rtl_Reg_File Rtl_Dec_Select Rtl_Core_Step Soc
begin

text \<open>
  The decoding stage, the execution stage and the register file of the RTL core connected as in \<^verbatim>\<open>core/proc.cpp\<close>, running a
  program of the instructions that the execution stage retires in one clock. The abstraction function \<open>arch_reg\<close> gives the
  registers of the architecture: the result that the execution stage is about to write, or else the register file.
\<close>

section \<open>The connections\<close>

record pipe =
  p_dec :: instr_decoder
  p_exec :: exec_stage
  p_bank :: reg_int_bank

record pipe_in =
  pi_fetch :: dec_stage_in
  pi_exec :: exec_in
  pi_wb :: wb_port
  pi_dport :: dport_in

definition pipe_fed :: "pipe_in \<Rightarrow> pipe \<Rightarrow> exec_in" where
  "pipe_fed y P =
    (pi_exec y)\<lparr>i_nrst := df_nrst (pi_fetch y), i_d := dec_out (o_npc (pi_exec y) (s_regs (p_exec P))) (p_dec P)\<rparr>"

definition pipe_exec_in :: "pipe_in \<Rightarrow> pipe \<Rightarrow> exec_in" where
  "pipe_exec_in y P =
    (let i = pipe_fed y P; m = exec_mux_of i (s_regs (p_exec P))
     in i\<lparr>i_rdata1 := rv_val (p_bank P (mux_radr1 m)), i_rtag1 := rv_tag (p_bank P (mux_radr1 m)),
          i_rdata2 := rv_val (p_bank P (mux_radr2 m)), i_rtag2 := rv_tag (p_bank P (mux_radr2 m))\<rparr>)"

definition pipe_clock :: "pipe_in \<Rightarrow> pipe \<Rightarrow> pipe" where
  "pipe_clock y P =
    \<lparr>p_dec = InstrDecoder_clock False (pi_fetch y) (p_dec P),
     p_exec = InstrExecute_stage (pipe_exec_in y P) (p_exec P),
     p_bank = RegIntBank_clock (bank_port (df_nrst (pi_fetch y)) (p_exec P) (pi_wb y) (pi_dport y)) (p_bank P)\<rparr>"

definition retires :: "pipe_in \<Rightarrow> pipe \<Rightarrow> bool" where
  "retires y P \<longleftrightarrow> e_valid (s_regs (p_exec (pipe_clock y P)))"

fun retired :: "pipe_in list \<Rightarrow> pipe \<Rightarrow> nat" where
  "retired [] P = 0"
| "retired (y # ys) P = (if retires y P then 1 else 0) + retired ys (pipe_clock y P)"

section \<open>The relation to the simulated core\<close>

definition write_pending :: "pipe \<Rightarrow> 6 word \<Rightarrow> bool" where
  "write_pending P x \<longleftrightarrow> e_reg_write (s_regs (p_exec P)) \<and> e_reg_waddr (s_regs (p_exec P)) = x"

definition arch_reg :: "pipe \<Rightarrow> 6 word \<Rightarrow> u64" where
  "arch_reg P x = (if write_pending P x then o_reg_wdata (p_exec P) else rv_val (p_bank P x))"

text \<open>The tag counter of the execution stage is ahead of the register file in the register that it is about to write only.\<close>

definition tags_ok :: "pipe \<Rightarrow> bool" where
  "tags_ok P \<longleftrightarrow> p_bank P 0 = \<lparr>rv_val = 0, rv_tag = 0\<rparr> \<and> \<not> write_pending P 0 \<and> e_tagcnt (s_regs (p_exec P)) 0 = 0 \<and>
     (\<forall>x. if write_pending P x
          then e_reg_wtag (s_regs (p_exec P)) = e_tagcnt (s_regs (p_exec P)) x \<and> rv_tag (p_bank P x) \<noteq> e_tagcnt (s_regs (p_exec P)) x
          else rv_tag (p_bank P x) = e_tagcnt (s_regs (p_exec P)) x)"

definition exec_calm :: "exec_regs \<Rightarrow> bool" where
  "exec_calm r \<longleftrightarrow> e_state r = State_Idle \<and> \<not> e_memop_valid r \<and> \<not> e_mem_ex_load_fault r \<and> \<not> e_mem_ex_store_fault r \<and>
     \<not> e_page_fault_r r \<and> \<not> e_page_fault_w r \<and> \<not> e_stack_overflow r \<and> \<not> e_stack_underflow r"

definition pipe_rel :: "pipe \<Rightarrow> 'b cpu \<Rightarrow> bool" where
  "pipe_rel P s \<longleftrightarrow> exec_calm (s_regs (p_exec P)) \<and> tags_ok P \<and> e_npc (s_regs (p_exec P)) = npc_of s \<and>
     (\<forall>x. arch_reg P x = regs s (unat x))"

text \<open>The decoding stage holds only decoded words of the program.\<close>

definition dec_holds :: "(u64 \<Rightarrow> u32) \<Rightarrow> instr_decoder \<Rightarrow> bool" where
  "dec_holds code d \<longleftrightarrow> (\<exists>H. dec_inv False (d, H) \<and> (\<forall>p \<in> set H. p = fetched (fi_f_pc p) (code (fi_f_pc p))))"

text \<open>The inputs of a clock: what is fetched is the program, wherever and whenever it is fetched, and with or without a flush;
  there is no interrupt, fault, request of the debugger or loaded value.\<close>

definition exec_in_calm :: "exec_in \<Rightarrow> bool" where
  "exec_in_calm i \<longleftrightarrow> \<not> i_stack_overflow i \<and> \<not> i_stack_underflow i \<and> \<not> i_mem_ex_load_fault i \<and> \<not> i_mem_ex_store_fault i \<and>
     \<not> i_page_fault_r i \<and> \<not> i_page_fault_w i \<and> i_irq_pending i = 0 \<and> \<not> i_haltreq i \<and> \<not> i_step i \<and> \<not> i_dbg_progbuf_ena i \<and>
     \<not> i_dbg_mem_req_valid i"

definition fetch_of :: "(u64 \<Rightarrow> u32) \<Rightarrow> dec_stage_in \<Rightarrow> bool" where
  "fetch_of code f \<longleftrightarrow> df_nrst f \<and> \<not> df_instr_load_fault f \<and> \<not> df_instr_page_fault_x f \<and> \<not> df_progbuf_ena f \<and>
     (\<forall>k \<in> {0, 1}. fi_f_instr (dec_parcel f k) = code (df_f_pc f + of_nat (2 * k)))"

definition pipe_calm :: "(u64 \<Rightarrow> u32) \<Rightarrow> pipe_in \<Rightarrow> bool" where
  "pipe_calm code y \<longleftrightarrow> fetch_of code (pi_fetch y) \<and> exec_in_calm (pi_exec y) \<and> \<not> wb_wena (pi_wb y) \<and>
     \<not> (dp_ena (pi_dport y) \<and> dp_write (pi_dport y))"

section \<open>One clock of the execution stage\<close>

lemma stage_regs: "s_regs (InstrExecute_stage i s) = InstrExecute_clock False i (stage_units s) (s_regs s)"
  by (simp add: InstrExecute_stage_def Let_def)

lemma stage_stalls:
  fixes u :: exec_units
  assumes calm: "exec_calm r" and i: "i_nrst i" "exec_in_calm i" and stall: "\<not> (v_d_valid i r \<and> \<not> w_hazard1 i r \<and> \<not> w_hazard2 i r)"
  defines "r' \<equiv> InstrExecute_clock False i u r"
  shows "exec_calm r'" "\<not> e_valid r'" "\<not> e_reg_write r'" "e_npc r' = e_npc r" "e_tagcnt r' = e_tagcnt r"
proof -
  have "exec_idle False i r (v, ctl) = (v, ctl)" for v ctl
    unfolding exec_idle_def prod.case by (simp only: if_not_P [OF stall] if_cancel)
  then have "exec_step False i u r (v, ctl) = (v, ctl)" for v ctl using calm by (simp add: exec_step_def exec_calm_def)
  note defs = r'_def InstrExecute_clock_def InstrExecute_comb_def this exec_ctl_init_def Let_def exec_memop_def exec_begin_def
  show "exec_calm r'" "\<not> e_valid r'" "\<not> e_reg_write r'" "e_npc r' = e_npc r" "e_tagcnt r' = e_tagcnt r"
    using calm i by (simp_all add: defs exec_calm_def exec_in_calm_def)
qed

lemma stage_issues:
  fixes u :: exec_units
  assumes calm: "exec_calm r" and i: "exec_in_calm i" and iss: "plain_issue pc k i r"
  defines "r' \<equiv> InstrExecute_clock False i u r"
  shows "exec_calm r'" "e_valid r'" "e_reg_write r' \<longleftrightarrow> dr_waddr (i_d i) \<noteq> 0"
    "dr_waddr (i_d i) = 0 \<Longrightarrow> e_tagcnt r' = e_tagcnt r"
    "dr_waddr (i_d i) \<noteq> 0 \<Longrightarrow> e_tagcnt r' = (e_tagcnt r)(dr_waddr (i_d i) := e_tagcnt r (dr_waddr (i_d i)) + 1, 0 := 0)"
    "dr_waddr (i_d i) \<noteq> 0 \<Longrightarrow> e_reg_waddr r' = dr_waddr (i_d i) \<and> e_reg_wtag r' = e_tagcnt r (dr_waddr (i_d i)) + 1"
proof -
  note rd = plain_issueD [OF iss] and c = plain_no_csr [OF iss] plain_select [OF iss]
  have "exec_idle False i r (v, ctl) =
      (v\<lparr>e_stepdone := i_step i, e_valid := True\<rparr>, ctl\<lparr>c_latch_input := True, c_reg_ena := (dr_waddr (i_d i) \<noteq> 0)\<rparr>)" for v ctl
    by (simp add: exec_idle_def rd c)
  then have step: "exec_step False i u r (v, ctl) =
      (v\<lparr>e_stepdone := i_step i, e_valid := True\<rparr>, ctl\<lparr>c_latch_input := True, c_reg_ena := (dr_waddr (i_d i) \<noteq> 0)\<rparr>)" for v ctl
    by (simp add: exec_step_def rd(2))
  note defs = r'_def InstrExecute_clock_def InstrExecute_comb_def step exec_ctl_init_def Let_def exec_memop_def exec_begin_def
    exec_latch_def exec_tags_def vb_tagcnt_next_def t_tagcnt_wr_def
  show "exec_calm r'" "e_valid r'" "e_reg_write r' \<longleftrightarrow> dr_waddr (i_d i) \<noteq> 0"
    "dr_waddr (i_d i) = 0 \<Longrightarrow> e_tagcnt r' = e_tagcnt r"
    "dr_waddr (i_d i) \<noteq> 0 \<Longrightarrow> e_tagcnt r' = (e_tagcnt r)(dr_waddr (i_d i) := e_tagcnt r (dr_waddr (i_d i)) + 1, 0 := 0)"
    "dr_waddr (i_d i) \<noteq> 0 \<Longrightarrow> e_reg_waddr r' = dr_waddr (i_d i) \<and> e_reg_wtag r' = e_tagcnt r (dr_waddr (i_d i)) + 1"
    using calm i by (simp_all add: defs rd exec_calm_def exec_in_calm_def)
qed


section \<open>One clock of the pipeline\<close>

lemma stage_in:
  assumes "pipe_calm code y"
  shows "i_nrst (pipe_exec_in y P)" "exec_in_calm (pipe_exec_in y P)"
    "i_d (pipe_exec_in y P) = dec_out (e_npc (s_regs (p_exec P))) (p_dec P)"
  using assms by (simp_all add: pipe_exec_in_def pipe_fed_def Let_def pipe_calm_def fetch_of_def exec_in_calm_def o_npc_def)

text \<open>What the stage reads, when the tags agree, is the register of the architecture.\<close>

lemma mux_of_in: "exec_mux_of (pipe_exec_in y P) r = exec_mux_of (pipe_fed y P) r"
  by (simp add: pipe_exec_in_def exec_mux_of_def Let_def)

lemma tags_okD:
  "tags_ok P \<Longrightarrow> if write_pending P x
     then e_reg_wtag (s_regs (p_exec P)) = e_tagcnt (s_regs (p_exec P)) x \<and> rv_tag (p_bank P x) \<noteq> e_tagcnt (s_regs (p_exec P)) x
     else rv_tag (p_bank P x) = e_tagcnt (s_regs (p_exec P)) x"
  unfolding tags_ok_def by (elim conjE, erule spec)

lemma tags_agree:
  assumes "tags_ok P" and "e_tagcnt (s_regs (p_exec P)) x = rv_tag (p_bank P x)"
  shows "arch_reg P x = rv_val (p_bank P x)"
  using tags_okD [OF assms(1), of x] assms(2) by (cases "write_pending P x") (simp_all add: arch_reg_def)

lemma reads_arch:
  fixes y P
  defines "i \<equiv> pipe_exec_in y P" and "r \<equiv> s_regs (p_exec P)"
  assumes "tags_ok P"
  shows "\<not> w_hazard1 i r \<Longrightarrow> v_check_tag1 (exec_operands i r) \<Longrightarrow> i_rdata1 i = arch_reg P (mux_radr1 (exec_mux_of i r))"
    "\<not> w_hazard2 i r \<Longrightarrow> v_check_tag2 (exec_operands i r) \<Longrightarrow> i_rdata2 i = arch_reg P (mux_radr2 (exec_mux_of i r))"
proof -
  have rd: "i_rdata1 i = rv_val (p_bank P (mux_radr1 (exec_mux_of i r)))" "i_rtag1 i = rv_tag (p_bank P (mux_radr1 (exec_mux_of i r)))"
    "i_rdata2 i = rv_val (p_bank P (mux_radr2 (exec_mux_of i r)))" "i_rtag2 i = rv_tag (p_bank P (mux_radr2 (exec_mux_of i r)))"
    unfolding i_def mux_of_in r_def by (simp_all add: pipe_exec_in_def Let_def)
  show "\<not> w_hazard1 i r \<Longrightarrow> v_check_tag1 (exec_operands i r) \<Longrightarrow> i_rdata1 i = arch_reg P (mux_radr1 (exec_mux_of i r))"
    "\<not> w_hazard2 i r \<Longrightarrow> v_check_tag2 (exec_operands i r) \<Longrightarrow> i_rdata2 i = arch_reg P (mux_radr2 (exec_mux_of i r))"
    using tags_agree [OF assms(3)] by (simp_all add: w_hazard1_def w_hazard2_def rd r_def)
qed

lemma no_hazard:
  assumes "\<And>x. rv_tag (p_bank P x) = e_tagcnt (s_regs (p_exec P)) x"
  shows "\<not> w_hazard1 (pipe_exec_in y P) (s_regs (p_exec P))" "\<not> w_hazard2 (pipe_exec_in y P) (s_regs (p_exec P))"
  unfolding w_hazard1_def w_hazard2_def mux_of_in by (simp_all add: pipe_exec_in_def Let_def assms)

text \<open>After the clock the register file holds every register of the architecture.\<close>

lemma bank_settles:
  assumes tags: "tags_ok P" and y: "pipe_calm code y"
  defines "b \<equiv> p_bank (pipe_clock y P)"
  shows "rv_val (b x) = arch_reg P x" "rv_tag (b x) = e_tagcnt (s_regs (p_exec P)) x" "b 0 = \<lparr>rv_val = 0, rv_tag = 0\<rparr>"
proof -
  let ?r = "s_regs (p_exec P)"
  have n: "df_nrst (pi_fetch y)" "\<not> wb_wena (pi_wb y)" "\<not> (dp_ena (pi_dport y) \<and> dp_write (pi_dport y))"
    using y by (simp_all add: pipe_calm_def fetch_of_def)
  have b: "b = (if e_reg_write ?r then (p_bank P)(e_reg_waddr ?r := \<lparr>rv_val = o_reg_wdata (p_exec P), rv_tag = e_reg_wtag ?r\<rparr>)
      else p_bank P)"
  proof (cases "e_reg_write ?r")
    case True
    moreover have "e_reg_waddr ?r \<noteq> 0" using tags True by (auto simp: tags_ok_def write_pending_def)
    ultimately show ?thesis by (simp add: b_def pipe_clock_def n bank_exec_write)
  next
    case False
    then show ?thesis using n bank_idle by (simp add: b_def pipe_clock_def)
  qed
  show "rv_val (b x) = arch_reg P x" by (simp add: b arch_reg_def write_pending_def)
  show "rv_tag (b x) = e_tagcnt ?r x"
    using tags_okD [OF tags, of x] by (cases "write_pending P x") (auto simp: b write_pending_def)
  show "b 0 = \<lparr>rv_val = 0, rv_tag = 0\<rparr>"
    unfolding b_def using tags by (simp add: pipe_clock_def bank_zero tags_ok_def)
qed

lemma dec_holds_clock:
  assumes "dec_holds code d" and "fetch_of code f"
  shows "dec_holds code (InstrDecoder_clock False f d)"
proof -
  obtain H where H: "dec_inv False (d, H)" "\<forall>p \<in> set H. p = fetched (fi_f_pc p) (code (fi_f_pc p))"
    using assms(1) by (auto simp: dec_holds_def)
  have p: "dec_parcel f k = fetched (fi_f_pc (dec_parcel f k)) (code (fi_f_pc (dec_parcel f k)))"
    if "k \<in> {0, 1}" "\<not> dec_clears f" for k
    using assms(2) that by (auto simp: fetch_of_def dec_clears_def fetched_def dec_parcel_def)
  let ?x = "dec_step False f (d, H)"
  have "dec_inv False (InstrDecoder_clock False f d, snd ?x)" using dec_inv_step [OF H(1), of f] by (simp add: dec_step_def split: if_splits)
  moreover have "\<forall>p \<in> set (snd ?x). p = fetched (fi_f_pc p) (code (fi_f_pc p))"
  proof (cases "dec_clears f")
    case False
    then show ?thesis using H(2) p [of 0] p [of 1] by (auto simp: dec_step_def)
  qed (simp add: dec_step_def)
  ultimately show ?thesis unfolding dec_holds_def by blast
qed

text \<open>When the expected instruction is there and the tags agree, it is issued, as the word of the program.\<close>

definition offered :: "pipe \<Rightarrow> bool" where
  "offered P \<longleftrightarrow> dr_pc (dec_out (e_npc (s_regs (p_exec P))) (p_dec P)) = e_npc (s_regs (p_exec P))"

lemma issue_word:
  fixes y P
  defines "i \<equiv> pipe_exec_in y P" and "r \<equiv> s_regs (p_exec P)"
  assumes dec: "dec_holds code (p_dec P)" and calm: "exec_calm r" "pipe_calm code y" and even: "\<not> bit (e_npc r) 0"
    and there: "offered P" and haz: "\<not> w_hazard1 i r" "\<not> w_hazard2 i r"
  defines "w \<equiv> code (e_npc r)"
  shows "if w AND 3 = 3 then issues (e_npc r) w i r else rvc_issues (e_npc r) w i r"
proof -
  obtain H where H: "dec_inv False (p_dec P, H)" "\<forall>p \<in> set H. p = fetched (fi_f_pc p) (code (fi_f_pc p))"
    using dec by (auto simp: dec_holds_def)
  note st = stage_in [OF calm(2), of P, folded i_def r_def]
  have npc: "e_npc r \<noteq> - 1" using even by auto
  have m: "bitfield 0 2 x = x AND 3" for x :: u32 by (simp add: bitfield_def take_bit_eq_mask mask_numeral)
  obtain p where p: "p \<in> set H" "fi_f_pc p = e_npc r"
    "i_d i = (if bitfield 0 2 (fi_f_instr p) = 3 then DecoderRv_comb False p else DecoderRvc_comb p)"
    using dec_out_entry [OF H(1) _ npc] there unfolding offered_def st(3) r_def by auto
  have p2: "p = fetched (e_npc r) w" using H(2) p(1,2) unfolding w_def by metis
  have d: "i_d i = (if w AND 3 = 3 then DecoderRv_clock False (fetched (e_npc r) w) else DecoderRvc_clock (fetched (e_npc r) w))"
    using p(3) unfolding p2 by (simp add: m fetched_def DecoderRv_clock_def DecoderRvc_clock_def)
  have "dr_pc (i_d i) = e_npc r" "\<not> dr_progbuf_ena (i_d i)" "\<not> dr_instr_load_fault (i_d i)" "\<not> dr_instr_page_fault_x (i_d i)"
    unfolding d by (auto simp: DecoderRv_clock_def DecoderRvc_clock_def DecoderRv_comb_def DecoderRvc_comb_def fetched_def Let_def)
  then have "exec_ready i r" using calm(1) st haz by (simp add: exec_ready_def exec_calm_def exec_in_calm_def)
  then show ?thesis using d even by (auto simp: issues_def rvc_issues_def)
qed

text \<open>An issued instruction of the kind considered here is one that \<open>stage_step\<close> speaks of.\<close>

lemma plain_of_word:
  assumes "if w AND 3 = 3 then issues pc w i r else rvc_issues pc w i r" and "plain_cond w st"
  obtains k where "plain_issue pc k i r"
proof (cases "w AND 3 = 3")
  case True
  then obtain k where "vb_dec False w = Some k" "k \<in> plain_instr"
    using assms(2) by (auto simp: plain_cond_def rtl_dec_def split: option.splits)
  then show thesis using that [OF issues_plain] assms(1) True by simp
next
  case False
  then obtain k where "rf_dec (rvc_decode (ucast w)) = Some k" "k \<in> plain_instr"
    using assms(2) by (auto simp: plain_cond_def rtl_dec_def split: option.splits)
  then show thesis using that [OF rvc_plain] assms(1) False by simp
qed

lemma plain_cond_cong: "regs st = regs st' \<Longrightarrow> plain_cond w st = plain_cond w st'"
  by (auto simp: plain_cond_def needs_fit_def sim_op1_def sim_op2_def type_of_def split: option.splits)

lemma sim_of_word:
  fixes y P
  defines "i \<equiv> pipe_exec_in y P" and "r \<equiv> s_regs (p_exec P)"
  assumes iss: "if w AND 3 = 3 then issues (e_npc r) w i r else rvc_issues (e_npc r) w i r"
    and rel: "pipe_rel P s" and st: "pc_of st = npc_of s" "regs st = regs s"
  shows "stage_sim w i (p_exec P) st"
proof -
  have tags: "tags_ok P" and reg: "arch_reg P x = regs s (unat x)" and npc: "e_npc r = npc_of s" and idle: "e_state r = State_Idle" for x
    using rel by (auto simp: pipe_rel_def r_def exec_calm_def)
  have z: "regs s 0 = 0" using reg [of 0] tags by (simp add: arch_reg_def tags_ok_def)
  have haz: "\<not> w_hazard1 i r" "\<not> w_hazard2 i r"
    using iss by (auto simp: issues_def rvc_issues_def exec_ready_def split: if_splits)
  note rd = reads_arch [OF tags, of y, folded i_def r_def, unfolded reg]
  have mux: "mux_radr1 (exec_mux_of i r) = dr_radr1 (i_d i)" "mux_radr2 (exec_mux_of i r) = dr_radr2 (i_d i)"
    using idle by (simp_all add: exec_mux_of_def Let_def)
  show ?thesis
  proof (cases "w AND 3 = 3")
    case True
    with iss have "issues (e_npc r) w i r" by simp
    then show ?thesis
      using True rd haz decoded_fields(5,6) [OF issuesD(1)] by (auto simp: stage_sim_def rtl_sim_def st npc mux r_def [symmetric])
  next
    case False
    with iss have x: "rvc_issues (e_npc r) w i r" by simp
    then have "i_d i = DecoderRvc_clock (fetched (e_npc r) w)" by (simp add: rvc_issues_def)
    then have "dr_radr1 (i_d i) = rf_radr1 (rvc_decode (ucast w))" "dr_radr2 (i_d i) = rf_radr2 (rvc_decode (ucast w))"
      by (simp_all add: DecoderRvc_clock_def DecoderRvc_comb_def fetched_def Let_def)
    then show ?thesis using False x rd haz z by (simp add: stage_sim_def rvc_sim_def st npc mux r_def [symmetric])
  qed
qed


section \<open>Stall and issue\<close>

lemma pipe_stall:
  fixes y P
  defines "i \<equiv> pipe_exec_in y P" and "r \<equiv> s_regs (p_exec P)" and "P' \<equiv> pipe_clock y P"
  assumes rel: "pipe_rel P s" and y: "pipe_calm code y" and stall: "\<not> (v_d_valid i r \<and> \<not> w_hazard1 i r \<and> \<not> w_hazard2 i r)"
  shows "\<not> retires y P" "pipe_rel P' s" "rv_tag (p_bank P' x) = e_tagcnt (s_regs (p_exec P')) x"
proof -
  have R: "exec_calm r" "tags_ok P" "e_npc r = npc_of s" "\<And>x. arch_reg P x = regs s (unat x)"
    using rel by (simp_all add: pipe_rel_def r_def)
  have r': "s_regs (p_exec P') = InstrExecute_clock False i (stage_units (p_exec P)) r"
    by (simp add: P'_def pipe_clock_def stage_regs i_def r_def)
  note S = stage_stalls [OF R(1) stage_in(1,2) [OF y, of P, folded i_def] stall, of "stage_units (p_exec P)", folded r']
  note B = bank_settles [OF R(2) y, folded P'_def]
  show "\<not> retires y P" using S(2) by (simp add: retires_def P'_def)
  show t: "rv_tag (p_bank P' x) = e_tagcnt (s_regs (p_exec P')) x" for x by (simp add: S(5) B(2) r_def)
  have np: "\<not> write_pending P' x" for x using S(3) by (simp add: write_pending_def)
  have "e_tagcnt (s_regs (p_exec P')) 0 = 0" using t [of 0] B(3) by simp
  then have "tags_ok P'" unfolding tags_ok_def using np t B(3) by simp
  moreover have "arch_reg P' x = regs s (unat x)" for x using np R(4) [of x] by (simp add: arch_reg_def [of P'] B(1))
  ultimately show "pipe_rel P' s" using S(1,4) R(3) by (simp add: pipe_rel_def)
qed

text \<open>The registers and the tags after an issue.\<close>

lemma issue_tags:
  fixes y P
  defines "i \<equiv> pipe_exec_in y P" and "r \<equiv> s_regs (p_exec P)" and "P' \<equiv> pipe_clock y P"
  assumes calm: "exec_calm r" and tags: "tags_ok P" and y: "pipe_calm code y" and iss: "plain_issue pc k i r"
  shows "exec_calm (s_regs (p_exec P'))" "tags_ok P'" "arch_reg P' x =
     (if e_reg_write (s_regs (p_exec P')) \<and> x = e_reg_waddr (s_regs (p_exec P')) then o_reg_wdata (p_exec P') else arch_reg P x)"
proof -
  let ?r' = "s_regs (p_exec P')" and ?w = "dr_waddr (i_d i)"
  have r': "?r' = InstrExecute_clock False i (stage_units (p_exec P)) r"
    by (simp add: P'_def pipe_clock_def stage_regs i_def r_def)
  note S = stage_issues [OF calm stage_in(2) [OF y, of P, folded i_def] iss, of "stage_units (p_exec P)", folded r']
  note B = bank_settles [OF tags y, folded P'_def r_def]
  have z: "e_tagcnt r 0 = 0" using B(2) [of 0] B(3) by simp
  show "exec_calm ?r'" by (rule S)
  show "arch_reg P' x = (if e_reg_write ?r' \<and> x = e_reg_waddr ?r' then o_reg_wdata (p_exec P') else arch_reg P x)"
    by (auto simp: arch_reg_def [of P'] write_pending_def B(1))
  have np: "\<not> write_pending P' 0" using S(3,6) by (auto simp: write_pending_def)
  have "e_tagcnt ?r' 0 = 0" using S(4,5) z by (cases "?w = 0") simp_all
  moreover have "if write_pending P' x then e_reg_wtag ?r' = e_tagcnt ?r' x \<and> rv_tag (p_bank P' x) \<noteq> e_tagcnt ?r' x
      else rv_tag (p_bank P' x) = e_tagcnt ?r' x" for x
  proof (cases "?w = 0")
    case True
    then show ?thesis using S(3,4) by (simp add: write_pending_def B(2))
  next
    case False
    then have "write_pending P' x \<longleftrightarrow> x = ?w" using S(3,6) by (auto simp: write_pending_def)
    then show ?thesis using False S(5,6) B(3) z by (cases "x = 0") (auto simp: B(2))
  qed
  ultimately show "tags_ok P'" unfolding tags_ok_def using np B(3) by blast
qed

section \<open>The program\<close>

text \<open>The next instruction of the simulated core is one of those considered here, at an even address of the memory, and the core
  has nothing else to do.\<close>

definition plain_at :: "'b cpu_cfg \<Rightarrow> ('b \<Rightarrow> u64 \<Rightarrow> u8) \<Rightarrow> ('b \<Rightarrow> u64 \<Rightarrow> nat \<Rightarrow> bool) \<Rightarrow> 'b cpu \<Rightarrow> bool" where
  "plain_at c sbyte sok s \<longleftrightarrow>
    (let w = load_word (sbyte (devs s)) (npc_of s) 4
     in running c s \<and> quiet s \<and> sok (devs s) (npc_of s) 4 \<and> \<not> mpu_denies c (npc_of s) RWX_x s \<and> \<not> bit (npc_of s) 0 \<and>
        lookup_instr c w \<noteq> None \<and> plain_cond (buf32_0 w) s)"

definition code_of :: "(u64 \<Rightarrow> u8) \<Rightarrow> u64 \<Rightarrow> u32" where
  "code_of m pc = buf32_0 (load_word m pc 4)"

context cpu_memory
begin

lemma pipe_issue:
  fixes y P
  defines "i \<equiv> pipe_exec_in y P" and "r \<equiv> s_regs (p_exec P)" and "P' \<equiv> pipe_clock y P"
  assumes rel: "pipe_rel P s" and dec: "dec_holds (code_of (sbyte (devs s))) (p_dec P)" and y: "pipe_calm (code_of (sbyte (devs s))) y"
    and at: "plain_at c sbyte sok s" and bus: "4 \<le> sysBusWidthBytes c" and there: "offered P"
    and haz: "\<not> w_hazard1 i r" "\<not> w_hazard2 i r"
  shows "retires y P" "\<exists>s'. updatePipeline c s = Some s' \<and> devs s' = devs s \<and> pipe_rel P' s'"
proof -
  let ?w = "load_word (sbyte (devs s)) (npc_of s) 4"
  have R: "exec_calm r" "tags_ok P" "e_npc r = npc_of s" "\<And>x. arch_reg P x = regs s (unat x)"
    using rel by (simp_all add: pipe_rel_def r_def)
  have A: "running c s" "quiet s" "sok (devs s) (npc_of s) 4" "\<not> mpu_denies c (npc_of s) RWX_x s" "\<not> bit (e_npc r) 0"
    "plain_cond (buf32_0 ?w) s" using at by (simp_all add: plain_at_def R(3) Let_def)
  obtain ins where ins: "lookup_instr c ?w = Some ins" using at by (auto simp: plain_at_def Let_def)
  have w: "code_of (sbyte (devs s)) (e_npc r) = buf32_0 ?w" by (simp add: code_of_def R(3))
  note I = issue_word [OF dec R(1) [unfolded r_def] y A(5) [unfolded r_def] there haz [unfolded i_def r_def], folded i_def r_def, unfolded w]
  obtain k where k: "plain_issue (e_npc r) k i r" by (rule plain_of_word [OF I A(6)])
  obtain st where st: "pc_of st = npc_of s" "regs st = regs s" "\<not> branch st"
    and it: "\<And>n st'. run_state (iexec ins ?w) st = (n, st') \<Longrightarrow> same_core st st' \<Longrightarrow>
       \<exists>s'. updatePipeline c s = Some s' \<and> regs s' = regs st' \<and>
         npc_of s' = (if branch st' then npc_of st' else pc_of st + of_nat n) \<and> devs s' = devs s \<and> running c s' \<and> quiet s' \<and>
         csr s' = csr s \<and> pmpTable s' = pmpTable s \<and> cur_prv_level s' = cur_prv_level s"
    by (rule plain_iteration [OF A(1,3) bus A(4,2) ins refl]) (rule that; blast)
  have sim: "stage_sim (buf32_0 ?w) i (p_exec P) st"
    unfolding i_def by (rule sim_of_word [OF I [unfolded i_def r_def] rel st(1,2)])
  have plain: "plain_cond (buf32_0 ?w) st" using A(6) plain_cond_cong [OF st(2)] by simp
  have ex: "InstrExecute_stage i (p_exec P) = p_exec P'" by (simp add: P'_def pipe_clock_def i_def)
  obtain n st' where S: "run_state (iexec ins ?w) st = (n, st')" "same_core st st'" "e_valid (s_regs (p_exec P'))"
    "e_npc (s_regs (p_exec P')) = (if branch st' then npc_of st' else pc_of st + of_nat n)"
    "regs st' = (if e_reg_write (s_regs (p_exec P'))
                 then (regs st)(unat (e_reg_waddr (s_regs (p_exec P'))) := o_reg_wdata (p_exec P')) else regs st)"
    using stage_step [OF ins refl plain sim st(3)] unfolding ex by blast
  show "retires y P" using S(3) by (simp add: retires_def P'_def)
  obtain s' where s': "updatePipeline c s = Some s'" "regs s' = regs st'" "devs s' = devs s"
    "npc_of s' = (if branch st' then npc_of st' else pc_of st + of_nat n)" using it [OF S(1,2)] by blast
  note T = issue_tags [OF R(1) [unfolded r_def] R(2) y k [unfolded i_def r_def], folded i_def r_def P'_def]
  have "arch_reg P' x = regs s' (unat x)" for x
    using T(3) [of x] by (auto simp: s'(2) S(5) st(2) R(4) dest: word_unat_eq_iff [THEN iffD2])
  then have "pipe_rel P' s'" using T(1,2) S(4) s'(4) by (simp add: pipe_rel_def)
  with s' show "\<exists>s'. updatePipeline c s = Some s' \<and> devs s' = devs s \<and> pipe_rel P' s'" by blast
qed

lemma pipe_step:
  assumes rel: "pipe_rel P s" and dec: "dec_holds (code_of (sbyte (devs s))) (p_dec P)" and y: "pipe_calm (code_of (sbyte (devs s))) y"
    and at: "plain_at c sbyte sok s" and bus: "4 \<le> sysBusWidthBytes c"
  shows "if retires y P then \<exists>s'. updatePipeline c s = Some s' \<and> devs s' = devs s \<and> pipe_rel (pipe_clock y P) s'
     else pipe_rel (pipe_clock y P) s"
proof (cases "v_d_valid (pipe_exec_in y P) (s_regs (p_exec P)) \<and> \<not> w_hazard1 (pipe_exec_in y P) (s_regs (p_exec P)) \<and>
    \<not> w_hazard2 (pipe_exec_in y P) (s_regs (p_exec P))")
  case True
  then have "offered P" using stage_in(2,3) [OF y, of P] by (simp add: v_d_valid_def offered_def exec_in_calm_def)
  then show ?thesis using pipe_issue [OF rel dec y at bus] True by auto
next
  case False
  then show ?thesis using pipe_stall(1,2) [OF rel y] by simp
qed

lemma pipe_run:
  assumes "pipe_rel P s" and "dec_holds (code_of (sbyte (devs s))) (p_dec P)" and "\<forall>y \<in> set ys. pipe_calm (code_of (sbyte (devs s))) y"
    and "4 \<le> sysBusWidthBytes c"
    and "\<forall>n s'. n \<le> retired ys P \<longrightarrow> cpu_run c (replicate n Ev_Pipeline) s s' \<longrightarrow> plain_at c sbyte sok s'"
  shows "\<exists>s'. cpu_run c (replicate (retired ys P) Ev_Pipeline) s s' \<and> pipe_rel (fold pipe_clock ys P) s'"
  using assms
proof (induction ys arbitrary: P s)
  case Nil
  then show ?case by (auto simp: cpu_run_simps)
next
  case (Cons y ys)
  let ?P = "pipe_clock y P"
  have y: "pipe_calm (code_of (sbyte (devs s))) y" using Cons.prems(3) by simp
  have at: "plain_at c sbyte sok s" using Cons.prems(5) [rule_format, of 0 s] by (simp add: cpu_run_simps)
  have dec: "dec_holds (code_of (sbyte (devs s))) (p_dec ?P)"
    using dec_holds_clock [OF Cons.prems(2)] y by (simp add: pipe_clock_def pipe_calm_def)
  note step = pipe_step [OF Cons.prems(1,2) y at Cons.prems(4)]
  show ?case
  proof (cases "retires y P")
    case True
    then obtain s1 where s1: "updatePipeline c s = Some s1" "devs s1 = devs s" "pipe_rel ?P s1" using step by auto
    have run: "cpu_run c (replicate n Ev_Pipeline) s1 s' \<Longrightarrow> cpu_run c (replicate (Suc n) Ev_Pipeline) s s'" for n s'
      using s1(1) by (auto simp: cpu_run_simps cpu_step_simps)
    have "\<forall>n s'. n \<le> retired ys ?P \<longrightarrow> cpu_run c (replicate n Ev_Pipeline) s1 s' \<longrightarrow> plain_at c sbyte sok s'"
      using Cons.prems(5) run True by (metis One_nat_def Suc_le_mono add.commute plus_1_eq_Suc retired.simps(2))
    from Cons.IH [OF s1(3) _ _ Cons.prems(4) this] dec Cons.prems(3) s1(2) show ?thesis
      using run True by (auto simp del: replicate.simps)
  next
    case False
    then show ?thesis using Cons.IH [of ?P s] step dec Cons.prems by simp
  qed
qed

text \<open>Two clocks of an offered instruction suffice: the first ends a pending write.\<close>

lemma offered_fetched:
  assumes dec: "dec_holds code (p_dec P)" and y: "df_nrst (pi_fetch y)" "\<not> df_flush_pipeline (pi_fetch y)" and "fetch_of code (pi_fetch y)"
    and pc: "df_f_pc (pi_fetch y) = e_npc (s_regs (p_exec (pipe_clock y P)))" and npc: "df_f_pc (pi_fetch y) \<noteq> - 1"
  shows "offered (pipe_clock y P)"
proof -
  obtain H where H: "dec_inv False (p_dec P, H)" using dec by (auto simp: dec_holds_def)
  have "\<not> dec_clears (pi_fetch y)" using y by (simp add: dec_clears_def)
  from dec_hit [OF H this npc] show ?thesis by (simp add: offered_def pc [symmetric]) (simp add: pipe_clock_def dec_step_def)
qed

lemma pipe_progress:
  assumes rel: "pipe_rel P s" and dec: "dec_holds (code_of (sbyte (devs s))) (p_dec P)"
    and y: "\<forall>y \<in> {y0, y1, y2}. pipe_calm (code_of (sbyte (devs s))) y"
    and f: "\<forall>y \<in> {y0, y1}. df_f_pc (pi_fetch y) = npc_of s \<and> \<not> df_flush_pipeline (pi_fetch y)"
    and at: "plain_at c sbyte sok s" and bus: "4 \<le> sysBusWidthBytes c"
  shows "1 \<le> retired [y0, y1, y2] P"
proof (rule ccontr)
  let ?code = "code_of (sbyte (devs s))" and ?P1 = "pipe_clock y0 P"
  let ?P2 = "pipe_clock y1 ?P1"
  assume "\<not> 1 \<le> retired [y0, y1, y2] P"
  then have no: "\<not> retires y0 P" "\<not> retires y1 ?P1" "\<not> retires y2 ?P2" by (auto split: if_splits)
  have calm: "pipe_calm ?code y0" "pipe_calm ?code y1" "pipe_calm ?code y2" using y by simp_all
  have nrst: "df_nrst (pi_fetch y0)" "df_nrst (pi_fetch y1)" "fetch_of ?code (pi_fetch y0)" "fetch_of ?code (pi_fetch y1)"
    using calm by (simp_all add: pipe_calm_def fetch_of_def)
  have npc: "npc_of s \<noteq> - 1" using at by (auto simp: plain_at_def Let_def)
  have d1: "dec_holds ?code (p_dec ?P1)" using dec_holds_clock [OF dec nrst(3)] by (simp add: pipe_clock_def)
  have d2: "dec_holds ?code (p_dec ?P2)" using dec_holds_clock [OF d1 nrst(4)] by (simp add: pipe_clock_def)
  have r1: "pipe_rel ?P1 s" using pipe_step [OF rel dec calm(1) at bus] no by simp
  have r2: "pipe_rel ?P2 s" using pipe_step [OF r1 d1 calm(2) at bus] no by simp
  have e: "e_npc (s_regs (p_exec ?P1)) = npc_of s" "e_npc (s_regs (p_exec ?P2)) = npc_of s" using r1 r2 by (simp_all add: pipe_rel_def)
  have o1: "offered ?P1" using offered_fetched [OF dec nrst(1) _ nrst(3)] f e npc by simp
  have o2: "offered ?P2" using offered_fetched [OF d1 nrst(2) _ nrst(4)] f e npc by simp
  have stall: "\<not> (v_d_valid (pipe_exec_in y1 ?P1) (s_regs (p_exec ?P1)) \<and> \<not> w_hazard1 (pipe_exec_in y1 ?P1) (s_regs (p_exec ?P1)) \<and>
      \<not> w_hazard2 (pipe_exec_in y1 ?P1) (s_regs (p_exec ?P1)))"
    using pipe_issue(1) [OF r1 d1 calm(2) at bus o1] no(2) by blast
  have "rv_tag (p_bank ?P2 x) = e_tagcnt (s_regs (p_exec ?P2)) x" for x by (rule pipe_stall(3) [OF r1 calm(2) stall])
  note no_hazard [OF this, of y2]
  from pipe_issue(1) [OF r2 d2 calm(3) at bus o2 this] no(3) show False by simp
qed

end


section \<open>Properties\<close>

lemma dec_holds_reset: "dec_holds code InstrDecoder_r_reset"
  unfolding dec_holds_def by (rule exI [of _ "[]"]) (simp add: dec_inv_reset)


text \<open>The program of the witnesses is a jump to itself.\<close>

definition loop_cfg :: "soc cpu_cfg" where
  "loop_cfg = soc_cpu soc_sample (sample_cfg\<lparr>triggersTotal := 0\<rparr>)"

lemma loop_memory: "cpu_memory loop_cfg (soc_byte soc_sample) (soc_ok soc_sample)"
  unfolding loop_cfg_def by (rule soc.cpu_memory_axioms)

definition looping :: "soc cpu \<Rightarrow> bool" where
  "looping s \<longleftrightarrow> running loop_cfg s \<and> quiet s \<and> devs s = soc_with 0x6F \<and> npc_of s = 0x80000100 \<and>
     csr s = csr (sample_core 0x6F) \<and> pmpTable s = pmpTable (sample_core 0x6F) \<and>
     cur_prv_level s = cur_prv_level (sample_core 0x6F)"

lemma loop_word:
  "load_word (soc_byte soc_sample (soc_with 0x6F)) 0x80000100 4 = 0x6F" "buf32_0 0x6F = 0x6F"
  using soc_sample_word [of 4 "0x6F"] by (simp_all add: buf32_0_def)

lemma loop_lookup: "\<exists>ins. lookup_instr c 0x6F = Some ins"
proof -
  have "mk_instr ''JAL'' ''?????????????????????????1101111'' (exec_JAL c) \<in> set (isa_instructions c)"
    by (simp add: isa_instructions_def isaUserRV64I_def)
  moreover have "parse_pattern ''?????????????????????????1101111'' 0x6F"
    by (simp add: parse_pattern_def pattern_mask_def pattern_opcode_def)
  then have "iparse (mk_instr ''JAL'' ''?????????????????????????1101111'' (exec_JAL c)) (buf32_0 0x6F)"
    by (simp add: mk_instr_def loop_word)
  ultimately have "find (\<lambda>i. iparse i (buf32_0 0x6F)) (isa_instructions c) \<noteq> None" by (auto simp: find_None_iff)
  then show ?thesis by (auto simp: lookup_instr_linear)
qed

lemma loop_decoded: "vb_dec False 0x6F = Some Instr_JAL" "ISA_rd 0x6F = 0" "ISA_UJ_off 0x6F = 0" "Instr_JAL \<in> plain_instr"
    "Instr_JAL \<notin> needs_fit"
  by (simp_all add: vb_dec_def bitfield_def ISA_rd_def ISA_UJ_off_def plain_instr_def needs_fit_def Let_def)

lemma loop_plain:
  assumes "looping s"
  shows "plain_at loop_cfg (soc_byte soc_sample) (soc_ok soc_sample) s"
proof -
  have "mpu_denies loop_cfg a x s = mpu_denies loop_cfg a x (sample_core 0x6F)" for a x
    using assms by (simp add: looping_def mpu_denies_def isMpuEnabled_def checkMpu_def)
  then have "\<not> mpu_denies loop_cfg 0x80000100 RWX_x s" by simp
  moreover have "plain_cond 0x6F s" by (simp add: plain_cond_def rtl_dec_def loop_decoded)
  moreover have "\<not> bit (0x80000100 :: u64) 0" by simp
  ultimately show ?thesis
    using assms loop_lookup [of loop_cfg] by (simp add: plain_at_def looping_def loop_word soc_sample_ok Let_def)
qed

lemma loop_step:
  assumes "looping s" and "updatePipeline loop_cfg s = Some s'"
  shows "looping s'"
proof -
  have L: "running loop_cfg s" "quiet s" "devs s = soc_with 0x6F" "npc_of s = 0x80000100" using assms(1) by (simp_all add: looping_def)
  have A: "soc_ok soc_sample (devs s) (npc_of s) 4" "4 \<le> sysBusWidthBytes loop_cfg" "\<not> mpu_denies loop_cfg (npc_of s) RWX_x s"
    using loop_plain [OF assms(1)] by (simp_all add: plain_at_def Let_def L(4)) (simp add: loop_cfg_def soc_cpu_def)
  obtain ins where ins: "lookup_instr loop_cfg 0x6F = Some ins" using loop_lookup by blast
  have w: "0x6F = load_word (soc_byte soc_sample (devs s)) (npc_of s) 4" by (simp add: L loop_word)
  obtain st where st: "pc_of st = npc_of s" "regs st = regs s" "\<not> branch st"
    and it: "\<And>n st'. run_state (iexec ins 0x6F) st = (n, st') \<Longrightarrow> same_core st st' \<Longrightarrow>
       \<exists>s'. updatePipeline loop_cfg s = Some s' \<and> regs s' = regs st' \<and>
         npc_of s' = (if branch st' then npc_of st' else pc_of st + of_nat n) \<and> devs s' = devs s \<and> running loop_cfg s' \<and> quiet s' \<and>
         csr s' = csr s \<and> pmpTable s' = pmpTable s \<and> cur_prv_level s' = cur_prv_level s"
    by (rule cpu_memory.plain_iteration [OF loop_memory L(1) A L(2) ins w]) (rule that; blast)
  note W = lookup_wide [OF ins, unfolded loop_word]
  have idx: "rtl_index (iname ins) = Some Instr_JAL"
    using wide_agrees [OF W(1,3), of False] W(2) by (auto simp: rtl_agrees_def loop_decoded split: option.splits)
  obtain n st' where x: "run_state (iexec ins 0x6F) st = (n, st')" by fastforce
  have "same_core st st'"
    using wide_frame [OF ins loop_word(2) _ loop_decoded(1,4), of st] x by (simp add: loop_decoded)
  then obtain s1 where s1: "updatePipeline loop_cfg s = Some s1" "npc_of s1 = (if branch st' then npc_of st' else pc_of st + of_nat n)"
    "devs s1 = devs s" "running loop_cfg s1" "quiet s1" "csr s1 = csr s" "pmpTable s1 = pmpTable s" "cur_prv_level s1 = cur_prv_level s"
    using it [OF x] by blast
  have "n = 4 \<and> rtl_next Instr_JAL 0x6F st = (if branch st' then npc_of st' else pc_of st + 4)"
    using jump_matchesD [OF all_match(2) [OF W(1,3,2)] idx _ _ st(3), where cache = "0x6F"] x by (simp add: loop_decoded loop_word)
  then have "npc_of s1 = rtl_next Instr_JAL 0x6F st" using s1(2) by simp
  also have "\<dots> = 0x80000100" by (simp add: rtl_next_def branch_taken_def loop_decoded st(1) L(4))
  finally show ?thesis using s1 assms by (simp add: looping_def)
qed

lemma loop_run: "cpu_run loop_cfg (replicate n Ev_Pipeline) s s' \<Longrightarrow> looping s \<Longrightarrow> looping s'"
  by (induction n arbitrary: s) (auto simp: cpu_run_simps cpu_step_simps dest: loop_step)

definition loop_in :: pipe_in where
  "loop_in = \<lparr>pi_fetch = fetch_at 0x80000100 0x6F, pi_exec = quiet_in DecoderRv_r_reset 0 0,
     pi_wb = \<lparr>wb_wena = False, wb_waddr = 0, wb_wdata = 0, wb_wtag = 0\<rparr>,
     pi_dport = \<lparr>dp_addr = 0, dp_ena = False, dp_write = False, dp_wdata = 0\<rparr>\<rparr>"

definition loop_pipe :: pipe where
  "loop_pipe =
    \<lparr>p_dec = InstrDecoder_r_reset, p_exec = reset_stage\<lparr>s_regs := InstrExecute_r_reset\<lparr>e_npc := 0x80000100\<rparr>\<rparr>,
     p_bank = (\<lambda>x. \<lparr>rv_val = regs (sample_core 0x6F) (unat x), rv_tag = 0\<rparr>)\<rparr>"

lemma loop_start: "looping (sample_core 0x6F)" "pipe_rel loop_pipe (sample_core 0x6F)"
  by (simp_all add: looping_def loop_cfg_def running_def soc_cpu_def pipe_rel_def loop_pipe_def exec_calm_def tags_ok_def
      write_pending_def arch_reg_def reset_stage_def InstrExecute_r_reset_def)
    (simp_all add: sample_core_def sample_cpu_def sample_cfg_def)

lemma loop_upper: "load_word (soc_byte soc_sample (soc_with 0x6F)) 0x80000102 4 = 0"
proof -
  have "soc_byte soc_sample (soc_with 0x6F) (0x80000102 + of_nat i) = b8 i 0" if "i < 4" for i
  proof -
    have a: "0x80000102 + of_nat i = (0x80000100 + of_nat (i + 2) :: u64)" by simp
    have "b8 (i + 2) (load_word (soc_byte soc_sample (soc_with 0x6F)) 0x80000100 8) = b8 (i + 2) 0x6F"
      by (simp add: soc_sample_word del: load_word.simps)
    then have "soc_byte soc_sample (soc_with 0x6F) (0x80000100 + of_nat (i + 2)) = b8 (i + 2) 0x6F"
      using that by (simp add: b8_load_word del: of_nat_add)
    moreover have "i \<in> {0, 1, 2, 3}" using that by auto
    then have "b8 (i + 2) 0x6F = b8 i 0" by (auto simp: b8_def)
    ultimately show ?thesis unfolding a by simp
  qed
  from load_word_written [of 4, OF _ this] show ?thesis by simp
qed

lemma loop_calm: "pipe_calm (code_of (soc_byte soc_sample (soc_with 0x6F))) loop_in"
proof -
  have "fetch_of (code_of (soc_byte soc_sample (soc_with 0x6F))) (fetch_at 0x80000100 0x6F)"
    by (simp add: fetch_of_def fetch_at_def dec_parcel_def code_of_def loop_word loop_upper bitfield_def buf32_0_def del: load_word.simps)
  then show ?thesis by (simp add: pipe_calm_def loop_in_def exec_in_calm_def quiet_in_def)
qed




end
