(* ===== verification/Rtl_Pmp.thy ===== *)
theory Rtl_Pmp
  imports Rtl_Csr_Inv
begin

text \<open>
  Physical memory protection in the RTL: the table of regions and the access check of \<^verbatim>\<open>cache/pmp.cpp\<close>, and its connection to
  the CSR unit, which sends the regions of the PMP registers one by one after a write of \<^verbatim>\<open>pmpcfg0\<close>.
\<close>

section \<open>The table and the check\<close>

record pmp_table_item =
  tbl_start_addr :: u64
  tbl_end_addr :: u64
  tbl_flags :: "5 word"

type_synonym pmp_table = "3 word \<Rightarrow> pmp_table_item"

record pmp_in =
  pi_nrst :: bool
  pi_ena :: bool
  pi_iaddr :: "48 word"
  pi_daddr :: "48 word"
  pi_we :: bool
  pi_region :: "3 word"
  pi_start_addr :: u64
  pi_end_addr :: u64
  pi_flags :: "5 word"

abbreviation (input) CFG_PMP_FL_R :: nat where "CFG_PMP_FL_R \<equiv> 0"
abbreviation (input) CFG_PMP_FL_W :: nat where "CFG_PMP_FL_W \<equiv> 1"
abbreviation (input) CFG_PMP_FL_X :: nat where "CFG_PMP_FL_X \<equiv> 2"
abbreviation (input) CFG_PMP_FL_L :: nat where "CFG_PMP_FL_L \<equiv> 3"
abbreviation (input) CFG_PMP_FL_V :: nat where "CFG_PMP_FL_V \<equiv> 4"

definition PMP_r_reset :: pmp_table where
  "PMP_r_reset = (\<lambda>_. \<lparr>tbl_start_addr = 0, tbl_end_addr = 0, tbl_flags = 0\<rparr>)"

text \<open>The bounds are compared on the 48 address bits of the core. In machine mode only locked regions apply.\<close>

definition pmp_hit :: "bool \<Rightarrow> 48 word \<Rightarrow> pmp_table_item \<Rightarrow> bool" where
  "pmp_hit ena a p \<longleftrightarrow>
     ucast (tbl_start_addr p) \<le> a \<and> a \<le> ucast (tbl_end_addr p) \<and>
     bit (tbl_flags p) CFG_PMP_FL_V \<and> (ena \<or> bit (tbl_flags p) CFG_PMP_FL_L)"

text \<open>The loop over the regions from the last to the first; a later assignment replaces an earlier one.\<close>

definition pmp_right :: "nat \<Rightarrow> bool \<Rightarrow> 48 word \<Rightarrow> pmp_table \<Rightarrow> bool" where
  "pmp_right fl ena a t =
     foldl (\<lambda>v k. if pmp_hit ena a (t (of_nat k)) then bit (tbl_flags (t (of_nat k))) fl else v) (\<not> ena) (rev [0..<8])"

definition o_pmp_x :: "pmp_in \<Rightarrow> pmp_table \<Rightarrow> bool" where
  "o_pmp_x i t = pmp_right CFG_PMP_FL_X (pi_ena i) (pi_iaddr i) t"

definition o_pmp_r :: "pmp_in \<Rightarrow> pmp_table \<Rightarrow> bool" where
  "o_pmp_r i t = pmp_right CFG_PMP_FL_R (pi_ena i) (pi_daddr i) t"

definition o_pmp_w :: "pmp_in \<Rightarrow> pmp_table \<Rightarrow> bool" where
  "o_pmp_w i t = pmp_right CFG_PMP_FL_W (pi_ena i) (pi_daddr i) t"

definition pmp_entry :: "u64 \<Rightarrow> u64 \<Rightarrow> 5 word \<Rightarrow> pmp_table_item" where
  "pmp_entry start stop flags =
    (if bit flags CFG_PMP_FL_V then \<lparr>tbl_start_addr = start, tbl_end_addr = stop, tbl_flags = flags\<rparr>
     else \<lparr>tbl_start_addr = 0, tbl_end_addr = 0, tbl_flags = flags\<rparr>)"

definition PMP_clock :: "pmp_in \<Rightarrow> pmp_table \<Rightarrow> pmp_table" where
  "PMP_clock i t =
    (if \<not> pi_nrst i then PMP_r_reset
     else if pi_we i then t(pi_region i := pmp_entry (pi_start_addr i) (pi_end_addr i) (pi_flags i))
     else t)"

section \<open>The lowest region that matches decides\<close>

definition pmp_match :: "bool \<Rightarrow> 48 word \<Rightarrow> pmp_table \<Rightarrow> nat option" where
  "pmp_match ena a t = List.find (\<lambda>k. pmp_hit ena a (t (of_nat k))) [0..<8]"

lemma foldl_last_wins:
  "foldl (\<lambda>v k. if P k then f k else v) d (rev ks) = (case List.find P ks of None \<Rightarrow> d | Some k \<Rightarrow> f k)"
  by (induction ks) auto

lemma pmp_right_match:
  "pmp_right fl ena a t = (case pmp_match ena a t of None \<Rightarrow> \<not> ena | Some k \<Rightarrow> bit (tbl_flags (t (of_nat k))) fl)"
  unfolding pmp_right_def pmp_match_def by (rule foldl_last_wins)

section \<open>The CSR unit and the table together\<close>

definition csr_pmp_in :: "48 word \<Rightarrow> 48 word \<Rightarrow> bool \<Rightarrow> csr_regs \<Rightarrow> pmp_in" where
  "csr_pmp_in ia da nrst r =
    \<lparr>pi_nrst = nrst, pi_ena = c_pmp_ena r, pi_iaddr = ia, pi_daddr = da, pi_we = c_pmp_we r, pi_region = c_pmp_region r,
     pi_start_addr = c_pmp_start_addr r, pi_end_addr = c_pmp_end_addr r, pi_flags = c_pmp_flags r\<rparr>"

text \<open>One clock of both: the table sees the outputs of the unit before the edge.\<close>

definition csr_pmp_clock :: "u32 \<Rightarrow> csr_in \<Rightarrow> csr_regs \<times> pmp_table \<Rightarrow> csr_regs \<times> pmp_table" where
  "csr_pmp_clock h i = (\<lambda>(r, t). (CsrRegs_clock h i r, PMP_clock (csr_pmp_in 0 0 (ci_nrst i) r) t))"

definition csr_pmp_run :: "u32 \<Rightarrow> csr_in list \<Rightarrow> csr_regs \<times> pmp_table \<Rightarrow> csr_regs \<times> pmp_table" where
  "csr_pmp_run h ins = fold (csr_pmp_clock h) ins"

text \<open>The ranges of the regions in the order of the transfer: a top-of-range region starts where the previous one ends.\<close>

fun pmp_region_range :: "(3 word \<Rightarrow> pmp_item) \<Rightarrow> nat \<Rightarrow> u64 \<times> u64 \<times> 5 word" where
  "pmp_region_range p 0 = pmp_range 0 (p 0)"
| "pmp_region_range p (Suc k) = pmp_range (fst (snd (pmp_region_range p k))) (p (of_nat (Suc k)))"

definition pmp_region_entry :: "(3 word \<Rightarrow> pmp_item) \<Rightarrow> nat \<Rightarrow> pmp_table_item" where
  "pmp_region_entry p k = (case pmp_region_range p k of (start, stop, flags) \<Rightarrow> pmp_entry start stop flags)"

section \<open>The transfer\<close>

lemma wait_comb:
  assumes "c_state r = Csr_WaitPmp"
  shows "c_pmp (CsrRegs_comb h i r) = c_pmp r" "c_pmp_upd_ena (csr_after_write i r) = c_pmp_upd_ena r"
    "c_state (CsrRegs_comb h i r) = (if c_pmp_upd_ena r = 0 then Csr_Response else Csr_WaitPmp)"
proof -
  have "\<not> v_csr_wena r" using assms by (simp add: v_csr_wena_def)
  then show "c_pmp (CsrRegs_comb h i r) = c_pmp r" "c_pmp_upd_ena (csr_after_write i r) = c_pmp_upd_ena r"
    by (simp_all add: comb_written no_write_view upd_written)
  show "c_state (CsrRegs_comb h i r) = (if c_pmp_upd_ena r = 0 then Csr_Response else Csr_WaitPmp)"
    using assms by (simp add: comb_state csr_fsm_def)
qed

text \<open>
  The unit has sent the regions below \<open>n\<close> of those in \<open>U\<close>; the last one of them is still on its outputs, the others have reached
  the table.
\<close>

definition pmp_sent :: "u8 \<Rightarrow> (3 word \<Rightarrow> pmp_item) \<Rightarrow> pmp_table \<Rightarrow> nat \<Rightarrow> csr_regs \<Rightarrow> pmp_table \<Rightarrow> bool" where
  "pmp_sent U p t0 n r t \<longleftrightarrow>
     c_state r = Csr_WaitPmp \<and> c_pmp r = p \<and> (\<forall>k. bit (c_pmp_upd_ena r) k \<longleftrightarrow> bit U k \<and> n \<le> k) \<and> n \<le> 8 \<and>
     (n < 8 \<longrightarrow> c_pmp_upd_cnt r = of_nat n) \<and>
     (case n of 0 \<Rightarrow> \<not> c_pmp_we r \<and> c_pmp_end_addr r = 0
      | Suc m \<Rightarrow> c_pmp_we r = bit U m \<and> c_pmp_region r = of_nat m \<and>
          (c_pmp_start_addr r, c_pmp_end_addr r, c_pmp_flags r) = pmp_region_range p m) \<and>
     t = (\<lambda>k. if bit U (unat k) \<and> unat k + 1 < n then pmp_region_entry p (unat k) else t0 k)"

lemma unat_of_nat_3: "n < 8 \<Longrightarrow> unat (of_nat n :: 3 word) = n"
  by (simp add: unat_of_nat)

lemma of_nat_3_eq: "n < 8 \<Longrightarrow> (k :: 3 word) = of_nat n \<longleftrightarrow> unat k = n"
  by (auto simp: unat_of_nat_3 word_unat_eq_iff)

lemma unat_3_lt: "unat (k :: 3 word) < 8"
  using unsigned_less [of k] by simp

text \<open>What the table does with the region on the outputs.\<close>

lemma pmp_sent_table:
  assumes "pmp_sent U p t0 n r t" and "ci_nrst i"
  shows "PMP_clock (csr_pmp_in ia da (ci_nrst i) r) t =
    (\<lambda>k. if bit U (unat k) \<and> unat k < n then pmp_region_entry p (unat k) else t0 k)"
proof (cases n)
  case 0
  with assms show ?thesis by (simp add: pmp_sent_def PMP_clock_def csr_pmp_in_def)
next
  case (Suc m)
  with assms have m: "m < 8" and out: "c_pmp_we r = bit U m" "c_pmp_region r = of_nat m"
    "(c_pmp_start_addr r, c_pmp_end_addr r, c_pmp_flags r) = pmp_region_range p m"
    and t: "t = (\<lambda>k. if bit U (unat k) \<and> unat k < m then pmp_region_entry p (unat k) else t0 k)"
    by (simp_all add: pmp_sent_def)
  from out(3) have e: "pmp_entry (c_pmp_start_addr r) (c_pmp_end_addr r) (c_pmp_flags r) = pmp_region_entry p m"
    by (simp add: pmp_region_entry_def flip: out(3))
  show ?thesis
    using m by (auto simp: PMP_clock_def csr_pmp_in_def assms(2) out(1,2) e t Suc fun_eq_iff of_nat_3_eq less_Suc_eq)
qed

lemma pmp_sent_step:
  assumes s: "pmp_sent U p t0 n r t" and i: "ci_nrst i" and more: "bit U k" "n \<le> k" "k < 8"
  shows "pmp_sent U p t0 (Suc n) (CsrRegs_clock h i r) (PMP_clock (csr_pmp_in ia da (ci_nrst i) r) t)"
proof -
  from more have n: "n < 8" by simp
  from s have w: "c_state r = Csr_WaitPmp" and p: "c_pmp r = p" and cnt: "c_pmp_upd_cnt r = of_nat n"
    and upd: "\<And>k. bit (c_pmp_upd_ena r) k \<longleftrightarrow> bit U k \<and> n \<le> k"
    using n by (simp_all add: pmp_sent_def)
  have ne: "c_pmp_upd_ena r \<noteq> 0" using upd [of k] more by auto
  have prev: "c_pmp_end_addr r = (case n of 0 \<Rightarrow> 0 | Suc m \<Rightarrow> fst (snd (pmp_region_range p m)))"
  proof (cases n)
    case 0
    with s show ?thesis by (simp add: pmp_sent_def)
  next
    case (Suc m)
    with s have "(c_pmp_start_addr r, c_pmp_end_addr r, c_pmp_flags r) = pmp_region_range p m" by (simp add: pmp_sent_def)
    then show ?thesis by (simp add: Suc flip: \<open>_ = pmp_region_range p m\<close>)
  qed
  have range: "pmp_range (c_pmp_end_addr r) (c_pmp r (of_nat n)) = pmp_region_range p n"
    by (cases n) (simp_all add: prev p)
  have clk: "CsrRegs_clock h i r = CsrRegs_comb h i r" using i by (simp add: CsrRegs_clock_def)
  show ?thesis
    using n ne range comb_transfer(1,2) [OF ne, of h i] pmp_sent_table [OF s i, of ia da]
    unfolding clk pmp_sent_def
    by (auto simp: wait_comb [OF w] comb_upd p unat_of_nat_3 upd cnt bit_unset_bit_iff)
qed

lemma pmp_sent_end:
  assumes s: "pmp_sent U p t0 n r t" and i: "ci_nrst i" and none: "\<And>k. bit U k \<Longrightarrow> k < n"
  shows "c_state (CsrRegs_clock h i r) = Csr_Response" "c_pmp (CsrRegs_clock h i r) = p"
    "PMP_clock (csr_pmp_in ia da (ci_nrst i) r) t = (\<lambda>k. if bit U (unat k) then pmp_region_entry p (unat k) else t0 k)"
proof -
  from s have w: "c_state r = Csr_WaitPmp" and p: "c_pmp r = p"
    and upd: "\<And>k. bit (c_pmp_upd_ena r) k \<longleftrightarrow> bit U k \<and> n \<le> k" by (simp_all add: pmp_sent_def)
  have z: "c_pmp_upd_ena r = 0" by (rule bit_word_eqI) (use upd none in \<open>fastforce simp: not_le\<close>)
  show "c_state (CsrRegs_clock h i r) = Csr_Response" "c_pmp (CsrRegs_clock h i r) = p"
    using i by (simp_all add: CsrRegs_clock_def wait_comb [OF w] z p)
  show "PMP_clock (csr_pmp_in ia da (ci_nrst i) r) t = (\<lambda>k. if bit U (unat k) then pmp_region_entry p (unat k) else t0 k)"
    using pmp_sent_table [OF s i, of ia da] none by (auto simp: fun_eq_iff)
qed

lemma pmp_sent_run:
  assumes "pmp_sent U p t0 n r t" and "\<forall>i \<in> set ins. ci_nrst i" and "9 \<le> length ins + n"
  shows "\<exists>m \<le> 9 - n. case csr_pmp_run h (take m ins) (r, t) of (r', t') \<Rightarrow>
    c_state r' = Csr_Response \<and> c_pmp r' = p \<and> t' = (\<lambda>k. if bit U (unat k) then pmp_region_entry p (unat k) else t0 k)"
  using assms
proof (induction ins arbitrary: n r t)
  case Nil
  then show ?case by (simp add: pmp_sent_def)
next
  case (Cons i ins)
  have le: "n \<le> 8" using Cons.prems(1) by (simp add: pmp_sent_def)
  show ?case
  proof (cases "\<exists>k. bit U k \<and> n \<le> k")
    case True
    then obtain k where k: "bit U k" "n \<le> k" by blast
    then have "k < 8" using bit_imp_le_length by fastforce
    with k Cons.prems have s: "pmp_sent U p t0 (Suc n) (CsrRegs_clock h i r) (PMP_clock (csr_pmp_in 0 0 (ci_nrst i) r) t)"
      by (intro pmp_sent_step) simp_all
    from Cons.IH [OF s] Cons.prems obtain m where "m \<le> 9 - Suc n" and
      "case csr_pmp_run h (take m ins) (CsrRegs_clock h i r, PMP_clock (csr_pmp_in 0 0 (ci_nrst i) r) t) of (r', t') \<Rightarrow>
       c_state r' = Csr_Response \<and> c_pmp r' = p \<and> t' = (\<lambda>k. if bit U (unat k) then pmp_region_entry p (unat k) else t0 k)"
      by auto
    then show ?thesis using le \<open>k < 8\<close> k
      by (intro exI [of _ "Suc m"]) (simp add: csr_pmp_run_def csr_pmp_clock_def)
  next
    case False
    then have none: "\<And>k. bit U k \<Longrightarrow> k < n" by (simp add: not_le)
    have i: "ci_nrst i" using Cons.prems by simp
    show ?thesis using pmp_sent_end [OF Cons.prems(1) i none] i le
      by (intro exI [of _ 1]) (simp add: csr_pmp_run_def csr_pmp_clock_def)
  qed
qed

section \<open>A write of the configuration reaches the table\<close>

text \<open>The PMP registers after a write of \<open>d\<close> to \<^verbatim>\<open>pmpcfg0\<close>: one byte for each region, locked regions keep theirs.\<close>

definition pmpcfg_written :: "u64 \<Rightarrow> (3 word \<Rightarrow> pmp_item) \<Rightarrow> 3 word \<Rightarrow> pmp_item" where
  "pmpcfg_written d p k = (if locked (p k) then p k else (p k)\<lparr>pmp_cfg := ucast (bitfield (8 * unat k) 8 d)\<rparr>)"

definition unlocked_mask :: "(3 word \<Rightarrow> pmp_item) \<Rightarrow> u8" where
  "unlocked_mask p = foldl (\<lambda>w k. if locked (p (of_nat k)) then w else set_bit k w) 0 [0..<8]"

lemma bit_unlocked_mask: "bit (unlocked_mask p) k \<longleftrightarrow> k < 8 \<and> \<not> locked (p (of_nat k))"
proof -
  have "bit (foldl (\<lambda>w k. if locked (p (of_nat k)) then w else set_bit k w) (0 :: u8) [0..<n]) k \<longleftrightarrow>
      k < n \<and> \<not> locked (p (of_nat k))" if "n \<le> 8" for n
    using that by (induction n) (auto simp: bit_set_bit_iff less_Suc_eq)
  then show ?thesis by (simp add: unlocked_mask_def)
qed

lemma pmpcfg_request:
  assumes inv: "csr_fsm_inv r" and w: "v_csr_wena r" "c_cmd_addr r = 0x3A0" and i: "ci_nrst i"
  shows "pmp_sent (unlocked_mask (c_pmp r)) (pmpcfg_written (c_cmd_data r) (c_pmp r)) t 0 (CsrRegs_clock h i r) t"
    and "PMP_clock (csr_pmp_in ia da (ci_nrst i) r) t = t"
proof -
  have rw: "c_state r = Csr_RW" "\<not> csr_denied r" using w by (simp_all add: v_csr_wena_def)
  with inv have z: "c_pmp_upd_ena r = 0" "c_pmp_upd_cnt r = 0" "\<not> c_pmp_we r" by (simp_all add: csr_fsm_inv_def)
  have sel: "pmpcfg_sel 0x3A0" "\<not> bit (0x3A0 :: 12 word) 0" "unat (bitfield 1 3 (0x3A0 :: 12 word)) = 0" "\<not> pmpcfg_sel 0x303" 
    by code_simp+
  have "csr_write_map r v = pmpcfg_write (c_cmd_data r) r v" for v
    using sel by (simp add: csr_write_map_def w Let_def t_pmpcfgidx_def)
  then have aw: "csr_after_write i r = pmpcfg_write (c_cmd_data r) r (csr_fence i r (csr_fsm i r r))"
    by (simp add: csr_after_write_def csr_written_def w)
  have "c_pmp (csr_after_write i r) = pmpcfg_written (c_cmd_data r) (c_pmp r)"
    "c_pmp_upd_ena (csr_after_write i r) = unlocked_mask (c_pmp r)"
    by (auto simp: aw pmpcfg_write_def pmpcfg_written_def unlocked_mask_def csr_frame z fun_eq_iff)
  moreover have "c_state (CsrRegs_comb h i r) = Csr_WaitPmp"
    using rw w sel by (simp add: comb_state csr_fsm_def pmpcfg_sel_def)
  ultimately show "pmp_sent (unlocked_mask (c_pmp r)) (pmpcfg_written (c_cmd_data r) (c_pmp r)) t 0 (CsrRegs_clock h i r) t"
    using i z by (simp add: pmp_sent_def CsrRegs_clock_def comb_written comb_upd comb_transfer)
  show "PMP_clock (csr_pmp_in ia da (ci_nrst i) r) t = t" using i z by (simp add: PMP_clock_def csr_pmp_in_def)
qed

text \<open>C22. A write of the PMP configuration takes effect before it is answered: whatever the inputs, within ten clocks after the
  unit serves a write of pmpcfg0 it reaches the response state, and then the table of the caches holds, for every unlocked entry,
  the region that the written configuration byte and the address register describe, and for every locked entry what it held
  before.\<close>

theorem pmp_regions_transferred:
  assumes "csr_inv r" and "c_state r = Csr_RW" and "c_mode r = iM" and "bit (c_cmd_type r) CsrReq_WriteBit" and "c_cmd_addr r = 0x3A0"
    and "\<forall>i \<in> set ins. ci_nrst i" and "length ins = 10"
  shows "\<exists>m \<le> 10. case csr_pmp_run hartid (take m ins) (r, t) of (r', t') \<Rightarrow>
    c_state r' = Csr_Response \<and> c_pmp r' = pmpcfg_written (c_cmd_data r) (c_pmp r) \<and>
    (\<forall>k. t' k = (if locked (c_pmp r k) then t k else pmp_region_entry (c_pmp r') (unat k)))"
proof -
  let ?p = "pmpcfg_written (c_cmd_data r) (c_pmp r)"
  obtain i is' where ins: "ins = i # is'" using assms(7) by (cases ins) auto
  have fsm: "csr_fsm_inv r" using assms(1) by (simp add: csr_inv_def)
  have "\<not> (ucast iM :: 12 word) < bitfield 8 2 0x3A0" by code_simp
  then have w: "v_csr_wena r" using assms(2-5) by (simp add: v_csr_wena_def csr_denied_def)
  have i: "ci_nrst i" "\<forall>j \<in> set is'. ci_nrst j" and len: "length is' = 9" using assms(6,7) ins by simp_all
  note start = pmpcfg_request [OF fsm w assms(5) i(1)]
  obtain m where m: "m \<le> 9" and run: "case csr_pmp_run hartid (take m is') (CsrRegs_clock hartid i r, t) of (r', t') \<Rightarrow>
      c_state r' = Csr_Response \<and> c_pmp r' = ?p \<and>
      t' = (\<lambda>k. if bit (unlocked_mask (c_pmp r)) (unat k) then pmp_region_entry ?p (unat k) else t k)"
    using pmp_sent_run [OF start(1) [of t hartid] i(2), of hartid] len by auto
  have "csr_pmp_run hartid (take (Suc m) ins) (r, t) = csr_pmp_run hartid (take m is') (CsrRegs_clock hartid i r, t)"
    by (simp add: ins csr_pmp_run_def csr_pmp_clock_def start(2))
  moreover have "bit (unlocked_mask (c_pmp r)) (unat k) \<longleftrightarrow> \<not> locked (c_pmp r k)" for k
    by (simp add: bit_unlocked_mask unat_3_lt)
  ultimately show ?thesis using m run by (intro exI [of _ "Suc m"]) (auto split: prod.splits)
qed

theorem pmp_regions_transferred_witness:
  "let r = csr_run 0 [csr_request 2 0x3B0 0xFFF, csr_quiet, csr_quiet, csr_request 2 0x3A0 0x1F] CsrRegs_r_reset;
       ins = replicate 10 csr_quiet
   in \<exists>m \<le> 10. case csr_pmp_run 0 (take m ins) (r, PMP_r_reset) of (r', t') \<Rightarrow>
      c_state r' = Csr_Response \<and> c_pmp r' = pmpcfg_written (c_cmd_data r) (c_pmp r) \<and>
      (\<forall>k. t' k = (if locked (c_pmp r k) then PMP_r_reset k else pmp_region_entry (c_pmp r') (unat k)))"
proof -
  let ?r = "csr_run 0 [csr_request 2 0x3B0 0xFFF, csr_quiet, csr_quiet, csr_request 2 0x3A0 0x1F] CsrRegs_r_reset"
  have 1: "csr_inv ?r" by (rule csr_inv_run [OF csr_inv_reset])
  have 2: "c_state ?r = Csr_RW" and 3: "c_mode ?r = iM" and 4: "bit (c_cmd_type ?r) CsrReq_WriteBit" and 5: "c_cmd_addr ?r = 0x3A0"
    by code_simp+
  have 6: "\<forall>i \<in> set (replicate 10 csr_quiet). ci_nrst i" and 7: "length (replicate 10 csr_quiet) = 10"
    by (simp_all add: csr_quiet_def)
  show ?thesis unfolding Let_def by (rule pmp_regions_transferred [OF 1 2 3 4 5 6 7])
qed


section \<open>Naturally aligned regions\<close>

lemma napot_range:
  fixes a x :: u64
  shows "a AND NOT (mask m) \<le> x \<and> x \<le> a OR mask m \<longleftrightarrow> drop_bit m x = drop_bit m a"
proof
  assume b: "a AND NOT (mask m) \<le> x \<and> x \<le> a OR mask m"
  have mono: "drop_bit m u \<le> drop_bit m w" if "u \<le> w" for u w :: u64
  proof -
    have "take_bit 64 (unat v) = unat v" for v :: u64
      by (rule take_bit_nat_eq_self) (use unsigned_less [of v] in simp)
    then have "unat (drop_bit m u) \<le> unat (drop_bit m w)"
      using that by (simp only: unsigned_drop_bit_eq word_le_nat_alt) (simp add: drop_bit_eq_div div_le_mono)
    then show ?thesis by (simp only: word_le_nat_alt)
  qed
  have "drop_bit m (a AND NOT (mask m)) = drop_bit m a" "drop_bit m (a OR mask m) = drop_bit m a"
    using bit_imp_le_length [of a] by (auto intro!: bit_word_eqI simp: bit_simps)
  with b mono show "drop_bit m x = drop_bit m a" by (metis antisym)
next
  assume d: "drop_bit m x = drop_bit m a"
  have bits: "bit x k = bit a k" if "m \<le> k" for k
    using that arg_cong [OF d, of "\<lambda>w. bit w (k - m)"] by (simp add: bit_drop_bit_eq)
  have "a AND NOT (mask m) = x AND NOT (mask m)" "a OR mask m = x OR mask m"
    using bits by (intro bit_word_eqI; auto simp: bit_simps not_less)+
  then show "a AND NOT (mask m) \<le> x \<and> x \<le> a OR mask m" by (simp add: word_and_le2 le_word_or2)
qed

lemma napot_fold:
  assumes "\<forall>j < n. bit d j" and "\<not> bit d n"
  shows "foldl (\<lambda>(m, shift) k. if bit d k \<and> \<not> shift then (push_bit 1 m OR 1, shift) else (m, True)) (7, False) [0..<l] =
    (mask (3 + min l n) :: u64, n < l)"
proof (induction l)
  case 0
  show ?case by (simp add: mask_eq_exp_minus_1)
next
  case (Suc l)
  have "push_bit 1 (mask k) OR 1 = (mask (Suc k) :: u64)" for k
    by (rule bit_word_eqI) (simp only: bit_or_iff bit_push_bit_iff bit_mask_iff bit_1_iff, auto)
  moreover have "l < n \<Longrightarrow> bit d l" using assms by simp
  ultimately show ?case using Suc.IH assms(2) by (cases l n rule: linorder_cases) simp_all
qed

text \<open>C25. A NAPOT region is the aligned power of two that its address register encodes: after a write of an address with exactly
  \<open>n\<close> trailing ones to an unlocked entry of that kind, an address lies between the bounds that the unit computes exactly when it
  agrees with the written address, as a word address, above the \<open>n + 3\<close> lowest bits.\<close>

theorem pmp_napot_region:
  assumes "\<forall>j < n. bit d j" and "\<not> bit d n" and "n < 62" and "\<not> bit (pmp_cfg (c_pmp r k)) 7"
    and "p = c_pmp (pmpaddr_write k d r r) k" and "bitfield 3 2 (pmp_cfg p) = 3"
  shows "case pmp_range e p of (start, stop, flags) \<Rightarrow>
    (\<forall>x. start \<le> x \<and> x \<le> stop \<longleftrightarrow> drop_bit (n + 3) x = drop_bit (n + 3) (push_bit 2 (take_bit 62 d))) \<and> bit flags 4"
proof -
  have p: "pmp_addr p = push_bit 2 (take_bit 62 d)" "pmp_mask p = mask (n + 3)"
    using assms(3-5) napot_fold [OF assms(1,2), of 62]
    by (simp_all add: pmpaddr_write_def locked_def vb_pmp_napot_mask_def bitfield_def add.commute)
  have "bit (pmp_flags_of p) 4"
    unfolding pmp_flags_of_def by (simp only: bit_or_iff bit_push_bit_iff) simp
  with p assms(6) show ?thesis by (simp add: pmp_range_def Let_def napot_range)
qed


theorem pmp_napot_region_witness:
  "let r = csr_run 0 [csr_request 2 0x3A0 0x1F, csr_quiet] CsrRegs_r_reset; p = c_pmp (pmpaddr_write 0 0x200001FF r r) 0
   in case pmp_range 0 p of (start, stop, flags) \<Rightarrow>
      (\<forall>x. start \<le> x \<and> x \<le> stop \<longleftrightarrow> drop_bit 12 x = drop_bit 12 (push_bit 2 (take_bit 62 0x200001FF))) \<and> bit flags 4"
proof -
  let ?r = "csr_run 0 [csr_request 2 0x3A0 0x1F, csr_quiet] CsrRegs_r_reset"
  let ?p = "c_pmp (pmpaddr_write 0 0x200001FF ?r ?r) 0"
  have 1: "\<forall>j < 9. bit (0x200001FF :: u64) j" and 2: "\<not> bit (0x200001FF :: u64) 9" and 3: "(9 :: nat) < 62"
    and 4: "\<not> bit (pmp_cfg (c_pmp ?r 0)) 7" and 5: "bitfield 3 2 (pmp_cfg ?p) = 3"
    by code_simp+
  show ?thesis unfolding Let_def using pmp_napot_region [OF 1 2 3 4 refl 5, of 0] by simp
qed

end
