(* ===== verification/Attribute.thy ===== *)
theory Attribute
  imports Prelude "HOL-Library.List_Lexorder" "HOL-Library.Char_ord" "HOL-Library.Multiset"
begin

text \<open>
  The attribute type of the debugger core (\<^verbatim>\<open>common/attribute.cpp\<close>): the variant value in which every service keeps its
  configuration, its JSON-like printer and parser, its dictionary and list operations and its quicksort; and the growing
  buffer of the printer (\<^verbatim>\<open>common/autobuffer.cpp\<close>). A C string is a list of characters without the terminating zero, a
  position in it the rest of the list. The arithmetic of \<^verbatim>\<open>double\<close>, the printing of a \<^verbatim>\<open>double\<close> and the registry of services are
  the parameters collected in \<open>attr_env\<close>.
\<close>

section \<open>The values\<close>

datatype ('f, 'i) attribute =
    Attr_Invalid
  | Attr_String string
  | Attr_Integer u64
  | Attr_UInteger u64
  | Attr_Floating 'f
  | Attr_List "('f, 'i) attribute list"
  | Attr_Data "u8 list"
  | Attr_Nil
  | Attr_Dict "(string \<times> ('f, 'i) attribute) list"
  | Attr_Boolean bool
  | Attr_Interface 'i

record ('f, 'i) attr_env =
  fp_of_int :: "int \<Rightarrow> 'f"
  fp_add :: "'f \<Rightarrow> 'f \<Rightarrow> 'f"
  fp_mult :: "'f \<Rightarrow> 'f \<Rightarrow> 'f"
  fp_divide :: "'f \<Rightarrow> 'f \<Rightarrow> 'f"
  fp_neg :: "'f \<Rightarrow> 'f"
  fp_print4 :: "'f \<Rightarrow> string"
  getFaceName :: "'i \<Rightarrow> string"
  getObjName :: "'i \<Rightarrow> string"
  get_service :: "string \<Rightarrow> 'i"

definition IFACE_SERVICE :: string where
  "IFACE_SERVICE = ''IService''"

section \<open>The buffer\<close>

text \<open>The bytes written, the allocated size, and whether a write went past the allocated size.\<close>

record autobuffer =
  ab_bytes :: string
  ab_size :: nat
  ab_oob :: bool

definition AutoBuffer :: autobuffer where
  "AutoBuffer = \<lparr>ab_bytes = [], ab_size = 0, ab_oob = False\<rparr>"

function ab_grow :: "nat \<Rightarrow> nat \<Rightarrow> nat" where
  "ab_grow need sz = (if sz = 0 \<or> need < sz then sz else ab_grow need (2 * sz))"
  by auto
termination by (relation "measure (\<lambda>(need, sz). Suc need - sz)") auto

declare ab_grow.simps [simp del]

definition write_bin :: "string \<Rightarrow> autobuffer \<Rightarrow> autobuffer" where
  "write_bin p b =
    (let need = length (ab_bytes b) + length p;
         sz = (if ab_size b \<le> need then if ab_size b = 0 then 1024 else ab_grow need (ab_size b) else ab_size b)
     in \<lparr>ab_bytes = ab_bytes b @ p, ab_size = sz, ab_oob = (ab_oob b \<or> sz \<le> need)\<rparr>)"

definition getBuffer :: "autobuffer \<Rightarrow> string option" where
  "getBuffer b = (if ab_size b = 0 then None else Some (ab_bytes b))"

definition hex_digit :: "bool \<Rightarrow> nat \<Rightarrow> char" where
  "hex_digit upper n = (if n < 10 then char_of (48 + n) else char_of ((if upper then 55 else 87) + n))"

text \<open>The conversions \<^verbatim>\<open>%llx\<close> and \<^verbatim>\<open>%02X\<close> of \<^verbatim>\<open>sprintf\<close>.\<close>

fun print_hex :: "nat \<Rightarrow> string" where
  "print_hex n = (if n < 16 then [hex_digit False n] else print_hex (n div 16) @ [hex_digit False (n mod 16)])"

declare print_hex.simps [simp del]

definition write_uint64 :: "u64 \<Rightarrow> autobuffer \<Rightarrow> autobuffer" where
  "write_uint64 v = write_bin (''0x'' @ print_hex (unat v))"

definition write_byte :: "u8 \<Rightarrow> autobuffer \<Rightarrow> autobuffer" where
  "write_byte v = write_bin (''0x'' @ [hex_digit True (unat v div 16), hex_digit True (unat v mod 16)])"

section \<open>The printer\<close>

fun write_bytes :: "u8 list \<Rightarrow> autobuffer \<Rightarrow> autobuffer" where
  "write_bytes [] b = b"
| "write_bytes [x] b = write_byte x b"
| "write_bytes (x # y # ys) b = write_bytes (y # ys) (write_bin '','' (write_byte x b))"

fun attribute_to_string :: "('f, 'i) attr_env \<Rightarrow> ('f, 'i) attribute \<Rightarrow> autobuffer \<Rightarrow> autobuffer"
  and list_to_string :: "('f, 'i) attr_env \<Rightarrow> ('f, 'i) attribute list \<Rightarrow> autobuffer \<Rightarrow> autobuffer"
  and dict_to_string :: "('f, 'i) attr_env \<Rightarrow> (string \<times> ('f, 'i) attribute) list \<Rightarrow> autobuffer \<Rightarrow> autobuffer" where
  "attribute_to_string e Attr_Nil b = write_bin ''None'' b"
| "attribute_to_string e (Attr_Integer v) b = write_uint64 v b"
| "attribute_to_string e (Attr_UInteger v) b = write_uint64 v b"
| "attribute_to_string e (Attr_String s) b = write_bin [CHR 0x22] (write_bin s (write_bin [CHR 0x22] b))"
| "attribute_to_string e (Attr_Boolean v) b = write_bin (if v then ''True'' else ''False'') b"
| "attribute_to_string e (Attr_List xs) b = write_bin '']'' (list_to_string e xs (write_bin ''['' b))"
| "attribute_to_string e (Attr_Dict xs) b = write_bin ''}'' (dict_to_string e xs (write_bin ''{'' b))"
| "attribute_to_string e (Attr_Data xs) b = write_bin '')'' (write_bytes xs (write_bin ''('' b))"
| "attribute_to_string e (Attr_Interface f) b =
    (if getFaceName e f = IFACE_SERVICE then
       write_bin [CHR 0x22, CHR 0x7D] (write_bin (getObjName e f) (write_bin ([CHR 0x22] @ '','' @ [CHR 0x22] @ ''ModuleName'' @ [CHR 0x22] @ '':'' @ [CHR 0x22])
         (write_bin (getFaceName e f) (write_bin ([CHR 0x22] @ ''Type'' @ [CHR 0x22] @ '':'' @ [CHR 0x22]) (write_bin ''{'' b)))))
     else b)"
| "attribute_to_string e (Attr_Floating x) b = write_bin (fp_print4 e x) b"
| "attribute_to_string e Attr_Invalid b = b"
| "list_to_string e [] b = b"
| "list_to_string e (x # xs) b =
    (let b = attribute_to_string e x b in list_to_string e xs (if xs = [] then b else write_bin '','' b))"
| "dict_to_string e [] b = b"
| "dict_to_string e ((k, x) # xs) b =
    (let b = write_bin [CHR 0x22] (write_bin k (write_bin [CHR 0x22] b));
         b = attribute_to_string e x (write_bin '':'' b)
     in dict_to_string e xs (if xs = [] then b else write_bin '','' b))"

definition to_config :: "('f, 'i) attr_env \<Rightarrow> ('f, 'i) attribute \<Rightarrow> ('f, 'i) attribute" where
  "to_config e a = (case getBuffer (attribute_to_string e a AutoBuffer) of None \<Rightarrow> Attr_Nil | Some s \<Rightarrow> Attr_String s)"

section \<open>Dictionaries and lists\<close>

definition is_nil :: "('f, 'i) attribute \<Rightarrow> bool" where
  "is_nil a = (case a of Attr_Nil \<Rightarrow> True | _ \<Rightarrow> False)"

fun has_key :: "(string \<times> ('f, 'i) attribute) list \<Rightarrow> string \<Rightarrow> bool" where
  "has_key [] k \<longleftrightarrow> False"
| "has_key ((k', v) # xs) k \<longleftrightarrow> k' = k \<and> \<not> is_nil v \<or> has_key xs k"

text \<open>\<^verbatim>\<open>operator[](key)\<close> gives a reference to the value of the key and adds a nil entry for a new key: \<open>dict_ref\<close> is the
  dictionary after the access with the value found, \<open>dict_put\<close> an assignment through the reference.\<close>

fun dict_ref :: "(string \<times> ('f, 'i) attribute) list \<Rightarrow> string \<Rightarrow> ('f, 'i) attribute \<times> (string \<times> ('f, 'i) attribute) list" where
  "dict_ref [] k = (Attr_Nil, [(k, Attr_Nil)])"
| "dict_ref ((k', v) # xs) k = (if k = k' then (v, (k', v) # xs) else let (r, ys) = dict_ref xs k in (r, (k', v) # ys))"

fun dict_put :: "string \<Rightarrow> ('f, 'i) attribute \<Rightarrow> (string \<times> ('f, 'i) attribute) list \<Rightarrow> (string \<times> ('f, 'i) attribute) list" where
  "dict_put k x [] = [(k, x)]"
| "dict_put k x ((k', v) # xs) = (if k = k' then (k', x) # xs else (k', v) # dict_put k x xs)"

section \<open>The parser\<close>

text \<open>The result of a parse: a value and the rest of the text, the error return, or behaviour that C++ leaves undefined (a read or
  write past the end of a buffer, the union of an attribute read as a string when it holds none).\<close>

datatype 'a parsed = Parsed 'a string | Parse_Error | Undefined

definition cur :: "string \<Rightarrow> char" where
  "cur s = (case s of [] \<Rightarrow> CHR 0x00 | c # _ \<Rightarrow> c)"

definition skip_special_symbols :: "string \<Rightarrow> string" where
  "skip_special_symbols = dropWhile (\<lambda>c. c = CHR '' '' \<or> c = CHR 0x0D \<or> c = CHR 0x0A \<or> c = CHR 0x09)"

definition starts :: "string \<Rightarrow> string \<Rightarrow> bool" where
  "starts p s \<longleftrightarrow> take (length p) s = p"

definition is_dec :: "char \<Rightarrow> bool" where
  "is_dec c \<longleftrightarrow> CHR ''0'' \<le> c \<and> c \<le> CHR ''9''"

definition is_hex :: "char \<Rightarrow> bool" where
  "is_hex c \<longleftrightarrow> is_dec c \<or> CHR ''a'' \<le> c \<and> c \<le> CHR ''f'' \<or> CHR ''A'' \<le> c \<and> c \<le> CHR ''F''"

definition hex_val :: "char \<Rightarrow> nat" where
  "hex_val c = (if is_dec c then of_char c - 48 else if CHR ''a'' \<le> c then of_char c - 87 else of_char c - 55)"

text \<open>\<^verbatim>\<open>strtoull(digits, NULL, 0)\<close> on the texts the parser gives it: hexadecimal after \<^verbatim>\<open>0x\<close>, octal after \<^verbatim>\<open>0\<close>, else decimal; it
  stops at the first other character and saturates.\<close>

definition digits_value :: "nat \<Rightarrow> (char \<Rightarrow> bool) \<Rightarrow> string \<Rightarrow> nat" where
  "digits_value base ok ds = foldl (\<lambda>n c. base * n + hex_val c) 0 (takeWhile ok ds)"

definition strtoull :: "string \<Rightarrow> u64" where
  "strtoull ds =
    of_nat (min (2 ^ 64 - 1)
      (if starts ''0x'' ds then digits_value 16 is_hex (drop 2 ds)
       else if starts ''0'' ds then digits_value 8 (\<lambda>c. is_dec c \<and> c \<le> CHR ''7'') ds
       else digits_value 10 is_dec ds))"

text \<open>A quoted text. The buffer is allocated with 1024 bytes whatever the length of the first write.\<close>

definition parse_string :: "char \<Rightarrow> string \<Rightarrow> ('f, 'i) attribute parsed" where
  "parse_string t1 s =
    (let str = takeWhile (\<lambda>c. c \<noteq> t1 \<and> c \<noteq> CHR 0x00) s;
         s = dropWhile (\<lambda>c. c \<noteq> t1 \<and> c \<noteq> CHR 0x00) s
     in if ab_oob (write_bin str AutoBuffer) then Undefined
        else if cur s \<noteq> t1 then Parse_Error
        else Parsed (Attr_String str) (skip_special_symbols (tl s)))"

definition byte_digit :: "u8 \<Rightarrow> char \<Rightarrow> u8" where
  "byte_digit v c =
    push_bit 4 v OR
      (if CHR ''A'' \<le> c \<and> c \<le> CHR ''F'' then of_nat (of_char c) - 65 + 10
       else if CHR ''a'' \<le> c \<and> c \<le> CHR ''f'' then of_nat (of_char c) - 97 + 10
       else of_nat (of_char c) - 48)"

lemma length_skip: "length (skip_special_symbols s) \<le> length s"
  by (simp add: skip_special_symbols_def length_dropWhile_le)

lemma skip_le [simp]: "length s \<le> n \<Longrightarrow> length (skip_special_symbols s) \<le> n"
  by (rule le_trans [OF length_skip])

lemma skip_less [simp]: "length s < n \<Longrightarrow> length (skip_special_symbols s) < n"
  by (rule le_less_trans [OF length_skip])

function parse_data :: "string \<Rightarrow> u8 list \<Rightarrow> ('f, 'i) attribute parsed" where
  "parse_data s acc =
    (if cur s \<noteq> CHR '')'' \<and> cur s \<noteq> CHR 0x00 then
       case (if starts ''0x'' s then drop 2 s else s) of
         c1 # c2 # r \<Rightarrow>
           let v = byte_digit (byte_digit 0 c1) c2;
               r = skip_special_symbols r
           in if cur r = CHR '')'' then Parsed (Attr_Data (acc @ [v])) (skip_special_symbols (tl r))
              else if cur r \<noteq> CHR '','' then Parse_Error
              else parse_data (skip_special_symbols (tl r)) (acc @ [v])
       | _ \<Rightarrow> Undefined
     else if cur s \<noteq> CHR '')'' then Parse_Error
     else Parsed (Attr_Data acc) (skip_special_symbols (tl s)))"
  by pat_completeness auto
termination
proof (relation "measure (\<lambda>(s, acc). length s)", goal_cases)
  case (2 s acc c1 l c2 r v r')
  then have "length r' \<le> length r" by simp
  then have "length (skip_special_symbols (tl r')) \<le> length r" by (intro skip_le) simp
  also have "\<dots> < length (if starts ''0x'' s then drop 2 s else s)" using 2 by simp
  also have "\<dots> \<le> length s" by simp
  finally show ?case by simp
qed simp

declare parse_data.simps [simp del]

definition parse_number :: "('f, 'i) attr_env \<Rightarrow> string \<Rightarrow> ('f, 'i) attribute parsed" where
  "parse_number e s =
    (let hex = starts ''0x'' s;
         negative = (\<not> hex \<and> cur s = CHR ''-'');
         s = (if hex then drop 2 s else if negative then tl s else s);
         pre = (if hex then ''0x'' else []);
         ds = take (63 - length pre) (takeWhile is_hex s);
         s = drop (length ds) s;
         t1 = strtoull (pre @ ds)
     in if cur s = CHR ''.'' then
          let zs = takeWhile (\<lambda>c. c = CHR ''0'') (tl s);
              s = dropWhile (\<lambda>c. c = CHR ''0'') (tl s);
              ds = take 63 (takeWhile is_dec s);
              divrate = ((\<lambda>d. fp_mult e d (fp_of_int e 10)) ^^ (length zs + length ds)) (fp_of_int e 1);
              d1 = fp_add e (fp_of_int e (sint t1)) (fp_divide e (fp_of_int e (sint (strtoull ds))) divrate)
          in Parsed (Attr_Floating (if negative then fp_neg e d1 else d1)) (skip_special_symbols (drop (length ds) s))
        else Parsed (Attr_Integer (if negative then - t1 else t1)) (skip_special_symbols s))"

text \<open>What the parser makes of a complete dictionary: a service when it has the key \<^verbatim>\<open>Type\<close>.\<close>

definition finish_dict :: "('f, 'i) attr_env \<Rightarrow> (string \<times> ('f, 'i) attribute) list \<Rightarrow> string \<Rightarrow> ('f, 'i) attribute parsed" where
  "finish_dict e d s =
    (if has_key d ''Type'' then
       case dict_ref d ''Type'' of
         (Attr_String ty, d') \<Rightarrow>
           if ty = IFACE_SERVICE then
             case dict_ref d' ''ModuleName'' of (Attr_String m, _) \<Rightarrow> Parsed (Attr_Interface (get_service e m)) s | _ \<Rightarrow> Undefined
           else Parsed (Attr_Dict d') s
       | _ \<Rightarrow> Undefined
     else Parsed (Attr_Dict d) s)"

definition skip_comma :: "string \<Rightarrow> string" where
  "skip_comma s = (let s = skip_special_symbols s in if cur s = CHR '','' then skip_special_symbols (tl s) else s)"

text \<open>The guard at the end against a text of unknown format: nothing was consumed.\<close>

definition check_start :: "string \<Rightarrow> 'a parsed \<Rightarrow> 'a parsed" where
  "check_start s p = (case p of Parsed a r \<Rightarrow> if length r = length s then Parse_Error else p | _ \<Rightarrow> p)"

text \<open>The recursive parser. A call that runs out of fuel is \<open>None\<close>.\<close>

fun string_to_attribute :: "('f, 'i) attr_env \<Rightarrow> nat \<Rightarrow> string \<Rightarrow> ('f, 'i) attribute parsed option"
  and parse_list :: "('f, 'i) attr_env \<Rightarrow> nat \<Rightarrow> string \<Rightarrow> ('f, 'i) attribute list \<Rightarrow> ('f, 'i) attribute parsed option"
  and parse_dict :: "('f, 'i) attr_env \<Rightarrow> nat \<Rightarrow> string \<Rightarrow> (string \<times> ('f, 'i) attribute) list \<Rightarrow> ('f, 'i) attribute parsed option" where
  "string_to_attribute e 0 s = None"
| "string_to_attribute e (Suc n) s0 =
    (let s = skip_special_symbols s0 in
     map_option (check_start s)
      (if cur s = CHR 0x27 \<or> cur s = CHR 0x22 then Some (parse_string (cur s) (tl s))
       else if cur s = CHR ''['' then parse_list e n (skip_special_symbols (tl s)) []
       else if cur s = CHR ''{'' then parse_dict e n (skip_special_symbols (tl s)) []
       else if cur s = CHR ''('' then Some (parse_data (skip_special_symbols (tl s)) [])
       else if starts ''None'' s then Some (Parsed Attr_Nil (skip_special_symbols (drop 4 s)))
       else if starts ''false'' s \<or> starts ''False'' s then Some (Parsed (Attr_Boolean False) (skip_special_symbols (drop 5 s)))
       else if starts ''true'' s \<or> starts ''True'' s then Some (Parsed (Attr_Boolean True) (skip_special_symbols (drop 4 s)))
       else Some (parse_number e s)))"
| "parse_list e 0 s acc = None"
| "parse_list e (Suc n) s acc =
    (if cur s \<noteq> CHR '']'' \<and> cur s \<noteq> CHR 0x00 then
       case string_to_attribute e n s of
         Some (Parsed a r) \<Rightarrow> parse_list e n (skip_comma r) (acc @ [a])
       | x \<Rightarrow> x
     else if cur s \<noteq> CHR '']'' then Some Parse_Error
     else Some (Parsed (Attr_List acc) (skip_special_symbols (tl s))))"
| "parse_dict e 0 s acc = None"
| "parse_dict e (Suc n) s acc =
    (if cur s \<noteq> CHR ''}'' \<and> cur s \<noteq> CHR 0x00 then
       case string_to_attribute e n s of
         Some (Parsed k r) \<Rightarrow>
           (let r = skip_special_symbols r in
            if cur r \<noteq> CHR '':'' then Some Parse_Error
            else case string_to_attribute e n (skip_special_symbols (tl r)) of
                Some (Parsed x r) \<Rightarrow>
                  (case k of Attr_String k \<Rightarrow> parse_dict e n (skip_comma r) (dict_put k x acc) | _ \<Rightarrow> Some Undefined)
              | y \<Rightarrow> y)
       | y \<Rightarrow> y
     else if cur s \<noteq> CHR ''}'' then Some Parse_Error
     else Some (finish_dict e acc (skip_special_symbols (tl s))))"

text \<open>\<^verbatim>\<open>from_config\<close> ignores the return code: an attribute that could not be parsed is left invalid. \<open>None\<close> is undefined
  behaviour; the fuel is enough for every text, see \<open>parser_returns\<close>.\<close>

definition from_config :: "('f, 'i) attr_env \<Rightarrow> string \<Rightarrow> ('f, 'i) attribute option" where
  "from_config e s =
    (case string_to_attribute e (2 * length s + 3) s of
       Some (Parsed a _) \<Rightarrow> Some a
     | Some Parse_Error \<Rightarrow> Some Attr_Invalid
     | _ \<Rightarrow> None)"

end
