(* ===== verification/Attr_Parse.thy ===== *)
theory Attr_Parse
  imports Attribute
begin

text \<open>
  The parser and the printer of attributes: the parser returns on every text, the printer stays in its buffer, and parsing what was
  printed gives the attribute back.
\<close>

section \<open>The parser returns\<close>

lemma tl_le [simp]: "length s \<le> n \<Longrightarrow> length (tl s) \<le> n" and tl_less [simp]: "length s < n \<Longrightarrow> length (tl s) < n"
  by simp_all

lemma skip_comma_less [simp]: "length s < n \<Longrightarrow> length (skip_comma s) < n"
  by (simp add: skip_comma_def Let_def del: length_tl)

lemma skip_tl_less: "cur s \<noteq> CHR 0x00 \<Longrightarrow> length (skip_special_symbols (tl s)) < length s"
  by (cases s) (simp_all add: cur_def le_imp_less_Suc)

lemma dropWhile_le [simp]: "length s \<le> n \<Longrightarrow> length (dropWhile P s) \<le> n"
  by (rule le_trans [OF length_dropWhile_le])

lemma drop_le: "length s \<le> n \<Longrightarrow> length (drop k s) \<le> n"
  by simp

lemma parse_string_length: "parse_string t s = Parsed a r \<Longrightarrow> length r \<le> length s"
  by (auto simp: parse_string_def Let_def simp del: length_tl split: if_splits)

lemma parse_data_length: "parse_data s acc = Parsed a r \<Longrightarrow> length r \<le> length s"
proof (induction s acc rule: parse_data.induct)
  case (1 s acc)
  have l: "length (if starts ''0x'' s then drop 2 s else s) \<le> length s" by simp
  show ?case
  proof (cases "cur s \<noteq> CHR '')'' \<and> cur s \<noteq> CHR 0x00")
    case True
    with 1(2) obtain c1 c2 q where q: "(if starts ''0x'' s then drop 2 s else s) = c1 # c2 # q"
      by (subst (asm) parse_data.simps) (auto split: list.splits)
    let ?q = "skip_special_symbols q"
    have "length q \<le> length s" using l unfolding q by simp
    then have b: "length (skip_special_symbols (tl ?q)) \<le> length s" by (simp del: length_tl)
    show ?thesis
      using 1(2) 1(1) [OF True q refl refl refl] b True
      by (subst (asm) parse_data.simps) (auto simp: q Let_def split: if_splits)
  next
    case False
    with 1(2) show ?thesis by (subst (asm) parse_data.simps) (auto simp del: length_tl split: if_splits)
  qed
qed

lemma parse_number_length: "parse_number e s = Parsed a r \<Longrightarrow> length r \<le> length s"
  unfolding parse_number_def Let_def
  by (auto intro!: skip_le dropWhile_le tl_le drop_le simp del: length_tl length_drop drop_drop split: if_splits)

lemma finish_dict_length: "finish_dict e d s = Parsed a r \<Longrightarrow> r = s"
  by (auto simp: finish_dict_def split: if_splits prod.splits attribute.splits)

lemma check_start_Parsed: "check_start s p = Parsed a r \<longleftrightarrow> p = Parsed a r \<and> length r \<noteq> length s"
  by (auto simp: check_start_def split: parsed.splits)

lemma parser_advances:
  "string_to_attribute e n s = Some (Parsed a r) \<Longrightarrow> length r < length s"
  "parse_list e n s xs = Some (Parsed a r) \<Longrightarrow> length r < length s"
  "parse_dict e n s ds = Some (Parsed a r) \<Longrightarrow> length r < length s"
proof (induction e n s and e n s xs and e n s ds arbitrary: a r and a r and a r
    rule: string_to_attribute_parse_list_parse_dict.induct)
  case (2 e n s0)
  define s where "s = skip_special_symbols s0"
  have t: "length (skip_special_symbols (tl s)) \<le> length s" by (simp del: length_tl)
  have "length r \<le> length s \<and> length r \<noteq> length s"
    using "2.prems" "2.IH" [OF s_def]
    by (auto simp: s_def [symmetric] Let_def check_start_Parsed split: if_splits
        dest!: parse_string_length parse_data_length parse_number_length) (use t in linarith)+
  then show ?case using length_skip [of s0] unfolding s_def by linarith
next
  case (4 e n s acc)
  from 4(3) show ?case
  proof (cases "cur s \<noteq> CHR '']'' \<and> cur s \<noteq> CHR 0x00")
    case True
    with 4(3) obtain x q where q: "string_to_attribute e n s = Some (Parsed x q)"
      and "parse_list e n (skip_comma q) (acc @ [x]) = Some (Parsed a r)"
      by (auto split: option.splits parsed.splits)
    with 4(1) [OF True] 4(2) [OF True q refl] show ?thesis by (meson less_trans skip_comma_less)
  qed (auto split: if_splits intro!: skip_tl_less)
next
  case (6 e n s acc)
  from 6(4) show ?case
  proof (cases "cur s \<noteq> CHR ''}'' \<and> cur s \<noteq> CHR 0x00")
    case True
    with 6(4) obtain k q x q' where q: "string_to_attribute e n s = Some (Parsed (Attr_String k) q)"
      and c: "\<not> cur (skip_special_symbols q) \<noteq> CHR '':''"
      and v: "string_to_attribute e n (skip_special_symbols (tl (skip_special_symbols q))) = Some (Parsed x q')"
      and d: "parse_dict e n (skip_comma q') (dict_put k x acc) = Some (Parsed a r)"
      by (auto simp: Let_def split: option.splits parsed.splits if_splits attribute.splits)
    have "length q' < length (skip_special_symbols (tl (skip_special_symbols q)))" by (rule 6(2) [OF True q refl refl c v])
    moreover have "length q < length s" by (rule 6(1) [OF True q])
    ultimately have "length q' < length s" by (meson length_skip less_trans skip_less tl_less)
    then show ?thesis using 6(3) [OF True q refl refl c v refl refl d] by (meson less_trans skip_comma_less)
  qed (auto split: if_splits intro!: skip_tl_less dest!: finish_dict_length)
qed simp_all

lemma parser_total:
  "2 * length s + 1 \<le> n \<Longrightarrow> string_to_attribute e n s \<noteq> None"
  "2 * length s + 2 \<le> n \<Longrightarrow> parse_list e n s xs \<noteq> None"
  "2 * length s + 2 \<le> n \<Longrightarrow> parse_dict e n s ds \<noteq> None"
proof (induction e n s and e n s xs and e n s ds rule: string_to_attribute_parse_list_parse_dict.induct)
  case (2 e n s0)
  define s where "s = skip_special_symbols s0"
  have "length s \<le> length s0" by (simp add: s_def)
  then have "2 * length (skip_special_symbols (tl s)) + 2 \<le> n" if "cur s \<noteq> CHR 0x00"
    using skip_tl_less [OF that] "2.prems" by linarith
  then show ?case using "2.IH" [OF s_def] by (auto simp: s_def [symmetric] Let_def)
next
  case (4 e n s acc)
  have "2 * length (skip_comma q) + 2 \<le> n" if "string_to_attribute e n s = Some (Parsed x q)" for x q
    using skip_comma_less [OF parser_advances(1) [OF that]] "4.prems" by linarith
  moreover have "2 * length s + 1 \<le> n" using "4.prems" by simp
  ultimately show ?case using "4.IH" by (fastforce split: option.splits parsed.splits)
next
  case (6 e n s acc)
  have l: "length (skip_special_symbols (tl (skip_special_symbols q))) < length s" if "string_to_attribute e n s = Some (Parsed x q)" for x q
    using parser_advances(1) [OF that] by (simp del: length_tl)
  have "2 * length (skip_special_symbols (tl (skip_special_symbols q))) + 1 \<le> n"
    if "string_to_attribute e n s = Some (Parsed x q)" for x q
    using l [OF that] "6.prems" by linarith
  moreover have "2 * length (skip_comma q') + 2 \<le> n" if "string_to_attribute e n s = Some (Parsed x q)"
    "string_to_attribute e n (skip_special_symbols (tl (skip_special_symbols q))) = Some (Parsed y q')" for x q y q'
    using skip_comma_less [OF less_trans [OF parser_advances(1) [OF that(2)] l [OF that(1)]]] "6.prems" by linarith
  moreover have "2 * length s + 1 \<le> n" using "6.prems" by simp
  ultimately show ?case using "6.IH" by (auto simp: Let_def split: option.splits parsed.splits attribute.splits) blast+
qed simp_all

text \<open>More fuel does not change a result.\<close>

lemmas parser_simps = string_to_attribute.simps parse_list.simps parse_dict.simps

lemma parser_mono_Suc:
  "(\<forall>s p. string_to_attribute e n s = Some p \<longrightarrow> string_to_attribute e (Suc n) s = Some p) \<and>
   (\<forall>s xs p. parse_list e n s xs = Some p \<longrightarrow> parse_list e (Suc n) s xs = Some p) \<and>
   (\<forall>s ds p. parse_dict e n s ds = Some p \<longrightarrow> parse_dict e (Suc n) s ds = Some p)"
proof (induction n)
  case (Suc n)
  then have A: "string_to_attribute e n s = Some p \<Longrightarrow> string_to_attribute e (Suc n) s = Some p"
    and B: "parse_list e n s xs = Some p \<Longrightarrow> parse_list e (Suc n) s xs = Some p"
    and C: "parse_dict e n s ds = Some p \<Longrightarrow> parse_dict e (Suc n) s ds = Some p" for s xs ds p by blast+
  have 1: "string_to_attribute e (Suc (Suc n)) s = Some p" if "string_to_attribute e (Suc n) s = Some p" for s p
    using that unfolding string_to_attribute.simps(2) [of e "Suc n" s] string_to_attribute.simps(2) [of e n s]
    by (auto simp: Let_def simp del: parser_simps dest: B C split: if_splits)
  have 2: "parse_list e (Suc (Suc n)) s xs = Some p" if "parse_list e (Suc n) s xs = Some p" for s xs p
  proof (cases "string_to_attribute e n s")
    case (Some y)
    from that A [OF Some] Some show ?thesis unfolding parse_list.simps(2) [of e "Suc n" s] parse_list.simps(2) [of e n s]
      by (cases y) (simp_all del: parser_simps add: B split: if_splits)
  qed (use that in \<open>auto split: if_splits\<close>)
  have 3: "parse_dict e (Suc (Suc n)) s ds = Some p" if d: "parse_dict e (Suc n) s ds = Some p" for s ds p
  proof (cases "string_to_attribute e n s")
    case (Some y)
    note a = A [OF Some]
    show ?thesis
    proof (cases "\<exists>k q x. y = Parsed k q \<and> cur (skip_special_symbols q) = CHR '':'' \<and>
        string_to_attribute e n (skip_special_symbols (tl (skip_special_symbols q))) = Some x")
      case True
      then obtain k q x where y: "y = Parsed k q" "cur (skip_special_symbols q) = CHR '':''"
        and x: "string_to_attribute e n (skip_special_symbols (tl (skip_special_symbols q))) = Some x" by blast
      from d A [OF x] a Some x show ?thesis unfolding parse_dict.simps(2) [of e "Suc n" s] parse_dict.simps(2) [of e n s] y
        by (cases x; cases k) (simp_all del: parser_simps add: C y Let_def split: if_splits)
    next
      case False
      with d a Some show ?thesis unfolding parse_dict.simps(2) [of e "Suc n" s] parse_dict.simps(2) [of e n s]
        by (cases y) (auto simp del: parser_simps simp: Let_def split: if_splits option.splits)
    qed
  qed (use that in \<open>auto split: if_splits\<close>)
  from 1 2 3 show ?case by blast
qed simp

lemma parser_mono: "string_to_attribute e n s = Some p \<Longrightarrow> n \<le> m \<Longrightarrow> string_to_attribute e m s = Some p"
  by (induction m) (auto simp: le_Suc_eq simp del: parser_simps intro: parser_mono_Suc [THEN conjunct1, rule_format])

section \<open>The printer\<close>

text \<open>The text that is printed for an attribute.\<close>

fun commas :: "string list \<Rightarrow> string" where
  "commas [] = []"
| "commas [x] = x"
| "commas (x # y # ys) = x @ '','' @ commas (y # ys)"

definition quoted :: "string \<Rightarrow> string" where
  "quoted s = [CHR 0x22] @ s @ [CHR 0x22]"

definition byte_text :: "u8 \<Rightarrow> string" where
  "byte_text v = ''0x'' @ [hex_digit True (unat v div 16), hex_digit True (unat v mod 16)]"

fun attr_text :: "('f, 'i) attr_env \<Rightarrow> ('f, 'i) attribute \<Rightarrow> string" where
  "attr_text e Attr_Nil = ''None''"
| "attr_text e (Attr_Integer v) = ''0x'' @ print_hex (unat v)"
| "attr_text e (Attr_UInteger v) = ''0x'' @ print_hex (unat v)"
| "attr_text e (Attr_String s) = quoted s"
| "attr_text e (Attr_Boolean v) = (if v then ''True'' else ''False'')"
| "attr_text e (Attr_List xs) = ''['' @ commas (map (attr_text e) xs) @ '']''"
| "attr_text e (Attr_Dict ds) = ''{'' @ commas (map (\<lambda>(k, x). quoted k @ '':'' @ attr_text e x) ds) @ ''}''"
| "attr_text e (Attr_Data xs) = ''('' @ commas (map byte_text xs) @ '')''"
| "attr_text e (Attr_Interface f) =
    (if getFaceName e f = IFACE_SERVICE
     then ''{'' @ commas [quoted ''Type'' @ '':'' @ quoted (getFaceName e f), quoted ''ModuleName'' @ '':'' @ quoted (getObjName e f)] @ ''}''
     else [])"
| "attr_text e (Attr_Floating x) = fp_print4 e x"
| "attr_text e Attr_Invalid = []"

lemma commas_Cons: "commas (x # xs) = x @ (if xs = [] then [] else '','' @ commas xs)"
  by (cases xs) simp_all

lemma write_bin_bytes [simp]: "ab_bytes (write_bin p b) = ab_bytes b @ p"
  by (simp add: write_bin_def Let_def)

lemma write_bytes_text: "ab_bytes (write_bytes xs b) = ab_bytes b @ commas (map byte_text xs)"
  by (induction xs b rule: write_bytes.induct) (simp_all add: write_byte_def byte_text_def)

lemma printed_text:
  "ab_bytes (attribute_to_string e a b) = ab_bytes b @ attr_text e a"
  "ab_bytes (list_to_string e xs b) = ab_bytes b @ commas (map (attr_text e) xs)"
  "ab_bytes (dict_to_string e ds b) = ab_bytes b @ commas (map (\<lambda>(k, x). quoted k @ '':'' @ attr_text e x) ds)"
  by (induction e a b and e xs b and e ds b rule: attribute_to_string_list_to_string_dict_to_string.induct)
    (simp_all add: write_uint64_def quoted_def write_bytes_text commas_Cons Let_def)

text \<open>A buffer that has been allocated never overflows; the first write has to be shorter than the initial size.\<close>

definition ab_ok :: "autobuffer \<Rightarrow> bool" where
  "ab_ok b \<longleftrightarrow> length (ab_bytes b) < ab_size b \<and> \<not> ab_oob b"

lemma ab_grow_gt: "0 < sz \<Longrightarrow> need < ab_grow need sz"
  by (induction need sz rule: ab_grow.induct) (subst ab_grow.simps, auto)

lemma write_bin_ok [simp]: "ab_ok b \<Longrightarrow> ab_ok (write_bin p b)"
  by (auto simp: ab_ok_def write_bin_def Let_def not_le intro: ab_grow_gt)

lemma write_first_ok [simp]: "length p < 1024 \<Longrightarrow> ab_ok (write_bin p AutoBuffer)"
  by (simp add: ab_ok_def write_bin_def AutoBuffer_def)

lemma write_bytes_ok [simp]: "ab_ok b \<Longrightarrow> ab_ok (write_bytes xs b)"
  by (induction xs b rule: write_bytes.induct) (simp_all add: write_byte_def)

lemma printer_ok:
  "ab_ok b \<Longrightarrow> ab_ok (attribute_to_string e a b)"
  "ab_ok b \<Longrightarrow> ab_ok (list_to_string e xs b)"
  "ab_ok b \<Longrightarrow> ab_ok (dict_to_string e ds b)"
  by (induction e a b and e xs b and e ds b rule: attribute_to_string_list_to_string_dict_to_string.induct)
    (simp_all add: write_uint64_def Let_def)

lemma print_hex_length: "n < 16 ^ k \<Longrightarrow> 0 < k \<Longrightarrow> length (print_hex n) \<le> k"
proof (induction n arbitrary: k rule: print_hex.induct)
  case (1 n)
  then show ?case
  proof (cases "n < 16")
    case False
    with 1(2) have "k \<noteq> 1" by auto
    with 1(3) obtain j where j: "k = Suc j" "0 < j" by (cases k) auto
    with 1(2) have "n div 16 < 16 ^ j" by (simp add: less_mult_imp_div_less mult.commute)
    with 1(1) [OF False, of j] j False show ?thesis by (subst print_hex.simps) simp
  qed (subst print_hex.simps, simp add: Suc_leI)
qed

lemma print_u64_length: "length (print_hex (unat (v :: u64))) \<le> 16"
  using unsigned_less [where 'a = nat, of v] by (intro print_hex_length) simp_all

lemma printer_first:
  assumes "\<And>x. a = Attr_Floating x \<Longrightarrow> length (fp_print4 e x) < 64"
  shows "\<not> ab_oob (attribute_to_string e a AutoBuffer)"
    and "attr_text e a \<noteq> [] \<Longrightarrow> getBuffer (attribute_to_string e a AutoBuffer) = Some (attr_text e a)"
proof -
  have "\<not> ab_oob (attribute_to_string e a AutoBuffer) \<and>
      (attr_text e a \<noteq> [] \<longrightarrow> getBuffer (attribute_to_string e a AutoBuffer) = Some (ab_bytes (attribute_to_string e a AutoBuffer)))"
  proof (cases "attribute_to_string e a AutoBuffer = AutoBuffer")
    case True
    with printed_text(1) [of e a AutoBuffer] show ?thesis by (simp add: AutoBuffer_def)
  next
    case False
    have "ab_ok (attribute_to_string e a AutoBuffer)"
    proof (cases a)
      case (Attr_Integer v) then show ?thesis using print_u64_length [of v] by (simp add: write_uint64_def)
    next
      case (Attr_UInteger v) then show ?thesis using print_u64_length [of v] by (simp add: write_uint64_def)
    next
      case (Attr_Floating x) then show ?thesis using assms [of x] by simp
    qed (use False in \<open>simp_all add: printer_ok split: if_splits\<close>)
    then show ?thesis by (auto simp: ab_ok_def getBuffer_def)
  qed
  then show "\<not> ab_oob (attribute_to_string e a AutoBuffer)"
    and "attr_text e a \<noteq> [] \<Longrightarrow> getBuffer (attribute_to_string e a AutoBuffer) = Some (attr_text e a)"
    by (simp_all add: printed_text) (simp add: AutoBuffer_def)
qed

section \<open>Round trip\<close>

text \<open>The attributes that survive a round trip: a text must not hold a quotation mark and must fit the first allocation of the buffer,
  a dictionary must not have the key \<^verbatim>\<open>Type\<close>, a service must be found again under its name. An unsigned integer comes back as a
  signed one with the same bits.\<close>

definition plain_text :: "string \<Rightarrow> bool" where
  "plain_text s \<longleftrightarrow> CHR 0x22 \<notin> set s \<and> CHR 0x00 \<notin> set s \<and> length s < 1024"

fun wf_attr :: "('f, 'i) attr_env \<Rightarrow> ('f, 'i) attribute \<Rightarrow> bool" where
  "wf_attr e (Attr_String s) \<longleftrightarrow> plain_text s"
| "wf_attr e (Attr_List xs) \<longleftrightarrow> list_all (wf_attr e) xs"
| "wf_attr e (Attr_Dict ds) \<longleftrightarrow>
    distinct (map fst ds) \<and> list_all (\<lambda>(k, x). plain_text k \<and> k \<noteq> ''Type'' \<and> wf_attr e x) ds"
| "wf_attr e (Attr_Interface f) \<longleftrightarrow>
    getFaceName e f = IFACE_SERVICE \<and> plain_text (getObjName e f) \<and> get_service e (getObjName e f) = f"
| "wf_attr e (Attr_Floating x) \<longleftrightarrow> False"
| "wf_attr e Attr_Invalid \<longleftrightarrow> False"
| "wf_attr e _ \<longleftrightarrow> True"

fun read_back :: "('f, 'i) attribute \<Rightarrow> ('f, 'i) attribute" where
  "read_back (Attr_UInteger v) = Attr_Integer v"
| "read_back (Attr_List xs) = Attr_List (map read_back xs)"
| "read_back (Attr_Dict ds) = Attr_Dict (map (\<lambda>(k, x). (k, read_back x)) ds)"
| "read_back a = a"

text \<open>What may follow an attribute in a printed text, and how one begins.\<close>

definition ends :: "string \<Rightarrow> bool" where
  "ends r \<longleftrightarrow> r = [] \<or> hd r \<in> {CHR '','', CHR '']'', CHR ''}'', CHR '':''}"

definition begins :: "string \<Rightarrow> bool" where
  "begins s \<longleftrightarrow> s \<noteq> [] \<and> hd s \<in> {CHR 0x22, CHR ''['', CHR ''{'', CHR ''('', CHR ''N'', CHR ''T'', CHR ''F'', CHR ''0''}"

definition reads :: "('f, 'i) attr_env \<Rightarrow> string \<Rightarrow> ('f, 'i) attribute \<Rightarrow> bool" where
  "reads e t a \<longleftrightarrow> begins t \<and> (\<forall>r. ends r \<longrightarrow> (\<exists>n. string_to_attribute e n (t @ r) = Some (Parsed a r)))"

lemma skip_Cons [simp]:
  "skip_special_symbols (c # s) = (if c = CHR '' '' \<or> c = CHR 0x0D \<or> c = CHR 0x0A \<or> c = CHR 0x09 then skip_special_symbols s else c # s)"
  by (simp add: skip_special_symbols_def)

lemma cur_Cons [simp]: "cur (c # s) = c"
  by (simp add: cur_def)

lemma skip_ends [simp]: "ends r \<Longrightarrow> skip_special_symbols r = r"
  by (cases r) (auto simp: ends_def skip_special_symbols_def)

lemma skip_begins [simp]: "begins t \<Longrightarrow> skip_special_symbols (t @ r) = t @ r"
  by (cases t) (auto simp: begins_def skip_special_symbols_def)

lemma cur_begins: "begins t \<Longrightarrow> cur (t @ r) = hd t"
  by (cases t) (auto simp: begins_def cur_def)

lemma ends_Cons [simp]: "ends (CHR '','' # r)" "ends (CHR '']'' # r)" "ends (CHR ''}'' # r)" "ends (CHR '':'' # r)" "ends []"
  by (simp_all add: ends_def)

lemma reads_quoted: "plain_text s \<Longrightarrow> reads e (quoted s) (Attr_String s)"
proof (unfold reads_def, intro conjI allI impI)
  assume p: "plain_text s"
  show "begins (quoted s)" by (simp add: begins_def quoted_def)
  fix r assume r: "ends r"
  have t: "takeWhile (\<lambda>c. c \<noteq> CHR 0x22 \<and> c \<noteq> CHR 0x00) (s @ CHR 0x22 # r) = s"
    "dropWhile (\<lambda>c. c \<noteq> CHR 0x22 \<and> c \<noteq> CHR 0x00) (s @ CHR 0x22 # r) = CHR 0x22 # r"
    using p by (auto simp: plain_text_def takeWhile_append dropWhile_append)
  have "\<not> ab_oob (write_bin s AutoBuffer)" using p write_first_ok [of s] by (simp add: plain_text_def ab_ok_def)
  then have "string_to_attribute e 1 (quoted s @ r) = Some (Parsed (Attr_String s) r)"
    using r by (simp add: quoted_def parse_string_def t check_start_Parsed Let_def)
  then show "\<exists>n. string_to_attribute e n (quoted s @ r) = Some (Parsed (Attr_String s) r)" ..
qed

lemma hex_char:
  assumes "n < 16"
  shows "is_hex (hex_digit False n)" "hex_val (hex_digit False n) = n" "byte_digit v (hex_digit True n) = push_bit 4 v OR of_nat n"
proof -
  have "n \<in> {0, 1, 2, 3, 4, 5, 6, 7, 8, 9, 10, 11, 12, 13, 14, 15}" using assms by (simp only: insert_iff empty_iff simp_thms) presburger
  then have "is_hex (hex_digit False n) \<and> hex_val (hex_digit False n) = n \<and> byte_digit v (hex_digit True n) = push_bit 4 v OR of_nat n"
    by (elim insertE) (simp_all add: hex_digit_def is_hex_def is_dec_def hex_val_def byte_digit_def less_eq_char_def)
  then show "is_hex (hex_digit False n)" "hex_val (hex_digit False n) = n" "byte_digit v (hex_digit True n) = push_bit 4 v OR of_nat n" by simp_all
qed

lemma print_hex_set: "\<forall>c \<in> set (print_hex n). is_hex c"
  by (induction n rule: print_hex.induct) (subst print_hex.simps, simp add: hex_char)

lemma print_hex_value: "foldl (\<lambda>m c. 16 * m + hex_val c) 0 (print_hex n) = n"
  by (induction n rule: print_hex.induct) (subst print_hex.simps, simp add: hex_char)

lemma reads_hex: "reads e (''0x'' @ print_hex (unat v)) (Attr_Integer v)"
proof (unfold reads_def, intro conjI allI impI)
  show "begins (''0x'' @ print_hex (unat v))" by (simp add: begins_def)
  fix r assume r: "ends r"
  let ?h = "print_hex (unat v)"
  have nr: "\<not> is_hex (cur r)" "cur r \<noteq> CHR ''.''"
    using r by (cases r; auto simp: ends_def cur_def is_hex_def is_dec_def less_eq_char_def)+
  have w: "takeWhile is_hex (?h @ r) = ?h"
  proof -
    have "takeWhile is_hex (?h @ r) = ?h @ takeWhile is_hex r" using print_hex_set by (subst takeWhile_append) auto
    also have "takeWhile is_hex r = []" using nr(1) by (cases r) simp_all
    finally show ?thesis by simp
  qed
  have "takeWhile is_hex ?h = ?h" using print_hex_set by (simp add: takeWhile_eq_all_conv)
  moreover have "unat v \<le> 2 ^ 64 - 1" using unsigned_less [where 'a = nat, of v] by simp
  ultimately have "strtoull (''0x'' @ ?h) = v"
    unfolding strtoull_def digits_value_def by (simp add: starts_def print_hex_value min_absorb2 del: takeWhile_eq_all_conv)
  moreover have "take 61 ?h = ?h" using print_u64_length [of v] by simp
  ultimately have "parse_number e (''0x'' @ ?h @ r) = Parsed (Attr_Integer v) r"
    using nr r by (simp add: parse_number_def Let_def starts_def w)
  then have "string_to_attribute e 1 (''0x'' @ ?h @ r) = Some (Parsed (Attr_Integer v) r)"
    by (simp add: Let_def starts_def check_start_Parsed)
  then show "\<exists>n. string_to_attribute e n ((''0x'' @ ?h) @ r) = Some (Parsed (Attr_Integer v) r)"
    by (intro exI [of _ 1]) simp
qed

lemma reads_word:
  "reads e ''None'' Attr_Nil" "reads e ''True'' (Attr_Boolean True)" "reads e ''False'' (Attr_Boolean False)"
  unfolding reads_def by (auto simp: begins_def Let_def starts_def check_start_Parsed intro!: exI [of _ 1])

lemma byte_digits: "push_bit 4 (of_nat (unat x div 16)) OR of_nat (unat x mod 16) = (x :: u8)"
proof -
  have "unat x div 16 = unat (drop_bit 4 x)" by (simp only: unat_drop_bit_eq) (simp add: drop_bit_eq_div)
  moreover have "unat x mod 16 = unat (take_bit 4 x)" by (simp only: unsigned_take_bit_eq) (simp add: take_bit_eq_mod)
  ultimately have "of_nat (unat x div 16) = drop_bit 4 x" "of_nat (unat x mod 16) = take_bit 4 x" by (simp_all only: of_nat_unat ucast_id)
  then show ?thesis by (simp add: bit_eq_iff bit_simps) (auto simp: less_diff_conv2)
qed

lemma parse_data_bytes:
  assumes "ends r"
  shows "parse_data (commas (map byte_text xs) @ CHR '')'' # r) acc = Parsed (Attr_Data (acc @ xs)) r"
proof (induction xs arbitrary: acc)
  case Nil
  show ?case using assms by (subst parse_data.simps) simp
next
  case (Cons x xs)
  have d: "unat x div 16 < 16" "unat x mod 16 < 16" using unsigned_less [where 'a = nat, of x] by simp_all
  have "byte_digit (byte_digit 0 (hex_digit True (unat x div 16))) (hex_digit True (unat x mod 16)) = x"
    using byte_digits [of x] by (simp add: hex_char d)
  moreover have "skip_special_symbols (commas (map byte_text xs) @ CHR '')'' # r) = commas (map byte_text xs) @ CHR '')'' # r"
    by (cases xs) (simp_all add: commas_Cons byte_text_def)
  ultimately show ?case
    using Cons [of "acc @ [x]"] assms unfolding list.map commas_Cons byte_text_def [of x]
    by (subst parse_data.simps) (simp add: starts_def Let_def)
qed

lemma reads_data: "reads e (''('' @ commas (map byte_text xs) @ '')'') (Attr_Data xs)"
proof (unfold reads_def, intro conjI allI impI)
  show "begins (''('' @ commas (map byte_text xs) @ '')'')" by (simp add: begins_def)
  fix r assume r: "ends r"
  have "skip_special_symbols (commas (map byte_text xs) @ CHR '')'' # r) = commas (map byte_text xs) @ CHR '')'' # r"
    by (cases xs) (simp_all add: commas_Cons byte_text_def)
  then show "\<exists>n. string_to_attribute e n ((''('' @ commas (map byte_text xs) @ '')'') @ r) = Some (Parsed (Attr_Data xs) r)"
    by (intro exI [of _ 1]) (simp add: Let_def check_start_Parsed parse_data_bytes [OF r])
qed

text \<open>The fuel of a list or dictionary is found from that of its parts.\<close>

lemma parse_list_mono: "parse_list e n s xs = Some p \<Longrightarrow> n \<le> m \<Longrightarrow> parse_list e m s xs = Some p"
  by (induction m) (auto simp: le_Suc_eq simp del: parser_simps intro: parser_mono_Suc [THEN conjunct2, THEN conjunct1, rule_format])

lemma parse_dict_mono: "parse_dict e n s ds = Some p \<Longrightarrow> n \<le> m \<Longrightarrow> parse_dict e m s ds = Some p"
  by (induction m) (auto simp: le_Suc_eq simp del: parser_simps intro: parser_mono_Suc [THEN conjunct2, THEN conjunct2, rule_format])

lemma skip_comma_end [simp]: "skip_comma (CHR '']'' # r) = CHR '']'' # r" "skip_comma (CHR ''}'' # r) = CHR ''}'' # r"
  by (simp_all add: skip_comma_def)

lemma skip_comma_next [simp]: "begins t \<Longrightarrow> skip_comma (CHR '','' # t @ r) = t @ r"
  by (simp add: skip_comma_def)

lemma begins_commas: "begins t \<Longrightarrow> begins (commas (t # ts))"
  by (auto simp: commas_Cons begins_def)

lemma list_reads:
  assumes "list_all2 (reads e) ts xs" and "ends r"
  shows "\<exists>n. parse_list e n (commas ts @ CHR '']'' # r) acc = Some (Parsed (Attr_List (acc @ xs)) r)"
  using assms(1)
proof (induction ts xs arbitrary: acc rule: list_all2_induct)
  case Nil
  show ?case using assms(2) by (intro exI [of _ 1]) simp
next
  case (Cons t ts x xs)
  define q where "q = (if ts = [] then [] else '','' @ commas ts) @ CHR '']'' # r"
  have c: "commas (t # ts) @ CHR '']'' # r = t @ q" by (simp add: q_def commas_Cons)
  have b: "begins t" using Cons(1) by (simp add: reads_def)
  have "ends q" by (simp add: q_def)
  then obtain n where n: "string_to_attribute e n (t @ q) = Some (Parsed x q)" using Cons(1) by (auto simp: reads_def)
  have "skip_comma q = commas ts @ CHR '']'' # r"
  proof (cases ts)
    case (Cons u us)
    with \<open>list_all2 (reads e) ts xs\<close> have "begins (commas ts)" by (auto simp: list_all2_Cons1 reads_def begins_commas)
    then show ?thesis using Cons by (simp add: q_def)
  qed (simp add: q_def)
  then obtain m where m: "parse_list e m (skip_comma q) (acc @ [x]) = Some (Parsed (Attr_List (acc @ x # xs)) r)"
    using Cons(3) [of "acc @ [x]"] by auto
  have "cur (t @ q) \<noteq> CHR '']'' \<and> cur (t @ q) \<noteq> CHR 0x00" using b by (auto simp: cur_begins begins_def)
  then have "parse_list e (Suc (n + m)) (t @ q) acc = Some (Parsed (Attr_List (acc @ x # xs)) r)"
    using parser_mono [OF n, of "n + m"] parse_list_mono [OF m, of "n + m"] by simp
  then show ?case unfolding c by blast
qed

lemma reads_list:
  assumes "list_all2 (reads e) ts xs"
  shows "reads e (''['' @ commas ts @ '']'') (Attr_List xs)"
proof (unfold reads_def, intro conjI allI impI)
  show "begins (''['' @ commas ts @ '']'')" by (simp add: begins_def)
  fix r assume r: "ends r"
  obtain n where "parse_list e n (commas ts @ CHR '']'' # r) [] = Some (Parsed (Attr_List xs) r)"
    using list_reads [OF assms r, of "[]"] by auto
  moreover have "skip_special_symbols (commas ts @ CHR '']'' # r) = commas ts @ CHR '']'' # r"
    using assms by (cases ts) (auto simp: list_all2_Cons1 reads_def begins_commas)
  ultimately show "\<exists>n. string_to_attribute e n ((''['' @ commas ts @ '']'') @ r) = Some (Parsed (Attr_List xs) r)"
    by (intro exI [of _ "Suc n"]) (simp add: check_start_Parsed)
qed

definition entry :: "string \<times> ('f, 'i) attribute \<times> string \<Rightarrow> string" where
  "entry = (\<lambda>(k, x, t). quoted k @ '':'' @ t)"

lemma dict_reads:
  assumes "list_all (\<lambda>(k, x, t). plain_text k \<and> reads e t x) ds" and "ends r"
  shows "\<exists>n. parse_dict e n (commas (map entry ds) @ CHR ''}'' # r) acc =
    Some (finish_dict e (fold (\<lambda>(k, x, t). dict_put k x) ds acc) r)"
  using assms(1)
proof (induction ds arbitrary: acc)
  case Nil
  show ?case using assms(2) by (intro exI [of _ 1]) simp
next
  case (Cons d ds)
  obtain k x t where d: "d = (k, x, t)" by (cases d)
  with Cons(2) have k: "reads e (quoted k) (Attr_String k)" and x: "reads e t x" by (simp_all add: reads_quoted)
  define q where "q = (if ds = [] then [] else '','' @ commas (map entry ds)) @ CHR ''}'' # r"
  have c: "commas (map entry (d # ds)) @ CHR ''}'' # r = quoted k @ CHR '':'' # t @ q"
    by (simp add: q_def commas_Cons d entry_def)
  have b: "begins t" using x by (simp add: reads_def)
  have q: "ends q" by (simp add: q_def)
  then obtain n where n: "string_to_attribute e n (t @ q) = Some (Parsed x q)" using x by (auto simp: reads_def)
  obtain l where l: "string_to_attribute e l (quoted k @ CHR '':'' # t @ q) = Some (Parsed (Attr_String k) (CHR '':'' # t @ q))"
    using k ends_Cons(4) unfolding reads_def by blast
  have "skip_comma q = commas (map entry ds) @ CHR ''}'' # r"
  proof (cases ds)
    case (Cons u us)
    have "begins (commas (map entry ds))" unfolding Cons by (cases u) (simp add: commas_Cons entry_def begins_def quoted_def)
    then show ?thesis using Cons by (simp add: q_def)
  qed (simp add: q_def)
  then obtain m where m: "parse_dict e m (skip_comma q) (dict_put k x acc) =
      Some (finish_dict e (fold (\<lambda>(k, x, t). dict_put k x) (d # ds) acc) r)"
    using Cons by (auto simp: d)
  let ?N = "l + n + m"
  have "cur (quoted k @ CHR '':'' # t @ q) = CHR 0x22" by (simp add: quoted_def)
  then have "parse_dict e (Suc ?N) (quoted k @ CHR '':'' # t @ q) acc =
      Some (finish_dict e (fold (\<lambda>(k, x, t). dict_put k x) (d # ds) acc) r)"
    using parser_mono [OF n, of ?N] parser_mono [OF l, of ?N] parse_dict_mono [OF m, of ?N] b by (simp add: Let_def)
  then show ?case unfolding c by blast
qed

lemma reads_dict:
  assumes "list_all (\<lambda>(k, x, t). plain_text k \<and> reads e t x) ds"
    and "\<And>r. finish_dict e (fold (\<lambda>(k, x, t). dict_put k x) ds []) r = Parsed a r"
  shows "reads e (''{'' @ commas (map entry ds) @ ''}'') a"
proof (unfold reads_def, intro conjI allI impI)
  show "begins (''{'' @ commas (map entry ds) @ ''}'')" by (simp add: begins_def)
  fix r assume r: "ends r"
  obtain n where "parse_dict e n (commas (map entry ds) @ CHR ''}'' # r) [] = Some (Parsed a r)"
    using dict_reads [OF assms(1) r, of "[]"] assms(2) by auto
  moreover have "skip_special_symbols (commas (map entry ds) @ CHR ''}'' # r) = commas (map entry ds) @ CHR ''}'' # r"
    by (cases ds) (auto simp: commas_Cons entry_def quoted_def split: prod.splits)
  ultimately show "\<exists>n. string_to_attribute e n ((''{'' @ commas (map entry ds) @ ''}'') @ r) = Some (Parsed a r)"
    by (intro exI [of _ "Suc n"]) (simp add: check_start_Parsed)
qed

lemma dict_put_new: "k \<notin> fst ` set d \<Longrightarrow> dict_put k x d = d @ [(k, x)]"
  by (induction d) auto

lemma dict_puts:
  "distinct (map fst ds) \<Longrightarrow> fst ` set ds \<inter> fst ` set d = {} \<Longrightarrow>
   fold (\<lambda>(k, x, t). dict_put k x) ds d = d @ map (\<lambda>(k, x, t). (k, x)) ds"
proof (induction ds arbitrary: d)
  case (Cons y ds)
  then show ?case by (cases y) (auto simp: dict_put_new)
qed simp

lemma has_key_absent: "k \<notin> fst ` set d \<Longrightarrow> \<not> has_key d k"
  by (induction d k rule: has_key.induct) auto

lemma reads_attr_text: "wf_attr e a \<Longrightarrow> reads e (attr_text e a) (read_back a)"
proof (induction e a rule: attr_text.induct)
  case (6 e xs)
  then have "list_all2 (reads e) (map (attr_text e) xs) (map read_back xs)"
    by (auto simp: list_all2_conv_all_nth list_all_length)
  then show ?case by (simp add: reads_list del: append.simps)
next
  case (7 e ds)
  let ?ds = "map (\<lambda>(k, x). (k, read_back x, attr_text e x)) ds"
  have wf: "distinct (map fst ds)" "\<And>k x. (k, x) \<in> set ds \<Longrightarrow> plain_text k \<and> k \<noteq> ''Type'' \<and> wf_attr e x"
    using 7(2) by (auto simp: list_all_iff)
  have "fold (\<lambda>(k, x, t). dict_put k x) ?ds [] = map (\<lambda>(k, x). (k, read_back x)) ds"
    using wf(1) by (subst dict_puts) (auto simp: case_prod_beta comp_def)
  moreover have "\<not> has_key (map (\<lambda>(k, x). (k, read_back x)) ds) ''Type''"
    using wf(2) by (intro has_key_absent) fastforce
  ultimately have "finish_dict e (fold (\<lambda>(k, x, t). dict_put k x) ?ds []) r = Parsed (read_back (Attr_Dict ds)) r" for r
    by (simp add: finish_dict_def)
  moreover have "list_all (\<lambda>(k, x, t). plain_text k \<and> reads e t x) ?ds"
    using wf(2) 7(1) by (fastforce simp: list_all_iff)
  moreover have "map entry ?ds = map (\<lambda>(k, x). quoted k @ '':'' @ attr_text e x) ds" by (simp add: entry_def case_prod_beta)
  ultimately show ?case using reads_dict [of e ?ds "read_back (Attr_Dict ds)"] by (simp only: attr_text.simps)
next
  case (9 e f)
  let ?ds = "[(''Type'', Attr_String IFACE_SERVICE, quoted IFACE_SERVICE), (''ModuleName'', Attr_String (getObjName e f), quoted (getObjName e f))]"
  have "list_all (\<lambda>(k, x, t). plain_text k \<and> reads e t x) ?ds"
    using 9 by (simp add: reads_quoted) (simp add: plain_text_def IFACE_SERVICE_def reads_quoted)
  moreover have "finish_dict e (fold (\<lambda>(k, x, t). dict_put k x) ?ds []) r = Parsed (Attr_Interface f) r" for r
    using 9 by (simp add: finish_dict_def is_nil_def)
  ultimately show ?case using reads_dict [of e ?ds] 9 by (simp add: entry_def)
qed (simp_all add: reads_quoted reads_hex reads_word reads_data del: append.simps)

section \<open>The properties\<close>

text \<open>C36. The parser of configuration texts returns on every text: with the fuel of \<^verbatim>\<open>from_config\<close> it never runs out, and no larger
  fuel changes what it returns.\<close>

theorem parser_returns: "\<exists>p. \<forall>k. string_to_attribute e (2 * length s + 3 + k) s = Some p"
proof -
  obtain p where "string_to_attribute e (2 * length s + 3) s = Some p"
    using parser_total(1) [of s "2 * length s + 3" e] by (auto simp del: parser_simps)
  then show ?thesis using parser_mono [OF _ le_add1] by blast
qed


text \<open>A dictionary with every kind of value, in an environment with the single service \<^verbatim>\<open>bus0\<close>.\<close>

definition sample_env :: "(unit, unit) attr_env" where
  "sample_env = \<lparr>fp_of_int = \<lambda>_. (), fp_add = \<lambda>_ _. (), fp_mult = \<lambda>_ _. (), fp_divide = \<lambda>_ _. (), fp_neg = \<lambda>_. (), fp_print4 = \<lambda>_. [],
     getFaceName = \<lambda>_. IFACE_SERVICE, getObjName = \<lambda>_. ''bus0'', get_service = \<lambda>_. ()\<rparr>"

definition sample_attr :: "(unit, unit) attribute" where
  "sample_attr = Attr_Dict
     [(''bus'', Attr_Interface ()), (''regs'', Attr_List [Attr_Integer (- 5), Attr_UInteger 7, Attr_Nil, Attr_Boolean True]),
      (''raw'', Attr_Data [0xAB, 3]), (''name'', Attr_String ''core 0'')]"


text \<open>The first write to a buffer allocates 1024 bytes, so a longer quoted text overruns it.\<close>

lemma parse_long_text:
  "parse_string (CHR 0x22) (replicate 1024 (CHR ''a'') @ [CHR 0x22]) = Undefined"
  by (simp add: parse_string_def Let_def write_bin_def AutoBuffer_def takeWhile_append)

end
