(* ===== verification/Attr_Sort.thy ===== *)
theory Attr_Sort
  imports Attribute
begin

text \<open>
  The list operations of an attribute and its in-place quicksort (\<^verbatim>\<open>common/attribute.cpp\<close>). A list attribute is the list of its items.
  The comparisons of the sort read the union of an attribute according to the kind of the other operand; a comparison of
  different kinds is undefined and gives \<open>None\<close>.
\<close>

section \<open>List operations\<close>

definition swap_list_item :: "nat \<Rightarrow> nat \<Rightarrow> 'a list \<Rightarrow> 'a list" where
  "swap_list_item n m xs = (if n = m then xs else xs[n := xs ! m, m := xs ! n])"

definition insert_to_list :: "nat \<Rightarrow> 'a \<Rightarrow> 'a list \<Rightarrow> 'a list" where
  "insert_to_list idx item xs = (if length xs < idx then xs else take idx xs @ item # drop idx xs)"

text \<open>The removed item is replaced by the last one.\<close>

definition remove_from_list :: "nat \<Rightarrow> ('f, 'i) attribute list \<Rightarrow> ('f, 'i) attribute list" where
  "remove_from_list idx xs =
    (if length xs \<le> idx then xs
     else let xs = xs[idx := Attr_Invalid]
          in if idx = length xs - 1 then take (length xs - 1) xs
             else take (length xs - 1) (swap_list_item idx (length xs - 1) xs))"

text \<open>The loop variable starts at \<^verbatim>\<open>start\<close>, and both indices are counted from it. An index outside the list is undefined.\<close>

definition trim_list :: "nat \<Rightarrow> nat \<Rightarrow> 'a list \<Rightarrow> 'a list option" where
  "trim_list st en xs =
    (if length xs < en \<or> en < st then None
     else Some (take (length xs - (en - st)) (fold (\<lambda>i xs. xs[st + i := xs ! (en + i)]) [st..<length xs - en] xs)))"

section \<open>Comparisons\<close>

fun strcmp :: "string \<Rightarrow> string \<Rightarrow> int" where
  "strcmp [] [] = 0"
| "strcmp [] (c # t) = - int (of_char c) - 1"
| "strcmp (c # s) [] = int (of_char c) + 1"
| "strcmp (c # s) (d # t) = (if c = d then strcmp s t else int (of_char c) - int (of_char d))"

text \<open>The sign of the comparison of an item with the pivot; an item of another kind is neither smaller nor larger.\<close>

definition raw_integer :: "('f, 'i) attribute \<Rightarrow> u64 option" where
  "raw_integer a = (case a of Attr_Integer v \<Rightarrow> Some v | Attr_UInteger v \<Rightarrow> Some v | _ \<Rightarrow> None)"

definition scalar_cmp :: "('f, 'i) attribute \<Rightarrow> ('f, 'i) attribute \<Rightarrow> int option" where
  "scalar_cmp a p =
    (case a of
       Attr_String s \<Rightarrow> (case p of Attr_String t \<Rightarrow> Some (strcmp s t) | _ \<Rightarrow> None)
     | Attr_Integer v \<Rightarrow> map_option (\<lambda>w. sint v - sint w) (raw_integer p)
     | Attr_UInteger v \<Rightarrow> map_option (\<lambda>w. uint v - uint w) (raw_integer p)
     | _ \<Rightarrow> Some 0)"

definition is_scalar :: "('f, 'i) attribute \<Rightarrow> bool" where
  "is_scalar a = (case a of Attr_String _ \<Rightarrow> True | Attr_Integer _ \<Rightarrow> True | Attr_UInteger _ \<Rightarrow> True | _ \<Rightarrow> False)"

definition item_cmp :: "nat \<Rightarrow> ('f, 'i) attribute \<Rightarrow> ('f, 'i) attribute \<Rightarrow> int option" where
  "item_cmp lst_idx a p =
    (case a of
       Attr_List xs \<Rightarrow>
         if length xs \<le> lst_idx then None
         else if \<not> is_scalar (xs ! lst_idx) then Some 0
         else (case p of Attr_List ys \<Rightarrow> if length ys \<le> lst_idx then None else scalar_cmp (xs ! lst_idx) (ys ! lst_idx) | _ \<Rightarrow> None)
     | _ \<Rightarrow> scalar_cmp a p)"

section \<open>Quicksort\<close>

text \<open>The two scans. The pivot is a pointer to the item at \<^verbatim>\<open>lo\<close>, so it is read from the list as it is at the time of the scan.\<close>

function scan_up :: "nat \<Rightarrow> ('f, 'i) attribute list \<Rightarrow> nat \<Rightarrow> nat \<Rightarrow> nat \<Rightarrow> nat option" where
  "scan_up lst_idx A lo hi i =
    (if i < hi then
       case item_cmp lst_idx (A ! i) (A ! lo) of
         None \<Rightarrow> None
       | Some c \<Rightarrow> if c < 0 then scan_up lst_idx A lo hi (i + 1) else Some i
     else Some i)"
  by pat_completeness auto
termination by (relation "measure (\<lambda>(x, A, lo, hi, i). hi - i)") auto

function scan_down :: "nat \<Rightarrow> ('f, 'i) attribute list \<Rightarrow> nat \<Rightarrow> nat \<Rightarrow> nat option" where
  "scan_down lst_idx A lo j =
    (if lo < j then
       case item_cmp lst_idx (A ! j) (A ! lo) of
         None \<Rightarrow> None
       | Some c \<Rightarrow> if 0 < c then scan_down lst_idx A lo (j - 1) else Some j
     else Some j)"
  by pat_completeness auto
termination by (relation "measure (\<lambda>(x, A, lo, j). j)") auto

declare scan_up.simps [simp del] scan_down.simps [simp del]

lemma scan_up_ge: "scan_up x A lo hi i = Some k \<Longrightarrow> i \<le> k"
  by (induction x A lo hi i rule: scan_up.induct)
    (subst (asm) (2) scan_up.simps, auto split: if_splits option.splits)

lemma scan_down_le: "scan_down x A lo j = Some k \<Longrightarrow> k \<le> j"
  by (induction x A lo j rule: scan_down.induct)
    (subst (asm) (2) scan_down.simps, auto split: if_splits option.splits)

function partition_loop :: "nat \<Rightarrow> nat \<Rightarrow> nat \<Rightarrow> ('f, 'i) attribute list \<Rightarrow> nat \<Rightarrow> nat \<Rightarrow> (nat \<times> ('f, 'i) attribute list) option" where
  "partition_loop lst_idx lo hi A i j =
    (case (scan_up lst_idx A lo hi i, scan_down lst_idx A lo j) of
       (Some i', Some j') \<Rightarrow>
         if i' < j' then partition_loop lst_idx lo hi (swap_list_item i' j' A) (i' + 1) (j' - 1) else Some (j', A)
     | _ \<Rightarrow> None)"
  by pat_completeness auto
termination
  by (relation "measure (\<lambda>(x, lo, hi, A, i, j). j - i)") (auto dest!: sym [of "Some _"] scan_up_ge scan_down_le)

declare partition_loop.simps [simp del]

definition attr_partition :: "nat \<Rightarrow> ('f, 'i) attribute list \<Rightarrow> nat \<Rightarrow> nat \<Rightarrow> (nat \<times> ('f, 'i) attribute list) option" where
  "attr_partition lst_idx A lo hi = partition_loop lst_idx lo hi A lo hi"

text \<open>The scan upwards stops at the pivot itself, so the index returned is below \<^verbatim>\<open>hi\<close> and the sort ends.\<close>

lemma item_cmp_refl: "item_cmp x a a = Some c \<Longrightarrow> c = 0"
proof -
  have "strcmp s s = 0" for s by (induction s) simp_all
  then have "scalar_cmp b b = Some d \<Longrightarrow> d = 0" for b :: "('f, 'i) attribute" and d
    by (auto simp: scalar_cmp_def raw_integer_def split: attribute.splits)
  then show "item_cmp x a a = Some c \<Longrightarrow> c = 0" for a :: "('f, 'i) attribute"
    by (auto simp: item_cmp_def split: attribute.splits if_splits)
qed

lemma scan_up_lo: "scan_up x A lo hi lo = Some k \<Longrightarrow> k = lo"
  by (subst (asm) scan_up.simps) (auto split: if_splits option.splits dest: item_cmp_refl)

lemma scan_down_ge: "scan_down x A lo j = Some k \<Longrightarrow> lo \<le> j \<Longrightarrow> lo \<le> k"
  by (induction x A lo j rule: scan_down.induct)
    (subst (asm) (2) scan_down.simps, auto split: if_splits option.splits)

lemma partition_loop_bounds: "partition_loop x lo hi A i j = Some (q, B) \<Longrightarrow> lo \<le> i \<Longrightarrow> lo \<le> j \<Longrightarrow> lo \<le> q \<and> q \<le> j"
proof (induction x lo hi A i j rule: partition_loop.induct)
  case (1 x lo hi A i j)
  from 1(2) obtain i' j' where s: "scan_up x A lo hi i = Some i'" "scan_down x A lo j = Some j'"
    by (subst (asm) partition_loop.simps) (auto split: option.splits)
  have b: "i \<le> i'" "lo \<le> j'" "j' \<le> j" using scan_up_ge [OF s(1)] scan_down_ge [OF s(2) 1(4)] scan_down_le [OF s(2)] by simp_all
  show ?case
  proof (cases "i' < j'")
    case True
    with 1(2) s have "partition_loop x lo hi (swap_list_item i' j' A) (i' + 1) (j' - 1) = Some (q, B)"
      by (subst (asm) partition_loop.simps) simp
    from 1(1) [OF refl s True this] 1(3) b True show ?thesis by linarith
  next
    case False
    with 1(2) s b show ?thesis by (subst (asm) partition_loop.simps) simp
  qed
qed

lemma attr_partition_bounds:
  assumes "attr_partition x A lo hi = Some (q, B)" and "lo < hi"
  shows "lo \<le> q \<and> q < hi"
proof -
  from assms(1) obtain j where s: "scan_up x A lo hi lo = Some lo" "scan_down x A lo hi = Some j"
    unfolding attr_partition_def by (subst (asm) partition_loop.simps) (auto split: option.splits dest: scan_up_lo)
  have j: "lo \<le> j" "j \<le> hi" using scan_down_ge [OF s(2)] scan_down_le [OF s(2)] assms(2) by simp_all
  show ?thesis
  proof (cases "lo < j")
    case True
    with assms(1) s have "partition_loop x lo hi (swap_list_item lo j A) (lo + 1) (j - 1) = Some (q, B)"
      unfolding attr_partition_def by (subst (asm) partition_loop.simps) simp
    from partition_loop_bounds [OF this] True j show ?thesis by fastforce
  next
    case False
    with assms s j show ?thesis unfolding attr_partition_def by (subst (asm) partition_loop.simps) simp
  qed
qed

function quicksort :: "nat \<Rightarrow> ('f, 'i) attribute list \<Rightarrow> nat \<Rightarrow> nat \<Rightarrow> ('f, 'i) attribute list option" where
  "quicksort lst_idx A lo hi =
    (if hi \<le> lo then Some A
     else case attr_partition lst_idx A lo hi of
         None \<Rightarrow> None
       | Some (q, A) \<Rightarrow> (case quicksort lst_idx A lo q of None \<Rightarrow> None | Some A \<Rightarrow> quicksort lst_idx A (q + 1) hi))"
  by pat_completeness auto
termination
  by (relation "measure (\<lambda>(x, A, lo, hi). hi - lo)") (auto simp: not_le dest: attr_partition_bounds)

declare quicksort.simps [simp del]

text \<open>For an empty list the source passes \<^verbatim>\<open>hi = -1\<close>, which like \<open>0\<close> is not above \<^verbatim>\<open>lo\<close>.\<close>

definition sort_list :: "nat \<Rightarrow> ('f, 'i) attribute list \<Rightarrow> ('f, 'i) attribute list option" where
  "sort_list idx A = quicksort idx A 0 (length A - 1)"

section \<open>Permutations of a part of a list\<close>

definition perm_in :: "nat \<Rightarrow> nat \<Rightarrow> 'a list \<Rightarrow> 'a list \<Rightarrow> bool" where
  "perm_in lo hi A B \<longleftrightarrow>
    length B = length A \<and> mset B = mset A \<and> (\<forall>m. m < lo \<or> hi < m \<longrightarrow> B ! m = A ! m) \<and> (!) B ` {lo..hi} = (!) A ` {lo..hi}"

lemma perm_in_refl [simp]: "perm_in lo hi A A"
  by (simp add: perm_in_def)

lemma perm_in_trans: "perm_in lo hi A B \<Longrightarrow> perm_in lo hi B C \<Longrightarrow> perm_in lo hi A C"
  by (simp add: perm_in_def)

lemma perm_in_mono: "perm_in lo hi A B \<Longrightarrow> lo' \<le> lo \<Longrightarrow> hi \<le> hi' \<Longrightarrow> perm_in lo' hi' A B"
proof -
  assume a: "perm_in lo hi A B" "lo' \<le> lo" "hi \<le> hi'"
  have "(!) B ` {lo'..hi'} = (!) A ` {lo'..hi'}"
  proof (cases "lo \<le> hi")
    case True
    then have e: "{lo'..hi'} = ({lo'..hi'} - {lo..hi}) \<union> {lo..hi}" using a by auto
    have "(!) B ` ({lo'..hi'} - {lo..hi}) = (!) A ` ({lo'..hi'} - {lo..hi})"
      using a(1) by (intro image_cong) (auto simp: perm_in_def)
    then show ?thesis using a(1) by (subst (1 2) e) (simp only: image_Un perm_in_def)
  next
    case False
    then have "B ! m = A ! m" for m using a(1) by (auto simp: perm_in_def)
    then show ?thesis by simp
  qed
  then show ?thesis using a by (auto simp: perm_in_def)
qed

lemma swap_nth:
  "i < length A \<Longrightarrow> j < length A \<Longrightarrow> swap_list_item i j A ! m = (if m = i then A ! j else if m = j then A ! i else A ! m)"
  by (auto simp: swap_list_item_def nth_list_update)

lemma perm_in_swap: "lo \<le> i \<Longrightarrow> i \<le> j \<Longrightarrow> j \<le> hi \<Longrightarrow> j < length A \<Longrightarrow> perm_in lo hi A (swap_list_item i j A)"
proof -
  assume a: "lo \<le> i" "i \<le> j" "j \<le> hi" "j < length A"
  let ?B = "swap_list_item i j A"
  have n: "?B ! m = (if m = i then A ! j else if m = j then A ! i else A ! m)" for m using a by (simp add: swap_nth)
  have "mset ?B = mset A" using a by (auto simp: swap_list_item_def mset_swap)
  moreover have "(!) ?B ` {lo..hi} = (!) A ` {lo..hi}"
  proof (intro equalityI subsetI)
    fix x assume "x \<in> (!) ?B ` {lo..hi}"
    then obtain m where "m \<in> {lo..hi}" "x = ?B ! m" by auto
    then show "x \<in> (!) A ` {lo..hi}" using a by (auto simp: n)
  next
    fix x assume "x \<in> (!) A ` {lo..hi}"
    then obtain m where m: "m \<in> {lo..hi}" "x = A ! m" by auto
    then have "x = ?B ! (if m = i then j else if m = j then i else m)" by (simp add: n)
    then show "x \<in> (!) ?B ` {lo..hi}" using a m(1) by auto
  qed
  ultimately show ?thesis using a by (simp add: perm_in_def n) (simp add: swap_list_item_def)
qed

section \<open>The sort is a sort\<close>

text \<open>What the sort needs of the comparison: on the items of interest it follows a linear order of their keys.\<close>

locale item_order =
  fixes lst_idx :: nat and ok :: "('f, 'i) attribute \<Rightarrow> bool" and key :: "('f, 'i) attribute \<Rightarrow> 'k :: linorder"
  assumes cmp: "ok x \<Longrightarrow> ok y \<Longrightarrow> \<exists>c. item_cmp lst_idx x y = Some c \<and> (c < 0 \<longleftrightarrow> key x < key y) \<and> (0 < c \<longleftrightarrow> key y < key x)"
begin

lemma scan_up_spec:
  assumes "\<forall>x \<in> set A. ok x" and "hi < length A" and "lo < length A"
  shows "\<exists>k. scan_up lst_idx A lo hi i = Some k \<and> i \<le> k \<and> (\<forall>m. i \<le> m \<and> m < k \<longrightarrow> key (A ! m) < key (A ! lo)) \<and>
    (k < hi \<longrightarrow> key (A ! lo) \<le> key (A ! k)) \<and> (i \<le> hi \<longrightarrow> k \<le> hi)"
proof (induction "hi - i" arbitrary: i)
  case 0
  then show ?case by (subst scan_up.simps) auto
next
  case (Suc d)
  then have i: "i < hi" by simp
  obtain c where c: "item_cmp lst_idx (A ! i) (A ! lo) = Some c" "c < 0 \<longleftrightarrow> key (A ! i) < key (A ! lo)"
    using cmp [of "A ! i" "A ! lo"] assms i by auto
  have "d = hi - Suc i" using Suc(2) by simp
  from Suc(1) [OF this] obtain k where k: "scan_up lst_idx A lo hi (Suc i) = Some k" "Suc i \<le> k"
    "\<forall>m. Suc i \<le> m \<and> m < k \<longrightarrow> key (A ! m) < key (A ! lo)" "k < hi \<longrightarrow> key (A ! lo) \<le> key (A ! k)" "k \<le> hi"
    using i by auto
  have "scan_up lst_idx A lo hi i = (if c < 0 then Some k else Some i)"
    by (subst scan_up.simps) (simp add: i c(1) k(1))
  moreover have "m = i \<or> Suc i \<le> m" if "i \<le> m" for m using that by linarith
  ultimately show ?case using k c(2) i by (cases "c < 0") (fastforce simp: not_less)+
qed

lemma scan_down_spec:
  assumes "\<forall>x \<in> set A. ok x" and "j < length A" and "lo \<le> j"
  shows "\<exists>k. scan_down lst_idx A lo j = Some k \<and> lo \<le> k \<and> k \<le> j \<and> (\<forall>m. k < m \<and> m \<le> j \<longrightarrow> key (A ! lo) < key (A ! m)) \<and>
    key (A ! k) \<le> key (A ! lo)"
  using assms(2,3)
proof (induction "j - lo" arbitrary: j)
  case 0
  then show ?case by (subst scan_down.simps) auto
next
  case (Suc d)
  then have j: "lo < j" by simp
  obtain c where c: "item_cmp lst_idx (A ! j) (A ! lo) = Some c" "0 < c \<longleftrightarrow> key (A ! lo) < key (A ! j)"
    using cmp [of "A ! j" "A ! lo"] assms(1) Suc(3,4) by auto
  have "d = (j - 1) - lo" "j - 1 < length A" "lo \<le> j - 1" using Suc(2,3) j by simp_all
  from Suc(1) [OF this] obtain k where k: "scan_down lst_idx A lo (j - 1) = Some k" "lo \<le> k" "k \<le> j - 1"
    "\<forall>m. k < m \<and> m \<le> j - 1 \<longrightarrow> key (A ! lo) < key (A ! m)" "key (A ! k) \<le> key (A ! lo)" by blast
  have "scan_down lst_idx A lo j = (if 0 < c then Some k else Some j)"
    by (subst scan_down.simps) (use j c(1) k(1) in simp)
  moreover have "m \<le> j - 1 \<or> m = j" if "m \<le> j" for m using that by linarith
  ultimately show ?case using k c(2) j by (cases "0 < c") (fastforce simp: not_less)+
qed

lemma partition_loop_spec:
  assumes "\<forall>x \<in> set A. ok x" and "hi < length A" and "lo < i" and "i \<le> hi" and "lo \<le> j" and "j \<le> hi"
    and "\<forall>m. lo \<le> m \<and> m < i \<longrightarrow> key (A ! m) \<le> key (A ! lo)" and "\<forall>m. j < m \<and> m \<le> hi \<longrightarrow> key (A ! lo) \<le> key (A ! m)"
  shows "\<exists>q B p. partition_loop lst_idx lo hi A i j = Some (q, B) \<and> perm_in lo hi A B \<and>
    (\<forall>m. lo \<le> m \<and> m \<le> q \<longrightarrow> key (B ! m) \<le> p) \<and> (\<forall>m. q < m \<and> m \<le> hi \<longrightarrow> p \<le> key (B ! m))"
  using assms
proof (induction "j - i" arbitrary: A i j rule: less_induct)
  case less
  have lo: "lo < length A" "j < length A" using less(3,4,5,7) by simp_all
  obtain i' where i': "scan_up lst_idx A lo hi i = Some i'" "i \<le> i'" "\<forall>m. i \<le> m \<and> m < i' \<longrightarrow> key (A ! m) < key (A ! lo)"
    "i' < hi \<longrightarrow> key (A ! lo) \<le> key (A ! i')" "i' \<le> hi"
    using scan_up_spec [OF less(2,3) lo(1), of i] less(5) by blast
  obtain j' where j': "scan_down lst_idx A lo j = Some j'" "lo \<le> j'" "j' \<le> j" "\<forall>m. j' < m \<and> m \<le> j \<longrightarrow> key (A ! lo) < key (A ! m)"
    "key (A ! j') \<le> key (A ! lo)"
    using scan_down_spec [OF less(2) lo(2) less(6)] by blast
  have low: "key (A ! m) \<le> key (A ! lo)" if "lo \<le> m" "m < i'" for m using that less(8) i'(3) by (meson less_imp_le not_less)
  have high: "key (A ! lo) \<le> key (A ! m)" if "j' < m" "m \<le> hi" for m using that less(9) j'(4) by (meson less_imp_le not_less)
  show ?case
  proof (cases "i' < j'")
    case True
    let ?A = "swap_list_item i' j' A"
    have b: "i' < length A" "j' < length A" using True j'(3) lo(2) by simp_all
    note n = swap_nth [OF b]
    have p: "perm_in lo hi A ?A" using True j'(3) i'(2) less(4,7) b by (intro perm_in_swap) simp_all
    have l: "?A ! lo = A ! lo" using less(4) i'(2) True by (simp add: n)
    have "\<exists>q B p. partition_loop lst_idx lo hi ?A (i' + 1) (j' - 1) = Some (q, B) \<and> perm_in lo hi ?A B \<and>
      (\<forall>m. lo \<le> m \<and> m \<le> q \<longrightarrow> key (B ! m) \<le> p) \<and> (\<forall>m. q < m \<and> m \<le> hi \<longrightarrow> p \<le> key (B ! m))"
    proof (rule less(1))
      show "j' - 1 - (i' + 1) < j - i" using True i'(2) j'(3) by linarith
      show "\<forall>x \<in> set ?A. ok x" using less(2) p by (metis perm_in_def set_mset_mset)
      show "hi < length ?A" using less(3) by (simp add: swap_list_item_def)
      show "lo < i' + 1" "i' + 1 \<le> hi" "lo \<le> j' - 1" "j' - 1 \<le> hi" using True i'(2) j'(2,3) less(4,7) by linarith+
      show "\<forall>m. lo \<le> m \<and> m < i' + 1 \<longrightarrow> key (?A ! m) \<le> key (?A ! lo)"
        unfolding l using low j'(5) True by (auto simp: n less_Suc_eq)
      have "key (A ! lo) \<le> key (A ! i')" using i'(4) True j'(3) less(7) by simp
      then show "\<forall>m. j' - 1 < m \<and> m \<le> hi \<longrightarrow> key (?A ! lo) \<le> key (?A ! m)"
        unfolding l using high True by (auto simp: n)
    qed
    then show ?thesis using i'(1) j'(1) True p by (subst partition_loop.simps) (auto intro: perm_in_trans)
  next
    case False
    have "key (A ! m) \<le> key (A ! lo)" if "lo \<le> m" "m \<le> j'" for m
      using that low j'(5) False by (cases "m = j'") (auto simp: not_less)
    then have "(\<forall>m. lo \<le> m \<and> m \<le> j' \<longrightarrow> key (A ! m) \<le> key (A ! lo)) \<and> (\<forall>m. j' < m \<and> m \<le> hi \<longrightarrow> key (A ! lo) \<le> key (A ! m))"
      using high by blast
    moreover have "partition_loop lst_idx lo hi A i j = Some (j', A)" using i'(1) j'(1) False by (subst partition_loop.simps) simp
    ultimately show ?thesis using perm_in_refl by blast
  qed
qed

lemma attr_partition_spec:
  assumes "\<forall>x \<in> set A. ok x" and "lo < hi" and "hi < length A"
  shows "\<exists>q B p. attr_partition lst_idx A lo hi = Some (q, B) \<and> perm_in lo hi A B \<and>
    (\<forall>m. lo \<le> m \<and> m \<le> q \<longrightarrow> key (B ! m) \<le> p) \<and> (\<forall>m. q < m \<and> m \<le> hi \<longrightarrow> p \<le> key (B ! m))"
proof -
  have l: "lo < length A" "lo \<le> hi" using assms(2,3) by simp_all
  have i: "scan_up lst_idx A lo hi lo = Some lo"
    using scan_up_spec [OF assms(1,3) l(1), of lo] scan_up_lo by blast
  obtain j where j: "scan_down lst_idx A lo hi = Some j" "lo \<le> j" "j \<le> hi" "\<forall>m. j < m \<and> m \<le> hi \<longrightarrow> key (A ! lo) < key (A ! m)"
    "key (A ! j) \<le> key (A ! lo)"
    using scan_down_spec [OF assms(1,3) l(2)] by blast
  show ?thesis
  proof (cases "lo < j")
    case True
    let ?A = "swap_list_item lo j A"
    have b: "j < length A" using j(3) assms(3) by simp
    note n = swap_nth [OF l(1) b]
    have p: "perm_in lo hi A ?A" using True j(3) b by (intro perm_in_swap) simp_all
    have "\<exists>q B p. partition_loop lst_idx lo hi ?A (lo + 1) (j - 1) = Some (q, B) \<and> perm_in lo hi ?A B \<and>
      (\<forall>m. lo \<le> m \<and> m \<le> q \<longrightarrow> key (B ! m) \<le> p) \<and> (\<forall>m. q < m \<and> m \<le> hi \<longrightarrow> p \<le> key (B ! m))"
    proof (rule partition_loop_spec)
      show "\<forall>x \<in> set ?A. ok x" using assms(1) p by (metis perm_in_def set_mset_mset)
      show "hi < length ?A" using assms(3) by (simp add: swap_list_item_def)
      show "\<forall>m. lo \<le> m \<and> m < lo + 1 \<longrightarrow> key (?A ! m) \<le> key (?A ! lo)" by (auto simp: less_Suc_eq_le dest: antisym)
      have "key (A ! j) \<le> key (A ! m)" if "j < m" "m \<le> hi" for m using that j(4,5) by (meson less_imp_le order_trans)
      then show "\<forall>m. j - 1 < m \<and> m \<le> hi \<longrightarrow> key (?A ! lo) \<le> key (?A ! m)" using True j(5) by (auto simp: n)
    qed (use True j(3) assms(2) in simp_all)
    then show ?thesis unfolding attr_partition_def using i j(1) True p by (subst partition_loop.simps) (auto intro: perm_in_trans)
  next
    case False
    then have jlo: "j = lo" using j(2) by simp
    have "attr_partition lst_idx A lo hi = Some (lo, A)"
      unfolding attr_partition_def using i j(1) jlo by (subst partition_loop.simps) simp
    moreover have "\<forall>m. lo \<le> m \<and> m \<le> lo \<longrightarrow> key (A ! m) \<le> key (A ! lo)" by (auto dest: antisym)
    moreover have "\<forall>m. lo < m \<and> m \<le> hi \<longrightarrow> key (A ! lo) \<le> key (A ! m)" using j(4) jlo by (simp add: less_imp_le)
    ultimately show ?thesis using perm_in_refl by blast
  qed
qed

lemma quicksort_spec:
  assumes "\<forall>x \<in> set A. ok x" and "hi < length A"
  shows "\<exists>B. quicksort lst_idx A lo hi = Some B \<and> perm_in lo hi A B \<and> (\<forall>m n. lo \<le> m \<and> m \<le> n \<and> n \<le> hi \<longrightarrow> key (B ! m) \<le> key (B ! n))"
  using assms
proof (induction "hi - lo" arbitrary: A lo hi rule: less_induct)
  case less
  show ?case
  proof (cases "lo < hi")
    case True
    obtain q B p where B: "attr_partition lst_idx A lo hi = Some (q, B)" "perm_in lo hi A B"
      "\<forall>m. lo \<le> m \<and> m \<le> q \<longrightarrow> key (B ! m) \<le> p" "\<forall>m. q < m \<and> m \<le> hi \<longrightarrow> p \<le> key (B ! m)"
      using attr_partition_spec [OF less(2) True less(3)] by blast
    have q: "lo \<le> q" "q < hi" using attr_partition_bounds [OF B(1) True] by simp_all
    have okB: "\<forall>x \<in> set B. ok x" "hi < length B" using B(2) less(2,3) by (metis perm_in_def set_mset_mset) (use B(2) less(3) in \<open>simp add: perm_in_def\<close>)
    obtain C where C: "quicksort lst_idx B lo q = Some C" "perm_in lo q B C" "\<forall>m n. lo \<le> m \<and> m \<le> n \<and> n \<le> q \<longrightarrow> key (C ! m) \<le> key (C ! n)"
      using less(1) [of q lo B] okB q by fastforce
    have okC: "\<forall>x \<in> set C. ok x" "hi < length C" using C(2) okB by (metis perm_in_def set_mset_mset) (use C(2) okB(2) in \<open>simp add: perm_in_def\<close>)
    obtain D where D: "quicksort lst_idx C (q + 1) hi = Some D" "perm_in (q + 1) hi C D"
      "\<forall>m n. q + 1 \<le> m \<and> m \<le> n \<and> n \<le> hi \<longrightarrow> key (D ! m) \<le> key (D ! n)"
      using less(1) [of hi "q + 1" C] okC q by fastforce
    have low: "D ! m = C ! m \<and> key (C ! m) \<le> p" if m: "lo \<le> m" "m \<le> q" for m
    proof -
      have "C ! m \<in> (!) B ` {lo..q}" using C(2) m unfolding perm_in_def by (metis atLeastAtMost_iff imageI)
      then show ?thesis using B(3) D(2) m by (auto simp: perm_in_def)
    qed
    have high: "p \<le> key (D ! m)" if m: "q < m" "m \<le> hi" for m
    proof -
      have "D ! m \<in> (!) C ` {q + 1..hi}"
        using D(2) m unfolding perm_in_def by (metis Suc_eq_plus1 Suc_leI atLeastAtMost_iff imageI)
      then show ?thesis using B(4) C(2) by (auto simp: perm_in_def)
    qed
    have "key (D ! m) \<le> key (D ! n)" if mn: "lo \<le> m" "m \<le> n" "n \<le> hi" for m n
    proof -
      consider "n \<le> q" | "q < m" | "m \<le> q" "q < n" by linarith
      then show ?thesis
      proof cases
        case 1 then show ?thesis using low [of m] low [of n] C(3) mn by simp
      next
        case 2 then show ?thesis using D(3) mn by simp
      next
        case 3 then show ?thesis using low [of m] high [of n] mn by (metis order_trans)
      qed
    qed
    moreover have "perm_in lo hi A D"
      using B(2) perm_in_mono [OF C(2), of lo hi] perm_in_mono [OF D(2), of lo hi] q by (meson le_add1 less_imp_le order_refl order_trans perm_in_trans)
    moreover have "quicksort lst_idx A lo hi = Some D" using True B(1) C(1) D(1) by (subst quicksort.simps) simp
    ultimately show ?thesis by blast
  next
    case False
    then show ?thesis by (subst quicksort.simps) (auto dest: antisym)
  qed
qed

lemma sort_spec:
  assumes "\<forall>x \<in> set xs. ok x"
  shows "\<exists>ys. sort_list lst_idx xs = Some ys \<and> mset ys = mset xs \<and> sorted (map key ys)"
proof (cases xs)
  case Nil
  then show ?thesis by (simp add: sort_list_def quicksort.simps)
next
  case (Cons a as)
  then have "length xs - 1 < length xs" by simp
  from quicksort_spec [OF assms this, of 0] obtain ys where ys: "quicksort lst_idx xs 0 (length xs - 1) = Some ys"
    "perm_in 0 (length xs - 1) xs ys" "\<forall>m n. m \<le> n \<and> n \<le> length xs - 1 \<longrightarrow> key (ys ! m) \<le> key (ys ! n)" by auto
  then have "sorted (map key ys)" by (auto simp: sorted_iff_nth_mono perm_in_def)
  with ys show ?thesis by (auto simp: sort_list_def perm_in_def)
qed

end

section \<open>Keys\<close>

text \<open>The keys of the items, in the order in which the code compares keys of one kind.\<close>

datatype sort_key = Key_String string | Key_Int int | Key_UInt int

fun key_kind :: "sort_key \<Rightarrow> nat" where
  "key_kind (Key_String _) = 0"
| "key_kind (Key_Int _) = 1"
| "key_kind (Key_UInt _) = 2"

instantiation sort_key :: linorder
begin

fun less_eq_sort_key :: "sort_key \<Rightarrow> sort_key \<Rightarrow> bool" where
  "less_eq_sort_key (Key_String s) (Key_String t) \<longleftrightarrow> s \<le> t"
| "less_eq_sort_key (Key_Int a) (Key_Int b) \<longleftrightarrow> a \<le> b"
| "less_eq_sort_key (Key_UInt a) (Key_UInt b) \<longleftrightarrow> a \<le> b"
| "less_eq_sort_key k l \<longleftrightarrow> key_kind k < key_kind l"

definition less_sort_key :: "sort_key \<Rightarrow> sort_key \<Rightarrow> bool" where
  "less_sort_key k l \<longleftrightarrow> k \<le> l \<and> \<not> l \<le> k"

instance
proof
  fix x y z :: sort_key
  show "(x < y) = (x \<le> y \<and> \<not> y \<le> x)" by (simp add: less_sort_key_def)
  show "x \<le> x" by (cases x) simp_all
  show "x \<le> y \<Longrightarrow> y \<le> z \<Longrightarrow> x \<le> z" by (cases x; cases y; cases z) auto
  show "x \<le> y \<Longrightarrow> y \<le> x \<Longrightarrow> x = y" by (cases x; cases y) auto
  show "x \<le> y \<or> y \<le> x" by (cases x; cases y) auto
qed

end

definition scalar_key :: "('f, 'i) attribute \<Rightarrow> sort_key option" where
  "scalar_key a =
    (case a of Attr_String s \<Rightarrow> Some (Key_String s) | Attr_Integer v \<Rightarrow> Some (Key_Int (sint v)) | Attr_UInteger v \<Rightarrow> Some (Key_UInt (uint v))
     | _ \<Rightarrow> None)"

text \<open>The key of an item and whether it is taken from a list.\<close>

definition item_key :: "nat \<Rightarrow> ('f, 'i) attribute \<Rightarrow> (bool \<times> sort_key) option" where
  "item_key lst_idx a =
    (case a of
       Attr_List xs \<Rightarrow> if length xs \<le> lst_idx then None else map_option (Pair True) (scalar_key (xs ! lst_idx))
     | _ \<Rightarrow> map_option (Pair False) (scalar_key a))"

definition item_class :: "nat \<Rightarrow> ('f, 'i) attribute \<Rightarrow> (bool \<times> nat) option" where
  "item_class lst_idx a = map_option (apsnd key_kind) (item_key lst_idx a)"

lemma strcmp_less: "(strcmp s t < 0 \<longleftrightarrow> s < t) \<and> (0 < strcmp s t \<longleftrightarrow> t < s)"
  by (induction s t rule: strcmp.induct) (auto simp: less_char_def)

lemma key_less:
  "Key_String s < Key_String t \<longleftrightarrow> s < t" "Key_Int a < Key_Int b \<longleftrightarrow> a < b" "Key_UInt a < Key_UInt b \<longleftrightarrow> a < b"
  by (auto simp: less_sort_key_def)

lemma scalar_cmp_key:
  assumes "scalar_key a = Some k" and "scalar_key b = Some l" and "key_kind k = key_kind l"
  shows "is_scalar a \<and> (\<exists>c. scalar_cmp a b = Some c \<and> (c < 0 \<longleftrightarrow> k < l) \<and> (0 < c \<longleftrightarrow> l < k))"
  using assms
  by (auto simp: scalar_key_def scalar_cmp_def is_scalar_def raw_integer_def key_less strcmp_less split: attribute.splits)

interpretation keyed: item_order lst_idx "\<lambda>a. item_class lst_idx a = Some c" "\<lambda>a. snd (the (item_key lst_idx a))"
  for lst_idx :: nat and c :: "bool \<times> nat"
proof
  fix x y :: "('f, 'i) attribute"
  assume "item_class lst_idx x = Some c" "item_class lst_idx y = Some c"
  then obtain b k l where k: "item_key lst_idx x = Some (b, k)" "item_key lst_idx y = Some (b, l)" "key_kind k = key_kind l"
    by (auto simp: item_class_def)
  have "\<exists>d. item_cmp lst_idx x y = Some d \<and> (d < 0 \<longleftrightarrow> k < l) \<and> (0 < d \<longleftrightarrow> l < k)"
  proof (cases b)
    case True
    with k obtain xs ys where "x = Attr_List xs" "lst_idx < length xs" "scalar_key (xs ! lst_idx) = Some k"
      "y = Attr_List ys" "lst_idx < length ys" "scalar_key (ys ! lst_idx) = Some l"
      by (auto simp: item_key_def split: attribute.splits if_splits)
    then show ?thesis using scalar_cmp_key [OF _ _ k(3)] by (auto simp: item_cmp_def)
  next
    case False
    with k have s: "scalar_key x = Some k" "scalar_key y = Some l"
      by (auto simp: item_key_def split: attribute.splits if_splits)
    then have "item_cmp lst_idx x y = scalar_cmp x y" by (simp add: item_cmp_def scalar_key_def split: attribute.splits)
    then show ?thesis using scalar_cmp_key [OF s k(3)] by simp
  qed
  then show "\<exists>d. item_cmp lst_idx x y = Some d \<and> (d < 0 \<longleftrightarrow> snd (the (item_key lst_idx x)) < snd (the (item_key lst_idx y))) \<and>
      (0 < d \<longleftrightarrow> snd (the (item_key lst_idx y)) < snd (the (item_key lst_idx x)))"
    by (simp add: k)
qed

text \<open>C35. The in-place quicksort of a list attribute returns a sorted permutation when all items have keys of one kind: texts in the
  order of \<^verbatim>\<open>strcmp\<close>, signed or unsigned integers, or lists compared at the given index. It ends although the pivot is a pointer
  whose item is swapped away.\<close>

theorem attr_sort_sorts:
  assumes "\<forall>a \<in> set xs. item_class idx a = Some c"
  shows "\<exists>ys. sort_list idx xs = Some ys \<and> mset ys = mset xs \<and> sorted (map (\<lambda>a. snd (the (item_key idx a))) ys)"
  using assms by (rule keyed.sort_spec)

theorem attr_sort_sorts_witness:
  "\<exists>ys. sort_list 1 [Attr_List [Attr_Nil, Attr_String ''plic''], Attr_List [Attr_Nil, Attr_String ''clint'']] = Some ys \<and>
     mset ys = mset [Attr_List [Attr_Nil, Attr_String ''plic''], Attr_List [Attr_Nil, Attr_String ''clint'']] \<and>
     sorted (map (\<lambda>a. snd (the (item_key 1 a))) ys)"
  by (rule attr_sort_sorts [where c = "(True, 0)"]) (auto simp: item_class_def item_key_def scalar_key_def)

section \<open>What the list operations do\<close>

lemma remove_from_list_mset: "idx < length xs \<Longrightarrow> mset (remove_from_list idx xs) = mset xs - {# xs ! idx #}"
proof (cases "idx = length xs - 1")
  case True
  assume "idx < length xs"
  with True have "xs = butlast xs @ [xs ! idx]" by (metis append_butlast_last_id last_conv_nth length_0_conv less_nat_zero_code)
  moreover from True \<open>idx < length xs\<close> have "remove_from_list idx xs = butlast xs"
    by (simp add: remove_from_list_def Let_def butlast_conv_take)
  ultimately show ?thesis by (metis add_mset_remove_trivial mset.simps union_code mset_append add_mset_add_single)
next
  case False
  assume i: "idx < length xs"
  then have "xs \<noteq> []" by auto
  with i False have "remove_from_list idx xs = (butlast xs)[idx := last xs]"
    by (simp add: remove_from_list_def Let_def swap_list_item_def butlast_conv_take take_update_swap last_conv_nth
        list_update_beyond)
  moreover from i have "mset xs = add_mset (last xs) (mset (butlast xs))"
    by (metis append_butlast_last_id length_0_conv less_nat_zero_code mset.simps union_code mset_append add_mset_add_single)
  moreover from i False have "xs ! idx = butlast xs ! idx" by (simp add: nth_butlast)
  ultimately show ?thesis using i False by (simp add: mset_update)
qed

lemma trim_list_front: "n \<le> length xs \<Longrightarrow> trim_list 0 n xs = Some (drop n xs)"
proof -
  assume n: "n \<le> length xs"
  have "k \<le> length xs - n \<Longrightarrow>
      fold (\<lambda>i ys. ys[0 + i := ys ! (n + i)]) [0..<k] xs = take k (drop n xs) @ drop k xs" for k
  proof (induction k)
    case (Suc k)
    then have "(take k (drop n xs) @ drop k xs) ! (n + k) = xs ! (n + k)" using n
      by (simp add: nth_append add.commute)
    moreover have "drop k xs = xs ! k # drop (Suc k) xs" using Suc(2) by (simp add: Cons_nth_drop_Suc)
    ultimately show ?case using Suc n by (simp add: list_update_append take_Suc_conv_app_nth)
  qed simp
  then show ?thesis using n by (simp add: trim_list_def)
qed

text \<open>Trimming from the middle takes the wrong items.\<close>

lemma trim_list_middle: "trim_list 1 2 [a, b, c, d] = Some [a, b, d]"
  by (simp add: trim_list_def upt_rec)

end
