(* ===== verification/Spec2Isabelle.thy ===== *)
theory Spec2Isabelle
  imports Cpu_Inv Soc Rtl_Csr_Link Rtl_Pipeline Rtl_Pmp Attr_Parse Attr_Sort
begin

text \<open>
  The functional RISC-V simulator of the River SoC (\<^verbatim>\<open>src/debugger/src\<close>): a 64-bit core with the extensions M, A and C,
  its bus, memories and interrupt controllers, driven one instruction at a time by \<^verbatim>\<open>CpuGeneric::updatePipeline\<close>; and the decoding
  stage, the execution stage, the arithmetic units, the CSR unit and the memory protection of the SystemC description of the
  same core (\<^verbatim>\<open>src/sc/rtl/internal/riverlib\<close>), compared with the simulator.

  \<^bold>\<open>Parts and theories.\<close>

  \<^item> \<open>Prelude\<close>: word and bit-field lemmas and the state monad's execution rules. \<open>Riscv_ISA\<close>: the bit-field unions of
    \<^verbatim>\<open>common/riscv-isa.h\<close> as functions on words, with encoders that give their round trips.
  \<^item> \<open>Axi4\<close>: the transaction of \<^verbatim>\<open>coreservices/imemop.h\<close>, its payload union as a word read by bytes.
  \<^item> \<open>Clock_Queue\<close>: \<^verbatim>\<open>common/async_tqueue.cpp\<close>, the queue of clock callbacks; its abstract specification is a multiset of
    registrations.
  \<^item> \<open>Cpu_State\<close>: the state of \<^verbatim>\<open>CpuGeneric\<close> and \<^verbatim>\<open>CpuRiver_Functional\<close> as one record, the CSR file, PMP, exceptions,
    stack trace and DMA. The configuration record \<open>cpu_cfg\<close> holds the attributes and the connected services: the bus,
    the two interrupt controllers and the clock callbacks are functions over a device state of arbitrary type.
  \<^item> \<open>Rv64i_User\<close>, \<open>Rv64i_Priv\<close>, \<open>Ext_M\<close>, \<open>Ext_A\<close>, \<open>Ext_C\<close>: one definition \<open>exec_X\<close> for every instruction class \<open>X\<close> of
    \<^verbatim>\<open>cpu_fnc_plugin/riscv-*.cpp\<close>, and the instruction tables.
  \<^item> \<open>Decoder\<close>: pattern strings, hash buckets and the lookup of \<^verbatim>\<open>instructions.cpp\<close> and \<^verbatim>\<open>decodeInstruction\<close>.
  \<^item> \<open>Cpu_Func\<close>: the pipeline step, traps, interrupts, triggers, debug mode, program buffer, power and reset.
    \<open>fetchILine\<close> calls itself without a bound, so it is a partial function: \<open>None\<close> is a fetch that never returns.
  \<^item> \<open>Cpu_Inv\<close>: the invariant of all operations. \<open>Cpu_Traps\<close>, \<open>Run_Control\<close>: what traps and debug requests do.
  \<^item> \<open>Mem_Generic\<close>, \<open>Bus_Generic\<close>: memory and bus (\<^verbatim>\<open>common/generic\<close>). \<open>Reg_Bank\<close>: the memory-mapped registers
    (\<^verbatim>\<open>mapreg.cpp\<close>, \<^verbatim>\<open>rmembank_gen1.cpp\<close>). \<open>Clint\<close>, \<open>Plic\<close>: the interrupt controllers of \<^verbatim>\<open>socsim_plugin\<close> with
    their register maps.
  \<^item> \<open>Cpu_Memory\<close>, \<open>Cpu_Atomics\<close>, \<open>Pipeline_Step\<close>: loads, stores, atomics and a whole step over any memory that meets the
    contract of the locale \<open>cpu_memory\<close>.
  \<^item> \<open>Soc\<close>: the core wired to bus, memories, CLINT and PLIC, the controllers reached through their register banks.
  \<^item> \<open>Rtl_Div\<close>, \<open>Rtl_Mul\<close>: the radix-16 divider and the pipelined multiplier of the RTL core (\<^verbatim>\<open>core/arith\<close>), one function
    per clock edge on the record of the registers. \<open>Rtl_Alu\<close>: the single-cycle units. \<open>Rtl_Decoder\<close>: the decoder of 32-bit
    instructions (\<^verbatim>\<open>core/dec_rv.cpp\<close>). \<open>Rtl_Execute\<close>: the execution stage (\<^verbatim>\<open>core/execute.cpp\<close>) with its
    units. \<open>Rtl_Refine\<close>: what it does with an instruction, against the simulator. \<open>Rtl_Fsm\<close>: its state machine.
  \<^item> \<open>Rtl_Rvc\<close>: the decoder of 16-bit instructions (\<^verbatim>\<open>core/dec_rvc.cpp\<close>) against the simulator's table of extension C.
    \<open>Rtl_Rvc_Exec\<close>: the execution stage fed by it. \<open>Rtl_Dec_Select\<close>: the decoding stage (\<^verbatim>\<open>core/decoder.cpp\<close>), four decoders
    in front of a shift register from which the expected program counter selects. \<open>Rtl_Reg_File\<close>: the register file with
    tags (\<^verbatim>\<open>core/regibank.cpp\<close>) and its write port. \<open>Rtl_Pipeline\<close>: decoding stage, execution stage and register file connected,
    against whole runs of \<^verbatim>\<open>updatePipeline\<close>, for which \<open>Rtl_Core_Step\<close> gives one iteration on such an instruction.
  \<^item> \<open>Rtl_Csr\<close>: the CSR unit (\<^verbatim>\<open>core/csr.cpp\<close>), one function per block of its combinational process. \<open>Rtl_Csr_Inv\<close>: its
    invariants. \<open>Rtl_Csr_Sim\<close>: its traps and returns against the simulator's. \<open>Rtl_Pmp\<close>: the memory protection
    (\<^verbatim>\<open>cache/pmp.cpp\<close>) and the transfer of its regions. \<open>Rtl_Csr_Link\<close>: the arbiter (\<^verbatim>\<open>core/ic_csr_m2_s1.cpp\<close>) and the
    execution stage, arbiter and CSR unit wired as in \<^verbatim>\<open>core/proc.cpp\<close>.
  \<^item> \<open>Attribute\<close>, \<open>Attr_Parse\<close>, \<open>Attr_Sort\<close>: the attributes in which the services keep their configuration
    (\<^verbatim>\<open>common/attribute.cpp\<close>): printer and parser with the growing buffer, dictionaries, lists and the in-place quicksort.

  \<^bold>\<open>Interfaces.\<close> \<open>memory_slave\<close> (interpreted on \<open>mem_transport\<close> and on the whole bus), \<open>cpu_memory\<close>, \<open>irq_lines\<close> and
  \<open>cpu_irq\<close> (on the system), \<open>register_bank\<close> (on the banks of CLINT and PLIC), \<open>item_order\<close> (on the comparison of attributes): the lemmas of a client are proved from the laws and the interpretations carry them to the
  model.

  \<^bold>\<open>Results.\<close> Instruction semantics against reference arithmetic (\<open>Ext_M\<close>, \<open>Rv64i_User\<close>, \<open>Ext_C\<close>); the decoder against a
  linear search; the invariant of every reachable state; traps, their order and their return; debug halt, resume, step and
  program buffer; delivery of clock callbacks; the bus table against the address map; load/store, atomics, one pipeline
  step and interrupt choice on the whole system; programming the timer through the bus; the RTL divider and
  multiplier against the simulator's instructions; the RTL decoder against the simulator's tables and formats, one
  clock of the RTL execution stage against the simulator's arithmetic, branch and jump instructions, 32 and 16 bits wide, its
  CSR sequence and the invariant of its registers; the decoding stage hands over only decoded instructions that were fetched
  at the expected address since the last flush; decoding stage, execution stage and register file together run a program of
  such instructions as the simulated system does, with stalls for pending writes and at least one instruction in three clocks
  when it is fetched; privilege, legal register values, traps and returns of the CSR unit; its
  answers reach the master that asked, and a CSR instruction on stage, arbiter and CSR unit together leaves the value the
  simulator computes; locked PMP entries, their transfer, the region of a NAPOT entry and the first matching region; the round trip of configuration texts, the end of the parser and the sort.

  \<^bold>\<open>Bounds.\<close> The loop over the registers of a bank access has fuel equal to the size of the access, and each turn takes at
  least one byte (\<open>bank_transport_returns\<close>). The recursive parser of attributes has fuel linear in the length of the
  text, which is enough for every text (\<open>parser_returns\<close>). The RTL results state the number of clocks: seven
  for a CSR instruction when no other master asks, ten for the transfer of the PMP entries. The shift register of the decoding
  stage holds 24 entries, as the constants of \<^verbatim>\<open>river_cfg.h\<close> give.

  \<^bold>\<open>Undefined behaviour.\<close> An access of the program outside an array or a shift by a too large amount sets the flag \<open>ub\<close> (or
  \<open>mem_oob\<close>) of the state; what an uninitialised variable holds is the configuration value \<open>uninit\<close>.

  \<^bold>\<open>Not modelled.\<close> Of the RTL core the fetch and memory access stages, branch predictor, caches, MMU, FPU, debug port and
  tracer: what they send is an input of the modelled stages, which the theorems quantify over; the comparison of whole runs is for
  instructions without memory access, CSR access or several clocks of arithmetic, which have results of their own. Extensions F and D, which the
  simulator computes with the host's floating-point arithmetic. The host threads, sockets and the debug module interface
  behind them (the run control it asks for is in \<open>Cpu_Func\<close>), the execution trace file, source-code services and
  disassemblers, the ARM core, the GUI; peripherals other than CLINT and PLIC are parameters of the system (\<open>soc_other\<close>).
\<close>

end
